(* ===== verification/Prelude.thy ===== *)
theory Prelude
  imports Main "HOL-Library.Char_ord"
begin

text \<open>
  Shared vocabulary of the development.

  A Go byte is an Isabelle \<open>char\<close> (both are eight bits wide), so a Go \<open>string\<close> and a Go
  \<open>[]byte\<close> are both a \<open>char list\<close>, and \<open>len\<close> counts bytes on both sides.  A Go function that
  returns a value and an \<open>error\<close> returns a sum, with \<open>Inl\<close> for the error.  The collections
  below gather the rewrite rules the component theories share.
\<close>

named_theorems go_simps \<open>unfolding rules of the Go library functions\<close>
named_theorems byte_simps \<open>facts on bytes and their numeric values\<close>

type_synonym bytes = "char list"

abbreviation byte_val :: "char \<Rightarrow> nat" where
  "byte_val c \<equiv> of_char c"

lemma byte_val_lt [byte_simps]: "byte_val c < 256"
  by simp

lemma char_of_byte_val [byte_simps]: "char_of (byte_val c) = c"
  by simp

lemma byte_val_char_of [byte_simps]: "n < 256 \<Longrightarrow> byte_val (char_of n) = n"
  by simp

lemma byte_val_eqI: "byte_val c = n \<Longrightarrow> char_of n = c"
  by auto

text \<open>Results: sequencing in the style of Go's early return on an error.\<close>

fun and_then :: "'e + 'a \<Rightarrow> ('a \<Rightarrow> 'e + 'b) \<Rightarrow> 'e + 'b" where
  "and_then (Inl e) f = Inl e"
| "and_then (Inr x) f = f x"

lemma and_then_Inr_iff [simp]:
  "and_then r f = Inr y \<longleftrightarrow> (\<exists>x. r = Inr x \<and> f x = Inr y)"
  by (cases r) auto

fun is_ok :: "'e + 'a \<Rightarrow> bool" where
  "is_ok (Inl e) = False"
| "is_ok (Inr x) = True"

lemma is_ok_iff: "is_ok r \<longleftrightarrow> (\<exists>x. r = Inr x)"
  by (cases r) auto

text \<open>
  \<open>check\<close> is the Go statement \<open>if bad { return err }\<close> followed by the rest of the function.
\<close>

definition check :: "bool \<Rightarrow> 'e \<Rightarrow> 'e + 'a \<Rightarrow> 'e + 'a" where
  "check bad e rest = (if bad then Inl e else rest)"

lemma check_Inr_iff [simp]: "check bad e rest = Inr x \<longleftrightarrow> \<not> bad \<and> rest = Inr x"
  by (simp add: check_def)

lemma check_simps [simp]: "check True e rest = Inl e" "check False e rest = rest"
  by (simp_all add: check_def)

text \<open>Lists.\<close>

lemma take_eq_iff_append: "take (length p) s = p \<longleftrightarrow> (\<exists>t. s = p @ t)"
  by (metis append_eq_conv_conj append_take_drop_id)

lemma dropWhile_rev_suffix: "\<exists>t. xs = rev (dropWhile P (rev xs)) @ t \<and> (\<forall>x \<in> set t. P x)"
proof -
  have "xs = rev (dropWhile P (rev xs)) @ rev (takeWhile P (rev xs))"
    by (metis rev_append rev_rev_ident takeWhile_dropWhile_id)
  moreover have "\<forall>x \<in> set (rev (takeWhile P (rev xs))). P x"
    by (metis set_rev set_takeWhileD)
  ultimately show ?thesis by blast
qed

end
