(* ===== verification/Go_Strings.thy ===== *)
theory Go_Strings
  imports Prelude
begin

text \<open>
  The functions of Go's packages \<open>strings\<close> and \<open>bytes\<close> that the program calls, on byte lists.
  Where the library works on code points and the program passes only ASCII characters, working
  on bytes is exact, since no byte of a multi-byte UTF-8 sequence is below 128.
\<close>

subsection \<open>Prefixes, suffixes, search\<close>

definition has_prefix :: "bytes \<Rightarrow> bytes \<Rightarrow> bool" where
  "has_prefix s p \<longleftrightarrow> take (length p) s = p"

definition has_suffix :: "bytes \<Rightarrow> bytes \<Rightarrow> bool" where
  "has_suffix s p \<longleftrightarrow> length p \<le> length s \<and> drop (length s - length p) s = p"

definition trim_prefix :: "bytes \<Rightarrow> bytes \<Rightarrow> bytes" where
  "trim_prefix s p = (if has_prefix s p then drop (length p) s else s)"

definition trim_suffix :: "bytes \<Rightarrow> bytes \<Rightarrow> bytes" where
  "trim_suffix s p = (if has_suffix s p then take (length s - length p) s else s)"

text \<open>\<open>strings.Index\<close>: the first position of \<open>sub\<close>, \<open>None\<close> for Go's \<open>-1\<close>.\<close>

fun str_index :: "bytes \<Rightarrow> bytes \<Rightarrow> nat option" where
  "str_index [] sub = (if sub = [] then Some 0 else None)"
| "str_index (c # s) sub =
     (if has_prefix (c # s) sub then Some 0 else map_option Suc (str_index s sub))"

text \<open>\<open>strings.LastIndexAny\<close> for an ASCII set.\<close>

fun last_index_any :: "bytes \<Rightarrow> char set \<Rightarrow> nat option" where
  "last_index_any [] cs = None"
| "last_index_any (c # s) cs =
     (case last_index_any s cs of
        Some i \<Rightarrow> Some (Suc i)
      | None \<Rightarrow> if c \<in> cs then Some 0 else None)"

text \<open>\<open>strings.Cut\<close> and \<open>bytes.Cut\<close>: text before and after the first separator, and whether it
  was found.\<close>

definition str_cut :: "bytes \<Rightarrow> bytes \<Rightarrow> bytes \<times> bytes \<times> bool" where
  "str_cut s sep = (case str_index s sep of
      None \<Rightarrow> (s, [], False)
    | Some i \<Rightarrow> (take i s, drop (i + length sep) s, True))"

definition contains_any :: "bytes \<Rightarrow> bytes \<Rightarrow> bool" where
  "contains_any s cs \<longleftrightarrow> list_ex (\<lambda>c. c \<in> set cs) s"

text \<open>\<open>strings.FieldsFunc\<close>: the maximal runs of bytes that do not satisfy \<open>p\<close>.  The second
  argument is the run being collected, reversed.\<close>

fun fields_acc :: "(char \<Rightarrow> bool) \<Rightarrow> bytes \<Rightarrow> bytes \<Rightarrow> bytes list" where
  "fields_acc p cur [] = (if cur = [] then [] else [rev cur])"
| "fields_acc p cur (c # s) =
     (if p c then (if cur = [] then fields_acc p [] s else rev cur # fields_acc p [] s)
      else fields_acc p (c # cur) s)"

definition fields_func :: "(char \<Rightarrow> bool) \<Rightarrow> bytes \<Rightarrow> bytes list" where
  "fields_func p s = fields_acc p [] s"

definition trim_right :: "bytes \<Rightarrow> bytes \<Rightarrow> bytes" where
  "trim_right s cs = rev (dropWhile (\<lambda>c. c \<in> set cs) (rev s))"

text \<open>\<open>strings.ToUpper\<close> on the ASCII letters; other bytes are left alone.\<close>

definition upper_char :: "char \<Rightarrow> char" where
  "upper_char c = (if CHR ''a'' \<le> c \<and> c \<le> CHR ''z'' then char_of (byte_val c - 32) else c)"

definition to_upper :: "bytes \<Rightarrow> bytes" where
  "to_upper s = map upper_char s"

subsection \<open>Laws\<close>

lemma has_prefix_iff: "has_prefix s p \<longleftrightarrow> (\<exists>t. s = p @ t)"
  by (simp add: has_prefix_def take_eq_iff_append)

lemma has_prefix_append [simp]: "has_prefix (p @ t) p"
  by (simp add: has_prefix_def)

lemma has_suffix_append [simp]: "has_suffix (t @ p) p"
  by (simp add: has_suffix_def)

lemma has_suffix_iff: "has_suffix s p \<longleftrightarrow> (\<exists>t. s = t @ p)"
proof
  assume "has_suffix s p"
  then have "s = take (length s - length p) s @ p"
    by (metis append_take_drop_id has_suffix_def)
  then show "\<exists>t. s = t @ p" by blast
qed auto

lemma str_index_Some:
  "str_index s sub = Some i \<Longrightarrow> \<exists>a b. s = a @ sub @ b \<and> length a = i"
proof (induction s arbitrary: i)
  case Nil
  then show ?case by (simp split: if_splits)
next
  case (Cons c s)
  show ?case
  proof (cases "has_prefix (c # s) sub")
    case True
    with Cons.prems show ?thesis by (auto simp: has_prefix_iff)
  next
    case False
    with Cons.prems obtain j where j: "str_index s sub = Some j" "i = Suc j" by auto
    from Cons.IH [OF j(1)] obtain a b where "s = a @ sub @ b" "length a = j" by blast
    with j(2) have "c # s = (c # a) @ sub @ b \<and> length (c # a) = i" by simp
    then show ?thesis by blast
  qed
qed

lemma str_index_None: "str_index s sub = None \<longleftrightarrow> (\<nexists>a b. s = a @ sub @ b)"
proof (induction s)
  case Nil
  then show ?case by auto
next
  case (Cons c s)
  show ?case
  proof (cases "has_prefix (c # s) sub")
    case True
    then obtain t where "c # s = [] @ sub @ t" by (auto simp: has_prefix_iff)
    then have "\<exists>a b. c # s = a @ sub @ b" by blast
    with True show ?thesis by simp
  next
    case False
    have "(\<exists>a b. c # s = a @ sub @ b) \<longleftrightarrow> (\<exists>a b. s = a @ sub @ b)"
    proof
      assume "\<exists>a b. c # s = a @ sub @ b"
      then obtain a b where ab: "c # s = a @ sub @ b" by blast
      with False have "a \<noteq> []" by (auto simp: has_prefix_iff)
      with ab show "\<exists>a b. s = a @ sub @ b" by (cases a) auto
    next
      assume "\<exists>a b. s = a @ sub @ b"
      then show "\<exists>a b. c # s = a @ sub @ b" by (metis append_Cons)
    qed
    with False Cons.IH show ?thesis by simp
  qed
qed

lemma str_cut_found:
  "str_cut s sep = (a, b, True) \<Longrightarrow> s = a @ sep @ b"
  by (auto simp: str_cut_def dest!: str_index_Some split: option.splits)

text \<open>No occurrence of the separator in front of it: \<open>str_cut\<close> splits there.\<close>

lemma str_index_first:
  assumes "\<And>a' b'. a @ sep @ b = a' @ sep @ b' \<Longrightarrow> length a \<le> length a'"
  shows "str_index (a @ sep @ b) sep = Some (length a)"
  using assms
proof (induction a)
  case Nil
  have "has_prefix (sep @ b) sep" by simp
  then show ?case by (cases "sep @ b") auto
next
  case (Cons c a)
  have "\<not> has_prefix (c # a @ sep @ b) sep"
  proof
    assume "has_prefix (c # a @ sep @ b) sep"
    then obtain t where "(c # a) @ sep @ b = [] @ sep @ t" by (auto simp: has_prefix_iff)
    from Cons.prems [OF this] show False by simp
  qed
  moreover have "str_index (a @ sep @ b) sep = Some (length a)"
  proof (rule Cons.IH)
    fix a' b' assume "a @ sep @ b = a' @ sep @ b'"
    then have "(c # a) @ sep @ b = (c # a') @ sep @ b'" by simp
    from Cons.prems [OF this] show "length a \<le> length a'" by simp
  qed
  ultimately show ?case by simp
qed

lemma contains_any_iff: "contains_any s cs \<longleftrightarrow> (\<exists>c \<in> set s. c \<in> set cs)"
  by (simp add: contains_any_def list_ex_iff)

lemma last_index_any_Some:
  "last_index_any s cs = Some i \<Longrightarrow> i < length s \<and> s ! i \<in> cs \<and> (\<forall>c \<in> set (drop (Suc i) s). c \<notin> cs)"
  and last_index_any_None: "last_index_any s cs = None \<Longrightarrow> \<forall>c \<in> set s. c \<notin> cs"
proof (induction s arbitrary: i)
  case Nil
  { case 1 then show ?case by simp }
  { case 2 then show ?case by simp }
next
  case (Cons c s)
  { case 1
    then show ?case using Cons.IH by (auto split: option.splits if_splits) }
  { case 2
    then show ?case using Cons.IH(2) by (auto split: option.splits if_splits) }
qed

lemma fields_acc_sound:
  "f \<in> set (fields_acc p cur s) \<Longrightarrow> \<forall>c \<in> set cur. \<not> p c \<Longrightarrow>
     f \<noteq> [] \<and> (\<forall>c \<in> set f. \<not> p c) \<and> set f \<subseteq> set cur \<union> set s"
proof (induction s arbitrary: cur)
  case Nil
  then show ?case by (auto split: if_splits)
next
  case (Cons c s)
  show ?case
  proof (cases "p c")
    case True
    with Cons.prems have "f = rev cur \<and> cur \<noteq> [] \<or> f \<in> set (fields_acc p [] s)"
      by (auto split: if_splits)
    then show ?thesis
    proof
      assume "f \<in> set (fields_acc p [] s)"
      from Cons.IH [OF this] show ?thesis by auto
    qed (use Cons.prems(2) in auto)
  next
    case False
    with Cons.IH [of "c # cur"] Cons.prems show ?thesis by auto
  qed
qed

lemma fields_acc_append_sep:
  assumes "p c"
  shows "fields_acc p cur (s @ c # t) = fields_acc p cur s @ fields_acc p [] t"
  using assms by (induction p cur s rule: fields_acc.induct) auto

lemma fields_acc_run:
  assumes "\<forall>c \<in> set s. \<not> p c"
  shows "fields_acc p cur s = (if cur = [] \<and> s = [] then [] else [rev cur @ s])"
  using assms by (induction p cur s rule: fields_acc.induct) auto

lemma fields_func_sound:
  "f \<in> set (fields_func p s) \<Longrightarrow> f \<noteq> [] \<and> (\<forall>c \<in> set f. \<not> p c) \<and> set f \<subseteq> set s"
  using fields_acc_sound [of f p "[]" s] by (auto simp: fields_func_def)

lemma fields_acc_cur: "c \<in> set cur \<Longrightarrow> \<exists>f \<in> set (fields_acc p cur s). c \<in> set f"
  by (induction s arbitrary: cur) auto

lemma fields_acc_cover:
  "c \<in> set s \<Longrightarrow> \<not> p c \<Longrightarrow> \<exists>f \<in> set (fields_acc p cur s). c \<in> set f"
  by (induction s arbitrary: cur) (auto simp: fields_acc_cur)

lemma fields_func_cover:
  assumes "c \<in> set s" and "\<not> p c"
  obtains f where "f \<in> set (fields_func p s)" and "c \<in> set f"
  using fields_acc_cover [of c s p "[]", OF assms] by (auto simp: fields_func_def)

lemma fields_func_append_sep:
  "p c \<Longrightarrow> fields_func p (s @ c # t) = fields_func p s @ fields_func p t"
  by (simp add: fields_func_def fields_acc_append_sep)

lemma fields_func_run:
  "\<forall>c \<in> set s. \<not> p c \<Longrightarrow> fields_func p s = (if s = [] then [] else [s])"
  by (simp add: fields_func_def fields_acc_run)

lemma fields_func_seps: "\<forall>c \<in> set s. p c \<Longrightarrow> fields_func p s = []"
  unfolding fields_func_def by (induction s) auto

lemma fields_func_trailing: "\<forall>c \<in> set t. p c \<Longrightarrow> fields_func p (s @ t) = fields_func p s"
  by (cases t) (simp_all add: fields_func_append_sep fields_func_seps)

lemma trim_right_append: "\<exists>t. s = trim_right s cs @ t \<and> set t \<subseteq> set cs"
  using dropWhile_rev_suffix [of s "\<lambda>c. c \<in> set cs"] by (auto simp: trim_right_def)

lemma trim_right_snoc:
  "trim_right (s @ [c]) cs = (if c \<in> set cs then trim_right s cs else s @ [c])"
  by (simp add: trim_right_def)

lemma trim_right_length: "length (trim_right s cs) \<le> length s"
  by (metis length_dropWhile_le length_rev trim_right_def)

lemma trim_right_eq_iff: "trim_right s cs = s \<longleftrightarrow> s = [] \<or> last s \<notin> set cs"
proof (cases s rule: rev_cases)
  case Nil
  then show ?thesis by (simp add: trim_right_def)
next
  case (snoc t c)
  have "length (trim_right t cs) < length (t @ [c])"
    using trim_right_length [of t cs] by simp
  then have "trim_right t cs \<noteq> t @ [c]" by (metis less_irrefl)
  with snoc show ?thesis by (simp add: trim_right_snoc)
qed

end
