(* ===== verification/Remote_Path.thy ===== *)
theory Remote_Path
  imports Go_Strings
begin

text \<open>
  The Windows path rules for the remote operand of a transfer (\<open>validateRemotePath\<close> and
  \<open>isReservedStem\<close> in \<open>internal/remote/transfer_codec.go\<close>) and the names derived from a
  validated path: the parent directory (\<open>remoteStageParent\<close>, \<open>looksDriveRooted\<close> in
  \<open>localfile.go\<close>), the upload stage (\<open>upload.go\<close>) and the download control record
  (\<open>download.go\<close>).  The lemmas show what an accepted path can and cannot contain, and that
  the stage lands in the directory of the destination.
\<close>

subsection \<open>Validation\<close>

text \<open>One constructor per error message of the source.\<close>

datatype path_error =
    Path_empty | Path_nul | Path_unc | Path_short | Path_no_letter | Path_no_colon | Path_no_root
  | Part_relative | Part_stream | Part_forbidden | Part_trailing | Part_reserved bytes

definition reservedDeviceNames :: "bytes list" where
  "reservedDeviceNames =
     [''CON'', ''PRN'', ''AUX'', ''NUL'',
      ''COM1'', ''COM2'', ''COM3'', ''COM4'', ''COM5'', ''COM6'', ''COM7'', ''COM8'', ''COM9'',
      ''LPT1'', ''LPT2'', ''LPT3'', ''LPT4'', ''LPT5'', ''LPT6'', ''LPT7'', ''LPT8'', ''LPT9'']"

text \<open>
  The source upper-cases with \<open>strings.ToUpper\<close>, which also maps non-ASCII letters; the only
  ones it maps into ASCII are \<open>U+0131\<close> and \<open>U+017F\<close> (to \<open>I\<close> and \<open>S\<close>), letters that occur in no
  reserved name, so the comparison below is the source's.
\<close>

definition isReservedStem :: "bytes \<Rightarrow> bool" where
  "isReservedStem component =
     (let upper = to_upper component in
      if List.member reservedDeviceNames upper then True
      else (case str_index upper ''.'' of
              Some i \<Rightarrow> if i > 0 then List.member reservedDeviceNames (take i upper) else False
            | None \<Rightarrow> False))"

definition is_sep :: "char \<Rightarrow> bool" where
  "is_sep c \<longleftrightarrow> c = CHR 0x5C \<or> c = CHR ''/''"

definition is_letter :: "char \<Rightarrow> bool" where
  "is_letter c \<longleftrightarrow> (CHR ''A'' \<le> c \<and> c \<le> CHR ''Z'') \<or> (CHR ''a'' \<le> c \<and> c \<le> CHR ''z'')"

definition forbidden_chars :: bytes where
  "forbidden_chars = ''*?<>|'' @ [CHR 0x22]"

definition unc_prefix :: bytes where
  "unc_prefix = [CHR 0x5C, CHR 0x5C]"

text \<open>The body of the loop over the components.\<close>

fun validate_parts :: "bytes list \<Rightarrow> path_error + unit" where
  "validate_parts [] = Inr ()"
| "validate_parts (part # parts) =
     check (part = [] \<or> part = ''.'' \<or> part = ''..'') Part_relative (
     check (CHR '':'' \<in> set part) Part_stream (
     check (contains_any part forbidden_chars) Part_forbidden (
     check (part \<noteq> trim_right part '' .'') Part_trailing (
     check (isReservedStem part) (Part_reserved part) (
     validate_parts parts)))))"

definition path_parts :: "bytes \<Rightarrow> bytes list" where
  "path_parts p = fields_func is_sep (drop 3 p)"

definition validateRemotePath :: "bytes \<Rightarrow> path_error + unit" where
  "validateRemotePath p =
     check (p = []) Path_empty (
     check (CHR 0x00 \<in> set p) Path_nul (
     check (has_prefix p unc_prefix) Path_unc (
     check (length p < 3) Path_short (
     check (\<not> is_letter (p ! 0)) Path_no_letter (
     check (p ! 1 \<noteq> CHR '':'') Path_no_colon (
     check (\<not> is_sep (p ! 2)) Path_no_root (
     validate_parts (path_parts p))))))))"

subsection \<open>What validation guarantees\<close>

definition part_ok :: "bytes \<Rightarrow> bool" where
  "part_ok part \<longleftrightarrow> part \<notin> {[], ''.'', ''..''} \<and> CHR '':'' \<notin> set part \<and>
     set part \<inter> set forbidden_chars = {} \<and> last part \<notin> {CHR '' '', CHR ''.''} \<and>
     \<not> isReservedStem part"

lemma part_ok_facts:
  "part_ok part \<Longrightarrow> part \<noteq> ''.'' \<and> part \<noteq> ''..'' \<and> last part \<noteq> CHR '' '' \<and>
     last part \<noteq> CHR ''.'' \<and> \<not> isReservedStem part"
  by (simp add: part_ok_def)

lemma validate_parts_iff: "validate_parts parts = Inr () \<longleftrightarrow> (\<forall>part \<in> set parts. part_ok part)"
proof (induction parts)
  case (Cons part parts)
  have "part = trim_right part '' .'' \<longleftrightarrow> part = [] \<or> last part \<notin> {CHR '' '', CHR ''.''}"
    using trim_right_eq_iff [of part "'' .''"] by auto
  moreover have "contains_any part forbidden_chars \<longleftrightarrow> set part \<inter> set forbidden_chars \<noteq> {}"
    by (auto simp: contains_any_iff)
  ultimately show ?case using Cons.IH by (auto simp: part_ok_def check_def)
qed simp

text \<open>The exact language of accepted paths.\<close>

definition path_ok :: "bytes \<Rightarrow> bool" where
  "path_ok p \<longleftrightarrow> (\<exists>d s rest. p = d # CHR '':'' # s # rest \<and> is_letter d \<and> is_sep s \<and>
     CHR 0x00 \<notin> set rest \<and> (\<forall>part \<in> set (fields_func is_sep rest). part_ok part))"

lemma is_letter_ground [simp]:
  "\<not> is_letter (CHR 0x00)" "\<not> is_letter (CHR 0x5C)" "\<not> is_letter (CHR '':'')"
  "\<not> is_letter (CHR ''*'')" "\<not> is_letter (CHR ''?'')" "\<not> is_letter (CHR ''<'')"
  "\<not> is_letter (CHR ''>'')" "\<not> is_letter (CHR 0x7C)" "\<not> is_letter (CHR 0x22)"
  by (simp_all add: is_letter_def less_eq_char_def)

lemma is_sep_ground [simp]:
  "\<not> is_sep (CHR 0x00)" "\<not> is_sep (CHR '':'')" "is_sep (CHR 0x5C)" "is_sep (CHR ''/'')"
  by (simp_all add: is_sep_def)

lemma letter_sep_not_forbidden:
  "is_letter d \<Longrightarrow> d \<notin> set forbidden_chars" "is_sep d \<Longrightarrow> d \<notin> set forbidden_chars"
  by (auto simp: forbidden_chars_def is_sep_def)

lemma validateRemotePath_Cons3:
  "validateRemotePath (d # c # e # rest) = Inr () \<longleftrightarrow>
     CHR 0x00 \<notin> set (d # c # e # rest) \<and> \<not> (d = CHR 0x5C \<and> c = CHR 0x5C) \<and> is_letter d \<and>
     c = CHR '':'' \<and> is_sep e \<and> (\<forall>part \<in> set (fields_func is_sep rest). part_ok part)"
  by (simp add: validateRemotePath_def has_prefix_def unc_prefix_def validate_parts_iff
      path_parts_def numeral_3_eq_3 not_less del: validate_parts.simps)

lemma validateRemotePath_short: "length p < 3 \<Longrightarrow> validateRemotePath p \<noteq> Inr ()"
  by (simp add: validateRemotePath_def)

lemma validate_iff_path_ok: "validateRemotePath p = Inr () \<longleftrightarrow> path_ok p"
proof (cases "length p < 3")
  case True
  then show ?thesis using validateRemotePath_short [OF True] by (auto simp: path_ok_def)
next
  case False
  then obtain d c e rest where p: "p = d # c # e # rest"
    by (auto simp: numeral_3_eq_3 not_less Suc_le_length_iff)
  have "is_letter d \<Longrightarrow> d \<noteq> CHR 0x00 \<and> d \<noteq> CHR 0x5C" and "is_sep e \<Longrightarrow> e \<noteq> CHR 0x00"
    by auto
  then show ?thesis unfolding p validateRemotePath_Cons3 path_ok_def by auto
qed

lemma colon_not_forbidden: "CHR '':'' \<notin> set forbidden_chars"
  by (simp add: forbidden_chars_def)

lemma path_ok_rest_char:
  assumes "\<forall>part \<in> set (fields_func is_sep rest). part_ok part" and "c \<in> set rest"
  shows "c \<noteq> CHR '':'' \<and> c \<notin> set forbidden_chars"
proof (cases "is_sep c")
  case True
  then show ?thesis using letter_sep_not_forbidden(2) by (auto simp: is_sep_def)
next
  case False
  obtain f where "f \<in> set (fields_func is_sep rest)" "c \<in> set f"
    using fields_func_cover [of c rest is_sep, OF assms(2) False] .
  with assms(1) show ?thesis by (auto simp: part_ok_def)
qed

lemma path_ok_chars:
  assumes "path_ok p"
  shows "CHR 0x00 \<notin> set p" and "set p \<inter> set forbidden_chars = {}"
    and "count_list p (CHR '':'') = 1" and "p ! 1 = CHR '':''"
proof -
  from assms obtain d s rest where p: "p = d # CHR '':'' # s # rest" and d: "is_letter d"
    and s: "is_sep s" and nul: "CHR 0x00 \<notin> set rest"
    and parts: "\<forall>part \<in> set (fields_func is_sep rest). part_ok part"
    unfolding path_ok_def by blast
  have d': "d \<noteq> CHR 0x00" "d \<noteq> CHR '':''" and s': "s \<noteq> CHR 0x00" "s \<noteq> CHR '':''"
    using d s by auto
  have rest: "\<And>c. c \<in> set rest \<Longrightarrow> c \<noteq> CHR '':'' \<and> c \<notin> set forbidden_chars"
    using path_ok_rest_char [OF parts] .
  show "CHR 0x00 \<notin> set p" using p d' s' nul by simp
  show "set p \<inter> set forbidden_chars = {}"
    using p rest letter_sep_not_forbidden(1) [OF d] letter_sep_not_forbidden(2) [OF s]
      colon_not_forbidden by auto
  have "CHR '':'' \<notin> set rest" using rest by blast
  then have "count_list rest (CHR '':'') = 0" by simp
  then show "count_list p (CHR '':'') = 1" using p d' s' by simp
  show "p ! 1 = CHR '':''" using p by simp
qed

subsection \<open>Names derived from a destination\<close>

datatype parent_error = Parent_not_rooted | Parent_no_separator

definition looksDriveRooted :: "bytes \<Rightarrow> bool" where
  "looksDriveRooted p =
     (if has_prefix p unc_prefix then True
      else if length p \<ge> 3 \<and> p ! 1 = CHR '':'' \<and> is_sep (p ! 2) then is_letter (p ! 0)
      else False)"

definition seps :: bytes where
  "seps = [CHR 0x5C, CHR ''/'']"

definition remoteStageParent :: "bytes \<Rightarrow> parent_error + bytes" where
  "remoteStageParent destPath =
     check (\<not> looksDriveRooted destPath) Parent_not_rooted (
     case last_index_any destPath (set seps) of
       None \<Rightarrow> Inl Parent_no_separator
     | Some sep \<Rightarrow> if sep = 2 then Inr (take 3 destPath) else Inr (take sep destPath))"

text \<open>The upload stage and the download control record, built from a directory.\<close>

definition child_path :: "bytes \<Rightarrow> bytes \<Rightarrow> bytes" where
  "child_path dir name = trim_right dir seps @ CHR 0x5C # name"

definition stage_name :: "bytes \<Rightarrow> bytes" where
  "stage_name transferID = ''.winsh-stage-'' @ transferID"

definition upload_stage_path :: "bytes \<Rightarrow> bytes \<Rightarrow> parent_error + bytes" where
  "upload_stage_path remotePath transferID =
     (case remoteStageParent remotePath of
        Inl e \<Rightarrow> Inl e
      | Inr stageParent \<Rightarrow> Inr (child_path stageParent (stage_name transferID)))"

definition download_metadata_path :: "bytes \<Rightarrow> bytes \<Rightarrow> bytes" where
  "download_metadata_path tempDir transferID =
     child_path tempDir (''winsh-result-'' @ transferID @ ''.json'')"

lemma set_seps [simp]: "c \<in> set seps \<longleftrightarrow> is_sep c"
  by (simp add: seps_def is_sep_def)

lemma seps_eq: "set seps = {c. is_sep c}"
  by auto

lemma trim_right_seps_parts: "fields_func is_sep (trim_right s seps) = fields_func is_sep s"
proof -
  obtain t where t: "s = trim_right s seps @ t" "\<forall>c \<in> set t. is_sep c"
    using trim_right_append [of s seps] by (auto simp: seps_eq)
  then show ?thesis by (metis fields_func_trailing)
qed

lemma trim_right_Cons:
  "trim_right (c # s) cs =
     (if trim_right s cs = [] \<and> c \<in> set cs then [] else c # trim_right s cs)"
  by (auto simp: trim_right_def dropWhile_append dropWhile_eq_Nil_conv)

text \<open>A name appended to the root of a drive, or to a directory below it.\<close>

lemma child_path_parts:
  assumes "is_letter d" and "is_sep s" and "\<forall>c \<in> set name. \<not> is_sep c" and "name \<noteq> []"
  shows "\<exists>s'. is_sep s' \<and> child_path (d # CHR '':'' # s # r) name = d # CHR '':'' # s' # drop 3 (child_path (d # CHR '':'' # s # r) name)
    \<and> path_parts (child_path (d # CHR '':'' # s # r) name) = fields_func is_sep r @ [name]
    \<and> set (child_path (d # CHR '':'' # s # r) name) \<subseteq> {d, CHR '':'', s, CHR 0x5C} \<union> set r \<union> set name"
proof -
  let ?t = "trim_right r seps"
  have sub: "set ?t \<subseteq> set r"
    using trim_right_append [of r seps] by (metis UnCI set_append subsetI)
  have name: "fields_func is_sep name = [name]" using assms(3,4) by (simp add: fields_func_run)
  show ?thesis
  proof (cases "?t = []")
    case True
    then have "fields_func is_sep r = []"
      using trim_right_seps_parts [of r] by (simp add: fields_func_def)
    with True assms name show ?thesis
      by (auto simp: child_path_def trim_right_Cons path_parts_def)
  next
    case False
    have "fields_func is_sep (?t @ CHR 0x5C # name) = fields_func is_sep r @ [name]"
      by (simp add: fields_func_append_sep trim_right_seps_parts name)
    with False assms sub show ?thesis
      by (auto simp: child_path_def trim_right_Cons path_parts_def)
  qed
qed

lemma last_sep_split:
  assumes "last_index_any p (set seps) = Some i"
  shows "p = take i p @ p ! i # drop (Suc i) p \<and> is_sep (p ! i) \<and>
    (\<forall>c \<in> set (drop (Suc i) p). \<not> is_sep c)"
  using last_index_any_Some [OF assms] id_take_nth_drop [of i p] by simp

lemma stage_parent_of_valid:
  assumes "path_ok p" and "last p \<notin> set seps"
  shows "\<exists>d s r. remoteStageParent p = Inr (d # CHR '':'' # s # r) \<and> is_letter d \<and> is_sep s \<and>
    set r \<subseteq> set p \<and> p ! 0 = d \<and> (\<exists>base. path_parts p = fields_func is_sep r @ [base])"
proof -
  from assms(1) obtain d s rest where p: "p = d # CHR '':'' # s # rest" and d: "is_letter d"
    and s: "is_sep s" unfolding path_ok_def by blast
  have root: "looksDriveRooted p"
    using p d s by (auto simp: looksDriveRooted_def)
  have rest: "rest \<noteq> []" using assms(2) p s by auto
  show ?thesis
  proof (cases "last_index_any rest (set seps)")
    case None
    have "last_index_any p (set seps) = Some 2" using p s None by (simp add: numeral_2_eq_2)
    moreover have "fields_func is_sep rest = [rest]"
      using last_index_any_None [OF None] rest by (simp add: fields_func_run)
    ultimately show ?thesis using root p d s
      by (auto simp: remoteStageParent_def path_parts_def numeral_3_eq_3 fields_func_def)
  next
    case (Some i)
    define r where "r = take i rest"
    have idx: "last_index_any p (set seps) = Some (i + 3)"
      using p Some by (simp add: numeral_3_eq_3)
    have split: "rest = r @ rest ! i # drop (Suc i) rest" "is_sep (rest ! i)"
      "\<forall>c \<in> set (drop (Suc i) rest). \<not> is_sep c"
      using last_sep_split [OF Some] by (auto simp: r_def)
    have "drop (Suc i) rest \<noteq> []"
    proof
      assume "drop (Suc i) rest = []"
      with split(1) have "last rest = rest ! i" by (metis last_snoc)
      with split(2) assms(2) p rest show False by simp
    qed
    with split have "fields_func is_sep rest = fields_func is_sep r @ [drop (Suc i) rest]"
      by (metis fields_func_append_sep fields_func_run)
    moreover have "set r \<subseteq> set p" using p by (auto simp: r_def dest: in_set_takeD)
    ultimately show ?thesis using root p d s idx
      by (auto simp: remoteStageParent_def path_parts_def r_def numeral_3_eq_3)
  qed
qed

definition lower_hex :: "char \<Rightarrow> bool" where
  "lower_hex c \<longleftrightarrow> (CHR ''0'' \<le> c \<and> c \<le> CHR ''9'') \<or> (CHR ''a'' \<le> c \<and> c \<le> CHR ''f'')"

lemma lower_hex_ground [simp]:
  "\<not> lower_hex (CHR 0x00)" "\<not> lower_hex (CHR '':'')" "\<not> lower_hex (CHR 0x5C)"
  "\<not> lower_hex (CHR ''/'')" "\<not> lower_hex (CHR '' '')" "\<not> lower_hex (CHR ''.'')"
  "\<not> lower_hex (CHR ''*'')" "\<not> lower_hex (CHR ''?'')" "\<not> lower_hex (CHR ''<'')"
  "\<not> lower_hex (CHR ''>'')" "\<not> lower_hex (CHR 0x7C)" "\<not> lower_hex (CHR 0x22)"
  by (simp_all add: lower_hex_def less_eq_char_def)

lemma dot_name_not_reserved: "\<not> isReservedStem (CHR ''.'' # name)"
proof -
  have up: "to_upper (CHR ''.'' # name) = CHR ''.'' # to_upper name"
    by (simp add: to_upper_def upper_char_def less_eq_char_def)
  have "\<not> List.member reservedDeviceNames (CHR ''.'' # to_upper name)"
    by (simp add: reservedDeviceNames_def)
  moreover have "str_index (CHR ''.'' # to_upper name) ''.'' = Some 0"
    by (simp add: has_prefix_def)
  ultimately show ?thesis by (simp add: isReservedStem_def up del: str_index.simps)
qed

lemma stage_name_ok:
  assumes "tid \<noteq> []" and "\<forall>c \<in> set tid. lower_hex c"
  shows "part_ok (stage_name tid)" and "CHR 0x00 \<notin> set (stage_name tid)"
    and "\<forall>c \<in> set (stage_name tid). \<not> is_sep c" and "stage_name tid \<noteq> []"
proof -
  have ids: "c \<notin> set tid" if "\<not> lower_hex c" for c using assms(2) that by blast
  have last: "lower_hex (last tid)" using assms by simp
  then have "last tid \<noteq> CHR '' ''" "last tid \<noteq> CHR ''.''" by auto
  moreover have "\<not> isReservedStem (stage_name tid)"
    using dot_name_not_reserved by (simp add: stage_name_def)
  ultimately show "part_ok (stage_name tid)"
    using assms(1) ids by (simp add: part_ok_def forbidden_chars_def stage_name_def)
  show "CHR 0x00 \<notin> set (stage_name tid)" using ids by (simp add: stage_name_def)
  show "\<forall>c \<in> set (stage_name tid). \<not> is_sep c"
    using ids by (auto simp: stage_name_def is_sep_def)
  show "stage_name tid \<noteq> []" by (simp add: stage_name_def)
qed

subsection \<open>Properties\<close>

text \<open>C26: A path that \<open>validateRemotePath\<close> accepts starts with a drive letter, a colon and a
  separator, contains no NUL and no wildcard or redirection character, has its only colon after
  the drive letter (so no alternate data stream), and none of its components is \<open>.\<close> or \<open>..\<close>,
  ends with a space or a dot, or names a reserved device.\<close>

theorem validated_path_safe:
  assumes "validateRemotePath p = Inr ()"
  shows "is_letter (p ! 0) \<and> p ! 1 = CHR '':'' \<and> is_sep (p ! 2) \<and> CHR 0x00 \<notin> set p \<and>
    set p \<inter> set forbidden_chars = {} \<and> count_list p (CHR '':'') = 1 \<and>
    (\<forall>part \<in> set (path_parts p). part \<noteq> ''.'' \<and> part \<noteq> ''..'' \<and>
       last part \<noteq> CHR '' '' \<and> last part \<noteq> CHR ''.'' \<and> \<not> isReservedStem part)"
proof -
  have ok: "path_ok p" using assms by (simp add: validate_iff_path_ok)
  then obtain d s rest where p: "p = d # CHR '':'' # s # rest" "is_letter d" "is_sep s"
    and parts: "\<forall>part \<in> set (fields_func is_sep rest). part_ok part"
    unfolding path_ok_def by blast
  have "is_letter (p ! 0) \<and> p ! 1 = CHR '':'' \<and> is_sep (p ! 2)" using p by simp
  moreover have "\<forall>part \<in> set (path_parts p). part_ok part" using p parts by (simp add: path_parts_def)
  ultimately show ?thesis
    using path_ok_chars(1-3) [OF ok] by (simp add: part_ok_facts)
qed

theorem validated_path_safe_witness:
  "CHR 0x00 \<notin> set (''C:'' @ CHR 0x5C # ''Temp'' @ CHR 0x5C # ''a.bin'')"
proof -
  have "validateRemotePath (''C:'' @ CHR 0x5C # ''Temp'' @ CHR 0x5C # ''a.bin'') = Inr ()"
    by code_simp
  from validated_path_safe [OF this] show ?thesis by blast
qed

text \<open>For an accepted destination that does not end in a separator, and a hexadecimal
  transfer id, the upload stage path exists, is itself an accepted path on the same drive, and
  is a sibling of the destination: its components are the destination's with the last one
  replaced by \<open>.winsh-stage-<id>\<close>.\<close>

theorem upload_stage_is_sibling:
  assumes "validateRemotePath p = Inr ()" and "last p \<notin> set seps"
    and "tid \<noteq> []" and "\<forall>c \<in> set tid. lower_hex c"
  shows "\<exists>stage. upload_stage_path p tid = Inr stage \<and> validateRemotePath stage = Inr () \<and>
    stage ! 0 = p ! 0 \<and> path_parts stage = butlast (path_parts p) @ [stage_name tid]"
proof -
  have ok: "path_ok p" using assms(1) by (simp add: validate_iff_path_ok)
  obtain d s r base where par: "remoteStageParent p = Inr (d # CHR '':'' # s # r)"
    and d: "is_letter d" and s: "is_sep s" and r: "set r \<subseteq> set p" and p0: "p ! 0 = d"
    and base: "path_parts p = fields_func is_sep r @ [base]"
    using stage_parent_of_valid [OF ok assms(2)] by blast
  note name = stage_name_ok [OF assms(3,4)]
  define stage where "stage = child_path (d # CHR '':'' # s # r) (stage_name tid)"
  obtain s' where s': "is_sep s'" and stage: "stage = d # CHR '':'' # s' # drop 3 stage"
    and parts: "path_parts stage = fields_func is_sep r @ [stage_name tid]"
    and chars: "set stage \<subseteq> {d, CHR '':'', s, CHR 0x5C} \<union> set r \<union> set (stage_name tid)"
    using child_path_parts [OF d s name(3,4), of r] unfolding stage_def by blast
  have "\<forall>part \<in> set (path_parts p). part_ok part"
    using ok by (auto simp: path_ok_def path_parts_def)
  with base name(1) parts have stage_parts: "\<forall>part \<in> set (path_parts stage). part_ok part" by auto
  have "CHR 0x00 \<notin> set r" using path_ok_chars(1) [OF ok] r by blast
  moreover have "d \<noteq> CHR 0x00" "s \<noteq> CHR 0x00" using d s by auto
  ultimately have "CHR 0x00 \<notin> set stage" using chars name(2) by auto
  then have "path_ok stage"
    unfolding path_ok_def using d s' stage stage_parts
    by (metis in_set_dropD path_parts_def)
  moreover have "upload_stage_path p tid = Inr stage" using par by (simp add: upload_stage_path_def stage_def)
  moreover have "stage ! 0 = p ! 0" using stage p0 by (metis nth_Cons_0)
  moreover have "path_parts stage = butlast (path_parts p) @ [stage_name tid]" using parts base by simp
  ultimately show ?thesis by (auto simp: validate_iff_path_ok)
qed

theorem upload_stage_is_sibling_witness:
  "\<exists>stage. upload_stage_path (''C:/Temp/a.bin'') ''0f'' = Inr stage \<and> validateRemotePath stage = Inr ()"
proof -
  have 1: "validateRemotePath (''C:/Temp/a.bin'') = Inr ()" by code_simp
  have 2: "last ''C:/Temp/a.bin'' \<notin> set seps" by (simp add: is_sep_def)
  have 3: "''0f'' \<noteq> []" by simp
  have 4: "\<forall>c \<in> set ''0f''. lower_hex c" by (simp add: lower_hex_def less_eq_char_def)
  from upload_stage_is_sibling [OF 1 2 3 4] show ?thesis by blast
qed

text \<open>Repeated and trailing separators are accepted: dropping them does not change the
  verdict, because the components come from \<open>strings.FieldsFunc\<close>, which never yields an empty
  component.\<close>

theorem separators_collapse:
  assumes "is_sep c" and "is_sep c'" and "length p \<ge> 3"
  shows "validateRemotePath (p @ c # c' # q) = validateRemotePath (p @ c # q)"
proof -
  obtain a b e r where p: "p = a # b # e # r"
    using assms(3) by (auto simp: numeral_3_eq_3 Suc_le_length_iff)
  have "path_parts (p @ c # c' # q) = path_parts (p @ c # q)"
    using assms p
    by (simp add: path_parts_def numeral_3_eq_3 fields_func_append_sep)
      (simp add: fields_func_def)
  moreover have "CHR 0x00 \<in> set (p @ c # c' # q) \<longleftrightarrow> CHR 0x00 \<in> set (p @ c # q)"
    using assms by auto
  ultimately show ?thesis
    using p by (simp add: validateRemotePath_def has_prefix_def unc_prefix_def)
qed

theorem separators_collapse_witness:
  "validateRemotePath (''C:/a//'') = validateRemotePath (''C:/a/'')"
  using separators_collapse [of "CHR ''/''" "CHR ''/''" "''C:/a''" "[]"] by simp

end
