(* ===== verification/Go_Errors.thy ===== *)
theory Go_Errors
  imports Prelude
begin

text \<open>
  Go error values.  An error is a tree: \<open>fmt.Errorf("...: %w", err)\<close> and the program's wrapper
  types have one child, \<open>errors.Join\<close> has several.  \<open>errors.Is\<close> and \<open>errors.As\<close> search the tree,
  and the program decides what to report and what may be retried by these two searches alone.
  The sentinels and wrapper types are the ones declared in \<open>internal/remote\<close>
  (\<open>control_runner.go\<close>, \<open>response.go\<close>, \<open>persistent.go\<close>, \<open>transport.go\<close>, \<open>transfer.go\<close>) and
  \<open>internal/control\<close> (\<open>protocol.go\<close>, \<open>socket_unix.go\<close>), and those of the standard library the
  program tests for.  \<open>GoPanic\<close> stands for a run-time panic: a function whose model returns it does not
  return in Go.
\<close>

datatype sentinel =
    ErrUnsent | ErrNotStarted | ErrRemoteStateUnknown | ErrCleanupFailed
  | ErrOperationTimeout | ErrReplayRefused | ErrProtocol | ErrMasterUnresponsive
  | CtxCanceled | CtxDeadlineExceeded
  | IoEOF | IoUnexpectedEOF | IoShortWrite | IoNoProgress | ConnReset | GoPanic

datatype goerr =
    Sentinel sentinel
  | Msg bytes
  | Wrap bytes goerr
  | Marked goerr sentinel
  | Joined "goerr list"
  | HandshakeTransport bytes goerr
  | NetError bool goerr
  | FinalizationUnknown goerr
  | RemoteExit nat
  | TransferInput bytes
  | CategoryErr bytes
  | ControlPassword goerr

text \<open>The nodes of an error tree in the order \<open>errors.Is\<close> and \<open>errors.As\<close> visit them.\<close>

fun err_nodes :: "goerr \<Rightarrow> goerr list" where
  "err_nodes (Wrap p e) = Wrap p e # err_nodes e"
| "err_nodes (Marked e m) = Marked e m # err_nodes e"
| "err_nodes (Joined es) = Joined es # concat (map err_nodes es)"
| "err_nodes (HandshakeTransport p e) = HandshakeTransport p e # err_nodes e"
| "err_nodes (NetError t e) = NetError t e # err_nodes e"
| "err_nodes (FinalizationUnknown e) = FinalizationUnknown e # err_nodes e"
| "err_nodes (ControlPassword e) = ControlPassword e # err_nodes e"
| "err_nodes e = [e]"

text \<open>One node against a sentinel: equality, or the \<open>Is\<close> method of \<open>markedError\<close>.\<close>

fun node_is :: "goerr \<Rightarrow> sentinel \<Rightarrow> bool" where
  "node_is (Sentinel s) t \<longleftrightarrow> s = t"
| "node_is (Marked e m) t \<longleftrightarrow> m = t"
| "node_is _ t \<longleftrightarrow> False"

definition errors_is :: "goerr \<Rightarrow> sentinel \<Rightarrow> bool" where
  "errors_is e t \<longleftrightarrow> list_ex (\<lambda>n. node_is n t) (err_nodes e)"

text \<open>\<open>errors.As\<close>: the first node of a given shape.\<close>

fun first_some :: "('a \<Rightarrow> 'b option) \<Rightarrow> 'a list \<Rightarrow> 'b option" where
  "first_some f [] = None"
| "first_some f (x # xs) = (case f x of Some y \<Rightarrow> Some y | None \<Rightarrow> first_some f xs)"

fun node_handshake :: "goerr \<Rightarrow> goerr option" where
  "node_handshake (HandshakeTransport p e) = Some e"
| "node_handshake _ = None"

text \<open>The standard library's \<open>net.Error\<close>s: network errors, \<open>context.DeadlineExceeded\<close> and
  system call errors; the result is \<open>Timeout()\<close>.\<close>

fun node_net_timeout :: "goerr \<Rightarrow> bool option" where
  "node_net_timeout (NetError t e) = Some t"
| "node_net_timeout (Sentinel CtxDeadlineExceeded) = Some True"
| "node_net_timeout (Sentinel ConnReset) = Some False"
| "node_net_timeout _ = None"

fun node_remote_exit :: "goerr \<Rightarrow> nat option" where
  "node_remote_exit (RemoteExit c) = Some c"
| "node_remote_exit _ = None"

fun node_category :: "goerr \<Rightarrow> bytes option" where
  "node_category (CategoryErr c) = Some c"
| "node_category _ = None"

fun node_password :: "goerr \<Rightarrow> goerr option" where
  "node_password (ControlPassword e) = Some e"
| "node_password _ = None"

fun is_input_node :: "goerr \<Rightarrow> bool" where
  "is_input_node (TransferInput m) = True"
| "is_input_node _ = False"

fun is_unknown_node :: "goerr \<Rightarrow> bool" where
  "is_unknown_node (FinalizationUnknown e) = True"
| "is_unknown_node _ = False"

definition as_handshake :: "goerr \<Rightarrow> goerr option" where
  "as_handshake e = first_some node_handshake (err_nodes e)"

definition as_net_timeout :: "goerr \<Rightarrow> bool option" where
  "as_net_timeout e = first_some node_net_timeout (err_nodes e)"

definition as_remote_exit :: "goerr \<Rightarrow> nat option" where
  "as_remote_exit e = first_some node_remote_exit (err_nodes e)"

definition as_category :: "goerr \<Rightarrow> bytes option" where
  "as_category e = first_some node_category (err_nodes e)"

definition as_password :: "goerr \<Rightarrow> goerr option" where
  "as_password e = first_some node_password (err_nodes e)"

definition is_transfer_input :: "goerr \<Rightarrow> bool" where
  "is_transfer_input e \<longleftrightarrow> list_ex is_input_node (err_nodes e)"

definition is_finalization_unknown :: "goerr \<Rightarrow> bool" where
  "is_finalization_unknown e \<longleftrightarrow> list_ex is_unknown_node (err_nodes e)"

text \<open>\<open>errors.Join\<close> drops nil errors and is nil when nothing is left.\<close>

definition errors_join :: "goerr option list \<Rightarrow> goerr option" where
  "errors_join es = (case List.map_filter (\<lambda>x. x) es of [] \<Rightarrow> None | xs \<Rightarrow> Some (Joined xs))"

text \<open>\<open>unsent\<close> and \<open>notStarted\<close> of \<open>control_runner.go\<close>.\<close>

definition unsent :: "goerr \<Rightarrow> goerr" where
  "unsent e = Marked e ErrUnsent"

definition notStarted :: "goerr \<Rightarrow> goerr" where
  "notStarted e = Marked e ErrNotStarted"

subsection \<open>The two reasons a context ends\<close>

datatype ctx_err = Canceled | Deadline

fun ctx_goerr :: "ctx_err \<Rightarrow> goerr" where
  "ctx_goerr Canceled = Sentinel CtxCanceled"
| "ctx_goerr Deadline = Sentinel CtxDeadlineExceeded"

subsection \<open>Search laws\<close>

named_theorems err_simps \<open>computing \<open>errors.Is\<close> through wrappers\<close>

lemma errors_is_simps [err_simps, simp]:
  "errors_is (Sentinel s) t \<longleftrightarrow> s = t"
  "errors_is (Msg x) t \<longleftrightarrow> False"
  "errors_is (Wrap p e) t \<longleftrightarrow> errors_is e t"
  "errors_is (Marked e m) t \<longleftrightarrow> m = t \<or> errors_is e t"
  "errors_is (Joined es) t \<longleftrightarrow> (\<exists>e \<in> set es. errors_is e t)"
  "errors_is (HandshakeTransport p e) t \<longleftrightarrow> errors_is e t"
  "errors_is (NetError b e) t \<longleftrightarrow> errors_is e t"
  "errors_is (FinalizationUnknown e) t \<longleftrightarrow> errors_is e t"
  "errors_is (ControlPassword e) t \<longleftrightarrow> errors_is e t"
  "errors_is (RemoteExit c) t \<longleftrightarrow> False"
  "errors_is (TransferInput x) t \<longleftrightarrow> False"
  "errors_is (CategoryErr x) t \<longleftrightarrow> False"
  by (auto simp: errors_is_def list_ex_iff)

lemma errors_is_unsent [err_simps, simp]:
  "errors_is (unsent e) t \<longleftrightarrow> t = ErrUnsent \<or> errors_is e t"
  "errors_is (notStarted e) t \<longleftrightarrow> t = ErrNotStarted \<or> errors_is e t"
  by (auto simp: unsent_def notStarted_def)

lemma errors_is_ctx [err_simps, simp]:
  "errors_is (ctx_goerr c) t \<longleftrightarrow>
     (t = CtxCanceled \<and> c = Canceled) \<or> (t = CtxDeadlineExceeded \<and> c = Deadline)"
  by (cases c) auto

lemma errors_join_simps [err_simps, simp]:
  "errors_join [None, None] = None"
  "errors_join [Some e, None] = Some (Joined [e])"
  "errors_join [None, Some e] = Some (Joined [e])"
  "errors_join [Some e, Some e'] = Some (Joined [e, e'])"
  by (simp_all add: errors_join_def List.map_filter_simps)

lemma errors_join_None_iff: "errors_join es = None \<longleftrightarrow> (\<forall>e \<in> set es. e = None)"
  by (induction es) (auto simp: errors_join_def List.map_filter_simps split: option.splits list.splits)

lemma as_handshake_simps [err_simps, simp]:
  "as_handshake (Sentinel s) = None"
  "as_handshake (Msg x) = None"
  "as_handshake (Wrap p e) = as_handshake e"
  "as_handshake (Marked e m) = as_handshake e"
  "as_handshake (NetError b e) = as_handshake e"
  "as_handshake (HandshakeTransport p e) = Some e"
  "as_handshake (unsent e) = as_handshake e"
  "as_handshake (ctx_goerr c) = None"
  by (simp_all add: as_handshake_def unsent_def) (cases c; simp)

lemma is_unknown_simps [err_simps, simp]:
  "is_finalization_unknown (FinalizationUnknown e)"
  "is_finalization_unknown (Joined es) \<longleftrightarrow> (\<exists>e \<in> set es. is_finalization_unknown e)"
  "is_finalization_unknown (Wrap p e) \<longleftrightarrow> is_finalization_unknown e"
  "\<not> is_finalization_unknown (Msg m)" "\<not> is_finalization_unknown (RemoteExit c)"
  "\<not> is_finalization_unknown (Sentinel s)" "\<not> is_finalization_unknown (TransferInput m)"
  by (auto simp: is_finalization_unknown_def list_ex_iff)

lemma first_some_append:
  "first_some f (xs @ ys) = (case first_some f xs of Some y \<Rightarrow> Some y | None \<Rightarrow> first_some f ys)"
  by (induction xs) (auto split: option.splits)

lemma as_remote_exit_simps [err_simps, simp]:
  "as_remote_exit (RemoteExit c) = Some c"
  "as_remote_exit (Joined []) = None"
  "as_remote_exit (Joined (e # es)) =
     (case as_remote_exit e of Some c \<Rightarrow> Some c | None \<Rightarrow> as_remote_exit (Joined es))"
  by (simp_all add: as_remote_exit_def first_some_append split: option.split)

end
