(* ===== verification/Writers.thy ===== *)
theory Writers
  imports Go_Errors
begin

text \<open>
  \<open>io.Writer\<close> as an interface, and the program's own writers and write loops:
  \<open>boundedOutput\<close> and \<open>writeAll\<close> of \<open>internal/remote/transfer_codec.go\<close>,
  \<open>transferProgressWriter\<close> of \<open>download.go\<close>, \<open>writeAll\<close> of \<open>internal/control/protocol.go\<close>.
  A writer is a function on its own state; the locale \<open>io_writer\<close> states the documented contract,
  and the loops are proved against it once.
\<close>

type_synonym 's writer = "bytes \<Rightarrow> 's \<Rightarrow> nat \<times> goerr option \<times> 's"

subsection \<open>The write loops\<close>

text \<open>\<open>remote.writeAll\<close>: a short write with \<open>io.ErrShortWrite\<close> is continued.  Slicing past the
  end of \<open>p\<close> would panic.\<close>

function remote_writeAll :: "'s writer \<Rightarrow> bytes \<Rightarrow> 's \<Rightarrow> goerr option \<times> 's" where
  "remote_writeAll w p s =
     (if p = [] then (None, s)
      else (case w p s of (n, err, s') \<Rightarrow>
        if n > length p then (Some (Sentinel GoPanic), s')
        else (case err of
            None \<Rightarrow> if drop n p \<noteq> [] then (Some (Sentinel IoNoProgress), s') else (None, s')
          | Some e \<Rightarrow>
              if n = 0 \<or> \<not> errors_is e IoShortWrite then (Some e, s')
              else remote_writeAll w (drop n p) s')))"
  by pat_completeness auto
termination by (relation "measure (\<lambda>(w, p, s). length p)") auto

declare remote_writeAll.simps [simp del]

text \<open>\<open>control.writeAll\<close>: any error is final, a short write without an error too.\<close>

function control_writeAll :: "'s writer \<Rightarrow> bytes \<Rightarrow> 's \<Rightarrow> goerr option \<times> 's" where
  "control_writeAll w data s =
     (if data = [] then (None, s)
      else (case w data s of (n, err, s') \<Rightarrow>
        (case err of
           Some e \<Rightarrow> (Some e, s')
         | None \<Rightarrow>
             if n = 0 \<or> n > length data then (Some (Sentinel IoShortWrite), s')
             else control_writeAll w (drop n data) s')))"
  by pat_completeness auto
termination by (relation "measure (\<lambda>(w, p, s). length p)") auto

declare control_writeAll.simps [simp del]

subsection \<open>The contract\<close>

text \<open>\<open>Write\<close> reports how many bytes of \<open>p\<close> it wrote, never more than \<open>len(p)\<close>, and an error
  whenever it wrote fewer.\<close>

locale io_writer =
  fixes wr :: "'s writer" and written :: "'s \<Rightarrow> bytes"
  assumes write_law: "wr p s = (n, err, s') \<Longrightarrow>
    n \<le> length p \<and> written s' = written s @ take n p \<and> (n < length p \<longrightarrow> err \<noteq> None)"
begin

lemma write_complete: "wr p s = (n, None, s') \<Longrightarrow> n = length p \<and> written s' = written s @ p"
  using write_law [of p s n None s'] by auto

text \<open>One round of each loop, in terms of the contract.\<close>

lemma remote_writeAll_step:
  assumes "p \<noteq> []" and "wr p s = (n, err, t)"
  shows "remote_writeAll wr p s =
     (case err of
        None \<Rightarrow> (None, t)
      | Some e \<Rightarrow> if n = 0 \<or> \<not> errors_is e IoShortWrite then (Some e, t)
                  else remote_writeAll wr (drop n p) t)"
  using write_law [OF assms(2)] assms
  by (auto simp: remote_writeAll.simps [of wr p s] split: option.splits)

lemma remote_writeAll_spec:
  "remote_writeAll wr p s = (r, s') \<Longrightarrow>
     (\<exists>k \<le> length p. written s' = written s @ take k p \<and> (r = None \<longrightarrow> k = length p))"
proof (induction p arbitrary: s r s' rule: length_induct)
  case (1 p)
  show ?case
  proof (cases "p = []")
    case True
    with 1(2) show ?thesis by (simp add: remote_writeAll.simps [of wr "[]"])
  next
    case False
    obtain n err t where w: "wr p s = (n, err, t)" by (cases "wr p s") auto
    note law = write_law [OF w] and step = remote_writeAll_step [OF False w]
    show ?thesis
    proof (cases "\<exists>e. err = Some e \<and> n \<noteq> 0 \<and> errors_is e IoShortWrite")
      case True
      then obtain e where e: "err = Some e" "n \<noteq> 0" "errors_is e IoShortWrite" by blast
      with 1(2) step have rest: "remote_writeAll wr (drop n p) t = (r, s')" by simp
      have "length (drop n p) < length p" using e False by simp
      with 1(1) rest obtain k where k: "k \<le> length p - n"
        "written s' = written t @ take k (drop n p)" "r = None \<longrightarrow> k = length p - n"
        by (metis length_drop)
      have "take (n + k) p = take n p @ take k (drop n p)" by (simp add: take_add)
      with k law have "n + k \<le> length p \<and> written s' = written s @ take (n + k) p \<and>
        (r = None \<longrightarrow> n + k = length p)" by auto
      then show ?thesis by blast
    next
      case no: False
      with 1(2) step have "s' = t \<and> (r = None \<longrightarrow> err = None)"
        by (auto split: if_splits option.splits)
      with law show ?thesis by (auto intro: exI [of _ n])
    qed
  qed
qed

lemma remote_writeAll_ok: "remote_writeAll wr p s = (None, s') \<Longrightarrow> written s' = written s @ p"
  using remote_writeAll_spec by fastforce

lemma control_writeAll_step:
  assumes "p \<noteq> []" and "wr p s = (n, err, t)"
  shows "control_writeAll wr p s = (err, t)"
  using write_law [OF assms(2)] assms
  by (auto simp: control_writeAll.simps [of wr p s] control_writeAll.simps [of wr "[]"]
      split: option.splits)

lemma control_writeAll_spec:
  "control_writeAll wr p s = (r, s') \<Longrightarrow>
     (\<exists>k \<le> length p. written s' = written s @ take k p \<and> (r = None \<longrightarrow> k = length p))"
proof (cases "p = []")
  case True
  then show "control_writeAll wr p s = (r, s') \<Longrightarrow> ?thesis"
    by (simp add: control_writeAll.simps [of wr "[]"])
next
  case False
  obtain n err t where w: "wr p s = (n, err, t)" by (cases "wr p s") auto
  assume "control_writeAll wr p s = (r, s')"
  with control_writeAll_step [OF False w] write_law [OF w] show ?thesis
    by (auto intro: exI [of _ n])
qed

lemma control_writeAll_ok: "control_writeAll wr p s = (None, s') \<Longrightarrow> written s' = written s @ p"
  using control_writeAll_spec by fastforce

end

subsection \<open>boundedOutput\<close>

definition bounded_write :: "int \<Rightarrow> bytes writer" where
  "bounded_write limit p b =
     (if int (length p) > limit - int (length b)
      then (0, Some (Msg ''transfer control output exceeds limit''), b)
      else (length p, None, b @ p))"

interpretation bounded: io_writer "bounded_write limit" "\<lambda>b. b" for limit
  by unfold_locales (auto simp: bounded_write_def split: if_splits)

lemma bounded_write_limit:
  "bounded_write limit p b = (n, err, b') \<Longrightarrow> int (length b) \<le> limit \<Longrightarrow> int (length b') \<le> limit"
  by (auto simp: bounded_write_def split: if_splits)

text \<open>\<open>bytes.Buffer\<close>, which never fails.\<close>

definition buffer_write :: "bytes writer" where
  "buffer_write p b = (length p, None, b @ p)"

interpretation buffer: io_writer buffer_write "\<lambda>b. b"
  by unfold_locales (auto simp: buffer_write_def)

lemma buffer_write_ok: "fst (snd (buffer_write p b)) = None"
  by (simp add: buffer_write_def)

subsection \<open>transferProgressWriter\<close>

text \<open>The destination, the running count, and the values passed to \<open>progress\<close> so far;
  \<open>has_progress\<close> is the source's test \<open>w.progress != nil\<close>.\<close>

record 's progress_state =
  dest :: 's
  count :: int
  reported :: "int list"

definition progress_write :: "bool \<Rightarrow> 's writer \<Rightarrow> 's progress_state writer" where
  "progress_write has_progress w p st =
     (case w p (dest st) of (n, err, d) \<Rightarrow>
        let c = count st + int n;
            st' = st\<lparr>dest := d, count := c\<rparr>
        in (n, err, if n > 0 \<and> has_progress then st'\<lparr>reported := reported st @ [c]\<rparr> else st'))"

context io_writer begin

lemma progress_write_law:
  "progress_write hp wr p st = (n, err, st') \<Longrightarrow>
     n \<le> length p \<and> written (dest st') = written (dest st) @ take n p \<and>
     (n < length p \<longrightarrow> err \<noteq> None)"
  using write_law by (auto simp: progress_write_def Let_def split: prod.splits if_splits)

lemma progress_io_writer: "io_writer (progress_write hp wr) (\<lambda>st. written (dest st))"
  by unfold_locales (rule progress_write_law)

end

text \<open>Any writer that keeps the contract still keeps it behind the progress counter.\<close>

interpretation progress_bounded:
  io_writer "progress_write hp (bounded_write limit)" "\<lambda>st. dest st" for hp limit
  by (rule bounded.progress_io_writer)

lemma progress_write_count:
  "progress_write hp w p st = (n, err, st') \<Longrightarrow> count st' = count st + int n"
  by (auto simp: progress_write_def Let_def split: prod.splits if_splits)

end
