(* ===== verification/Base64.thy ===== *)
theory Base64
  imports Prelude
begin

text \<open>
  \<open>encoding/base64.StdEncoding\<close>, encode and decode, with the decoder's two quirks the program
  relies on: carriage returns and newlines are skipped wherever they occur, and trailing bits
  are checked only by the strict variant (\<open>secret.Resolve\<close>).  The text is decoded in quanta of
  four characters; padding may only close the last one.
\<close>

definition b64_char :: "nat \<Rightarrow> char" where
  "b64_char n =
     (if n < 26 then char_of (65 + n)
      else if n < 52 then char_of (71 + n)
      else if n < 62 then char_of (n - 4)
      else if n = 62 then CHR ''+'' else CHR ''/'')"

definition b64_val :: "char \<Rightarrow> nat option" where
  "b64_val c =
     (let v = byte_val c in
      if 65 \<le> v \<and> v \<le> 90 then Some (v - 65)
      else if 97 \<le> v \<and> v \<le> 122 then Some (v - 71)
      else if 48 \<le> v \<and> v \<le> 57 then Some (v + 4)
      else if v = 43 then Some 62
      else if v = 47 then Some 63
      else None)"

definition pad :: char where
  "pad = CHR ''=''"

fun b64_encode :: "bytes \<Rightarrow> bytes" where
  "b64_encode [] = []"
| "b64_encode [a] =
     (let a = byte_val a in [b64_char (a div 4), b64_char (a mod 4 * 16), pad, pad])"
| "b64_encode [a, b] =
     (let a = byte_val a; b = byte_val b in
      [b64_char (a div 4), b64_char (a mod 4 * 16 + b div 16), b64_char (b mod 16 * 4), pad])"
| "b64_encode (a # b # c # t) =
     (let a = byte_val a; b = byte_val b; c = byte_val c in
      [b64_char (a div 4), b64_char (a mod 4 * 16 + b div 16),
       b64_char (b mod 16 * 4 + c div 64), b64_char (c mod 64)]) @ b64_encode t"

text \<open>One quantum without padding, and the two padded ones; \<open>strict\<close> rejects trailing bits.\<close>

fun b64_quanta :: "bool \<Rightarrow> bytes \<Rightarrow> bytes option" where
  "b64_quanta strict [] = Some []"
| "b64_quanta strict (a # b # c # d # t) =
     (case (b64_val a, b64_val b) of
        (Some a', Some b') \<Rightarrow>
          (case b64_val c of
             Some c' \<Rightarrow>
               (case b64_val d of
                  Some d' \<Rightarrow>
                    map_option (\<lambda>r. char_of (a' * 4 + b' div 16) #
                        char_of (b' mod 16 * 16 + c' div 4) # char_of (c' mod 4 * 64 + d') # r)
                      (b64_quanta strict t)
                | None \<Rightarrow>
                    if d = pad \<and> t = [] \<and> (strict \<longrightarrow> c' mod 4 = 0)
                    then Some [char_of (a' * 4 + b' div 16), char_of (b' mod 16 * 16 + c' div 4)]
                    else None)
           | None \<Rightarrow>
               if c = pad \<and> d = pad \<and> t = [] \<and> (strict \<longrightarrow> b' mod 16 = 0)
               then Some [char_of (a' * 4 + b' div 16)]
               else None)
      | _ \<Rightarrow> None)"
| "b64_quanta strict _ = None"

definition is_newline :: "char \<Rightarrow> bool" where
  "is_newline c \<longleftrightarrow> c = CHR 0x0A \<or> c = CHR 0x0D"

definition b64_decode :: "bool \<Rightarrow> bytes \<Rightarrow> bytes option" where
  "b64_decode strict s = b64_quanta strict (filter (\<lambda>c. \<not> is_newline c) s)"

definition encoded_len :: "nat \<Rightarrow> nat" where
  "encoded_len n = (n + 2) div 3 * 4"

subsection \<open>The alphabet\<close>

lemma b64_val_char [simp]: "n < 64 \<Longrightarrow> b64_val (b64_char n) = Some n"
  by (auto simp: b64_char_def b64_val_def Let_def)

lemma b64_val_pad [simp]: "b64_val pad = None"
  by (simp add: b64_val_def pad_def Let_def)

lemma b64_val_bound: "b64_val c = Some n \<Longrightarrow> n < 64"
  by (auto simp: b64_val_def Let_def split: if_splits)

lemma char_of_43: "char_of (43 :: nat) = CHR ''+''" and char_of_47: "char_of (47 :: nat) = CHR ''/''"
  by (rule byte_val_eqI, simp)+

lemma b64_char_val: "b64_val c = Some n \<Longrightarrow> b64_char n = c"
  by (auto simp: b64_val_def b64_char_def Let_def dest: byte_val_eqI split: if_splits)
    (metis byte_val_eqI char_of_43, metis byte_val_eqI char_of_47)

lemma b64_char_not_newline [simp]: "n < 64 \<Longrightarrow> \<not> is_newline (b64_char n)"
proof
  assume n: "n < 64" and nl: "is_newline (b64_char n)"
  from nl have "b64_val (b64_char n) = None"
    by (auto simp: is_newline_def b64_val_def Let_def)
  with n show False by simp
qed

lemma pad_not_newline [simp]: "\<not> is_newline pad"
  by (simp add: pad_def is_newline_def)

subsection \<open>Round trip, length, canonicity\<close>

lemma div_mod_64: "(b::nat) < 256 \<Longrightarrow> b div 4 < 64 \<and> b mod 4 * 16 < 64 \<and> b mod 16 * 4 < 64 \<and> b div 16 < 16 \<and> b div 64 < 4"
  by auto

lemma mixed_radix: "y < k \<Longrightarrow> (x * k + y) div k = x \<and> (x * k + y) mod k = (y::nat)"
  by simp

lemma quantum_bytes:
  assumes "a < 256" "b < 256" "c < (256::nat)"
  shows "a div 4 * 4 + (a mod 4 * 16 + b div 16) div 16 = a"
    and "(a mod 4 * 16 + b div 16) mod 16 * 16 + (b mod 16 * 4 + c div 64) div 4 = b"
    and "(b mod 16 * 4 + c div 64) mod 4 * 64 + c mod 64 = c"
    and "a mod 4 * 16 + b div 16 < 64" and "b mod 16 * 4 + c div 64 < 64"
proof -
  have b: "b div 16 < 16" and c: "c div 64 < 4" using assms by auto
  show "a div 4 * 4 + (a mod 4 * 16 + b div 16) div 16 = a"
    by (simp only: mixed_radix [OF b] div_mult_mod_eq)
  show "(a mod 4 * 16 + b div 16) mod 16 * 16 + (b mod 16 * 4 + c div 64) div 4 = b"
    by (simp only: mixed_radix [OF b] mixed_radix [OF c] div_mult_mod_eq)
  show "(b mod 16 * 4 + c div 64) mod 4 * 64 + c mod 64 = c"
    by (simp only: mixed_radix [OF c] div_mult_mod_eq)
  have "a mod 4 < 4" "b mod 16 < 16" by simp_all
  with b c show "a mod 4 * 16 + b div 16 < 64" and "b mod 16 * 4 + c div 64 < 64" by linarith+
qed

lemma quantum_bytes_short:
  assumes "b < (256::nat)"
  shows "a div 4 * 4 + (a mod 4 * 16) div 16 = a" and "(a mod 4 * 16) mod 16 = 0"
    and "(a mod 4 * 16 + b div 16) mod 16 * 16 + (b mod 16 * 4) div 4 = b"
    and "(b mod 16 * 4) mod 4 = 0"
proof -
  have b: "b div 16 < 16" using assms by auto
  show "(a mod 4 * 16 + b div 16) mod 16 * 16 + (b mod 16 * 4) div 4 = b"
    using b by (simp only: mixed_radix [OF b]) simp
qed simp_all

text \<open>The alphabet of an encoding: no line break, no quote, no white space.\<close>

definition b64_alphabet :: "char set" where
  "b64_alphabet = insert pad (b64_char ` {..<64})"

lemma b64_alphabet_char [simp]: "n < 64 \<Longrightarrow> b64_char n \<in> b64_alphabet"
  and b64_alphabet_pad [simp]: "pad \<in> b64_alphabet"
  by (simp_all add: b64_alphabet_def)

lemma b64_encode_alphabet: "set (b64_encode s) \<subseteq> b64_alphabet"
proof (induction s rule: b64_encode.induct)
  case (2 a)
  then show ?case using div_mod_64 [OF byte_val_lt [of a]] by (simp add: Let_def)
next
  case (3 a b)
  then show ?case
    using div_mod_64 [OF byte_val_lt [of a]] div_mod_64 [OF byte_val_lt [of b]]
      quantum_bytes(4) [OF byte_val_lt byte_val_lt byte_val_lt, of a b]
    by (simp add: Let_def)
next
  case (4 a b c t)
  then show ?case
    using div_mod_64 [OF byte_val_lt [of a]]
      quantum_bytes(4,5) [OF byte_val_lt [of a] byte_val_lt [of b] byte_val_lt [of c]]
    by (simp add: Let_def)
qed simp

lemma b64_alphabet_excludes: "b64_val c = None \<Longrightarrow> c \<noteq> pad \<Longrightarrow> c \<notin> b64_alphabet"
  by (auto simp: b64_alphabet_def)

lemma b64_encode_chars: "\<forall>c \<in> set (b64_encode s). \<not> is_newline c"
  using b64_encode_alphabet [of s] by (auto simp: b64_alphabet_def)

lemma b64_quanta_encode: "b64_quanta strict (b64_encode s) = Some s"
proof (induction s rule: b64_encode.induct)
  case (2 a)
  then show ?case
    using div_mod_64 [OF byte_val_lt [of a]] quantum_bytes_short(1,2) [OF byte_val_lt [of a]]
    by (simp add: Let_def)
next
  case (3 a b)
  then show ?case
    using div_mod_64 [OF byte_val_lt [of a]] div_mod_64 [OF byte_val_lt [of b]]
      quantum_bytes(1,4) [OF byte_val_lt [of a] byte_val_lt [of b] byte_val_lt [of b]]
      quantum_bytes_short(3) [OF byte_val_lt [of b], of "byte_val a"]
      quantum_bytes_short(4) [OF byte_val_lt [of b]]
    by (simp add: Let_def)
next
  case (4 a b c t)
  then show ?case
    using div_mod_64 [OF byte_val_lt [of a]]
      quantum_bytes [OF byte_val_lt [of a] byte_val_lt [of b] byte_val_lt [of c]]
    by (simp add: Let_def)
qed simp

lemma b64_decode_encode [simp]: "b64_decode strict (b64_encode s) = Some s"
proof -
  have "filter (\<lambda>c. \<not> is_newline c) (b64_encode s) = b64_encode s"
    using b64_encode_chars by (simp add: filter_id_conv)
  then show ?thesis by (simp add: b64_decode_def b64_quanta_encode)
qed

lemma b64_decode_newlines:
  "b64_decode strict (filter (\<lambda>c. \<not> is_newline c) s) = b64_decode strict s"
  by (simp add: b64_decode_def)

lemma length_b64_encode: "length (b64_encode s) = encoded_len (length s)"
proof (induction s rule: b64_encode.induct)
  case (4 a b c t)
  have "(length (a # b # c # t) + 2) div 3 = Suc ((length t + 2) div 3)" by simp
  with 4 show ?case by (simp add: encoded_len_def Let_def)
qed (simp_all add: encoded_len_def Let_def)

end
