(* ===== verification/Crlf_Lines.thy ===== *)
theory Crlf_Lines
  imports Writers Base64
begin

text \<open>
  The download decoder of \<open>internal/remote/transfer_codec.go\<close>: \<open>copyBase64Lines\<close> reads CRLF
  lines through a \<open>bufio.Scanner\<close> whose split function is \<open>splitCRLFLines\<close>, decodes each and
  writes the bytes on.  The input arrives in arbitrary pieces, as an \<open>io.Pipe\<close> delivers them, and
  the scanner's buffer never holds more than \<open>maxLine + 2\<close> bytes.  The lemmas show that neither
  the pieces nor the bound matter: the loop succeeds exactly on well-formed line sequences.
\<close>

subsection \<open>The split function\<close>

abbreviation CR :: char where "CR \<equiv> CHR 0x0D"
abbreviation LF :: char where "LF \<equiv> CHR 0x0A"

text \<open>What a \<open>bufio.SplitFunc\<close> returns: \<open>0, nil, nil\<close>, or an advance and a token, or an error.\<close>

datatype split_result = More | Token nat bytes | Bad goerr

fun cr_index :: "bytes \<Rightarrow> nat option" where
  "cr_index [] = None"
| "cr_index (c # s) = (if c = CR then Some 0 else map_option Suc (cr_index s))"

definition splitCRLFLines :: "nat \<Rightarrow> bytes \<Rightarrow> bool \<Rightarrow> split_result" where
  "splitCRLFLines maxLine data atEOF =
     (case cr_index data of
        Some i \<Rightarrow>
          if i + 1 < length data then
            (if data ! (i + 1) = LF then
               (if i > maxLine then Bad (Msg ''base64 line exceeds maximum length'')
                else Token (i + 2) (take i data))
             else Bad (Msg ''stray CR without LF''))
          else if \<not> atEOF then More
          else Bad (Msg ''stray CR without LF at EOF'')
      | None \<Rightarrow>
          if atEOF then
            (if data = [] then More
             else if length data > maxLine
             then Bad (Msg ''base64 line exceeds maximum length without CRLF'')
             else Bad (Msg ''missing terminal CRLF on last base64 line''))
          else if length data > maxLine
          then Bad (Msg ''base64 line exceeds maximum length without CRLF'')
          else More)"

lemma cr_index_Some: "cr_index s = Some i \<longleftrightarrow> i < length s \<and> s ! i = CR \<and> CR \<notin> set (take i s)"
proof (induction s arbitrary: i)
  case (Cons c s)
  then show ?case by (cases i) auto
qed simp

lemma cr_index_None: "cr_index s = None \<longleftrightarrow> CR \<notin> set s"
  by (induction s) auto

lemma cr_index_line: "CR \<notin> set l \<Longrightarrow> cr_index (l @ CR # r) = Some (length l)"
  by (simp add: cr_index_Some)

lemma split_Token:
  assumes "splitCRLFLines maxLine data eof = Token adv tok"
  shows "data = tok @ CR # LF # drop adv data" and "adv = length tok + 2"
    and "CR \<notin> set tok" and "length tok \<le> maxLine"
proof -
  from assms obtain i where i: "cr_index data = Some i" "i + 1 < length data"
    "data ! (i + 1) = LF" "i \<le> maxLine" "adv = i + 2" "tok = take i data"
    by (auto simp: splitCRLFLines_def split: option.splits if_splits)
  note cr = i(1) [unfolded cr_index_Some]
  have "data = take i data @ data ! i # data ! Suc i # drop (Suc (Suc i)) data"
    using i(2) by (metis Cons_nth_drop_Suc Suc_eq_plus1 Suc_lessD append_take_drop_id)
  then show "data = tok @ CR # LF # drop adv data" using i cr by simp
  show "adv = length tok + 2" "CR \<notin> set tok" "length tok \<le> maxLine" using i cr by auto
qed

lemma split_progress:
  "splitCRLFLines maxLine data eof = Token adv tok \<Longrightarrow> 0 < adv \<and> 0 < length data"
  by (auto simp: splitCRLFLines_def split: option.splits if_splits)

lemma split_line:
  assumes "CR \<notin> set l" and "length l \<le> maxLine"
  shows "splitCRLFLines maxLine (l @ CR # LF # r) eof = Token (length l + 2) l"
  using assms by (simp add: splitCRLFLines_def cr_index_line nth_append)

lemma split_partial:
  assumes "CR \<notin> set l" and "length l \<le> maxLine" and "l @ [CR, LF] = data @ x" and "x \<noteq> []"
  shows "splitCRLFLines maxLine data False = More"
proof -
  have "length data \<le> length l + 1"
    using arg_cong [OF assms(3), of length] assms(4) by (cases x) auto
  then consider "length data \<le> length l" | "length data = length l + 1" by linarith
  then show ?thesis
  proof cases
    case 1
    then have "data = take (length data) l"
      using arg_cong [OF assms(3), of "take (length data)"] by simp
    then have "CR \<notin> set data" using assms(1) by (metis in_set_takeD)
    then have "cr_index data = None" by (simp add: cr_index_None)
    with 1 assms(2) show ?thesis by (simp add: splitCRLFLines_def)
  next
    case 2
    then have "data = l @ [CR]"
      using arg_cong [OF assms(3), of "take (length data)"] by simp
    with assms(1) show ?thesis by (simp add: splitCRLFLines_def cr_index_line)
  qed
qed

lemma split_eof_More: "splitCRLFLines maxLine data True = More \<Longrightarrow> data = []"
  by (auto simp: splitCRLFLines_def cr_index_None split: option.splits if_splits)

subsection \<open>The scanner loop\<close>

text \<open>
  \<open>copy_scan\<close> is the scanner's fill loop together with the body of \<open>copyBase64Lines\<close>: the
  unread part of the buffer, the pieces still to come, whether a read has reported the end, and
  the error the reader ends with (\<open>None\<close> for \<open>io.EOF\<close>).  A read takes at most the free room of
  the buffer.  A read error outranks a split error, as in \<open>Scanner.setErr\<close>.
\<close>

function copy_scan ::
  "'s writer \<Rightarrow> nat \<Rightarrow> bytes \<Rightarrow> bytes list \<Rightarrow> bool \<Rightarrow> goerr option \<Rightarrow> nat \<Rightarrow> 's \<Rightarrow>
   nat \<times> goerr option \<times> 's" where
  "copy_scan w maxLine buf chunks eof fin tot s =
     (case (if buf \<noteq> [] \<or> eof then splitCRLFLines maxLine buf eof else More) of
        Bad e \<Rightarrow> (tot, Some (if eof then case_option e (\<lambda>f. f) fin else e), s)
      | Token adv tok \<Rightarrow>
          (case b64_decode False tok of
             None \<Rightarrow> (tot, Some (Wrap ''invalid base64'' (Msg ''illegal base64 data'')), s)
           | Some d \<Rightarrow>
               (case (if d \<noteq> [] then remote_writeAll w d s else (None, s)) of
                  (Some e, s') \<Rightarrow> (tot, Some e, s')
                | (None, s') \<Rightarrow>
                    copy_scan w maxLine (drop adv buf) chunks eof fin (tot + length d) s'))
      | More \<Rightarrow>
          if eof then (tot, fin, s)
          else if length buf \<ge> maxLine + 2
          then (tot, Some (Msg ''bufio.Scanner: token too long''), s)
          else (case chunks of
                  [] \<Rightarrow> copy_scan w maxLine buf [] True fin tot s
                | c # cs \<Rightarrow>
                    let room = maxLine + 2 - length buf in
                    copy_scan w maxLine (buf @ take room c)
                      (if drop room c = [] then cs else drop room c # cs) eof fin tot s))"
  by pat_completeness auto
termination
  apply (relation "measure (\<lambda>(w, maxLine, buf, chunks, eof, fin, tot, s).
      2 * length (concat chunks) + length chunks + length buf + (if eof then 0 else 1))")
  apply simp_all
  subgoal by arith
  subgoal by (auto dest!: split_progress split: if_splits)
  done

declare copy_scan.simps [simp del]

definition copyBase64Lines ::
  "'s writer \<Rightarrow> bytes list \<Rightarrow> goerr option \<Rightarrow> int \<Rightarrow> 's \<Rightarrow> nat \<times> goerr option \<times> 's" where
  "copyBase64Lines dst chunks fin maxLine s =
     (if maxLine \<le> 0 then (0, Some (Msg ''maxLine must be positive''), s)
      else copy_scan dst (nat maxLine) [] chunks False fin 0 s)"

subsection \<open>Line sequences\<close>

definition crlf_join :: "bytes list \<Rightarrow> bytes" where
  "crlf_join ls = concat (map (\<lambda>l. l @ [CR, LF]) ls)"

text \<open>The lines \<open>ls\<close> decode to the pieces \<open>ds\<close>.\<close>

definition lines_decode :: "nat \<Rightarrow> bytes list \<Rightarrow> bytes list \<Rightarrow> bool" where
  "lines_decode maxLine ls ds \<longleftrightarrow>
     list_all2 (\<lambda>l d. CR \<notin> set l \<and> length l \<le> maxLine \<and> b64_decode False l = Some d) ls ds"

lemma crlf_join_simps [simp]:
  "crlf_join [] = []" "crlf_join (l # ls) = l @ CR # LF # crlf_join ls"
  by (simp_all add: crlf_join_def)

lemma lines_decode_simps [simp]:
  "lines_decode m [] ds \<longleftrightarrow> ds = []"
  "lines_decode m (l # ls) ds \<longleftrightarrow> (\<exists>d ds'. ds = d # ds' \<and> CR \<notin> set l \<and> length l \<le> m \<and>
     b64_decode False l = Some d \<and> lines_decode m ls ds')"
  by (auto simp: lines_decode_def list_all2_Cons1)

text \<open>The view of the buffer that decides the next step, and the step for each view.\<close>

definition scan_view :: "nat \<Rightarrow> bytes \<Rightarrow> bool \<Rightarrow> split_result" where
  "scan_view maxLine buf eof = (if buf \<noteq> [] \<or> eof then splitCRLFLines maxLine buf eof else More)"

lemma scan_view_Token:
  assumes "scan_view maxLine buf eof = Token adv tok"
  shows "buf = tok @ CR # LF # drop adv buf" "CR \<notin> set tok" "length tok \<le> maxLine"
  using assms split_Token [of maxLine buf eof adv tok] by (auto simp: scan_view_def split: if_splits)

lemma scan_view_eof_More: "scan_view maxLine buf True = More \<Longrightarrow> buf = []"
  by (simp add: scan_view_def split_eof_More)

lemma scan_view_line:
  assumes "CR \<notin> set l" and "length l \<le> maxLine"
  shows "scan_view maxLine (l @ CR # LF # r) eof = Token (length l + 2) l"
  using assms by (simp add: scan_view_def split_line)

lemma scan_view_partial:
  assumes "CR \<notin> set l" and "length l \<le> maxLine" and "l @ [CR, LF] = data @ x" and "x \<noteq> []"
  shows "scan_view maxLine data False = More"
  using split_partial [OF assms] by (simp add: scan_view_def)

lemma copy_scan_unfold:
  "copy_scan w m buf chunks eof fin tot s =
     (case scan_view m buf eof of
        Bad e \<Rightarrow> (tot, Some (if eof then case_option e (\<lambda>f. f) fin else e), s)
      | Token adv tok \<Rightarrow>
          (case b64_decode False tok of
             None \<Rightarrow> (tot, Some (Wrap ''invalid base64'' (Msg ''illegal base64 data'')), s)
           | Some d \<Rightarrow>
               (case (if d \<noteq> [] then remote_writeAll w d s else (None, s)) of
                  (Some e, s') \<Rightarrow> (tot, Some e, s')
                | (None, s') \<Rightarrow> copy_scan w m (drop adv buf) chunks eof fin (tot + length d) s'))
      | More \<Rightarrow>
          if eof then (tot, fin, s)
          else if length buf \<ge> m + 2
          then (tot, Some (Msg ''bufio.Scanner: token too long''), s)
          else (case chunks of
                  [] \<Rightarrow> copy_scan w m buf [] True fin tot s
                | c # cs \<Rightarrow>
                    let room = m + 2 - length buf in
                    copy_scan w m (buf @ take room c)
                      (if drop room c = [] then cs else drop room c # cs) eof fin tot s))"
  by (subst copy_scan.simps) (simp only: scan_view_def)

lemma refill: "concat (if drop k c = [] then cs else drop k c # cs) = drop k c @ concat cs"
  by simp

text \<open>Success means that all of the input was a line sequence, decoded and written.\<close>

lemma copy_scan_sound:
  "copy_scan w m buf chunks eof fin tot s = (t, None, s') \<Longrightarrow> io_writer w written \<Longrightarrow>
   (eof \<longrightarrow> chunks = []) \<Longrightarrow>
   \<exists>ls ds. buf @ concat chunks = crlf_join ls \<and> lines_decode m ls ds \<and> fin = None \<and>
     t = tot + length (concat ds) \<and> written s' = written s @ concat ds"
proof (induction w m buf chunks eof fin tot s arbitrary: t s' rule: copy_scan.induct)
  case (1 w m buf chunks eof fin tot s)
  note IH = "1.IH" [folded scan_view_def] and w = "1.prems"(2) and eofc = "1.prems"(3)
  have run: "(t, None, s') = copy_scan w m buf chunks eof fin tot s" using "1.prems"(1) by simp
  note run = run [unfolded copy_scan_unfold [of w m buf chunks eof fin tot s]]
  show ?case
  proof (cases "scan_view m buf eof")
    case More
    show ?thesis
    proof (cases eof)
      case True
      with More run have "buf = []" "fin = None" "t = tot" "s' = s"
        using scan_view_eof_More by auto
      with True eofc show ?thesis by (auto intro!: exI [of _ "[]"])
    next
      case False
      with More run have room: "\<not> m + 2 \<le> length buf" by auto
      show ?thesis
      proof (cases chunks)
        case Nil
        with More False room run have "copy_scan w m buf [] True fin tot s = (t, None, s')" by simp
        from IH(1) [OF More False room Nil this w] Nil show ?thesis by simp
      next
        case (Cons c cs)
        let ?r = "m + 2 - length buf"
        let ?cs = "if drop ?r c = [] then cs else drop ?r c # cs"
        from Cons More False room run
        have rest: "copy_scan w m (buf @ take ?r c) ?cs eof fin tot s = (t, None, s')"
          by (simp add: Let_def)
        have "buf @ concat chunks = (buf @ take ?r c) @ concat ?cs" using Cons by (simp add: refill)
        with IH(2) [OF More False room Cons refl rest w] False show ?thesis by simp
      qed
    qed
  next
    case (Token adv tok)
    note tok = scan_view_Token [OF Token]
    from Token run obtain d where d: "b64_decode False tok = Some d" by (auto split: option.splits)
    obtain r s1 where wr: "(if d \<noteq> [] then remote_writeAll w d s else (None, s)) = (r, s1)"
      by (cases "if d \<noteq> [] then remote_writeAll w d s else (None, s)")
    with Token run d have r: "r = None" by (cases r) simp_all
    with Token run d wr
    have rest: "copy_scan w m (drop adv buf) chunks eof fin (tot + length d) s1 = (t, None, s')"
      by simp
    have "written s1 = written s @ d"
      using wr r io_writer.remote_writeAll_ok [OF w] by (auto split: if_splits)
    moreover from IH(3) [OF Token d wr [symmetric] r rest w eofc]
    obtain ls ds where "drop adv buf @ concat chunks = crlf_join ls" "lines_decode m ls ds"
      "fin = None" "t = tot + length d + length (concat ds)" "written s' = written s1 @ concat ds"
      by blast
    moreover have "buf @ concat chunks = tok @ CR # LF # (drop adv buf @ concat chunks)"
      by (subst tok(1)) simp
    ultimately show ?thesis using tok(2,3) d
      by (intro exI [of _ "tok # ls"] exI [of _ "d # ds"]) simp
  next
    case (Bad e)
    with run show ?thesis by simp
  qed
qed

text \<open>What the buffer of a well-formed input looks like.\<close>

lemma scan_view_good:
  assumes "buf @ rst = crlf_join ls" and "lines_decode m ls ds" and "eof \<longrightarrow> rst = []"
  obtains (more) "scan_view m buf eof = More" and "length buf < m + 2" and "eof \<longrightarrow> ls = []"
  | (line) l ls' where "ls = l # ls'" and "scan_view m buf eof = Token (length l + 2) l"
      and "drop (length l + 2) buf @ rst = crlf_join ls'"
proof (cases ls)
  case Nil
  with assms that(1) show ?thesis
    by (cases eof) (simp_all add: scan_view_def splitCRLFLines_def)
next
  case (Cons l ls')
  with assms(2) have l: "CR \<notin> set l" "length l \<le> m" by auto
  show ?thesis
  proof (cases "length l + 2 \<le> length buf")
    case True
    from Cons assms(1) have "take (length l + 2) (buf @ rst) = l @ [CR, LF]"
      "drop (length l + 2) (buf @ rst) = crlf_join ls'" by simp_all
    with True have buf: "take (length l + 2) buf = l @ [CR, LF]"
      "drop (length l + 2) buf @ rst = crlf_join ls'" by simp_all
    have "buf = take (length l + 2) buf @ drop (length l + 2) buf" by simp
    then have "buf = l @ CR # LF # drop (length l + 2) buf" by (simp only: buf(1)) simp
    with scan_view_line [OF l] have "scan_view m buf eof = Token (length l + 2) l" by metis
    with Cons buf(2) that(2) show ?thesis by blast
  next
    case False
    have "buf @ rst = (l @ [CR, LF]) @ crlf_join ls'" using assms(1) Cons by simp
    then obtain us where "buf = (l @ [CR, LF]) @ us \<or> buf @ us = l @ [CR, LF]"
      unfolding append_eq_append_conv2 by blast
    with False have split: "l @ [CR, LF] = buf @ us" by auto
    have "us \<noteq> []" using arg_cong [OF split, of length] False by auto
    moreover have "\<not> eof"
      using arg_cong [OF assms(1), of length] assms(3) Cons False by auto
    ultimately show ?thesis using that(1) scan_view_partial [OF l split] l(2) False by simp
  qed
qed

text \<open>Every line sequence is accepted, however it is cut into pieces.\<close>

lemma remote_writeAll_total:
  assumes "io_writer w written" and "\<And>p s. fst (snd (w p s)) = None"
  shows "fst (remote_writeAll w p s) = None"
proof (cases "p = []")
  case False
  obtain n err t where w: "w p s = (n, err, t)" by (cases "w p s") auto
  with assms(2) [of p s] have "err = None" by simp
  with io_writer.remote_writeAll_step [OF assms(1) False w] show ?thesis by simp
qed (simp add: remote_writeAll.simps [of w "[]"])

lemma copy_scan_complete:
  "buf @ concat chunks = crlf_join ls \<Longrightarrow> lines_decode m ls ds \<Longrightarrow> (eof \<longrightarrow> chunks = []) \<Longrightarrow>
   io_writer w written \<Longrightarrow> (\<And>p s. fst (snd (w p s)) = None) \<Longrightarrow>
   \<exists>s'. copy_scan w m buf chunks eof None tot s = (tot + length (concat ds), None, s') \<and>
     written s' = written s @ concat ds"
proof (induction w m buf chunks eof "None :: goerr option" tot s arbitrary: ls ds
    rule: copy_scan.induct)
  case (1 w m buf chunks eof tot s)
  note IH = "1.hyps" [folded scan_view_def] and good = "1.prems"
  have eofc: "eof \<longrightarrow> concat chunks = []" using good(3) by simp
  note run = copy_scan_unfold [of w m buf chunks eof None tot s]
  from good(1,2) eofc show ?case
  proof (cases rule: scan_view_good)
    case more
    show ?thesis
    proof (cases eof)
      case True
      with more(3) good(2) have "ds = []" by simp
      with True more(1) show ?thesis unfolding run by simp
    next
      case False
      from more(2) have room: "\<not> m + 2 \<le> length buf" by simp
      show ?thesis
      proof (cases chunks)
        case Nil
        with IH(1) [OF more(1) False room Nil _ good(2) _ good(4,5)] good(1) more(1) False room
        show ?thesis unfolding run by simp
      next
        case (Cons c cs)
        let ?r = "m + 2 - length buf"
        let ?cs = "if drop ?r c = [] then cs else drop ?r c # cs"
        have "(buf @ take ?r c) @ concat ?cs = crlf_join ls" 
          using good(1) Cons append_take_drop_id [of ?r c] unfolding refill
          by (metis append_assoc concat.simps(2))
        moreover have "eof \<longrightarrow> ?cs = []" using False by simp
        ultimately have "\<exists>s'. copy_scan w m (buf @ take ?r c) ?cs eof None tot s =
            (tot + length (concat ds), None, s') \<and> written s' = written s @ concat ds"
          using IH(2) [OF more(1) False room Cons refl _ good(2) _ good(4,5)] by blast
        moreover have "copy_scan w m buf chunks eof None tot s =
            copy_scan w m (buf @ take ?r c) ?cs eof None tot s"
          using more(1) False room Cons unfolding run by (simp add: Let_def)
        ultimately show ?thesis by simp
      qed
    qed
  next
    case (line l ls')
    from good(2) line(1) obtain d ds' where d: "ds = d # ds'" "b64_decode False l = Some d"
      "lines_decode m ls' ds'" by auto
    obtain r s1 where wr: "(if d \<noteq> [] then remote_writeAll w d s else (None, s)) = (r, s1)"
      by (cases "if d \<noteq> [] then remote_writeAll w d s else (None, s)")
    then have r: "r = None"
      using remote_writeAll_total [OF good(4,5), of d s] by (auto split: if_splits)
    have "written s1 = written s @ d"
      using wr r io_writer.remote_writeAll_ok [OF good(4)] by (auto split: if_splits)
    with IH(3) [OF line(2) d(2) wr [symmetric] r line(3) d(3) good(3,4,5)] line(2) d wr r
    show ?thesis unfolding run by (simp add: add.assoc)
  qed
qed

subsection \<open>copyBase64Lines\<close>

text \<open>When \<open>copyBase64Lines\<close> returns no error, the reader ended normally and its whole input,
  however it was cut into pieces, was a sequence of CRLF-terminated lines of at most \<open>maxLine\<close>
  bytes, each strict base64; exactly their decoded bytes were written, and the count is theirs.\<close>

theorem copyBase64Lines_sound:
  assumes "copyBase64Lines (bounded_write limit) chunks fin maxLine b = (n, None, b')"
  shows "\<exists>ls ds. concat chunks = crlf_join ls \<and> lines_decode (nat maxLine) ls ds \<and> fin = None \<and>
    n = length (concat ds) \<and> b' = b @ concat ds"
  using assms copy_scan_sound [OF _ bounded.io_writer_axioms,
      of limit "nat maxLine" "[]" chunks False fin 0 b n b']
  by (auto simp: copyBase64Lines_def split: if_splits)

lemmas crlf_eval = copy_scan.simps copyBase64Lines_def splitCRLFLines_def remote_writeAll.simps
  bounded_write_def b64_decode_def b64_val_def is_newline_def pad_def

theorem copyBase64Lines_sound_witness:
  "\<exists>ls ds. concat [''QU'', ''I='' @ [CR], [LF]] = crlf_join ls \<and> lines_decode (nat 4) ls ds \<and>
     None = (None :: goerr option) \<and> 2 = length (concat ds) \<and> ''AB'' = [] @ concat ds"
proof -
  have "copyBase64Lines (bounded_write 10) [''QU'', ''I='' @ [CR], [LF]] None 4 [] =
    (2, None, ''AB'')" by (simp add: crlf_eval char_of_def bit_0)
  from copyBase64Lines_sound [OF this] show ?thesis .
qed

text \<open>The sender's side: the base64 lines of the given pieces.\<close>

definition encoded_lines :: "bytes list \<Rightarrow> bytes" where
  "encoded_lines ps = crlf_join (map b64_encode ps)"

lemma lines_decode_encoded:
  "\<forall>p \<in> set ps. length (b64_encode p) \<le> m \<Longrightarrow> lines_decode m (map b64_encode ps) ps"
proof (induction ps)
  case (Cons p ps)
  have "CR \<notin> set (b64_encode p)" using b64_encode_chars [of p] by (auto simp: is_newline_def)
  with Cons show ?case by simp
qed simp

lemma copy_encoded:
  assumes "concat chunks = encoded_lines ps" and "0 < maxLine"
    and "\<forall>p \<in> set ps. int (length (b64_encode p)) \<le> maxLine"
  shows "copyBase64Lines buffer_write chunks None maxLine b =
    (length (concat ps), None, b @ concat ps)"
proof -
  have m: "lines_decode (nat maxLine) (map b64_encode ps) ps"
    using assms(2,3) by (intro lines_decode_encoded) auto
  have "[] @ concat chunks = crlf_join (map b64_encode ps)" using assms(1) by (simp add: encoded_lines_def)
  from copy_scan_complete [of "[]" chunks _ _ _ False buffer_write "\<lambda>b. b" 0 b,
      OF this m _ buffer.io_writer_axioms buffer_write_ok]
  have "copy_scan buffer_write (nat maxLine) [] chunks False None 0 b =
    (length (concat ps), None, b @ concat ps)" by auto
  with assms(2) show ?thesis by (simp add: copyBase64Lines_def)
qed

text \<open>C38: Decoding is independent of how the output stream is cut: pieces encoded with base64,
  one per line, and delivered in arbitrary chunks are decoded and written without an error, to
  exactly the pieces (into a buffer without a limit).\<close>

theorem copyBase64Lines_roundtrip:
  assumes "concat chunks = encoded_lines ps" and "0 < maxLine"
    and "\<forall>p \<in> set ps. int (length (b64_encode p)) \<le> maxLine"
  shows "copyBase64Lines buffer_write chunks None maxLine b =
    (length (concat ps), None, b @ concat ps)"
  using assms by (rule copy_encoded)

theorem copyBase64Lines_roundtrip_witness:
  "copyBase64Lines buffer_write
     [take 3 (encoded_lines [''hello'', ''A'']), drop 3 (encoded_lines [''hello'', ''A''])] None 8 [] =
   (6, None, ''helloA'')"
  using copyBase64Lines_roundtrip
    [of "[take 3 (encoded_lines [''hello'', ''A'']), drop 3 (encoded_lines [''hello'', ''A''])]"
      "[''hello'', ''A'']" 8 "[]"]
  by (simp add: length_b64_encode encoded_len_def)

end
