(* ===== verification/Chunk_Size.thy ===== *)
theory Chunk_Size
  imports Go_Errors
begin

text \<open>
  \<open>chunkSize\<close> of \<open>internal/remote/transfer_codec.go\<close>: the binary search for the largest raw chunk
  whose SOAP message fits the envelope.  The builder is code of the WinRM library (the caller
  wraps its request constructor), so it is a parameter: a function from the chunk to an error or
  the message.  The search calls it on zero bytes only, as the code does.
\<close>

type_synonym chunk_builder = "bytes \<Rightarrow> goerr + bytes"

abbreviation zeros :: "nat \<Rightarrow> bytes" where
  "zeros n \<equiv> replicate n (CHR 0x00)"

text \<open>The loop \<open>for lo < hi\<close>.\<close>

function chunk_search :: "nat \<Rightarrow> chunk_builder \<Rightarrow> nat \<Rightarrow> nat \<Rightarrow> goerr + nat" where
  "chunk_search maxEnvelope builder lo hi =
     (if lo < hi then
        (let mid = (lo + hi + 1) div 2 in
         case builder (zeros mid) of
           Inl e \<Rightarrow> Inl (Wrap ''builder(n)'' e)
         | Inr s \<Rightarrow>
             if length s \<le> maxEnvelope then chunk_search maxEnvelope builder mid hi
             else chunk_search maxEnvelope builder lo (mid - 1))
      else Inr lo)"
  by pat_completeness auto
termination by (relation "measure (\<lambda>(m, b, lo, hi). hi - lo)") auto

declare chunk_search.simps [simp del]

text \<open>The builder argument may be nil in the source, hence the option.\<close>

definition chunkSize :: "int \<Rightarrow> chunk_builder option \<Rightarrow> goerr + nat" where
  "chunkSize maxEnvelope builder =
     (if maxEnvelope \<le> 0 then Inl (Msg ''envelope must be positive'')
      else case builder of
        None \<Rightarrow> Inl (Msg ''builder required'')
      | Some f \<Rightarrow>
          (case f [] of
             Inl e \<Rightarrow> Inl (Wrap ''builder empty'' e)
           | Inr _ \<Rightarrow>
               (case f (zeros 1) of
                  Inl e \<Rightarrow> Inl (Wrap ''builder(1)'' e)
                | Inr s \<Rightarrow>
                    if int (length s) > maxEnvelope
                    then Inl (Msg ''envelope too small for any chunk'')
                    else chunk_search (nat maxEnvelope) f 1 (nat maxEnvelope))))"

text \<open>A chunk of \<open>n\<close> zero bytes fits.\<close>

definition chunk_fits :: "nat \<Rightarrow> chunk_builder \<Rightarrow> nat \<Rightarrow> bool" where
  "chunk_fits maxEnvelope builder n \<longleftrightarrow>
     (case builder (zeros n) of Inl e \<Rightarrow> False | Inr s \<Rightarrow> length s \<le> maxEnvelope)"

text \<open>A chunk of \<open>n\<close> zero bytes is built and does not fit.\<close>

definition chunk_too_big :: "nat \<Rightarrow> chunk_builder \<Rightarrow> nat \<Rightarrow> bool" where
  "chunk_too_big maxEnvelope builder n \<longleftrightarrow>
     (case builder (zeros n) of Inl e \<Rightarrow> False | Inr s \<Rightarrow> maxEnvelope < length s)"

text \<open>The documented assumption on the builder: longer chunks never give shorter messages.\<close>

definition monotone_builder :: "chunk_builder \<Rightarrow> bool" where
  "monotone_builder f \<longleftrightarrow>
     (\<forall>j k s t. j \<le> k \<longrightarrow> f (zeros j) = Inr s \<longrightarrow> f (zeros k) = Inr t \<longrightarrow> length s \<le> length t)"

subsection \<open>The search\<close>

lemma chunk_search_spec:
  "chunk_search m f lo hi = Inr n \<Longrightarrow> lo \<le> hi \<Longrightarrow> chunk_fits m f lo \<Longrightarrow>
     chunk_fits m f n \<and> lo \<le> n \<and> n \<le> hi \<and> (n < hi \<longrightarrow> chunk_too_big m f (n + 1))"
proof (induction m f lo hi rule: chunk_search.induct)
  case (1 m f lo hi)
  show ?case
  proof (cases "lo < hi")
    case False
    with 1 show ?thesis by (simp add: chunk_search.simps [of m f lo hi])
  next
    case True
    define mid where "mid = (lo + hi + 1) div 2"
    have mid: "lo < mid" "mid \<le> hi" using True by (auto simp: mid_def)
    from "1.prems"(1) True obtain s where s: "f (zeros mid) = Inr s"
      by (auto simp: chunk_search.simps [of m f lo hi] Let_def mid_def split: sum.splits)
    show ?thesis
    proof (cases "length s \<le> m")
      case fits: True
      with s True "1.prems"(1) have "chunk_search m f mid hi = Inr n"
        by (simp add: chunk_search.simps [of m f lo hi] mid_def)
      with "1.IH"(1) [OF True mid_def s fits] mid s fits show ?thesis
        by (auto simp: chunk_fits_def)
    next
      case no: False
      with s True "1.prems"(1) have "chunk_search m f lo (mid - 1) = Inr n"
        by (simp add: chunk_search.simps [of m f lo hi] mid_def)
      with "1.IH"(2) [OF True mid_def s no] mid "1.prems"(3)
      have *: "chunk_fits m f n \<and> lo \<le> n \<and> n \<le> mid - 1 \<and>
        (n < mid - 1 \<longrightarrow> chunk_too_big m f (n + 1))" by auto
      have "chunk_too_big m f mid" using s no by (simp add: chunk_too_big_def)
      then have "n = mid - 1 \<longrightarrow> chunk_too_big m f (n + 1)" using mid by simp
      with * mid show ?thesis by auto
    qed
  qed
qed

lemma chunk_search_total:
  "(\<And>k. \<exists>s. f (zeros k) = Inr s) \<Longrightarrow> \<exists>n. chunk_search m f lo hi = Inr n"
proof (induction m f lo hi rule: chunk_search.induct)
  case (1 m f lo hi)
  show ?case
  proof (cases "lo < hi")
    case True
    obtain s where s: "f (zeros ((lo + hi + 1) div 2)) = Inr s" using "1.prems" by blast
    with "1.IH" [OF True refl s] "1.prems" True show ?thesis
      by (cases "length s \<le> m") (auto simp: chunk_search.simps [of m f lo hi])
  qed (simp add: chunk_search.simps [of m f lo hi])
qed

subsection \<open>Properties\<close>

lemma monotone_too_big:
  assumes "monotone_builder f" and "chunk_too_big m f j" and "j \<le> k"
  shows "\<not> chunk_fits m f k"
proof
  assume "chunk_fits m f k"
  then obtain t where t: "f (zeros k) = Inr t" "length t \<le> m"
    by (auto simp: chunk_fits_def split: sum.splits)
  from assms(2) obtain s where s: "f (zeros j) = Inr s" "m < length s"
    by (auto simp: chunk_too_big_def split: sum.splits)
  from assms(1,3) s(1) t(1) have "length s \<le> length t" unfolding monotone_builder_def by blast
  with s t show False by simp
qed

text \<open>A size that \<open>chunkSize\<close> returns is positive, at most the envelope, its message fits the
  envelope, and the next larger chunk was built and does not fit (unless the size is the envelope
  itself); when longer chunks never give shorter messages, no larger chunk up to the envelope
  fits.\<close>

theorem chunkSize_fits:
  assumes "chunkSize maxEnvelope (Some f) = Inr n"
  shows "0 < n \<and> int n \<le> maxEnvelope \<and> chunk_fits (nat maxEnvelope) f n \<and>
    (int n < maxEnvelope \<longrightarrow> chunk_too_big (nat maxEnvelope) f (n + 1)) \<and>
    (monotone_builder f \<longrightarrow>
       (\<forall>k. n < k \<and> int k \<le> maxEnvelope \<longrightarrow> \<not> chunk_fits (nat maxEnvelope) f k))"
proof -
  from assms have pos: "0 < maxEnvelope" and run: "chunk_search (nat maxEnvelope) f 1 (nat maxEnvelope) = Inr n"
    and one: "chunk_fits (nat maxEnvelope) f 1"
    by (auto simp: chunkSize_def chunk_fits_def split: if_splits sum.splits)
  have "1 \<le> nat maxEnvelope" using pos by simp
  from chunk_search_spec [OF run this one] pos
  have n: "chunk_fits (nat maxEnvelope) f n" "0 < n" "int n \<le> maxEnvelope"
    "int n < maxEnvelope \<longrightarrow> chunk_too_big (nat maxEnvelope) f (n + 1)" by (linarith | simp)+
  then show ?thesis using monotone_too_big [of f "nat maxEnvelope" "n + 1"] by auto
qed

text \<open>A builder shaped as the code's: a fixed envelope around the base64 of the chunk.\<close>

definition sample_builder :: "nat \<Rightarrow> chunk_builder" where
  "sample_builder overhead p = Inr (replicate (overhead + 4 * ((length p + 2) div 3)) (CHR ''x''))"

lemma sample_search: "chunkSize 40 (Some (sample_builder 10)) = Inr 21"
  by (simp add: chunkSize_def sample_builder_def chunk_search.simps)

theorem chunkSize_fits_witness:
  "chunk_fits 40 (sample_builder 10) 21 \<and> chunk_too_big 40 (sample_builder 10) 22"
  using chunkSize_fits [OF sample_search] by simp

text \<open>When every call of the builder succeeds, the search returns a size exactly when one byte
  fits the (positive) envelope.\<close>

theorem chunkSize_total:
  assumes "\<And>p. \<exists>s. f p = Inr s"
  shows "(\<exists>n. chunkSize maxEnvelope (Some f) = Inr n) \<longleftrightarrow>
    0 < maxEnvelope \<and> chunk_fits (nat maxEnvelope) f 1"
proof -
  obtain s where s: "f [] = Inr s" using assms by blast
  obtain t where t: "f (zeros 1) = Inr t" using assms by blast
  obtain n where "chunk_search (nat maxEnvelope) f 1 (nat maxEnvelope) = Inr n"
    using chunk_search_total assms by blast
  with s t show ?thesis by (auto simp: chunkSize_def chunk_fits_def)
qed

theorem chunkSize_total_witness:
  "(\<exists>n. chunkSize 12 (Some (sample_builder 10)) = Inr n) \<longleftrightarrow>
    0 < (12 :: int) \<and> chunk_fits (nat 12) (sample_builder 10) 1"
  by (rule chunkSize_total) (simp add: sample_builder_def)

end
