(* ===== verification/Poster.thy ===== *)
theory Poster
  imports Go_Errors
begin

text \<open>
  The interface between the WinRM session and its transports: \<open>poster\<close> of \<open>runner.go\<close> and
  \<open>Poster\<close> of \<open>persistent.go\<close> (all under \<open>internal/remote\<close>).  A transport posts one SOAP message and
  returns a reply or an error; the world it acts on is a parameter, and so is the reading of a
  context in that world.  The contract is what the code's cleanup and retry decisions rest on: a post
  writes its message at most once, and an error marked \<open>errUnsent\<close> means it was not written.
\<close>

type_synonym 'w ctx = "'w \<Rightarrow> ctx_err option"
type_synonym 'w post = "'w ctx \<Rightarrow> bytes \<Rightarrow> 'w \<Rightarrow> (goerr + bytes) \<times> 'w"

text \<open>An error that claims nothing about the remote shell: only the session layer adds those marks.\<close>

definition unmarked :: "goerr \<Rightarrow> bool" where
  "unmarked e \<longleftrightarrow> \<not> errors_is e ErrNotStarted \<and> \<not> errors_is e ErrRemoteStateUnknown \<and>
     \<not> errors_is e ErrCleanupFailed \<and> \<not> errors_is e ErrOperationTimeout"

lemma unmarked_simps [simp]:
  "unmarked (Msg m)" "unmarked (Wrap p e) \<longleftrightarrow> unmarked e" "unmarked (unsent e) \<longleftrightarrow> unmarked e"
  "unmarked (NetError b e) \<longleftrightarrow> unmarked e" "unmarked (HandshakeTransport p e) \<longleftrightarrow> unmarked e"
  "unmarked (ctx_goerr c)" "unmarked (Sentinel IoEOF)" "unmarked (Sentinel IoUnexpectedEOF)"
  "unmarked (Sentinel ConnReset)" "unmarked (Sentinel ErrReplayRefused)"
  by (auto simp: unmarked_def)

text \<open>Starting from \<open>sent\<close>, the message was written at most once, exactly once if there is a reply, and
  not at all if the error says so.\<close>

definition once :: "('w \<Rightarrow> bytes list) \<Rightarrow> bytes list \<Rightarrow> bytes \<Rightarrow> goerr + bytes \<Rightarrow> 'w \<Rightarrow> bool" where
  "once wire sent m r w \<longleftrightarrow> (wire w = sent \<or> wire w = sent @ [m]) \<and>
     (\<forall>x. r = Inr x \<longrightarrow> wire w = sent @ [m]) \<and>
     (\<forall>e. r = Inl e \<longrightarrow> unmarked e \<and> (errors_is e ErrUnsent \<longrightarrow> wire w = sent))"

text \<open>\<open>wire\<close> is the list of SOAP messages that may have reached the server, in order.\<close>

locale poster =
  fixes post :: "'w post" and wire :: "'w \<Rightarrow> bytes list"
  assumes reply_sent: "post ctx m w = (Inr r, w') \<Longrightarrow> wire w' = wire w @ [m]"
    and error_once: "post ctx m w = (Inl e, w') \<Longrightarrow> wire w' = wire w \<or> wire w' = wire w @ [m]"
    and unsent_silent: "post ctx m w = (Inl e, w') \<Longrightarrow> errors_is e ErrUnsent \<Longrightarrow> wire w' = wire w"
    and error_unmarked: "post ctx m w = (Inl e, w') \<Longrightarrow> unmarked e"
begin

lemma post_at_most_once: "post ctx m w = (r, w') \<Longrightarrow> wire w' = wire w \<or> wire w' = wire w @ [m]"
  using reply_sent error_once by (cases r) auto

lemma post_once: "post ctx m w = (r, w') \<Longrightarrow> once wire (wire w) m r w'"
  using reply_sent error_once unsent_silent error_unmarked by (cases r) (auto simp: once_def)

end

text \<open>A list of transports tried in order, the next one only after an unsent error; this is how a
  Delete is handed from lane to lane.  \<open>None\<close> is a nil poster, which is skipped.\<close>

fun post_alternatives ::
  "'w post option list \<Rightarrow> 'w ctx \<Rightarrow> bytes \<Rightarrow> (goerr + bytes) \<times> 'w \<Rightarrow> (goerr + bytes) \<times> 'w" where
  "post_alternatives [] ctx m r = r"
| "post_alternatives (p # ps) ctx m (r, w) =
     (case r of
        Inr x \<Rightarrow> (r, w)
      | Inl e \<Rightarrow>
          if \<not> errors_is e ErrUnsent then (r, w)
          else case p of
            None \<Rightarrow> post_alternatives ps ctx m (r, w)
          | Some post \<Rightarrow> post_alternatives ps ctx m (post ctx m w))"

text \<open>However many alternatives there are, the message is written at most once.\<close>

lemma post_alternatives_once:
  "\<forall>post. Some post \<in> set ps \<longrightarrow> poster post wire \<Longrightarrow> once wire sent m r w \<Longrightarrow>
   post_alternatives ps ctx m (r, w) = (r', w') \<Longrightarrow> once wire sent m r' w'"
proof (induction ps arbitrary: r w)
  case (Cons p ps)
  show ?case
  proof (cases "\<exists>e. r = Inl e \<and> errors_is e ErrUnsent")
    case True
    then obtain e where e: "r = Inl e" "errors_is e ErrUnsent" by blast
    show ?thesis
    proof (cases p)
      case None
      with Cons.prems e have "post_alternatives ps ctx m (r, w) = (r', w')" by simp
      with Cons.prems(1,2) show ?thesis by (intro Cons.IH) auto
    next
      case (Some post)
      then have P: "poster post wire" using Cons.prems(1) by simp
      obtain r1 w1 where post: "post ctx m w = (r1, w1)" by (cases "post ctx m w")
      have "wire w = sent" using Cons.prems(2) e by (simp add: once_def)
      then have "once wire sent m r1 w1" using poster.post_once [OF P post] by simp
      moreover have "post_alternatives ps ctx m (r1, w1) = (r', w')"
        using Cons.prems(3) e Some post by simp
      ultimately show ?thesis using Cons.prems(1) by (intro Cons.IH) auto
    qed
  next
    case False
    with Cons.prems show ?thesis by (cases r) auto
  qed
qed simp

end
