(* ===== verification/Byte_Order.thy ===== *)
theory Byte_Order
  imports Go_Errors "HOL-Library.Word"
begin

text \<open>
  Go slices with their bounds checks, and the fixed-width integers of \<open>encoding/binary\<close>
  (little endian for NTLM messages, big endian for control frames).  An operation that would panic
  gives \<open>None\<close>; \<open>guarded\<close> turns that into the \<open>GoPanic\<close> error of the enclosing function.
\<close>

subsection \<open>Slices\<close>

definition go_slice :: "'a list \<Rightarrow> nat \<Rightarrow> nat \<Rightarrow> 'a list option" where
  "go_slice b i j = (if i \<le> j \<and> j \<le> length b then Some (take (j - i) (drop i b)) else None)"

definition go_from :: "'a list \<Rightarrow> nat \<Rightarrow> 'a list option" where
  "go_from b i = (if i \<le> length b then Some (drop i b) else None)"

definition guarded :: "'a option \<Rightarrow> ('a \<Rightarrow> goerr + 'b) \<Rightarrow> goerr + 'b" where
  "guarded x f = (case x of None \<Rightarrow> Inl (Sentinel GoPanic) | Some v \<Rightarrow> f v)"

lemma guarded_simps [simp]:
  "guarded (Some v) f = f v"
  "guarded None f = Inl (Sentinel GoPanic)"
  by (simp_all add: guarded_def)

lemma guarded_cong [fundef_cong]:
  "x = y \<Longrightarrow> (\<And>v. y = Some v \<Longrightarrow> f v = g v) \<Longrightarrow> guarded x f = guarded y g"
  by (cases y) auto

lemma go_slice_ok [simp]: "i \<le> j \<Longrightarrow> j \<le> length b \<Longrightarrow> go_slice b i j = Some (take (j - i) (drop i b))"
  by (simp add: go_slice_def)

lemma go_from_ok [simp]: "i \<le> length b \<Longrightarrow> go_from b i = Some (drop i b)"
  by (simp add: go_from_def)

subsection \<open>Fixed-width integers\<close>

fun le16 :: "bytes \<Rightarrow> nat option" where
  "le16 (a # b # _) = Some (byte_val a + 256 * byte_val b)"
| "le16 _ = None"

fun le32 :: "bytes \<Rightarrow> nat option" where
  "le32 (a # b # c # d # _) =
     Some (byte_val a + 256 * (byte_val b + 256 * (byte_val c + 256 * byte_val d)))"
| "le32 _ = None"

fun be32 :: "bytes \<Rightarrow> nat option" where
  "be32 (a # b # c # d # _) =
     Some (byte_val d + 256 * (byte_val c + 256 * (byte_val b + 256 * byte_val a)))"
| "be32 _ = None"

definition put_le16 :: "nat \<Rightarrow> bytes" where
  "put_le16 n = [char_of n, char_of (n div 256)]"

definition put_be32 :: "nat \<Rightarrow> bytes" where
  "put_be32 n = [char_of (n div 16777216), char_of (n div 65536), char_of (n div 256), char_of n]"

lemma long_append: "k \<le> length b \<Longrightarrow> \<exists>h t. b = h @ t \<and> length h = k"
  by (metis append_take_drop_id length_take min.absorb2)

lemma le16_long: "2 \<le> length b \<Longrightarrow> \<exists>n. le16 b = Some n"
  by (cases b rule: le16.cases) auto

lemma le32_long: "4 \<le> length b \<Longrightarrow> \<exists>n. le32 b = Some n"
  by (cases b rule: le32.cases) auto

lemma be32_long: "4 \<le> length b \<Longrightarrow> \<exists>n. be32 b = Some n"
  by (cases b rule: be32.cases) auto

lemma le16_at:
  assumes "i + 2 \<le> length b"
  obtains n where "le16 (drop i b) = Some n"
  using assms le16_long [of "drop i b"] by fastforce

lemma le32_at:
  assumes "i + 4 \<le> length b"
  obtains n where "le32 (drop i b) = Some n"
  using assms le32_long [of "drop i b"] by fastforce

lemma le16_bound: "le16 b = Some n \<Longrightarrow> n < 65536"
proof (cases b rule: le16.cases)
  case (1 x y s)
  assume "le16 b = Some n"
  with 1 have "n = byte_val x + 256 * byte_val y" by simp
  then show ?thesis using byte_val_lt [of x] byte_val_lt [of y] by linarith
qed auto

lemma digits_256: "y < 256 \<Longrightarrow> (y + 256 * x) div 256 = x \<and> (y + 256 * x) mod 256 = (y :: nat)"
  by simp

lemma byte_val_char_of_mod: "byte_val (char_of n) = n mod 256"
  by simp

lemma char_of_cong: "m mod 256 = n mod 256 \<Longrightarrow> (char_of m :: char) = char_of n" for m n :: nat
  by (metis char_of_mod_256)

lemma le16_put [simp]: "n < 65536 \<Longrightarrow> le16 (put_le16 n @ r) = Some n"
proof -
  assume n: "n < 65536"
  have "n mod 256 + 256 * (n div 256 mod 256) = n mod 65536"
    using mod_mult2_eq [of n 256 256] by simp
  with n show ?thesis by (simp add: put_le16_def)
qed

lemma put_le16: "le16 b = Some n \<Longrightarrow> b = put_le16 n @ drop 2 b"
proof (cases b rule: le16.cases)
  case (1 x y s)
  assume "le16 b = Some n"
  with 1 have n: "n = byte_val x + 256 * byte_val y" by simp
  have "char_of n = x"
    using char_of_cong [of n "byte_val x"] digits_256 [of "byte_val x" "byte_val y"] n by simp
  moreover have "n div 256 = byte_val y" using digits_256 [of "byte_val x" "byte_val y"] n by simp
  ultimately show ?thesis using 1 by (simp add: put_le16_def)
qed auto

lemma be32_put [simp]: "n < 2 ^ 32 \<Longrightarrow> be32 (put_be32 n @ r) = Some n"
proof -
  assume n: "n < 2 ^ 32"
  have "n div 65536 = n div 256 div 256" "n div 16777216 = n div 65536 div 256"
    using div_mult2_eq [of n 256 256] div_mult2_eq [of n 65536 256] by simp_all
  then have d: "n = n mod 256 + 256 * (n div 256)"
    "n div 256 = n div 256 mod 256 + 256 * (n div 65536)"
    "n div 65536 = n div 65536 mod 256 + 256 * (n div 16777216)" by simp_all
  have "n div 16777216 < 256" using n by (simp add: less_mult_imp_div_less)
  then have "n div 16777216 mod 256 = n div 16777216" by simp
  with d show ?thesis by (simp only: put_be32_def append.simps be32.simps byte_val_char_of_mod)
qed

lemma put_be32: "be32 b = Some n \<Longrightarrow> b = put_be32 n @ drop 4 b"
proof (cases b rule: be32.cases)
  case (1 w x y z s)
  assume "be32 b = Some n"
  with 1 have n: "n = byte_val z + 256 * (byte_val y + 256 * (byte_val x + 256 * byte_val w))" by simp
  note dm = digits_256 [OF byte_val_lt, THEN conjunct1] digits_256 [OF byte_val_lt, THEN conjunct2]
  have d1: "n div 256 = byte_val y + 256 * (byte_val x + 256 * byte_val w)" "n mod 256 = byte_val z"
    unfolding n by (rule dm)+
  have "n div 65536 = n div 256 div 256" using div_mult2_eq [of n 256 256] by simp
  then have d2: "n div 65536 = byte_val x + 256 * byte_val w" unfolding d1(1) dm .
  have "n div 16777216 = n div 65536 div 256" using div_mult2_eq [of n 65536 256] by simp
  then have d3: "n div 16777216 = byte_val w" unfolding d2 dm .
  have m: "(n div 256) mod 256 = byte_val y" "(n div 65536) mod 256 = byte_val x"
    unfolding d1(1) d2 by (rule dm)+
  have "char_of n = z" "char_of (n div 256) = y" "char_of (n div 65536) = x"
    "char_of (n div 16777216) = w"
    using char_of_cong [of n "byte_val z"] char_of_cong [of "n div 256" "byte_val y"]
      char_of_cong [of "n div 65536" "byte_val x"] d1(2) m d3 by simp_all
  with 1 show ?thesis by (simp add: put_be32_def)
qed auto

lemma be32_bound: "be32 b = Some n \<Longrightarrow> n < 2 ^ 32"
proof (cases b rule: be32.cases)
  case (1 w x y z s)
  assume "be32 b = Some n"
  with 1 have "n = byte_val z + 256 * (byte_val y + 256 * (byte_val x + 256 * byte_val w))" by simp
  moreover have "byte_val x + 256 * byte_val w \<le> 65535"
    using byte_val_lt [of w] byte_val_lt [of x] by linarith
  moreover have "byte_val z + 256 * byte_val y \<le> 65535"
    using byte_val_lt [of y] byte_val_lt [of z] by linarith
  ultimately have "n < 4294967296" by simp
  then show ?thesis by simp
qed auto

lemma length_put [simp]: "length (put_le16 n) = 2" "length (put_be32 n) = 4"
  by (simp_all add: put_le16_def put_be32_def)

end
