(* ===== verification/Go_Text.thy ===== *)
theory Go_Text
  imports Go_Strings
begin

text \<open>
  More of Go's library on byte strings: \<open>strings.TrimSpace\<close>, \<open>strings.Split\<close>, \<open>strings.Join\<close>,
  \<open>strings.ReplaceAll\<close>, and decimal numbers as \<open>strconv.Atoi\<close> reads and \<open>fmt\<close> prints them.
\<close>

subsection \<open>TrimSpace\<close>

text \<open>The UTF-8 encodings of the code points for which \<open>unicode.IsSpace\<close> holds.\<close>

definition ascii_spaces :: "char list" where
  "ascii_spaces = [CHR 0x20, CHR 0x09, CHR 0x0A, CHR 0x0B, CHR 0x0C, CHR 0x0D]"

definition wide_spaces :: "bytes list" where
  "wide_spaces = [[CHR 0xC2, CHR 0x85], [CHR 0xC2, CHR 0xA0], [CHR 0xE1, CHR 0x9A, CHR 0x80]] @
     map (\<lambda>n. [CHR 0xE2, CHR 0x80, char_of (n :: nat)]) ([0x80..<0x8B] @ [0xA8, 0xA9, 0xAF]) @
     [[CHR 0xE2, CHR 0x81, CHR 0x9F], [CHR 0xE3, CHR 0x80, CHR 0x80]]"

definition space_seqs :: "bytes list" where
  "space_seqs = map (\<lambda>c. [c]) ascii_spaces @ wide_spaces"

text \<open>Strip one of the given sequences in front, as long as there is one.\<close>

function strip_seqs :: "bytes list \<Rightarrow> bytes \<Rightarrow> bytes" where
  "strip_seqs ps s =
     (case find (\<lambda>p. p \<noteq> [] \<and> has_prefix s p) ps of
        None \<Rightarrow> s
      | Some p \<Rightarrow> strip_seqs ps (drop (length p) s))"
  by pat_completeness auto
termination
proof (relation "measure (\<lambda>(ps, s). length s)")
  fix ps :: "bytes list" and s p
  assume "find (\<lambda>p. p \<noteq> [] \<and> has_prefix s p) ps = Some p"
  then have "p \<noteq> [] \<and> has_prefix s p" by (auto simp: find_Some_iff)
  then show "((ps, drop (length p) s), ps, s) \<in> measure (\<lambda>(ps, s). length s)"
    by (cases p) (auto simp: has_prefix_iff)
qed simp

declare strip_seqs.simps [simp del]

definition trim_left_space :: "bytes \<Rightarrow> bytes" where
  "trim_left_space s = strip_seqs space_seqs s"

definition trim_right_space :: "bytes \<Rightarrow> bytes" where
  "trim_right_space s = rev (strip_seqs (map rev space_seqs) (rev s))"

definition trim_space :: "bytes \<Rightarrow> bytes" where
  "trim_space s = trim_right_space (trim_left_space s)"

text \<open>First bytes, and last bytes, of the space sequences: any other byte ends the trimming.\<close>

definition space_heads :: "char set" where
  "space_heads = set (map hd space_seqs)"

definition space_lasts :: "char set" where
  "space_lasts = set (map last space_seqs)"

lemma strip_seqs_stop:
  assumes "\<forall>p \<in> set ps. p \<noteq> [] \<longrightarrow> hd p \<noteq> c"
  shows "strip_seqs ps (c # s) = c # s"
proof -
  have "\<not> has_prefix (c # s) p" if "p \<in> set ps" "p \<noteq> []" for p
  proof -
    have "hd p \<noteq> c" using assms that by blast
    with that(2) show ?thesis by (cases p) (auto simp: has_prefix_def)
  qed
  then have "find (\<lambda>p. p \<noteq> [] \<and> has_prefix (c # s) p) ps = None" by (auto simp: find_None_iff)
  then show ?thesis by (simp add: strip_seqs.simps [of ps "c # s"])
qed

lemma strip_seqs_Nil: "strip_seqs ps [] = []"
proof -
  have "find (\<lambda>p. p \<noteq> [] \<and> has_prefix [] p) ps = None"
    by (auto simp: find_None_iff has_prefix_def)
  then show ?thesis by (simp add: strip_seqs.simps [of ps "[]"])
qed

lemma strip_space:
  assumes "c \<in> set ascii_spaces"
  shows "strip_seqs space_seqs (c # s) = strip_seqs space_seqs s"
proof -
  have "find (\<lambda>p. p \<noteq> [] \<and> has_prefix (c # s) p) space_seqs = Some [c]"
    using assms by (auto simp: space_seqs_def ascii_spaces_def has_prefix_def)
  then show ?thesis by (simp add: strip_seqs.simps [of space_seqs "c # s"])
qed

lemma trim_left_simps [go_simps]:
  "trim_left_space [] = []"
  "c \<in> set ascii_spaces \<Longrightarrow> trim_left_space (c # s) = trim_left_space s"
  "c \<notin> space_heads \<Longrightarrow> trim_left_space (c # s) = c # s"
  unfolding trim_left_space_def
  by (simp_all add: strip_seqs_Nil strip_space) (rule strip_seqs_stop, auto simp: space_heads_def)

lemma trim_right_snoc_stop [go_simps]: "c \<notin> space_lasts \<Longrightarrow> trim_right_space (s @ [c]) = s @ [c]"
proof -
  assume c: "c \<notin> space_lasts"
  have "strip_seqs (map rev space_seqs) (c # rev s) = c # rev s"
    using c by (intro strip_seqs_stop) (auto simp: space_lasts_def hd_rev)
  then show ?thesis by (simp add: trim_right_space_def)
qed

lemma trim_right_Nil [go_simps]: "trim_right_space [] = []"
  by (simp add: trim_right_space_def strip_seqs_Nil)

lemma space_heads_ascii:
  "c < CHR 0x80 \<Longrightarrow> c \<notin> set ascii_spaces \<Longrightarrow> c \<notin> space_heads \<and> c \<notin> space_lasts"
proof -
  assume c: "c < CHR 0x80" "c \<notin> set ascii_spaces"
  have "\<forall>p \<in> set wide_spaces. CHR 0x80 \<le> hd p \<and> CHR 0x80 \<le> last p"
    by code_simp
  with c have "\<forall>p \<in> set wide_spaces. hd p \<noteq> c \<and> last p \<noteq> c" by auto
  with c(2) show ?thesis
    by (auto simp: space_heads_def space_lasts_def space_seqs_def)
qed

lemma space_lasts_ascii: "c < CHR 0x80 \<Longrightarrow> c \<notin> set ascii_spaces \<Longrightarrow> c \<notin> space_lasts"
  using space_heads_ascii by blast

lemma trim_space_id:
  assumes "s \<noteq> []" and "hd s \<notin> space_heads" and "last s \<notin> space_lasts"
  shows "trim_space s = s"
proof -
  have "trim_left_space s = s" using assms(1,2) by (cases s) (auto simp: go_simps)
  moreover have "trim_right_space s = s"
    using assms(1,3) trim_right_snoc_stop [of "last s" "butlast s"] by simp
  ultimately show ?thesis by (simp add: trim_space_def)
qed

lemma trim_space_Nil [simp]: "trim_space [] = []"
  by (simp add: trim_space_def go_simps)

lemma trim_space_skip: "c \<in> set ascii_spaces \<Longrightarrow> trim_space (c # s) = trim_space s"
  by (simp add: trim_space_def go_simps)

text \<open>The common case: no white space of the ASCII range at either end of an ASCII-ended string.\<close>

lemma trim_space_plain:
  assumes "s \<noteq> []" and "hd s < CHR 0x80" and "hd s \<notin> set ascii_spaces"
    and "last s < CHR 0x80" and "last s \<notin> set ascii_spaces"
  shows "trim_space s = s"
  using assms space_heads_ascii by (intro trim_space_id) blast+

text \<open>\<open>strings.Fields\<close>; the second argument is the field being collected, reversed.\<close>

function fields_from :: "bytes \<Rightarrow> bytes \<Rightarrow> bytes list" where
  "fields_from cur s =
     (if s = [] then (if cur = [] then [] else [rev cur])
      else case find (\<lambda>p. p \<noteq> [] \<and> has_prefix s p) space_seqs of
          None \<Rightarrow> fields_from (hd s # cur) (tl s)
        | Some p \<Rightarrow> (if cur = [] then [] else [rev cur]) @ fields_from [] (drop (length p) s))"
  by pat_completeness auto
termination
proof (relation "measure (\<lambda>(cur, s). length s)")
  fix s p :: bytes and cur :: bytes
  assume "s \<noteq> []" "find (\<lambda>p. p \<noteq> [] \<and> has_prefix s p) space_seqs = Some p"
  then have "p \<noteq> [] \<and> has_prefix s p" by (auto simp: find_Some_iff)
  then show "(([], drop (length p) s), cur, s) \<in> measure (\<lambda>(cur, s). length s)"
    by (cases p) (auto simp: has_prefix_iff)
qed auto

declare fields_from.simps [simp del]

lemma no_space_prefix:
  assumes "c \<notin> space_heads"
  shows "find (\<lambda>p. p \<noteq> [] \<and> has_prefix (c # s) p) space_seqs = None"
proof -
  have "\<not> has_prefix (c # s) p" if "p \<in> set space_seqs" "p \<noteq> []" for p
  proof -
    have "hd p \<noteq> c" using assms that by (auto simp: space_heads_def)
    with that(2) show ?thesis by (cases p) (auto simp: has_prefix_def)
  qed
  then show ?thesis by (auto simp: find_None_iff)
qed

lemma fields_from_word:
  "\<forall>c \<in> set a. c \<notin> space_heads \<Longrightarrow> fields_from cur (a @ s) = fields_from (rev a @ cur) s"
proof (induction a arbitrary: cur)
  case (Cons c a)
  then show ?case using no_space_prefix [of c "a @ s"] by (simp add: fields_from.simps [of cur "c # a @ s"])
qed simp

lemma fields_from_space:
  assumes "c \<in> set ascii_spaces"
  shows "fields_from cur (c # s) = (if cur = [] then [] else [rev cur]) @ fields_from [] s"
proof -
  have "find (\<lambda>p. p \<noteq> [] \<and> has_prefix (c # s) p) space_seqs = Some [c]"
    using assms by (auto simp: space_seqs_def ascii_spaces_def has_prefix_def)
  then show ?thesis by (simp add: fields_from.simps [of cur "c # s"])
qed

lemma fields_from_nil: "fields_from cur [] = (if cur = [] then [] else [rev cur])"
  by (simp add: fields_from.simps [of cur "[]"])


definition str_fields :: "bytes \<Rightarrow> bytes list" where
  "str_fields s = fields_from [] s"

text \<open>Two words with a space between them.\<close>

lemma str_fields_two:
  assumes "\<forall>c \<in> set (a @ b). c \<notin> space_heads" "a \<noteq> []" "b \<noteq> []"
  shows "str_fields (a @ '' '' @ b) = [a, b]"
  using assms fields_from_word [of a "[]" "'' '' @ b"] fields_from_word [of b "[]" "[]"]
  by (simp add: str_fields_def fields_from_space ascii_spaces_def fields_from_nil)

lemma str_fields_one:
  "\<forall>c \<in> set a. c \<notin> space_heads \<Longrightarrow> a \<noteq> [] \<Longrightarrow> str_fields a = [a]"
  using fields_from_word [of a "[]" "[]"] by (simp add: str_fields_def fields_from_nil)

text \<open>\<open>strings.Replace\<close> with count 1.\<close>

definition replace_first :: "bytes \<Rightarrow> bytes \<Rightarrow> bytes \<Rightarrow> bytes" where
  "replace_first s old new = (case str_cut s old of (a, b, ok) \<Rightarrow> if ok then a @ new @ b else s)"

subsection \<open>Split\<close>

text \<open>\<open>strings.Split\<close> for a non-empty separator.\<close>

function str_split :: "bytes \<Rightarrow> bytes \<Rightarrow> bytes list" where
  "str_split s sep =
     (case str_index s sep of
        None \<Rightarrow> [s]
      | Some i \<Rightarrow> if sep = [] then [s] else take i s # str_split (drop (i + length sep) s) sep)"
  by pat_completeness auto
termination
proof (relation "measure (\<lambda>(s, sep). length s)")
  fix s sep :: bytes and i
  assume "str_index s sep = Some i" and "sep \<noteq> []"
  then show "((drop (i + length sep) s, sep), s, sep) \<in> measure (\<lambda>(s, sep). length s)"
    by (auto dest!: str_index_Some)
qed simp

declare str_split.simps [simp del]

lemma str_index_skip:
  "c \<notin> set a \<Longrightarrow> str_index (a @ s) (c # sep) = map_option (\<lambda>i. i + length a) (str_index s (c # sep))"
proof (induction a)
  case Nil
  then show ?case by (simp add: option.map_ident)
next
  case (Cons x a)
  then have "\<not> has_prefix (x # a @ s) (c # sep)" by (auto simp: has_prefix_def)
  with Cons show ?case by (simp add: option.map_comp comp_def)
qed

lemma str_index_here [simp]: "str_index (sep @ s) sep = Some 0"
proof (cases "sep @ s")
  case (Cons x r)
  have "has_prefix (x # r) sep" unfolding Cons [symmetric] by simp
  with Cons show ?thesis by simp
qed simp

lemma str_split_first:
  assumes "c \<notin> set a"
  shows "str_split (a @ c # sep @ s) (c # sep) = a # str_split s (c # sep)"
proof -
  have "str_index (a @ (c # sep) @ s) (c # sep) = Some (length a)"
    unfolding str_index_skip [OF assms] str_index_here by simp
  then show ?thesis by (simp add: str_split.simps [of "a @ c # sep @ s"])
qed

lemma str_index_absent: "c \<notin> set a \<Longrightarrow> str_index a (c # sep) = None"
  using str_index_skip [of c a "[]" sep] by simp

lemma str_split_last: "c \<notin> set a \<Longrightarrow> str_split a (c # sep) = [a]"
  by (simp add: str_split.simps [of a] str_index_absent)

lemma str_cut_first:
  assumes "c \<notin> set a"
  shows "str_cut (a @ c # sep @ s) (c # sep) = (a, s, True)"
proof -
  have "str_index (a @ (c # sep) @ s) (c # sep) = Some (length a)"
    unfolding str_index_skip [OF assms] str_index_here by simp
  then show ?thesis by (simp add: str_cut_def)
qed

lemma str_cut_absent: "c \<notin> set a \<Longrightarrow> str_cut a (c # sep) = (a, [], False)"
  by (simp add: str_cut_def str_index_absent)

text \<open>A separator that starts with two given bytes cannot start where the pair does not occur.\<close>

fun no_pair :: "char \<Rightarrow> char \<Rightarrow> bytes \<Rightarrow> bool" where
  "no_pair c d (x # y # s) \<longleftrightarrow> \<not> (x = c \<and> y = d) \<and> no_pair c d (y # s)"
| "no_pair c d [x] \<longleftrightarrow> x \<noteq> c"
| "no_pair c d [] \<longleftrightarrow> True"

lemma str_index_skip_pair:
  "no_pair c d a \<Longrightarrow>
     str_index (a @ s) (c # d # sep) = map_option (\<lambda>i. i + length a) (str_index s (c # d # sep))"
proof (induction c d a rule: no_pair.induct)
  case (1 c d x y a)
  then have "\<not> has_prefix (x # (y # a) @ s) (c # d # sep)" by (auto simp: has_prefix_def)
  with 1 show ?case by (simp add: option.map_comp comp_def)
next
  case (2 c d x)
  then have "\<not> has_prefix (x # s) (c # d # sep)" by (auto simp: has_prefix_def)
  then show ?case by (simp add: option.map_comp comp_def)
qed (simp add: option.map_ident)

subsection \<open>Case\<close>

text \<open>\<open>strings.ToLower\<close> as far as its result can be ASCII: the ASCII letters and the two other code
  points (U+0130 and U+212A) whose lower case is an ASCII letter.  Other bytes stay.\<close>

definition lower_char :: "char \<Rightarrow> char" where
  "lower_char c = (if CHR ''A'' \<le> c \<and> c \<le> CHR ''Z'' then char_of (byte_val c + 32) else c)"

fun to_lower :: "bytes \<Rightarrow> bytes" where
  "to_lower [] = []"
| "to_lower (c # s) =
     (if c = CHR 0xC4 \<and> take 1 s = [CHR 0xB0] then CHR ''i'' # to_lower (drop 1 s)
      else if c = CHR 0xE2 \<and> take 2 s = [CHR 0x84, CHR 0xAA] then CHR ''k'' # to_lower (drop 2 s)
      else lower_char c # to_lower s)"

text \<open>\<open>strings.EqualFold\<close> against an ASCII word without the letters \<open>k\<close> and \<open>s\<close>, the only ones that
  fold with a code point outside ASCII.\<close>

definition equal_fold :: "bytes \<Rightarrow> bytes \<Rightarrow> bool" where
  "equal_fold s t \<longleftrightarrow> map lower_char s = map lower_char t"

subsection \<open>Join and ReplaceAll\<close>

fun str_join :: "bytes list \<Rightarrow> bytes \<Rightarrow> bytes" where
  "str_join [] sep = []"
| "str_join [s] sep = s"
| "str_join (s # t # ss) sep = s @ sep @ str_join (t # ss) sep"

text \<open>\<open>strings.ReplaceAll\<close> for a non-empty \<open>old\<close>.\<close>

definition replace_all :: "bytes \<Rightarrow> bytes \<Rightarrow> bytes \<Rightarrow> bytes" where
  "replace_all s old new = str_join (str_split s old) new"

text \<open>A text is its pieces joined by the separator, and no piece contains that.\<close>

lemma str_split_nonempty: "str_split s sep \<noteq> []"
  by (subst str_split.simps) (simp split: option.split)

lemma str_join_Cons: "ss \<noteq> [] \<Longrightarrow> str_join (s # ss) sep = s @ sep @ str_join ss sep"
  by (cases ss) auto

lemma str_join_split: "sep \<noteq> [] \<Longrightarrow> str_join (str_split s sep) sep = s"
proof (induction s sep rule: str_split.induct)
  case (1 s sep)
  show ?case
  proof (cases "str_index s sep")
    case None
    then show ?thesis by (subst str_split.simps) simp
  next
    case (Some i)
    from str_index_Some [OF this] have "take i s @ sep @ drop (i + length sep) s = s" by auto
    with 1 Some show ?thesis by (subst str_split.simps) (simp add: str_join_Cons str_split_nonempty)
  qed
qed

lemma str_index_le: "str_index (a @ sep @ b) sep = Some i \<Longrightarrow> i \<le> length a"
proof (induction a arbitrary: i)
  case Nil
  then show ?case by simp
next
  case (Cons c a)
  then show ?case by (auto split: if_splits)
qed

lemma split_pieces: "sep \<noteq> [] \<Longrightarrow> p \<in> set (str_split s sep) \<Longrightarrow> str_index p sep = None"
proof (induction s sep arbitrary: p rule: str_split.induct)
  case (1 s sep)
  show ?case
  proof (cases "str_index s sep")
    case None
    with 1 show ?thesis by (subst (asm) (2) str_split.simps) simp
  next
    case (Some i)
    have "str_index (take i s) sep = None"
    proof (rule ccontr)
      assume "str_index (take i s) sep \<noteq> None"
      then obtain a b where "take i s = a @ sep @ b" unfolding str_index_None by blast
      then have "s = a @ sep @ (b @ drop i s)" and l: "length (a @ sep) \<le> i"
        by (metis append.assoc append_take_drop_id, metis append.assoc length_append length_take le_add1 min.boundedE)
      with str_index_le [of a sep "b @ drop i s" i] Some have "i \<le> length a" by simp
      with l 1(2) show False by (cases sep) auto
    qed
    with 1 Some show ?thesis by (subst (asm) (2) str_split.simps) auto
  qed
qed

lemma split_join_pieces:
  "ps \<noteq> [] \<Longrightarrow> \<forall>p \<in> set ps. c \<notin> set p \<Longrightarrow> str_split (str_join ps [c]) [c] = ps"
proof (induction ps "[c]" rule: str_join.induct)
  case (2 s)
  then show ?case by (simp add: str_split_last)
next
  case (3 s t ss)
  then show ?case using str_split_first [of c s "[]" "str_join (t # ss) [c]"] by simp
qed simp

lemma split_plain: "p \<in> set (str_split s [c]) \<Longrightarrow> c \<notin> set p"
proof
  assume "p \<in> set (str_split s [c])" "c \<in> set p"
  then obtain a b where "str_index p [c] = None" "p = a @ [c] @ b"
    using split_pieces [of "[c]" p s] by (auto simp: in_set_conv_decomp)
  then show False unfolding str_index_None by blast
qed

subsection \<open>Decimal numbers\<close>

definition digit :: "nat \<Rightarrow> char" where
  "digit n = char_of (48 + n)"

fun dec :: "nat \<Rightarrow> bytes" where
  "dec n = (if n < 10 then [digit n] else dec (n div 10) @ [digit (n mod 10)])"

declare dec.simps [simp del]

definition digit_val :: "char \<Rightarrow> nat option" where
  "digit_val c = (if CHR ''0'' \<le> c \<and> c \<le> CHR ''9'' then Some (byte_val c - 48) else None)"

fun dec_acc :: "nat \<Rightarrow> bytes \<Rightarrow> nat option" where
  "dec_acc a [] = Some a"
| "dec_acc a (c # s) = (case digit_val c of None \<Rightarrow> None | Some d \<Rightarrow> dec_acc (10 * a + d) s)"

text \<open>\<open>strconv.Atoi\<close>: an optional sign, at least one digit, within 64 signed bits.\<close>

definition atoi :: "bytes \<Rightarrow> int option" where
  "atoi s =
     (let neg = has_prefix s ''-'';
          ds = (if neg \<or> has_prefix s ''+'' then tl s else s)
      in if ds = [] then None
         else case dec_acc 0 ds of
           None \<Rightarrow> None
         | Some n \<Rightarrow>
             let v = (if neg then - int n else int n) in
             if - (2 ^ 63) \<le> v \<and> v < 2 ^ 63 then Some v else None)"

lemma digit_val_digit [simp]: "n < 10 \<Longrightarrow> digit_val (digit n) = Some n"
  by (auto simp: digit_val_def digit_def less_eq_char_def)

lemma dec_acc_append:
  "dec_acc a (s @ t) = (case dec_acc a s of None \<Rightarrow> None | Some b \<Rightarrow> dec_acc b t)"
  by (induction s arbitrary: a) (auto split: option.splits)

lemma dec_acc_0_dec [simp]: "dec_acc 0 (dec n) = Some n"
proof (induction n rule: dec.induct)
  case (1 n)
  show ?case
  proof (cases "n < 10")
    case True
    then show ?thesis by (simp add: dec.simps [of n])
  next
    case False
    with 1 have "dec_acc 0 (dec n) = Some (10 * (n div 10) + n mod 10)"
      by (simp add: dec.simps [of n] dec_acc_append)
    then show ?thesis by simp
  qed
qed

lemma digits_dec: "c \<in> set (dec n) \<Longrightarrow> \<exists>d < 10. c = digit d"
proof (induction n rule: dec.induct)
  case (1 n)
  show ?case
  proof (cases "n < 10")
    case True
    with 1 have "c = digit n" by (simp add: dec.simps [of n])
    with True show ?thesis by blast
  next
    case False
    with 1 have "c \<in> set (dec (n div 10)) \<or> c = digit (n mod 10)"
      by (auto simp: dec.simps [of n])
    with 1 False show ?thesis by (metis mod_less_divisor zero_less_numeral)
  qed
qed

lemma digit_plain: "d < 10 \<Longrightarrow> digit d < CHR 0x80 \<and> digit d \<notin> set ascii_spaces"
  by (auto simp: digit_def ascii_spaces_def less_char_def dest: arg_cong [of _ _ byte_val])

lemma dec_nonempty [simp]: "dec n \<noteq> []"
  by (simp add: dec.simps [of n])

lemma atoi_dec: "n < 2 ^ 63 \<Longrightarrow> atoi (dec n) = Some (int n)"
proof -
  assume n: "n < 2 ^ 63"
  obtain d s where d: "dec n = digit d # s" "d < 10"
    using digits_dec [of _ n] dec_nonempty [of n] by (metis list.exhaust list.set_intros(1))
  have "digit d \<noteq> CHR ''-'' \<and> digit d \<noteq> CHR ''+''"
    using digit_val_digit [OF d(2)] by (auto simp: digit_val_def less_eq_char_def)
  then have "\<not> has_prefix (dec n) ''-''" "\<not> has_prefix (dec n) ''+''"
    by (simp_all add: d has_prefix_def)
  with n show ?thesis by (simp add: atoi_def Let_def)
qed

end
