(* ===== verification/Sealing.thy ===== *)
theory Sealing
  imports Byte_Order Go_Text
begin

text \<open>
  \<open>sealMessage\<close> and \<open>unsealMessage\<close> of \<open>internal/remote/sealing.go\<close>: the multipart framing of
  NTLM-encrypted WinRM messages.  The security session belongs to the NTLM library and the parser
  of the \<open>Content-Type\<close> header is a library routine too; both are parameters: \<open>wrap\<close>, \<open>unwrap\<close>
  and \<open>parse\<close> (which returns the media type and its parameters, or \<open>None\<close> on an error).
\<close>

type_synonym media_parser = "bytes \<Rightarrow> (bytes \<times> (bytes \<rightharpoonup> bytes)) option"

definition crlf :: bytes where
  "crlf = [CHR 0x0D, CHR 0x0A]"

definition encryptedProtocol :: bytes where
  "encryptedProtocol = ''application/HTTP-SPNEGO-session-encrypted''"

definition maxResponse :: nat where
  "maxResponse = 4 * 1024 * 1024"

definition bad_response :: goerr where
  "bad_response = Msg ''invalid encrypted WinRM response''"

abbreviation tab :: bytes where "tab \<equiv> [CHR 0x09]"

subsection \<open>sealMessage\<close>

definition type_line :: bytes where
  "type_line = ''Content-Type: '' @ encryptedProtocol"

definition length_prefix :: bytes where
  "length_prefix = ''OriginalContent: type=application/soap+xml;charset=UTF-8;Length=''"

definition octet_line :: bytes where
  "octet_line = ''Content-Type: application/octet-stream''"

text \<open>The two delimiter lines of a boundary.\<close>

definition marker :: "bytes \<Rightarrow> bytes" where
  "marker boundary = ''--'' @ boundary @ crlf"

definition end_marker :: "bytes \<Rightarrow> bytes" where
  "end_marker boundary = ''--'' @ boundary @ ''--'' @ crlf"

definition seal_boundary :: bytes where
  "seal_boundary = ''Encrypted Boundary''"

definition seal_content_type :: bytes where
  "seal_content_type = ''multipart/encrypted;protocol='' @ [CHR 0x22] @ encryptedProtocol @
     [CHR 0x22] @ '';boundary='' @ [CHR 0x22] @ seal_boundary @ [CHR 0x22]"

definition sealMessage ::
  "(bytes \<Rightarrow> goerr + bytes \<times> bytes) \<Rightarrow> bytes \<Rightarrow> goerr + bytes \<times> bytes" where
  "sealMessage wrap plain =
     (case wrap plain of
        Inl e \<Rightarrow> Inl (Msg ''NTLM message sealing failed'')
      | Inr (sealed, sig) \<Rightarrow>
          check (length sig \<noteq> 16) (Msg ''NTLM signing was not negotiated'')
            (Inr (marker seal_boundary @ tab @ type_line @ crlf @
                  tab @ length_prefix @ dec (length plain) @ crlf @
                  marker seal_boundary @ tab @ octet_line @ crlf @
                  [CHR 0x10, CHR 0x00, CHR 0x00, CHR 0x00] @ sig @ sealed @
                  end_marker seal_boundary, seal_content_type)))"

subsection \<open>unsealMessage\<close>

text \<open>The inner loop over the parameters of an \<open>OriginalContent\<close> line.\<close>

fun read_params :: "bytes list \<Rightarrow> int \<Rightarrow> goerr + int" where
  "read_params [] len = Inr len"
| "read_params (p # ps) len =
     (case str_cut (trim_space p) ''='' of (key, val, ok) \<Rightarrow>
        if ok \<and> key = ''Length''
        then (case atoi val of None \<Rightarrow> Inl bad_response | Some n \<Rightarrow> read_params ps n)
        else read_params ps len)"

text \<open>The loop over the header lines: the state is \<open>protocolOK\<close> and \<open>length\<close>.\<close>

fun read_header :: "bytes list \<Rightarrow> bool \<Rightarrow> int \<Rightarrow> goerr + bool \<times> int" where
  "read_header [] protocolOK len = Inr (protocolOK, len)"
| "read_header (l # ls) protocolOK len =
     (let line = trim_space l;
          ok' = (protocolOK \<or> line = type_line)
      in if has_prefix line ''OriginalContent:''
         then and_then (read_params (str_split line '';'') len) (\<lambda>len'. read_header ls ok' len')
         else read_header ls ok' len)"

definition unsealMessage ::
  "(bytes \<Rightarrow> bytes \<Rightarrow> goerr + bytes) \<Rightarrow> media_parser \<Rightarrow> bytes \<Rightarrow> bytes \<Rightarrow> goerr + bytes" where
  "unsealMessage unwrap parse body contentType =
     (case parse contentType of
        None \<Rightarrow> Inl bad_response
      | Some (typ, params) \<Rightarrow>
          (let boundary = case_option [] (\<lambda>v. v) (params ''boundary'');
               protocol = case_option [] (\<lambda>v. v) (params ''protocol'') in
           check (typ \<noteq> ''multipart/encrypted'' \<or> protocol \<noteq> encryptedProtocol \<or>
               length boundary = 0 \<or> length boundary > 70 \<or>
               contains_any boundary [CHR 0x0D, CHR 0x0A] \<or> length body > maxResponse)
             bad_response (
           check (\<not> has_prefix body (marker boundary) \<or> \<not> has_suffix body (end_marker boundary))
             bad_response (
           guarded (go_slice body (length (marker boundary))
               (length body - length (end_marker boundary))) (\<lambda>inner.
           (case str_cut inner (marker boundary) of (header, payload, ok) \<Rightarrow>
             check (\<not> ok) bad_response (
             and_then (read_header (str_split header crlf) False (- 1)) (\<lambda>(protocolOK, len).
             check (\<not> protocolOK \<or> len < 0 \<or> len > int maxResponse) bad_response (
             (case str_cut payload crlf of (line, data, ok) \<Rightarrow>
               check (\<not> ok \<or> trim_space line \<noteq> octet_line \<or> length data < 20) bad_response (
               guarded (Option.bind (go_slice data 0 4) le32) (\<lambda>siglen.
               check (siglen \<noteq> 16) bad_response (
               guarded (go_from data 20) (\<lambda>sealed.
               guarded (go_slice data 4 20) (\<lambda>sig.
               (case unwrap sealed sig of
                  Inl e \<Rightarrow> Inl (Msg ''NTLM response signature verification failed'')
                | Inr plain \<Rightarrow>
                    check (int (length plain) \<noteq> len) bad_response (Inr plain)))))))))))))))))"

subsection \<open>No slice is out of bounds\<close>

text \<open>A boundary without line breaks keeps the two delimiters apart.\<close>

lemma marker_end_apart:
  assumes "\<not> contains_any boundary [CHR 0x0D, CHR 0x0A]"
    and "has_prefix body (marker boundary)" and "has_suffix body (end_marker boundary)"
  shows "length (marker boundary) + length (end_marker boundary) \<le> length body"
proof (rule ccontr)
  let ?m = "marker boundary" and ?e = "end_marker boundary"
  assume "\<not> ?thesis"
  then have short: "length body < length ?m + length ?e" by simp
  have len: "length ?e = length ?m + 2" by (simp add: marker_def end_marker_def crlf_def)
  obtain t where t: "body = ?m @ t" using assms(2) by (auto simp: has_prefix_iff)
  obtain u where u: "body = u @ ?e" using assms(3) by (auto simp: has_suffix_iff)
  define p where "p = length ?m - 1"
  have p: "p < length ?m" "length ?m = Suc p" by (simp_all add: p_def marker_def)
  have "?m ! p = CHR 0x0A" by (simp add: p_def marker_def crlf_def nth_append)
  then have lf: "body ! p = CHR 0x0A" using t p(1) by (simp add: nth_append)
  have "length body = length u + length ?e" by (simp add: u)
  then have k: "length u \<le> p" "p - length u < length ?e" using short p len by simp_all
  then have "?e ! (p - length u) = CHR 0x0A" using lf u by (simp add: nth_append)
  moreover have "(''--'' @ boundary @ ''--'' @ [CHR 0x0D]) ! j \<noteq> CHR 0x0A" if "j < length ?e - 1" for j
  proof -
    have "CHR 0x0A \<notin> set (''--'' @ boundary @ ''--'' @ [CHR 0x0D])"
      using assms(1) by (auto simp: contains_any_iff)
    moreover have "j < length (''--'' @ boundary @ ''--'' @ [CHR 0x0D])"
      using that by (simp add: end_marker_def crlf_def)
    ultimately show ?thesis by (metis nth_mem)
  qed
  moreover have "?e = (''--'' @ boundary @ ''--'' @ [CHR 0x0D]) @ [CHR 0x0A]"
    by (simp add: end_marker_def crlf_def)
  ultimately have "\<not> p - length u < length ?e - 1"
    by (metis append_same_eq butlast_snoc length_butlast nth_butlast)
  with k p len \<open>length body = _\<close> t show False by auto
qed

lemma read_params_no_panic: "read_params ps len \<noteq> Inl (Sentinel GoPanic)"
  by (induction ps len rule: read_params.induct)
    (auto simp: bad_response_def split: option.splits prod.splits)

lemma read_header_no_panic: "read_header ls ok len \<noteq> Inl (Sentinel GoPanic)"
proof (induction ls ok len rule: read_header.induct)
  case (2 l ls ok len)
  note IH = "2.IH"(1) [OF refl refl] "2.IH"(2) [OF refl refl]
  show ?case
    using IH read_params_no_panic [of "str_split (trim_space l) '';''" len]
    by (cases "read_params (str_split (trim_space l) '';'') len") (simp_all add: Let_def)
qed simp

text \<open>The rest of \<open>unsealMessage\<close> once the delimiters are found, in one place.\<close>

definition unseal_payload ::
  "(bytes \<Rightarrow> bytes \<Rightarrow> goerr + bytes) \<Rightarrow> bytes \<Rightarrow> int \<Rightarrow> goerr + bytes" where
  "unseal_payload unwrap payload len =
     (case str_cut payload crlf of (line, data, ok) \<Rightarrow>
        if \<not> ok \<or> trim_space line \<noteq> octet_line \<or> length data < 20 \<or> le32 data \<noteq> Some 16
        then Inl bad_response
        else case unwrap (drop 20 data) (take 16 (drop 4 data)) of
            Inl e \<Rightarrow> Inl (Msg ''NTLM response signature verification failed'')
          | Inr plain \<Rightarrow> check (int (length plain) \<noteq> len) bad_response (Inr plain))"

definition param :: "(bytes \<rightharpoonup> bytes) \<Rightarrow> bytes \<Rightarrow> bytes" where
  "param params k = case_option [] (\<lambda>v. v) (params k)"

definition media_ok :: "bytes \<Rightarrow> (bytes \<rightharpoonup> bytes) \<Rightarrow> bool" where
  "media_ok typ params \<longleftrightarrow> typ = ''multipart/encrypted'' \<and>
     param params ''protocol'' = encryptedProtocol \<and> param params ''boundary'' \<noteq> [] \<and>
     length (param params ''boundary'') \<le> 70 \<and>
     \<not> contains_any (param params ''boundary'') [CHR 0x0D, CHR 0x0A]"

text \<open>The part between the delimiters.\<close>

definition inner_part :: "bytes \<Rightarrow> bytes \<Rightarrow> bytes" where
  "inner_part boundary body =
     take (length body - length (end_marker boundary) - length (marker boundary))
       (drop (length (marker boundary)) body)"

lemma le32_take: "4 \<le> length data \<Longrightarrow> le32 (take 4 data) = le32 data"
  by (cases data rule: le32.cases) simp_all

lemma unseal_payload_eq:
  "(case str_cut payload crlf of (line, data, ok) \<Rightarrow>
      check (\<not> ok \<or> trim_space line \<noteq> octet_line \<or> length data < 20) bad_response (
      guarded (Option.bind (go_slice data 0 4) le32) (\<lambda>siglen.
      check (siglen \<noteq> 16) bad_response (
      guarded (go_from data 20) (\<lambda>sealed.
      guarded (go_slice data 4 20) (\<lambda>sig.
      (case unwrap sealed sig of
         Inl e \<Rightarrow> Inl (Msg ''NTLM response signature verification failed'')
       | Inr plain \<Rightarrow> check (int (length plain) \<noteq> len) bad_response (Inr plain)))))))) =
   unseal_payload unwrap payload len"
proof -
  obtain line data ok where c: "str_cut payload crlf = (line, data, ok)" by (metis prod_cases3)
  show ?thesis
  proof (cases "length data < 20")
    case False
    then obtain k where "le32 data = Some k" using le32_long [of data] by auto
    with False c show ?thesis by (simp add: unseal_payload_def le32_take check_def)
  qed (simp add: unseal_payload_def c check_def)
qed

lemma unsealMessage_eq:
  assumes "parse ct = Some (typ, params)"
  shows "unsealMessage unwrap parse body ct =
    (let b = param params ''boundary'' in
     if \<not> media_ok typ params \<or> length body > maxResponse \<or>
        \<not> has_prefix body (marker b) \<or> \<not> has_suffix body (end_marker b) then Inl bad_response
     else case str_cut (inner_part b body) (marker b) of (header, payload, ok) \<Rightarrow>
       check (\<not> ok) bad_response (
         and_then (read_header (str_split header crlf) False (- 1)) (\<lambda>(protocolOK, len).
           check (\<not> protocolOK \<or> len < 0 \<or> len > int maxResponse) bad_response
             (unseal_payload unwrap payload len))))"
proof (cases "media_ok typ params \<and> length body \<le> maxResponse \<and>
    has_prefix body (marker (param params ''boundary'')) \<and>
    has_suffix body (end_marker (param params ''boundary''))")
  case True
  with marker_end_apart [of "param params ''boundary''" body]
  have "length (marker (param params ''boundary'')) + length (end_marker (param params ''boundary''))
      \<le> length body" by (simp add: media_ok_def)
  then have "go_slice body (length (marker (param params ''boundary'')))
      (length body - length (end_marker (param params ''boundary''))) =
    Some (inner_part (param params ''boundary'') body)" by (simp add: inner_part_def)
  with True assms show ?thesis
    unfolding unsealMessage_def unseal_payload_eq
    by (simp add: media_ok_def param_def Let_def)
next
  case False
  with assms show ?thesis
    by (auto simp: unsealMessage_def media_ok_def param_def Let_def check_def)
qed

text \<open>Every failure is a plain message.\<close>

lemma read_params_error: "read_params ps len = Inl e \<Longrightarrow> e = bad_response"
  by (induction ps len rule: read_params.induct) (auto split: option.splits prod.splits if_splits)

lemma read_header_error: "read_header ls ok len = Inl e \<Longrightarrow> e = bad_response"
proof (induction ls ok len rule: read_header.induct)
  case (2 l ls ok len)
  then show ?case
    using read_params_error
    by (cases "read_params (str_split (trim_space l) '';'') len") (auto simp: Let_def split: if_splits)
qed simp

lemma unsealMessage_error:
  assumes "unsealMessage unwrap parse body ct = Inl e"
  shows "\<exists>m. e = Msg m"
proof (cases "parse ct")
  case None
  with assms show ?thesis by (auto simp: unsealMessage_def bad_response_def)
next
  case (Some a)
  obtain ty params where p: "parse ct = Some (ty, params)" using Some by (cases a) auto
  have pay: "\<exists>m. x = Msg m" if "unseal_payload unwrap payload len = Inl x" for payload len x
    using that by (auto simp: unseal_payload_def bad_response_def check_def
        split: prod.splits sum.splits if_splits)
  obtain hdr payload ok where c:
    "str_cut (inner_part (param params ''boundary'') body) (marker (param params ''boundary'')) =
     (hdr, payload, ok)" by (metis prod_cases3)
  show ?thesis
    using assms c pay read_header_error [of "str_split hdr crlf" False "- 1"]
    unfolding unsealMessage_eq [of parse, OF p] Let_def
    by (cases "read_header (str_split hdr crlf) False (- 1)")
      (auto simp: bad_response_def check_def split: if_splits)
qed

text \<open>C31: No response body, content type or boundary makes \<open>unsealMessage\<close> panic: the slice between
  the two delimiters is always in bounds, since a boundary with a line break is refused and the
  delimiters then cannot overlap.\<close>

theorem unsealMessage_no_panic: "unsealMessage unwrap parse body ct \<noteq> Inl (Sentinel GoPanic)"
proof (cases "parse ct")
  case None
  then show ?thesis by (simp add: unsealMessage_def bad_response_def)
next
  case (Some a)
  obtain ty params where p: "parse ct = Some (ty, params)" using Some by (cases a) auto
  have "unseal_payload unwrap payload len \<noteq> Inl (Sentinel GoPanic)" for payload len
    by (auto simp: unseal_payload_def bad_response_def check_def split: prod.splits sum.splits)
  moreover obtain hdr payload ok where c:
    "str_cut (inner_part (param params ''boundary'') body) (marker (param params ''boundary'')) =
     (hdr, payload, ok)" by (metis prod_cases3)
  moreover note read_header_no_panic [of "str_split hdr crlf" False "- 1"]
  ultimately show ?thesis
    unfolding unsealMessage_eq [of parse, OF p] Let_def
    by (cases "read_header (str_split hdr crlf) False (- 1)")
      (auto simp: bad_response_def check_def split: if_splits)
qed

lemma framed_split:
  assumes "length (marker b) + length (end_marker b) \<le> length body"
    and "has_prefix body (marker b)" and "has_suffix body (end_marker b)"
  shows "body = marker b @ inner_part b body @ end_marker b"
proof -
  obtain t where t: "body = marker b @ t" using assms(2) by (auto simp: has_prefix_iff)
  obtain u where u: "body = u @ end_marker b" using assms(3) by (auto simp: has_suffix_iff)
  have "length (marker b) \<le> length u" using assms(1) by (simp add: u)
  moreover have "take (length (marker b)) (u @ end_marker b) = marker b" using t u by simp
  ultimately have "take (length (marker b)) u = marker b" by simp
  then obtain v where "u = marker b @ v" by (metis append_take_drop_id)
  with u show ?thesis by (simp add: inner_part_def)
qed

lemma le32_16:
  assumes "le32 data = Some 16"
  shows "data = CHR 0x10 # CHR 0x00 # CHR 0x00 # CHR 0x00 # drop 4 data"
proof (cases data rule: le32.cases)
  case (1 w x y z s)
  with assms have n: "byte_val w + 256 * (byte_val x + 256 * (byte_val y + 256 * byte_val z)) = 16"
    by simp
  have "m = 0 \<and> k = 16" if "k + 256 * m = 16" for k m :: nat using that by presburger
  from this [OF n] have k: "byte_val w = 16" "byte_val x = 0" "byte_val y = 0" "byte_val z = 0"
    by auto
  have "w = char_of (16 :: nat)" "x = char_of (0 :: nat)" "y = char_of (0 :: nat)"
    "z = char_of (0 :: nat)"
    using byte_val_eqI [OF k(1)] byte_val_eqI [OF k(2)] byte_val_eqI [OF k(3)]
      byte_val_eqI [OF k(4)] by simp_all
  with 1 show ?thesis by (simp add: char_of_def bit_0)
qed (use assms in auto)

text \<open>C29: What \<open>unsealMessage\<close> returns came out of the session's \<open>Unwrap\<close>, applied to exactly the
  sixteen signature bytes and the sealed bytes of the second part of a body that is framed by the
  declared boundary, and has the length its header announces, at most the response limit.\<close>

theorem unsealMessage_sound:
  assumes "unsealMessage unwrap parse body ct = Inr plain"
  shows "\<exists>typ params header line sig sealed. parse ct = Some (typ, params) \<and> media_ok typ params \<and>
    (let b = param params ''boundary'' in
       body = marker b @ header @ marker b @ line @ crlf @ [CHR 0x10, CHR 0x00, CHR 0x00, CHR 0x00] @
              sig @ sealed @ end_marker b) \<and>
    length sig = 16 \<and> unwrap sealed sig = Inr plain \<and> trim_space line = octet_line \<and>
    read_header (str_split header crlf) False (- 1) = Inr (True, int (length plain)) \<and>
    length body \<le> maxResponse \<and> length plain \<le> maxResponse"
proof -
  obtain ty params where p: "parse ct = Some (ty, params)"
    using assms by (cases "parse ct") (auto simp: unsealMessage_def)
  define b where "b = param params ''boundary''"
  obtain hdr payload ok where c: "str_cut (inner_part b body) (marker b) = (hdr, payload, ok)"
    by (metis prod_cases3)
  note run = assms [unfolded unsealMessage_eq [of parse, OF p] Let_def, folded b_def]
  from run have ok: "media_ok ty params" "length body \<le> maxResponse" "has_prefix body (marker b)"
    "has_suffix body (end_marker b)" by (auto split: if_splits)
  with run c obtain len where hd: "ok" "read_header (str_split hdr crlf) False (- 1) = Inr (True, len)"
    "0 \<le> len" "len \<le> int maxResponse" and pay: "unseal_payload unwrap payload len = Inr plain"
    by auto
  obtain line data fnd where d: "str_cut payload crlf = (line, data, fnd)" by (metis prod_cases3)
  with pay have data: "fnd" "trim_space line = octet_line" "20 \<le> length data" "le32 data = Some 16"
    "unwrap (drop 20 data) (take 16 (drop 4 data)) = Inr plain" "int (length plain) = len"
    by (auto simp: unseal_payload_def split: if_splits sum.splits)
  have "length (marker b) + length (end_marker b) \<le> length body"
    using marker_end_apart [of b body] ok by (simp add: media_ok_def b_def)
  then have "body = marker b @ inner_part b body @ end_marker b"
    using ok(3,4) by (rule framed_split)
  also have "inner_part b body = hdr @ marker b @ payload"
    using c hd(1) by (simp add: str_cut_found)
  also have "payload = line @ crlf @ data" using d data(1) by (simp add: str_cut_found)
  also have "data = [CHR 0x10, CHR 0x00, CHR 0x00, CHR 0x00] @ take 16 (drop 4 data) @ drop 20 data"
    using le32_16 [OF data(4)] append_take_drop_id [of 16 "drop 4 data"] by simp
  finally have "body = marker b @ hdr @ marker b @ line @ crlf @
     [CHR 0x10, CHR 0x00, CHR 0x00, CHR 0x00] @ take 16 (drop 4 data) @ drop 20 data @ end_marker b"
    by simp
  then have framed: "(let b = param params ''boundary'' in
       body = marker b @ hdr @ marker b @ line @ crlf @ [CHR 0x10, CHR 0x00, CHR 0x00, CHR 0x00] @
              take 16 (drop 4 data) @ drop 20 data @ end_marker b)"
    unfolding Let_def b_def .
  have "length (take 16 (drop 4 data)) = 16" using data(3) by simp
  moreover have "read_header (str_split hdr crlf) False (- 1) = Inr (True, int (length plain))"
    using hd(2) data(6) by simp
  moreover have "length plain \<le> maxResponse" using hd(4) data(6) by simp
  ultimately show ?thesis using p ok(1,2) framed data(2,5) by blast
qed

subsection \<open>Round trip\<close>

definition seal_header :: "nat \<Rightarrow> bytes" where
  "seal_header n = tab @ type_line @ crlf @ tab @ length_prefix @ dec n @ crlf"

lemma dec_no_char: "c \<notin> set (dec n)" if "digit_val c = None"
  using digits_dec [of c n] that by auto

lemma seal_header_cut:
  "str_cut (seal_header n @ marker seal_boundary @ payload) (marker seal_boundary) =
     (seal_header n, payload, True)"
proof -
  define h where "h = tab @ type_line @ crlf @ tab @ length_prefix"
  define sep where "sep = seal_boundary @ crlf"
  have m: "marker seal_boundary = CHR ''-'' # CHR ''-'' # sep" by (simp add: marker_def sep_def)
  have h: "no_pair (CHR ''-'') (CHR ''-'') h"
    by (simp add: h_def type_line_def encryptedProtocol_def crlf_def length_prefix_def)
  have d: "CHR ''-'' \<notin> set (dec n @ crlf)"
    using dec_no_char [of "CHR ''-''" n] by (simp add: crlf_def digit_val_def less_eq_char_def)
  have "str_index (h @ (dec n @ crlf) @ marker seal_boundary @ payload) (marker seal_boundary) =
      Some (length h + length (dec n @ crlf))"
    unfolding m str_index_skip_pair [OF h] str_index_skip [OF d] append_Cons [symmetric]
      str_index_here by simp
  then show ?thesis by (simp add: str_cut_def seal_header_def h_def)
qed

lemma seal_header_read:
  assumes "n < 2 ^ 63"
  shows "read_header (str_split (seal_header n) crlf) False (- 1) = Inr (True, int n)"
proof -
  have cr: "CHR 0x0D \<notin> set (dec n)" "CHR '';'' \<notin> set (dec n)" "CHR ''='' \<notin> set (dec n)"
    by (simp_all add: dec_no_char digit_val_def less_eq_char_def)
  have last: "last (dec n) < CHR 0x80 \<and> last (dec n) \<notin> set ascii_spaces"
    using digits_dec [of "last (dec n)" n] digit_plain by auto
  have "str_split (seal_header n) crlf = [tab @ type_line, tab @ length_prefix @ dec n, []]"
  proof -
    have l1: "CHR 0x0D \<notin> set (tab @ type_line)"
      by (simp add: type_line_def encryptedProtocol_def)
    have l2: "CHR 0x0D \<notin> set (tab @ length_prefix @ dec n)" using cr(1) by (simp add: length_prefix_def)
    have "seal_header n = (tab @ type_line) @ CHR 0x0D # [CHR 0x0A] @
        ((tab @ length_prefix @ dec n) @ CHR 0x0D # [CHR 0x0A] @ [])"
      by (simp add: seal_header_def crlf_def)
    then show ?thesis
      unfolding crlf_def by (simp only: str_split_first [OF l1] str_split_first [OF l2] str_split_last)
        (simp add: str_split_last)
  qed
  moreover have "trim_space (tab @ type_line) = type_line"
  proof -
    have "trim_space type_line = type_line"
      by (rule trim_space_plain)
        (simp_all add: type_line_def encryptedProtocol_def ascii_spaces_def less_char_def)
    then show ?thesis by (simp add: trim_space_skip ascii_spaces_def)
  qed
  moreover have "trim_space (tab @ length_prefix @ dec n) = length_prefix @ dec n"
  proof -
    have "trim_space (length_prefix @ dec n) = length_prefix @ dec n"
      using last by (intro trim_space_plain)
        (simp_all add: length_prefix_def ascii_spaces_def less_char_def)
    then show ?thesis by (simp add: trim_space_skip ascii_spaces_def)
  qed
  moreover have "str_split (length_prefix @ dec n) '';'' =
    [''OriginalContent: type=application/soap+xml'', ''charset=UTF-8'', ''Length='' @ dec n]"
  proof -
    have split: "length_prefix @ dec n = ''OriginalContent: type=application/soap+xml'' @ CHR '';'' # [] @
        (''charset=UTF-8'' @ CHR '';'' # [] @ (''Length='' @ dec n))"
      by (simp add: length_prefix_def)
    have "CHR '';'' \<notin> set ''OriginalContent: type=application/soap+xml''"
      "CHR '';'' \<notin> set ''charset=UTF-8''" "CHR '';'' \<notin> set (''Length='' @ dec n)"
      using cr(2) by simp_all
    note s = str_split_first [OF this(1)] str_split_first [OF this(2)] str_split_last [OF this(3)]
    show ?thesis unfolding split s by simp
  qed
  moreover have "read_params [''OriginalContent: type=application/soap+xml'', ''charset=UTF-8'',
      ''Length='' @ dec n] (- 1) = Inr (int n)"
  proof -
    have "trim_space ''OriginalContent: type=application/soap+xml'' =
        ''OriginalContent: type=application/soap+xml''" "trim_space ''charset=UTF-8'' = ''charset=UTF-8''"
      by (rule trim_space_plain; simp add: ascii_spaces_def less_char_def)+
    moreover have "trim_space (''Length='' @ dec n) = ''Length='' @ dec n"
      using last by (intro trim_space_plain) (simp_all add: ascii_spaces_def less_char_def)
    moreover have "str_cut (''Length='' @ dec n) ''='' = (''Length'', dec n, True)"
      using str_cut_first [of "CHR ''=''" "''Length''" "[]" "dec n"] by simp
    moreover have "str_cut ''OriginalContent: type=application/soap+xml'' ''='' =
      (''OriginalContent: type'', ''application/soap+xml'', True)"
      "str_cut ''charset=UTF-8'' ''='' = (''charset'', ''UTF-8'', True)"
      by (simp_all add: str_cut_def has_prefix_def)
    ultimately show ?thesis using atoi_dec [OF assms] by simp
  qed
  ultimately show ?thesis
    by (simp add: has_prefix_def type_line_def length_prefix_def)
qed

definition sealed_payload :: "bytes \<Rightarrow> bytes \<Rightarrow> bytes" where
  "sealed_payload sealed sig = tab @ octet_line @ crlf @
     [CHR 0x10, CHR 0x00, CHR 0x00, CHR 0x00] @ sig @ sealed"

lemma unseal_payload_sealed:
  assumes "length sig = 16" and "unwrap sealed sig = Inr plain"
  shows "unseal_payload unwrap (sealed_payload sealed sig) (int (length plain)) = Inr plain"
proof -
  define data where "data = [CHR 0x10, CHR 0x00, CHR 0x00, CHR 0x00] @ sig @ sealed"
  have "CHR 0x0D \<notin> set (tab @ octet_line)" by (simp add: octet_line_def)
  from str_cut_first [OF this, of "[CHR 0x0A]" data]
  have "str_cut (sealed_payload sealed sig) crlf = (tab @ octet_line, data, True)"
    by (simp add: sealed_payload_def data_def crlf_def)
  moreover have "trim_space octet_line = octet_line"
    by (rule trim_space_plain) (simp_all add: octet_line_def ascii_spaces_def less_char_def)
  then have "trim_space (tab @ octet_line) = octet_line"
    by (simp add: trim_space_skip ascii_spaces_def)
  moreover have "le32 data = Some 16" "20 \<le> length data" "take 16 (drop 4 data) = sig"
    "drop 20 data = sealed" using assms(1) by (simp_all add: data_def)
  ultimately show ?thesis using assms(2) by (simp add: unseal_payload_def)
qed

lemma unseal_sealed:
  assumes "sealMessage wrap plain = Inr (body, ct)"
    and unwrap: "\<And>sealed sig. wrap plain = Inr (sealed, sig) \<Longrightarrow> unwrap sealed sig = Inr plain"
    and parse: "parse seal_content_type = Some (''multipart/encrypted'',
          [''protocol'' \<mapsto> encryptedProtocol, ''boundary'' \<mapsto> seal_boundary])"
    and "length body \<le> maxResponse" and "length plain \<le> maxResponse"
  shows "unsealMessage unwrap parse body ct = Inr plain"
proof -
  from assms(1) obtain sealed sig where w: "wrap plain = Inr (sealed, sig)" "length sig = 16"
    "ct = seal_content_type"
    and body: "body = marker seal_boundary @ (seal_header (length plain) @ marker seal_boundary @
      sealed_payload sealed sig) @ end_marker seal_boundary"
    by (auto simp: sealMessage_def seal_header_def sealed_payload_def check_def
        split: sum.splits if_splits)
  define params where "params = [''protocol'' \<mapsto> encryptedProtocol, ''boundary'' \<mapsto> seal_boundary]"
  have b: "param params ''boundary'' = seal_boundary" by (simp add: params_def param_def)
  have media: "media_ok ''multipart/encrypted'' params"
    by (simp add: media_ok_def params_def param_def contains_any_def seal_boundary_def)
  have inner: "inner_part seal_boundary body = seal_header (length plain) @ marker seal_boundary @
      sealed_payload sealed sig" by (simp add: body inner_part_def)
  have hp: "has_prefix body (marker seal_boundary)" "has_suffix body (end_marker seal_boundary)"
    using has_suffix_append [of "marker seal_boundary @ seal_header (length plain) @
      marker seal_boundary @ sealed_payload sealed sig" "end_marker seal_boundary"]
    by (simp_all add: body)
  show ?thesis
    using assms(4,5) seal_header_read [of "length plain"] unseal_payload_sealed [of sig unwrap, OF w(2) unwrap [OF w(1)]]
    unfolding unsealMessage_eq [of parse, OF parse [folded w(3) params_def]] b Let_def inner
      seal_header_cut by (simp add: media hp maxResponse_def)
qed

text \<open>C30: A message sealed by \<open>sealMessage\<close> and sent back unchanged is unsealed to the plain text,
  when the session's \<open>Unwrap\<close> inverts its \<open>Wrap\<close> on that message and the header parser reads the
  content type as its media type and two parameters.\<close>

theorem unseal_seal:
  assumes "sealMessage wrap plain = Inr (body, ct)"
    and unwrap: "\<And>sealed sig. wrap plain = Inr (sealed, sig) \<Longrightarrow> unwrap sealed sig = Inr plain"
    and parse: "parse seal_content_type = Some (''multipart/encrypted'',
          [''protocol'' \<mapsto> encryptedProtocol, ''boundary'' \<mapsto> seal_boundary])"
    and "length body \<le> maxResponse" and "length plain \<le> maxResponse"
  shows "unsealMessage unwrap parse body ct = Inr plain"
  using assms by (intro unseal_sealed [of wrap plain body ct unwrap parse])

text \<open>A session that reverses the bytes and signs with sixteen zero bytes.\<close>

definition sample_wrap :: "bytes \<Rightarrow> goerr + bytes \<times> bytes" where
  "sample_wrap p = Inr (rev p, replicate 16 (CHR 0x00))"

definition sample_unwrap :: "bytes \<Rightarrow> bytes \<Rightarrow> goerr + bytes" where
  "sample_unwrap c s = Inr (rev c)"

definition sample_parse :: media_parser where
  "sample_parse ct = (if ct = seal_content_type then Some (''multipart/encrypted'',
     [''protocol'' \<mapsto> encryptedProtocol, ''boundary'' \<mapsto> seal_boundary]) else None)"

lemmas sample_defs = sample_wrap_def sample_unwrap_def sample_parse_def maxResponse_def

lemma sample_sealed: "\<exists>body. sealMessage sample_wrap ''<soap/>'' = Inr (body, seal_content_type) \<and>
    length body \<le> maxResponse"
  by (simp add: sealMessage_def sample_wrap_def marker_def end_marker_def crlf_def seal_boundary_def
      type_line_def encryptedProtocol_def length_prefix_def octet_line_def dec.simps maxResponse_def)

theorem unseal_seal_witness:
  "\<exists>body. sealMessage sample_wrap ''<soap/>'' = Inr (body, seal_content_type) \<and>
     unsealMessage sample_unwrap sample_parse body seal_content_type = Inr ''<soap/>''"
proof -
  obtain body where b: "sealMessage sample_wrap ''<soap/>'' = Inr (body, seal_content_type)"
    "length body \<le> maxResponse" using sample_sealed by blast
  have "unsealMessage sample_unwrap sample_parse body seal_content_type = Inr ''<soap/>''"
    by (rule unseal_seal [OF b(1) _ _ b(2)])
      (auto simp: sample_defs)
  with b show ?thesis by blast
qed

theorem unsealMessage_sound_witness:
  "\<exists>typ params. sample_parse seal_content_type = Some (typ, params) \<and> media_ok typ params"
proof -
  obtain body where b: "sealMessage sample_wrap ''<soap/>'' = Inr (body, seal_content_type)"
    "length body \<le> maxResponse" using sample_sealed by blast
  have "unsealMessage sample_unwrap sample_parse body seal_content_type = Inr ''<soap/>''"
    by (rule unseal_sealed [OF b(1) _ _ b(2)]) (auto simp: sample_defs)
  from unsealMessage_sound [OF this] show ?thesis by blast
qed

end
