(* ===== verification/Challenge.thy ===== *)
theory Challenge
  imports Byte_Order
begin

unbundle bit_operations_syntax

text \<open>
  \<open>validateChallenge\<close> of \<open>internal/remote/challenge.go\<close>, the gate in front of the NTLM library:
  server-controlled offsets and lengths of a type-2 message and its list of AV pairs.  Every slice
  and every fixed-width read of the source carries its bounds check here; a read out of bounds is
  the error \<open>GoPanic\<close>, which the theorems exclude.
\<close>

definition bad_challenge :: goerr where
  "bad_challenge = Msg ''invalid NTLM type-2 challenge''"

definition signature :: bytes where
  "signature = ''NTLMSSP'' @ [CHR 0x00]"

text \<open>The \<open>switch id\<close>: the identifiers whose value length is constrained.\<close>

definition av_bad_length :: "nat \<Rightarrow> nat \<Rightarrow> bool" where
  "av_bad_length tag n =
     (if tag \<in> {1, 2, 3, 4, 5, 9} then n mod 2 \<noteq> 0
      else if tag = 6 then n \<noteq> 4
      else if tag = 7 then n \<noteq> 8
      else if tag = 10 then n \<noteq> 16
      else False)"

text \<open>The loop over the AV pairs; \<open>Inr ()\<close> is the source's \<open>return nil\<close>.\<close>

function av_loop :: "bytes \<Rightarrow> nat set \<Rightarrow> goerr + unit" where
  "av_loop data seen =
     (if length data \<ge> 4 then
        guarded (le16 data) (\<lambda>tag.
        guarded (Option.bind (go_from data 2) le16) (\<lambda>n.
        guarded (go_from data 4) (\<lambda>data'.
          check (n > length data' \<or> tag \<in> seen) bad_challenge
            (if tag = 0 then check (n \<noteq> 0 \<or> length data' \<noteq> 0) bad_challenge (Inr ())
             else check (av_bad_length tag n) bad_challenge
               (guarded (go_from data' n) (\<lambda>rest. av_loop rest (insert tag seen)))))))
      else Inl bad_challenge)"
  by pat_completeness auto
termination
  by (relation "measure (\<lambda>(d, s). length d)") (auto simp: go_from_def split: if_splits)

declare av_loop.simps [simp del]

text \<open>One iteration of the loop over the two security buffers.\<close>

definition buffer_ok :: "bytes \<Rightarrow> nat \<Rightarrow> goerr + unit" where
  "buffer_ok b offset =
     guarded (Option.bind (go_from b offset) le16) (\<lambda>size.
     guarded (Option.bind (go_from b (offset + 4)) le32) (\<lambda>start.
       check (size > 0 \<and> (start < 48 \<or> start + size > length b)) bad_challenge (Inr ())))"

definition flags_word :: "nat \<Rightarrow> 32 word" where
  "flags_word n = of_nat n"

abbreviation required :: "32 word" where
  "required \<equiv> 0x20000000 OR 0x00000010 OR 0x00000020 OR 0x00080000"

definition validateChallenge :: "bytes \<Rightarrow> bool \<Rightarrow> goerr + unit" where
  "validateChallenge b sealed =
     (if length b < 48 \<or> length b > 65535 then Inl bad_challenge
      else guarded (go_slice b 0 8) (\<lambda>sig.
           guarded (Option.bind (go_slice b 8 12) le32) (\<lambda>kind.
           check (sig \<noteq> signature \<or> kind \<noteq> 2) bad_challenge (
           guarded (Option.bind (go_slice b 20 24) le32) (\<lambda>f.
           let flags = flags_word f in
           check (flags AND 0x800 \<noteq> 0) (Msg ''anonymous NTLM is not supported'') (
           check (sealed \<and> flags AND required \<noteq> required)
             (Msg ''server must negotiate NTLM 128-bit signing, sealing and extended session security'') (
           check (flags AND 0x02000000 \<noteq> 0 \<and> length b < 56) bad_challenge (
           and_then (buffer_ok b 12) (\<lambda>_.
           and_then (buffer_ok b 40) (\<lambda>_.
           if flags AND 0x800000 = 0 then Inr ()
           else
             guarded (Option.bind (go_from b 40) le16) (\<lambda>size.
             guarded (Option.bind (go_from b 44) le32) (\<lambda>start.
             check (size = 0) bad_challenge (
             guarded (go_slice b start (start + size)) (\<lambda>data. av_loop data {}))))))))))))))"

subsection \<open>Well-formed AV lists\<close>

text \<open>An AV list: identifier and value per pair, ended by the pair \<open>(0, [])\<close>.\<close>

type_synonym av_pair = "nat \<times> bytes"

fun av_encode :: "av_pair list \<Rightarrow> bytes" where
  "av_encode [] = put_le16 0 @ put_le16 0"
| "av_encode ((i, v) # ps) = put_le16 i @ put_le16 (length v) @ v @ av_encode ps"

fun av_wellformed :: "nat set \<Rightarrow> av_pair list \<Rightarrow> bool" where
  "av_wellformed seen [] \<longleftrightarrow> 0 \<notin> seen"
| "av_wellformed seen ((i, v) # ps) \<longleftrightarrow>
     0 < i \<and> i < 65536 \<and> length v < 65536 \<and> i \<notin> seen \<and> \<not> av_bad_length i (length v) \<and>
     av_wellformed (insert i seen) ps"

lemma av_step_view:
  assumes "4 \<le> length data"
  obtains tag n rest where "data = put_le16 tag @ put_le16 n @ rest" "tag < 65536" "n < 65536"
    "le16 data = Some tag" "Option.bind (go_from data 2) le16 = Some n" "go_from data 4 = Some rest"
proof -
  obtain tag where t: "le16 data = Some tag" using assms le16_long [of data] by auto
  obtain n where n: "le16 (drop 2 data) = Some n" by (rule le16_at [of 2 data]) (use assms in simp)
  from put_le16 [OF t] put_le16 [OF n]
  have "data = put_le16 tag @ put_le16 n @ drop 4 data" by simp
  with t n le16_bound [OF t] le16_bound [OF n] assms that show ?thesis by simp
qed

lemma av_loop_step:
  assumes "data = put_le16 tag @ put_le16 n @ rest" and "tag < 65536" and "n < 65536"
  shows "av_loop data seen =
     check (n > length rest \<or> tag \<in> seen) bad_challenge
       (if tag = 0 then check (n \<noteq> 0 \<or> rest \<noteq> []) bad_challenge (Inr ())
        else check (av_bad_length tag n) bad_challenge (av_loop (drop n rest) (insert tag seen)))"
proof -
  have "le16 data = Some tag" "Option.bind (go_from data 2) le16 = Some n"
    "go_from data 4 = Some rest" "4 \<le> length data" using assms by simp_all
  then show ?thesis by (simp add: av_loop.simps [of data seen] check_def)
qed

lemma av_loop_short: "length data < 4 \<Longrightarrow> av_loop data seen = Inl bad_challenge"
  by (simp add: av_loop.simps [of data seen])

lemma av_loop_error: "av_loop data seen = Inl e \<Longrightarrow> e = bad_challenge"
proof (induction data seen rule: av_loop.induct)
  case (1 data seen)
  show ?case
  proof (cases "4 \<le> length data")
    case True
    from True obtain tag n rest where v: "data = put_le16 tag @ put_le16 n @ rest" "tag < 65536"
      "n < 65536" "le16 data = Some tag" "Option.bind (go_from data 2) le16 = Some n"
      "go_from data 4 = Some rest" by (rule av_step_view)
    from "1.prems" av_loop_step [OF v(1-3), of seen] show ?thesis
      using "1.IH" [OF True v(4,5,6), of "drop n rest"]
      by (auto simp: check_def go_from_def split: if_splits)
  qed (use "1.prems" in \<open>simp add: av_loop_short\<close>)
qed

lemma av_loop_no_panic: "av_loop data seen \<noteq> Inl (Sentinel GoPanic)"
  using av_loop_error by (auto simp: bad_challenge_def)

lemma av_loop_accepts:
  "av_loop data seen = Inr () \<longleftrightarrow> (\<exists>ps. data = av_encode ps \<and> av_wellformed seen ps)"
proof (induction data seen rule: av_loop.induct)
  case (1 data seen)
  show ?case
  proof (cases "4 \<le> length data")
    case False
    have "length data \<ge> 4" if "data = av_encode ps" for ps
      using that by (cases ps rule: av_encode.cases) auto
    with False show ?thesis by (auto simp: av_loop_short)
  next
    case True
    from True obtain tag n rest where v: "data = put_le16 tag @ put_le16 n @ rest" "tag < 65536"
      "n < 65536" "le16 data = Some tag" "Option.bind (go_from data 2) le16 = Some n"
      "go_from data 4 = Some rest" by (rule av_step_view)
    note step = av_loop_step [OF v(1-3), of seen]
    have enc: "data = av_encode ps \<and> av_wellformed seen ps \<longleftrightarrow>
        (ps = [] \<and> tag = 0 \<and> n = 0 \<and> rest = [] \<and> 0 \<notin> seen) \<or>
        (\<exists>qs. ps = (tag, take n rest) # qs \<and> 0 < tag \<and> n \<le> length rest \<and> tag \<notin> seen \<and>
           \<not> av_bad_length tag n \<and> drop n rest = av_encode qs \<and> av_wellformed (insert tag seen) qs)" for ps
    proof (cases ps rule: av_encode.cases)
      case 1
      have "data = av_encode [] \<longleftrightarrow> tag = 0 \<and> n = 0 \<and> rest = []"
      proof
        assume d: "data = av_encode []"
        with v(4-6) show "tag = 0 \<and> n = 0 \<and> rest = []" using le16_put [of 0 "put_le16 0"]
            le16_put [of 0 "[]"] by simp
      qed (simp add: v(1))
      with 1 show ?thesis by auto
    next
      case (2 i u qs)
      have "data = av_encode ps \<and> i < 65536 \<and> length u < 65536 \<longleftrightarrow>
        i = tag \<and> n \<le> length rest \<and> u = take n rest \<and> drop n rest = av_encode qs"
      proof
        assume d: "data = av_encode ps \<and> i < 65536 \<and> length u < 65536"
        with 2 v(4-6) show "i = tag \<and> n \<le> length rest \<and> u = take n rest \<and> drop n rest = av_encode qs"
          using le16_put [of i "put_le16 (length u) @ u @ av_encode qs"]
            le16_put [of "length u" "u @ av_encode qs"] by auto
      next
        assume d: "i = tag \<and> n \<le> length rest \<and> u = take n rest \<and> drop n rest = av_encode qs"
        then have "rest = u @ av_encode qs" by (metis append_take_drop_id)
        moreover have "length u = n" using d by simp
        ultimately show "data = av_encode ps \<and> i < 65536 \<and> length u < 65536"
          using d 2 v(1-3) by simp
      qed
      with 2 v(2,3) show ?thesis by auto
    qed
    have "av_loop data seen = Inr () \<longleftrightarrow> n \<le> length rest \<and> tag \<notin> seen \<and>
      (if tag = 0 then n = 0 \<and> rest = []
       else \<not> av_bad_length tag n \<and> av_loop (drop n rest) (insert tag seen) = Inr ())"
      unfolding step by auto
    also have "\<dots> \<longleftrightarrow> (\<exists>ps. data = av_encode ps \<and> av_wellformed seen ps)"
    proof (cases "tag = 0 \<or> n > length rest \<or> tag \<in> seen \<or> av_bad_length tag n")
      case True
      then show ?thesis unfolding enc by (auto simp: av_bad_length_def)
    next
      case False
      then have "av_loop (drop n rest) (insert tag seen) = Inr () \<longleftrightarrow>
        (\<exists>qs. drop n rest = av_encode qs \<and> av_wellformed (insert tag seen) qs)"
        using "1.IH" [OF True v(4,5,6), of "drop n rest"] by simp
      with False show ?thesis unfolding enc by auto
    qed
    finally show ?thesis .
  qed
qed

subsection \<open>The message checks\<close>

text \<open>The security buffer at an offset lies inside the message and behind its fixed part.\<close>

definition buffer_at :: "bytes \<Rightarrow> nat \<Rightarrow> nat \<times> nat" where
  "buffer_at b offset = (the (le16 (drop offset b)), the (le32 (drop (offset + 4) b)))"

definition buffer_inside :: "bytes \<Rightarrow> nat \<Rightarrow> bool" where
  "buffer_inside b offset \<longleftrightarrow>
     (case buffer_at b offset of (sz, start) \<Rightarrow> sz = 0 \<or> 48 \<le> start \<and> start + sz \<le> length b)"

definition message_flags :: "bytes \<Rightarrow> 32 word" where
  "message_flags b = flags_word (the (le32 (take 4 (drop 20 b))))"

definition target_info :: "bytes \<Rightarrow> bytes" where
  "target_info b = (case buffer_at b 40 of (sz, start) \<Rightarrow> take sz (drop start b))"

lemma buffer_ok_eq:
  assumes "offset + 8 \<le> length b"
  shows "buffer_ok b offset = (if buffer_inside b offset then Inr () else Inl bad_challenge)"
proof -
  obtain x where x: "le16 (drop offset b) = Some x"
    by (rule le16_at [of offset b]) (use assms in simp)
  moreover obtain y where "le32 (drop (offset + 4) b) = Some y"
    by (rule le32_at [of "offset + 4" b]) (use assms in simp)
  ultimately show ?thesis using assms
    by (auto simp: buffer_ok_def buffer_inside_def buffer_at_def check_def)
qed

text \<open>The whole function as one decision on a message that is long enough for its fixed part.\<close>

lemma validateChallenge_eq:
  assumes "48 \<le> length b" and "length b \<le> 65535"
  shows "validateChallenge b sealed =
    (if take 8 b \<noteq> signature \<or> le32 (take 4 (drop 8 b)) \<noteq> Some 2 then Inl bad_challenge
     else if message_flags b AND 0x800 \<noteq> 0 then Inl (Msg ''anonymous NTLM is not supported'')
     else if sealed \<and> message_flags b AND required \<noteq> required
     then Inl (Msg ''server must negotiate NTLM 128-bit signing, sealing and extended session security'')
     else if message_flags b AND 0x02000000 \<noteq> 0 \<and> length b < 56 then Inl bad_challenge
     else if \<not> buffer_inside b 12 \<or> \<not> buffer_inside b 40 then Inl bad_challenge
     else if message_flags b AND 0x800000 = 0 then Inr ()
     else if fst (buffer_at b 40) = 0 then Inl bad_challenge
     else av_loop (target_info b) {})"
proof -
  obtain k where k: "le32 (take 4 (drop 8 b)) = Some k"
    using assms le32_long [of "take 4 (drop 8 b)"] by auto
  obtain f where f: "le32 (take 4 (drop 20 b)) = Some f"
    using assms le32_long [of "take 4 (drop 20 b)"] by auto
  obtain x where x: "le16 (drop 40 b) = Some x" 
    by (rule le16_at [of 40 b]) (use assms in simp)
  obtain y where y: "le32 (drop 44 b) = Some y" 
    by (rule le32_at [of 44 b]) (use assms in simp)
  have flags: "message_flags b = flags_word f" by (simp add: message_flags_def f)
  have bufs: "buffer_ok b 12 = (if buffer_inside b 12 then Inr () else Inl bad_challenge)"
    "buffer_ok b 40 = (if buffer_inside b 40 then Inr () else Inl bad_challenge)"
    using assms by (simp_all add: buffer_ok_eq)
  have at40: "buffer_at b 40 = (x, y)" by (simp add: buffer_at_def x y)
  have slice: "go_slice b y (y + x) = Some (target_info b)" if "buffer_inside b 40" "x \<noteq> 0"
    using that by (simp add: buffer_inside_def at40 target_info_def)
  show ?thesis
    using assms k f x y slice at40
    by (simp add: validateChallenge_def flags bufs check_def Let_def)
qed

lemma validateChallenge_error:
  assumes "validateChallenge b sealed = Inl e"
  shows "\<exists>m. e = Msg m"
proof (cases "48 \<le> length b \<and> length b \<le> 65535")
  case True
  with assms av_loop_error [of "target_info b" "{}" e] show ?thesis
    by (auto simp: validateChallenge_eq bad_challenge_def split: if_splits)
qed (use assms in \<open>auto simp: validateChallenge_def bad_challenge_def\<close>)

text \<open>No server message makes the challenge check panic: every slice and every fixed-width read
  stays in bounds, for every byte string of any length.\<close>

theorem validateChallenge_no_panic: "validateChallenge b sealed \<noteq> Inl (Sentinel GoPanic)"
proof (cases "48 \<le> length b \<and> length b \<le> 65535")
  case True
  then show ?thesis
    by (simp add: validateChallenge_eq av_loop_no_panic) (simp add: bad_challenge_def)
qed (auto simp: validateChallenge_def bad_challenge_def)

text \<open>The challenge check accepts exactly the messages with the NTLM signature and type, no
  anonymous flag, the sealing flags when sealing is asked for, both security buffers inside the
  message and, when target information is announced, a non-empty AV list of distinct identifiers
  with the fixed widths the NTLM library reads and a final end marker with nothing behind it.\<close>

theorem validateChallenge_accepts:
  "validateChallenge b sealed = Inr () \<longleftrightarrow>
     48 \<le> length b \<and> length b \<le> 65535 \<and> take 8 b = signature \<and>
     le32 (take 4 (drop 8 b)) = Some 2 \<and> message_flags b AND 0x800 = 0 \<and>
     (sealed \<longrightarrow> message_flags b AND required = required) \<and>
     (message_flags b AND 0x02000000 \<noteq> 0 \<longrightarrow> 56 \<le> length b) \<and>
     buffer_inside b 12 \<and> buffer_inside b 40 \<and>
     (message_flags b AND 0x800000 \<noteq> 0 \<longrightarrow>
        (\<exists>ps. target_info b = av_encode ps \<and> av_wellformed {} ps))"
proof (cases "48 \<le> length b \<and> length b \<le> 65535")
  case True
  have "fst (buffer_at b 40) \<noteq> 0" if "target_info b = av_encode ps" for ps
  proof
    assume "fst (buffer_at b 40) = 0"
    then have "target_info b = []" by (cases "buffer_at b 40") (simp add: target_info_def)
    with that show False by (cases ps rule: av_encode.cases) (simp_all add: put_le16_def)
  qed
  then have "av_loop (target_info b) {} = Inr () \<Longrightarrow> fst (buffer_at b 40) \<noteq> 0"
    unfolding av_loop_accepts by blast
  with True show ?thesis
    by (simp add: validateChallenge_eq bad_challenge_def flip: av_loop_accepts) auto
qed (auto simp: validateChallenge_def)

text \<open>An accepted message, with an AV list of a domain name and a timestamp.\<close>

definition sample_challenge :: bytes where
  "sample_challenge = signature @ map char_of [2::nat, 0, 0, 0,  0, 0, 0, 0,  48, 0, 0, 0,
     0x30, 0, 0x88, 0x20,  1, 2, 3, 4, 5, 6, 7, 8,  0, 0, 0, 0, 0, 0, 0, 0,  22, 0, 22, 0,  48, 0, 0, 0]
     @ av_encode [(2, ''AB''), (7, ''12345678'')]"

theorem validateChallenge_accepts_witness:
  "validateChallenge sample_challenge True = Inr () \<and>
   (\<exists>ps. target_info sample_challenge = av_encode ps \<and> av_wellformed {} ps)"
proof -
  have "av_encode [(2, ''AB''), (7, ''12345678'')] = target_info sample_challenge"
    by (simp add: sample_challenge_def target_info_def buffer_at_def signature_def put_le16_def)
  moreover have "av_wellformed {} [(2, ''AB''), (7, ''12345678'')]" by (simp add: av_bad_length_def)
  ultimately have tgt: "\<exists>ps. target_info sample_challenge = av_encode ps \<and> av_wellformed {} ps"
    by metis
  moreover have "validateChallenge sample_challenge True = Inr ()"
    unfolding validateChallenge_accepts using tgt
    by (simp add: sample_challenge_def buffer_inside_def message_flags_def flags_word_def
        buffer_at_def signature_def put_le16_def)
  ultimately show ?thesis by blast
qed

end
