(* ===== verification/Lanes.thy ===== *)
theory Lanes
  imports Poster Sealing Challenge Base64
begin

text \<open>
  \<open>internal/remote/persistent.go\<close>, \<open>transport.go\<close> and \<open>keepalive.go\<close>: authenticated lanes, each over
  one pinned TCP connection with its own NTLM sealing state; handshake retries; the standalone
  transport that authenticates for every exchange; heartbeats.

  The network, the NTLM library, the clock and the XML decoder are parameters, collected in the
  record \<open>net_env\<close>; all of them act on a state \<open>'n\<close> of their own.
\<close>

subsection \<open>The network\<close>

text \<open>The failures of an exchange that the code tells apart.\<close>

datatype net_failure = Net_timeout | Net_eof | Net_unexpected_eof | Net_reset | Net_ctx ctx_err | Net_other bytes

fun net_goerr :: "net_failure \<Rightarrow> goerr" where
  "net_goerr Net_timeout = NetError True (Msg ''i/o timeout'')"
| "net_goerr Net_eof = NetError False (Sentinel IoEOF)"
| "net_goerr Net_unexpected_eof = NetError False (Sentinel IoUnexpectedEOF)"
| "net_goerr Net_reset = NetError False (Sentinel ConnReset)"
| "net_goerr (Net_ctx c) = Wrap ''Post'' (ctx_goerr c)"
| "net_goerr (Net_other m) = Wrap ''Post'' (Msg m)"

record reply =
  status :: nat
  content_type :: bytes
  www_authenticate :: "bytes list"
  reply_body :: bytes

text \<open>
  \<open>alive i\<close>: lane \<open>i\<close>'s pooled connection can take a request; \<open>dial\<close> connects; \<open>exchange\<close> writes a
  request (authorization header, payload, content type) on the connection and waits for its reply;
  \<open>wrap\<close> and \<open>unwrap\<close> are the lane's security session.
\<close>

record 'n net_env =
  alive :: "nat \<Rightarrow> 'n \<Rightarrow> bool"
  dial :: "nat \<Rightarrow> 'n \<Rightarrow> net_failure option \<times> 'n"
  exchange :: "nat \<Rightarrow> bytes \<Rightarrow> bytes \<Rightarrow> bytes \<Rightarrow> 'n \<Rightarrow> (net_failure + reply) \<times> 'n"
  wrap :: "nat \<Rightarrow> 'n \<Rightarrow> bytes \<Rightarrow> goerr + bytes \<times> bytes"
  unwrap :: "nat \<Rightarrow> 'n \<Rightarrow> bytes \<Rightarrow> bytes \<Rightarrow> goerr + bytes"
  sealed_state :: "nat \<Rightarrow> 'n \<Rightarrow> 'n"
  media :: media_parser
  soap_envelope :: "bytes \<Rightarrow> bool"
  identify_reply :: "bytes \<Rightarrow> bool"
  clock :: "'n \<Rightarrow> int"
  root_error :: "bytes option"
  ntlm_client :: bool
  ntlm_negotiate :: "'n \<Rightarrow> bytes option \<times> 'n"
  ntlm_authenticate :: "bytes \<Rightarrow> 'n \<Rightarrow> bytes option \<times> 'n"
  ntlm_session :: "'n \<Rightarrow> bool"

text \<open>A lane: the fields of \<open>persistentPoster\<close>, the \<open>dialed\<close> flag of its pinned transport, and
  whether the transport holds a connection.\<close>

record lane =
  encrypted :: bool
  lane_failed :: bool
  lane_closed :: bool
  dialed :: bool
  connected :: bool
  lastUsed :: int

text \<open>The lanes opened so far, and the SOAP messages written to the network with their lanes.\<close>

record 'n world =
  net :: 'n
  lanes :: "lane list"
  sent :: "(nat \<times> bytes) list"

definition wire :: "'n world \<Rightarrow> bytes list" where
  "wire w = map snd (sent w)"

definition soap_type :: bytes where
  "soap_type = ''application/soap+xml;charset=UTF-8''"

subsection \<open>sendHTTP over a pinned transport\<close>

text \<open>
  \<open>pinnedHTTPTransport\<close> dials once: a second dial is refused with \<open>errReplayRefused\<close> before anything
  is written.  The result has the outcome, the lane, the network, and whether the request was written.
\<close>

definition sendHTTP ::
  "'n net_env \<Rightarrow> nat \<Rightarrow> lane \<Rightarrow> bytes \<Rightarrow> bytes \<Rightarrow> bytes \<Rightarrow> 'n \<Rightarrow> (goerr + reply) \<times> lane \<times> 'n \<times> bool" where
  "sendHTTP env i l auth payload ctype n =
     (let run = (\<lambda>l n. case exchange env i auth payload ctype n of
            (Inl f, n') \<Rightarrow> (Inl (net_goerr f), l, n', True)
          | (Inr r, n') \<Rightarrow>
              (if length (reply_body r) > maxResponse
               then (Inl (Msg ''WinRM response exceeds 4 MiB''), l, n', True)
               else (Inr r, l, n', True)))
      in if connected l \<and> alive env i n then run l n
         else if dialed l then (Inl (Wrap ''Post'' (Sentinel ErrReplayRefused)), l, n, False)
         else (case dial env i n of
            (Some f, n') \<Rightarrow> (Inl (net_goerr f), l\<lparr>dialed := True\<rparr>, n', False)
          | (None, n') \<Rightarrow> run (l\<lparr>dialed := True, connected := True\<rparr>) n'))"

subsection \<open>Post\<close>

definition set_lane :: "nat \<Rightarrow> lane \<Rightarrow> 'n world \<Rightarrow> 'n world" where
  "set_lane i l w = w\<lparr>lanes := (lanes w)[i := l]\<rparr>"

text \<open>\<open>fail\<close> and \<open>Close\<close>; both close idle connections.\<close>

definition fail_lane :: "lane \<Rightarrow> lane" where
  "fail_lane l = l\<lparr>lane_failed := True, connected := False\<rparr>"

definition close_lane :: "nat \<Rightarrow> 'n world \<Rightarrow> 'n world" where
  "close_lane i w = (let l = lanes w ! i in
     if lane_closed l then w else set_lane i (l\<lparr>lane_closed := True, connected := False\<rparr>) w)"

text \<open>The checks on the reply: the SOAP bytes or an error.\<close>

definition read_reply :: "'n net_env \<Rightarrow> nat \<Rightarrow> lane \<Rightarrow> 'n \<Rightarrow> reply \<Rightarrow> goerr + bytes" where
  "read_reply env i l n r =
     check (status r \<noteq> 200 \<and> status r \<noteq> 500) (Msg ''WinRM request failed'')
       (and_then
          (if encrypted l then unsealMessage (unwrap env i n) (media env) (reply_body r) (content_type r)
           else check (\<not> has_prefix (to_lower (content_type r)) ''application/soap+xml'')
                  (Msg ''expected SOAP response'') (Inr (reply_body r)))
          (\<lambda>data. check (\<not> soap_envelope env data) (Msg ''invalid SOAP response'') (Inr data)))"

definition postLocked :: "'n net_env \<Rightarrow> nat \<Rightarrow> 'n world post" where
  "postLocked env i ctx m w =
     (let l = lanes w ! i in
      if lane_closed l \<or> lane_failed l then (Inl (unsent (Msg ''NTLM connection is closed'')), w)
      else case ctx w of
        Some e \<Rightarrow> (Inl (unsent (ctx_goerr e)), w)
      | None \<Rightarrow>
          (case (if encrypted l then sealMessage (wrap env i (net w)) m else Inr (m, soap_type)) of
             Inl e \<Rightarrow> (Inl (unsent e), set_lane i (fail_lane l) w)
           | Inr (payload, ctype) \<Rightarrow>
               (let n = (if encrypted l then sealed_state env i (net w) else net w) in
                case sendHTTP env i l [] payload ctype n of
                  (res, l', n', written) \<Rightarrow>
                    let w' = w\<lparr>net := n', sent := (if written then sent w @ [(i, m)] else sent w)\<rparr> in
                    (case res of
                       Inl e \<Rightarrow>
                         let err = Wrap ''WinRM SOAP exchange'' e in
                         ((if errors_is err ErrReplayRefused then Inl (unsent err) else Inl err),
                          set_lane i (fail_lane l') w')
                     | Inr r \<Rightarrow>
                         (case read_reply env i l' n' r of
                            Inl e \<Rightarrow> (Inl e, set_lane i (fail_lane l') w')
                          | Inr data \<Rightarrow>
                              (Inr data, set_lane i (l'\<lparr>lastUsed := clock env n'\<rparr>) w'))))))"

text \<open>\<open>Post\<close> takes the lane's mutex and runs \<open>postLocked\<close>.\<close>

definition persistent_post :: "'n net_env \<Rightarrow> nat \<Rightarrow> 'n world post" where
  "persistent_post env i = postLocked env i"

subsection \<open>The contract holds\<close>

lemma net_goerr_plain [simp]:
  "\<not> errors_is (net_goerr f) ErrUnsent" "\<not> errors_is (net_goerr f) ErrReplayRefused"
  "as_handshake (net_goerr f) = None" "unmarked (net_goerr f)"
  by (cases f; simp)+

lemma wire_set_lane [simp]: "wire (set_lane i l w) = wire w" "sent (set_lane i l w) = sent w"
  "net (set_lane i l w) = net w"
  by (simp_all add: set_lane_def wire_def)

lemma read_reply_error: "read_reply env i l n r = Inl e \<Longrightarrow> \<exists>m. e = Msg m"
proof (cases "status r \<noteq> 200 \<and> status r \<noteq> 500")
  case False
  let ?p = "if encrypted l then unsealMessage (unwrap env i n) (media env) (reply_body r) (content_type r)
           else check (\<not> has_prefix (to_lower (content_type r)) ''application/soap+xml'')
                  (Msg ''expected SOAP response'') (Inr (reply_body r))"
  assume "read_reply env i l n r = Inl e"
  with False have "and_then ?p (\<lambda>data. check (\<not> soap_envelope env data)
      (Msg ''invalid SOAP response'') (Inr data)) = Inl e"
    unfolding read_reply_def by (auto simp only: check_def if_False)
  moreover have "\<exists>m. x = Msg m" if "?p = Inl x" for x
    using that unsealMessage_error by (auto simp: check_def split: if_splits)
  ultimately show ?thesis by (cases ?p) (auto simp: check_def split: if_splits)
qed (auto simp: read_reply_def)

lemma sendHTTP_cases:
  assumes "sendHTTP env i l auth payload ctype n = (res, l', n', written)"
  shows "res = Inr r \<Longrightarrow> written"
    and "res = Inl e \<Longrightarrow> \<not> errors_is e ErrUnsent \<and> as_handshake e = None \<and> unmarked e \<and>
      (errors_is e ErrReplayRefused \<longrightarrow> \<not> written)"
    and "dialed l \<Longrightarrow> dialed l'" and "connected l' \<Longrightarrow> \<not> connected l \<Longrightarrow> dialed l'"
  using assms by (auto simp: sendHTTP_def Let_def split: if_splits prod.splits sum.splits option.splits)

text \<open>The cases of a post.\<close>

lemma postLocked_cases:
  assumes "postLocked env i ctx m w = (r, w')"
  obtains (refused) e where "r = Inl (unsent e)" and "as_handshake e = None" and "unmarked e"
      and "wire w' = wire w"
  | (failed) e l where "r = Inl e" and "\<not> errors_is e ErrUnsent" and "as_handshake e = None" and "unmarked e"
      and "wire w' = wire w \<or> wire w' = wire w @ [m]" and "lanes w' = (lanes w)[i := fail_lane l]"
  | (answered) d l where "r = Inr d" and "wire w' = wire w @ [m]" and "lanes w' = (lanes w)[i := l]"
      and "\<not> lane_failed l" and "\<not> lane_closed (lanes w ! i)"
proof -
  let ?l = "lanes w ! i"
  show ?thesis
  proof (cases "lane_closed ?l \<or> lane_failed ?l")
    case True
    with assms show ?thesis by (intro refused [of "Msg ''NTLM connection is closed''"])
      (auto simp: postLocked_def Let_def)
  next
    case usable: False
    show ?thesis
    proof (cases "ctx w")
      case (Some e)
      with usable assms show ?thesis
        by (intro refused [of "ctx_goerr e"]) (auto simp: postLocked_def Let_def)
    next
      case live: None
      define p where "p = (if encrypted ?l then sealMessage (wrap env i (net w)) m else Inr (m, soap_type))"
      show ?thesis
      proof (cases p)
        case (Inl e)
        have "as_handshake e = None" "unmarked e"
          using Inl by (auto simp: p_def sealMessage_def check_def split: sum.splits if_splits)
        with usable live assms Inl show ?thesis
          by (intro refused [of e]) (auto simp: postLocked_def Let_def p_def [symmetric])
      next
        case (Inr pc)
        obtain payload ctype where pc: "p = Inr (payload, ctype)" using Inr by (cases pc) auto
        define n where "n = (if encrypted ?l then sealed_state env i (net w) else net w)"
        obtain res l' n' written where h: "sendHTTP env i ?l [] payload ctype n = (res, l', n', written)"
          by (metis prod_cases4)
        define w1 where "w1 = w\<lparr>net := n', sent := (if written then sent w @ [(i, m)] else sent w)\<rparr>"
        have w1: "wire w1 = (if written then wire w @ [m] else wire w)" "lanes w1 = lanes w"
          by (simp_all add: w1_def wire_def)
        have run: "(case res of
             Inl e \<Rightarrow>
               let err = Wrap ''WinRM SOAP exchange'' e in
               ((if errors_is err ErrReplayRefused then Inl (unsent err) else Inl err),
                set_lane i (fail_lane l') w1)
           | Inr rep \<Rightarrow>
               (case read_reply env i l' n' rep of
                  Inl e \<Rightarrow> (Inl e, set_lane i (fail_lane l') w1)
                | Inr data \<Rightarrow> (Inr data, set_lane i (l'\<lparr>lastUsed := clock env n'\<rparr>) w1))) = (r, w')"
          using assms usable live pc h unfolding w1_def
          by (simp add: postLocked_def Let_def p_def [symmetric] n_def [symmetric])
        show ?thesis
        proof (cases res)
          case (Inl e)
          let ?err = "Wrap ''WinRM SOAP exchange'' e"
          note law = sendHTTP_cases(2) [OF h Inl]
          show ?thesis
          proof (cases "errors_is e ErrReplayRefused")
            case True
            with run Inl law w1 show ?thesis by (intro refused [of ?err]) (auto simp: Let_def)
          next
            case False
            with run Inl law w1 show ?thesis
              by (intro failed [of ?err l']) (auto simp: Let_def set_lane_def wire_def)
          qed
        next
          case rep: (Inr rep)
          have written: written by (rule sendHTTP_cases(1) [OF h rep])
          show ?thesis
          proof (cases "read_reply env i l' n' rep")
            case (Inl e)
            from read_reply_error [OF Inl] have "\<not> errors_is e ErrUnsent" "as_handshake e = None"
              "unmarked e" by auto
            with run rep Inl w1 written show ?thesis
              by (intro failed [of e l']) (auto simp: set_lane_def wire_def)
          next
            case (Inr d)
            have "lane_failed l' = lane_failed ?l"
              using h by (auto simp: sendHTTP_def Let_def split: if_splits prod.splits sum.splits option.splits)
            with run rep Inr w1 written usable show ?thesis
              by (intro answered [of d "l'\<lparr>lastUsed := clock env n'\<rparr>"]) (auto simp: set_lane_def wire_def)
          qed
        qed
      qed
    qed
  qed
qed

interpretation persistent: poster "persistent_post env i" wire for env i
proof
  fix ctx m w x w'
  assume a: "persistent_post env i ctx m w = (Inr x, w')"
  then show "wire w' = wire w @ [m]"
    unfolding persistent_post_def by (cases rule: postLocked_cases) auto
next
  fix ctx m w e w'
  assume a: "persistent_post env i ctx m w = (Inl e, w')"
  then show "wire w' = wire w \<or> wire w' = wire w @ [m]"
    unfolding persistent_post_def by (cases rule: postLocked_cases) auto
  from a show "unmarked e"
    unfolding persistent_post_def by (cases rule: postLocked_cases) auto
  assume "errors_is e ErrUnsent"
  with a show "wire w' = wire w"
    unfolding persistent_post_def by (cases rule: postLocked_cases) auto
qed

subsection \<open>A lane that failed stays silent\<close>

lemma dead_lane:
  "lane_closed (lanes w ! i) \<or> lane_failed (lanes w ! i) \<Longrightarrow>
     postLocked env i ctx m w = (Inl (unsent (Msg ''NTLM connection is closed'')), w)"
  by (simp add: postLocked_def Let_def)

lemma failed_then_dead:
  assumes "postLocked env i ctx m w = (Inl e, w')" and "\<not> errors_is e ErrUnsent" and "i < length (lanes w)"
  shows "lane_failed (lanes w' ! i)"
  using assms(1)
proof (cases rule: postLocked_cases)
  case refused
  with assms(2) show ?thesis by simp
next
  case (failed e l)
  with assms(3) show ?thesis by (simp add: fail_lane_def)
qed simp

subsection \<open>The challenge header\<close>

text \<open>One comma-separated part of a \<open>WWW-Authenticate\<close> line, split into fields.\<close>

definition challenge_field :: "bytes \<Rightarrow> bytes list \<Rightarrow> (bytes \<times> bytes) option" where
  "challenge_field want fs =
     (case fs of
        [] \<Rightarrow> None
      | f # rest \<Rightarrow>
          if \<not> equal_fold f ''Negotiate'' \<and> \<not> equal_fold f ''NTLM'' then None
          else if want \<noteq> [] \<and> \<not> equal_fold f want then None
          else if rest = [] \<and> want = [] then Some (f, [])
          else if length rest = 1 then
            (case b64_decode False (hd rest) of
               None \<Rightarrow> None
             | Some b \<Rightarrow> if 0 < length b \<and> length b < 65536 then Some (f, b) else None)
          else None)"

definition challenge :: "bytes list \<Rightarrow> bytes \<Rightarrow> goerr + bytes \<times> bytes" where
  "challenge headers want =
     (case first_some (challenge_field want)
             (map str_fields (concat (map (\<lambda>line. str_split line '','') headers))) of
        None \<Rightarrow> Inl (Msg ''server did not provide a usable NTLM/Negotiate challenge'')
      | Some r \<Rightarrow> Inr r)"

definition splitUser :: "bytes \<Rightarrow> bytes \<times> bytes" where
  "splitUser user =
     (case str_cut user [CHR 0x5C] of (domain, nam, ok) \<Rightarrow>
        if ok then (nam, domain)
        else (case str_cut user ''@'' of (nam, domain, ok) \<Rightarrow>
          if ok then (nam, domain) else (user, [])))"

subsection \<open>authenticateConnection\<close>

definition fresh_lane :: "bool \<Rightarrow> lane" where
  "fresh_lane enc = \<lparr>encrypted = enc, lane_failed = False, lane_closed = False, dialed = False,
     connected = False, lastUsed = 0\<rparr>"

text \<open>One handshake exchange: an empty body, its phase, and the next steps on success.\<close>

definition handshake ::
  "'n net_env \<Rightarrow> nat \<Rightarrow> bytes \<Rightarrow> lane \<Rightarrow> bytes \<Rightarrow> 'n \<Rightarrow>
   (reply \<Rightarrow> lane \<Rightarrow> 'n \<Rightarrow> (goerr + lane) \<times> 'n) \<Rightarrow> (goerr + lane) \<times> 'n" where
  "handshake env i phase l auth n k =
     (case sendHTTP env i l auth [] soap_type n of
        (Inl e, l', n', _) \<Rightarrow> (Inl (HandshakeTransport phase e), n')
      | (Inr r, l', n', _) \<Rightarrow> k r l' n')"

definition auth_header :: "bytes \<Rightarrow> bytes \<Rightarrow> bytes" where
  "auth_header scheme token = scheme @ '' '' @ b64_encode token"

definition authenticate_third ::
  "'n net_env \<Rightarrow> nat \<Rightarrow> bytes \<Rightarrow> bytes \<Rightarrow> lane \<Rightarrow> 'n \<Rightarrow> (goerr + lane) \<times> 'n" where
  "authenticate_third env i scheme input l n =
     (case validateChallenge input (encrypted l) of
        Inl e \<Rightarrow> (Inl e, n)
      | Inr _ \<Rightarrow>
          (case ntlm_authenticate env input n of
             (None, n') \<Rightarrow> (Inl (Msg ''invalid NTLM challenge or credentials''), n')
           | (Some token, n') \<Rightarrow>
               handshake env i ''NTLM authentication'' l (auth_header scheme token) n' (\<lambda>r l n.
                 if status r \<noteq> 200 \<and> status r \<noteq> 400
                 then (Inl (Msg ''NTLM authentication failed''), n)
                 else if \<not> ntlm_session env n
                 then (Inl (Msg ''NTLM authentication did not establish a session''), n)
                 else (Inr (l\<lparr>lastUsed := clock env n\<rparr>), n))))"

definition authenticate_lane ::
  "'n net_env \<Rightarrow> bytes \<Rightarrow> nat \<Rightarrow> 'n \<Rightarrow> (goerr + lane) \<times> 'n" where
  "authenticate_lane env endpoint i n =
     (if has_prefix endpoint ''https://'' \<and> root_error env \<noteq> None then (Inl (Msg (the (root_error env))), n)
      else if \<not> ntlm_client env then (Inl (Msg ''cannot initialize NTLM''), n)
      else
        handshake env i ''NTLM discovery'' (fresh_lane (has_prefix endpoint ''http://'')) [] n (\<lambda>r l n.
          if status r \<noteq> 401 then (Inl (Msg ''expected NTLM authentication challenge''), n)
          else case challenge (www_authenticate r) [] of
            Inl e \<Rightarrow> (Inl e, n)
          | Inr (scheme, _) \<Rightarrow>
              (case ntlm_negotiate env n of
                 (None, n') \<Rightarrow> (Inl (Msg ''cannot create NTLM negotiate message''), n')
               | (Some token, n') \<Rightarrow>
                   handshake env i ''NTLM negotiation'' (l\<lparr>connected := False, dialed := False\<rparr>)
                     (auth_header scheme token) n' (\<lambda>r l n.
                     if status r \<noteq> 401 then (Inl (Msg ''expected NTLM type-2 challenge''), n)
                     else case challenge (www_authenticate r) scheme of
                       Inl e \<Rightarrow> (Inl e, n)
                     | Inr (_, input) \<Rightarrow> authenticate_third env i scheme input l n))))"

text \<open>The new lane is the last of the world.\<close>

definition authenticateConnection :: "'n net_env \<Rightarrow> bytes \<Rightarrow> 'n world \<Rightarrow> (goerr + nat) \<times> 'n world" where
  "authenticateConnection env endpoint w =
     (case authenticate_lane env endpoint (length (lanes w)) (net w) of
        (Inl e, n) \<Rightarrow> (Inl e, w\<lparr>net := n\<rparr>)
      | (Inr l, n) \<Rightarrow> (Inr (length (lanes w)), w\<lparr>net := n, lanes := lanes w @ [l]\<rparr>))"

subsection \<open>Handshake retries\<close>

definition retryableHandshake :: "goerr \<Rightarrow> bool" where
  "retryableHandshake err \<longleftrightarrow> as_net_timeout err = Some True \<or> errors_is err IoEOF \<or>
     errors_is err IoUnexpectedEOF \<or> errors_is err ConnReset"

definition retry_again :: "'w ctx \<Rightarrow> nat \<Rightarrow> goerr \<Rightarrow> 'w \<Rightarrow> bool" where
  "retry_again ctx i e w \<longleftrightarrow> \<not> (ctx w \<noteq> None \<or>
     (case as_handshake e of None \<Rightarrow> True | Some c \<Rightarrow> \<not> retryableHandshake c) \<or> i \<ge> 2)"

function retries :: "'w ctx \<Rightarrow> ('w \<Rightarrow> (goerr + 'a) \<times> 'w) \<Rightarrow> nat \<Rightarrow> 'w \<Rightarrow> (goerr + 'a) \<times> 'w" where
  "retries ctx attempt i w =
     (case attempt w of
        (Inr x, w') \<Rightarrow> (Inr x, w')
      | (Inl e, w') \<Rightarrow>
          if retry_again ctx i e w' then retries ctx attempt (i + 1) w' else (Inl e, w'))"
  by pat_completeness auto
termination by (relation "measure (\<lambda>(ctx, attempt, i, w). 2 - i)") (auto simp: retry_again_def)

declare retries.simps [simp del]

definition withHandshakeRetries :: "'w ctx \<Rightarrow> ('w \<Rightarrow> (goerr + 'a) \<times> 'w) \<Rightarrow> 'w \<Rightarrow> (goerr + 'a) \<times> 'w" where
  "withHandshakeRetries ctx attempt w = retries ctx attempt 0 w"

definition openPersistentWithRetries :: "'n net_env \<Rightarrow> bytes \<Rightarrow> 'n world ctx \<Rightarrow> 'n world \<Rightarrow> (goerr + nat) \<times> 'n world" where
  "openPersistentWithRetries env endpoint ctx w =
     withHandshakeRetries ctx (authenticateConnection env endpoint) w"

text \<open>\<open>NewPersistentPosters\<close>: two lanes, the first closed again when the second cannot be opened.\<close>

definition NewPersistentPosters ::
  "'n net_env \<Rightarrow> bytes \<Rightarrow> 'n world ctx \<Rightarrow> 'n world \<Rightarrow> (goerr + nat \<times> nat) \<times> 'n world" where
  "NewPersistentPosters env endpoint ctx w =
     (case openPersistentWithRetries env endpoint ctx w of
        (Inl e, w1) \<Rightarrow> (Inl e, w1)
      | (Inr a, w1) \<Rightarrow>
          (case openPersistentWithRetries env endpoint ctx w1 of
             (Inl e, w2) \<Rightarrow> (Inl e, close_lane a w2)
           | (Inr b, w2) \<Rightarrow> (Inr (a, b), w2)))"

text \<open>The standalone transport: \<open>postOnce\<close> on a connection of its own, with handshake retries.\<close>

definition postOnce :: "'n net_env \<Rightarrow> bytes \<Rightarrow> 'n world post" where
  "postOnce env endpoint ctx m w =
     (case authenticateConnection env endpoint w of
        (Inl e, w1) \<Rightarrow> (Inl (unsent e), w1)
      | (Inr i, w1) \<Rightarrow>
          (case persistent_post env i ctx m w1 of (r, w2) \<Rightarrow> (r, close_lane i w2)))"

definition transport_post :: "'n net_env \<Rightarrow> bytes \<Rightarrow> 'n world post" where
  "transport_post env endpoint ctx m w =
     withHandshakeRetries ctx (postOnce env endpoint ctx m) w"

subsection \<open>Heartbeats\<close>

definition identifyRequest :: bytes where
  "identifyRequest = ''<s:Envelope xmlns:s='' @ [CHR 0x22] @ ''http://www.w3.org/2003/05/soap-envelope'' @
     [CHR 0x22] @ '' xmlns:wsmid='' @ [CHR 0x22] @
     ''http://schemas.dmtf.org/wbem/wsman/identity/1/wsmanidentity.xsd'' @ [CHR 0x22] @
     ''><s:Header/><s:Body><wsmid:Identify/></s:Body></s:Envelope>''"

text \<open>\<open>KeepAlive\<close>; \<open>busy\<close> is a lane whose mutex another exchange holds.\<close>

definition KeepAlive ::
  "'n net_env \<Rightarrow> nat \<Rightarrow> bool \<Rightarrow> 'n world ctx \<Rightarrow> int \<Rightarrow> 'n world \<Rightarrow> goerr option \<times> 'n world" where
  "KeepAlive env i busy ctx idle w =
     (let l = lanes w ! i in
      if busy then (None, w)
      else if lane_closed l \<or> lane_failed l then (Some (Msg ''NTLM connection is closed''), w)
      else if clock env (net w) - lastUsed l < idle then (None, w)
      else (case postLocked env i ctx identifyRequest w of
          (Inl e, w') \<Rightarrow> (Some e, w')
        | (Inr reply, w') \<Rightarrow>
            if \<not> identify_reply env reply
            then (Some (Msg ''invalid WS-Management identify response''),
                  set_lane i (fail_lane (lanes w' ! i)) w')
            else (None, w')))"

text \<open>Thirty seconds, in nanoseconds.\<close>

definition HeartbeatInterval :: int where
  "HeartbeatInterval = 30 * 1000000000"

fun KeepAliveLanes ::
  "'n net_env \<Rightarrow> (nat \<times> bool) list \<Rightarrow> 'n world ctx \<Rightarrow> 'n world \<Rightarrow> goerr option \<times> 'n world" where
  "KeepAliveLanes env [] ctx w = (None, w)"
| "KeepAliveLanes env ((i, busy) # ls) ctx w =
     (case KeepAlive env i busy ctx HeartbeatInterval w of
        (Some e, w') \<Rightarrow> (Some e, w')
      | (None, w') \<Rightarrow> KeepAliveLanes env ls ctx w')"

text \<open>The loop of \<open>keepLanesAlive\<close>: one entry for each tick of the timer that it sees, with the lanes that are busy
  then.  A failed round or the end of the context ends it.\<close>

fun keepLanesAlive ::
  "'n net_env \<Rightarrow> (nat \<times> bool) list list \<Rightarrow> 'n world ctx \<Rightarrow> 'n world \<Rightarrow> 'n world" where
  "keepLanesAlive env [] ctx w = w"
| "keepLanesAlive env (ls # ticks) ctx w =
     (if ctx w \<noteq> None then w
      else case KeepAliveLanes env ls ctx w of
        (Some _, w') \<Rightarrow> w'
      | (None, w') \<Rightarrow> keepLanesAlive env ticks ctx w')"

text \<open>Heartbeats send nothing but Identify.\<close>

definition only_identify :: "'n world \<Rightarrow> 'n world \<Rightarrow> bool" where
  "only_identify w w' \<longleftrightarrow> (\<exists>n. wire w' = wire w @ replicate n identifyRequest)"

lemma only_identify_refl [simp]: "only_identify w w"
  unfolding only_identify_def by (rule exI [of _ 0]) simp

lemma only_identify_trans: "only_identify w1 w2 \<Longrightarrow> only_identify w2 w3 \<Longrightarrow> only_identify w1 w3"
  unfolding only_identify_def by (metis append.assoc replicate_add)

lemma KeepAlive_identifies:
  assumes "KeepAlive env i busy ctx idle w = (e, w')"
  shows "only_identify w w'"
proof -
  have one: "only_identify w w1" if "wire w1 = wire w @ [identifyRequest]" for w1
    unfolding only_identify_def using that by (intro exI [of _ 1]) simp
  obtain r w1 where p: "postLocked env i ctx identifyRequest w = (r, w1)" by fastforce
  then have "wire w1 = wire w \<or> wire w1 = wire w @ [identifyRequest]"
    using persistent.post_at_most_once [of env i ctx identifyRequest w r w1] by (simp add: persistent_post_def)
  then have "only_identify w w1" using one by (auto simp: only_identify_def intro: exI [of _ 0])
  with assms p show ?thesis
    by (auto simp: KeepAlive_def Let_def only_identify_def split: if_splits sum.splits)
qed

lemma KeepAliveLanes_identifies: "KeepAliveLanes env ls ctx w = (e, w') \<Longrightarrow> only_identify w w'"
proof (induction ls arbitrary: w)
  case (Cons l ls)
  obtain i busy where l: "l = (i, busy)" by fastforce
  obtain e1 w1 where k: "KeepAlive env i busy ctx HeartbeatInterval w = (e1, w1)" by fastforce
  note first = KeepAlive_identifies [OF k]
  show ?case
  proof (cases e1)
    case None
    with Cons.prems k l have "KeepAliveLanes env ls ctx w1 = (e, w')" by simp
    from only_identify_trans [OF first Cons.IH [OF this]] show ?thesis .
  qed (use Cons.prems k l first in simp)
qed simp

lemma keepLanesAlive_identifies: "only_identify w (keepLanesAlive env ticks ctx w)"
proof (induction ticks arbitrary: w)
  case (Cons ls ticks)
  obtain e w1 where k: "KeepAliveLanes env ls ctx w = (e, w1)" by fastforce
  from KeepAliveLanes_identifies [OF k] Cons.IH [of w1] show ?case
    by (cases e) (auto simp: k intro: only_identify_trans)
qed simp

subsection \<open>The standalone transport keeps the contract\<close>

lemma wire_simps [simp]:
  "wire (w\<lparr>net := n\<rparr>) = wire w" "wire (w\<lparr>lanes := ls\<rparr>) = wire w"
  "wire (w\<lparr>net := n, lanes := ls\<rparr>) = wire w" "wire (close_lane i w) = wire w"
  by (simp_all add: wire_def close_lane_def set_lane_def Let_def)

text \<open>Authentication sends no SOAP message.\<close>

lemma authenticate_silent: "authenticateConnection env endpoint w = (r, w') \<Longrightarrow> wire w' = wire w"
  by (auto simp: authenticateConnection_def split: prod.splits sum.splits)

lemma handshake_unmarked:
  "handshake env i phase l auth n k = (Inl e, n') \<Longrightarrow> (\<And>r l n e n'. k r l n = (Inl e, n') \<Longrightarrow> unmarked e) \<Longrightarrow>
     unmarked e"
  using sendHTTP_cases(2) by (fastforce simp: handshake_def split: prod.splits sum.splits)

lemma challenge_error: "challenge h want = Inl e \<Longrightarrow> unmarked e"
  by (auto simp: challenge_def split: option.splits)

lemma authenticate_third_unmarked:
  assumes "authenticate_third env i scheme input l n = (Inl e, n')"
  shows "unmarked e"
proof (cases "validateChallenge input (encrypted l)")
  case (Inl x)
  with assms validateChallenge_error [OF Inl] show ?thesis by (auto simp: authenticate_third_def)
next
  case (Inr u)
  obtain tok n1 where "ntlm_authenticate env input n = (tok, n1)" by (metis surj_pair)
  with assms Inr show ?thesis
    by (cases tok) (auto simp: authenticate_third_def elim!: handshake_unmarked split: if_splits)
qed

lemma authenticate_lane_unmarked:
  assumes "authenticate_lane env endpoint i n = (Inl e, n')"
  shows "unmarked e"
proof (cases "has_prefix endpoint ''https://'' \<and> root_error env \<noteq> None \<or> \<not> ntlm_client env")
  case True
  with assms show ?thesis by (auto simp: authenticate_lane_def split: if_splits)
next
  case False
  then have "authenticate_lane env endpoint i n = handshake env i ''NTLM discovery''
      (fresh_lane (has_prefix endpoint ''http://'')) [] n (\<lambda>r l n.
          if status r \<noteq> 401 then (Inl (Msg ''expected NTLM authentication challenge''), n)
          else case challenge (www_authenticate r) [] of
            Inl e \<Rightarrow> (Inl e, n)
          | Inr (scheme, _) \<Rightarrow>
              (case ntlm_negotiate env n of
                 (None, n') \<Rightarrow> (Inl (Msg ''cannot create NTLM negotiate message''), n')
               | (Some token, n') \<Rightarrow>
                   handshake env i ''NTLM negotiation'' (l\<lparr>connected := False, dialed := False\<rparr>)
                     (auth_header scheme token) n' (\<lambda>r l n.
                     if status r \<noteq> 401 then (Inl (Msg ''expected NTLM type-2 challenge''), n)
                     else case challenge (www_authenticate r) scheme of
                       Inl e \<Rightarrow> (Inl e, n)
                     | Inr (_, input) \<Rightarrow> authenticate_third env i scheme input l n)))"
    unfolding authenticate_lane_def by auto
  with assms show ?thesis
    by (auto elim!: handshake_unmarked split: if_splits sum.splits prod.splits option.splits)
      (erule challenge_error authenticate_third_unmarked)+
qed

lemma authenticate_unmarked: "authenticateConnection env endpoint w = (Inl e, w') \<Longrightarrow> unmarked e"
  by (auto simp: authenticateConnection_def split: prod.splits sum.splits
      dest: authenticate_lane_unmarked)

text \<open>Only handshake errors are retried, and a post on an open lane never returns one.\<close>

lemma post_no_handshake:
  assumes "postLocked env i ctx m w = (Inl e, w')"
  shows "as_handshake e = None"
  using assms by (cases rule: postLocked_cases) auto

text \<open>What an attempt of the standalone transport must satisfy to be retried safely.\<close>

definition safe_attempt :: "('n world \<Rightarrow> (goerr + bytes) \<times> 'n world) \<Rightarrow> bytes \<Rightarrow> bool" where
  "safe_attempt attempt m \<longleftrightarrow> (\<forall>w r w'. attempt w = (r, w') \<longrightarrow> once wire (wire w) m r w' \<and>
      (\<forall>e. r = Inl e \<longrightarrow> as_handshake e \<noteq> None \<longrightarrow> wire w' = wire w))"

lemma postOnce_safe: "safe_attempt (postOnce env endpoint ctx m) m"
  unfolding safe_attempt_def
proof (intro allI impI)
  fix w r w'
  assume a: "postOnce env endpoint ctx m w = (r, w')"
  obtain ra w1 where auth: "authenticateConnection env endpoint w = (ra, w1)"
    by (cases "authenticateConnection env endpoint w")
  note silent = authenticate_silent [OF auth]
  show "once wire (wire w) m r w' \<and> (\<forall>e. r = Inl e \<longrightarrow> as_handshake e \<noteq> None \<longrightarrow> wire w' = wire w)"
  proof (cases ra)
    case (Inl e)
    with a auth silent authenticate_unmarked [of env endpoint w e w1] show ?thesis
      by (auto simp: postOnce_def once_def)
  next
    case (Inr i)
    obtain r2 w2 where post: "persistent_post env i ctx m w1 = (r2, w2)"
      by (cases "persistent_post env i ctx m w1")
    with a auth Inr have w': "r = r2" "w' = close_lane i w2" by (auto simp: postOnce_def)
    have "once wire (wire w) m r2 w2" using persistent.post_once [OF post] silent by simp
    then have "once wire (wire w) m r w'" by (simp add: once_def w')
    moreover have "as_handshake e = None" if "r = Inl e" for e
      using post that w'(1) post_no_handshake unfolding persistent_post_def by blast
    ultimately show ?thesis by simp
  qed
qed

lemma retries_once:
  "retries ctx attempt i w = (r, w') \<Longrightarrow> safe_attempt attempt m \<Longrightarrow> once wire (wire w) m r w'"
proof (induction ctx attempt i w rule: retries.induct)
  case (1 ctx attempt i w)
  obtain ra wa where a: "attempt w = (ra, wa)" by (cases "attempt w")
  with "1.prems"(2) have safe: "once wire (wire w) m ra wa"
    "\<And>e. ra = Inl e \<Longrightarrow> as_handshake e \<noteq> None \<Longrightarrow> wire wa = wire w" by (auto simp: safe_attempt_def)
  note run = "1.prems"(1) [unfolded retries.simps [of ctx attempt i w] a prod.case]
  show ?case
  proof (cases "\<exists>e. ra = Inl e \<and> retry_again ctx i e wa")
    case True
    then obtain e where e: "ra = Inl e" "retry_again ctx i e wa" by blast
    then have "wire wa = wire w"
      by (intro safe(2)) (auto simp: retry_again_def split: option.splits)
    moreover have "retries ctx attempt (i + 1) wa = (r, w')" using run e by simp
    ultimately show ?thesis using "1.IH" [OF a [symmetric] e(1) e(2) _ "1.prems"(2)] by simp
  next
    case False
    with run have "r = ra" "w' = wa" by (cases ra; auto split: if_splits)+
    with safe(1) show ?thesis by simp
  qed
qed

lemma once_poster:
  assumes "\<And>ctx m w r w'. post ctx m w = (r, w') \<Longrightarrow> once wire (wire w) m r w'"
  shows "poster post wire"
  using assms by unfold_locales (fastforce simp: once_def)+

interpretation standalone: poster "transport_post env endpoint" wire for env endpoint
  by (rule once_poster)
    (auto simp: transport_post_def withHandshakeRetries_def intro: retries_once postOnce_safe)

text \<open>At most three attempts.\<close>

lemma retries_bound:
  "\<exists>k. i + k \<le> max i 2 \<and> retries ctx attempt i w = attempt (((\<lambda>w. snd (attempt w)) ^^ k) w)"
proof (induction ctx attempt i w rule: retries.induct)
  case (1 ctx attempt i w)
  obtain ra wa where a: "attempt w = (ra, wa)" by (cases "attempt w")
  show ?case
  proof (cases "\<exists>e. ra = Inl e \<and> retry_again ctx i e wa")
    case True
    then obtain e where e: "ra = Inl e" "retry_again ctx i e wa" by blast
    from "1.IH" [OF a [symmetric] e(1) e(2)] obtain k where k: "i + 1 + k \<le> max (i + 1) 2"
      "retries ctx attempt (i + 1) wa = attempt (((\<lambda>w. snd (attempt w)) ^^ k) wa)" by blast
    have "i < 2" using e(2) by (auto simp: retry_again_def)
    moreover have "retries ctx attempt i w = retries ctx attempt (i + 1) wa"
      by (simp add: retries.simps [of ctx attempt i w] a e)
    moreover have "((\<lambda>w. snd (attempt w)) ^^ Suc k) w = ((\<lambda>w. snd (attempt w)) ^^ k) wa"
      by (simp only: funpow_Suc_right comp_apply a snd_conv)
    ultimately show ?thesis using k by (intro exI [of _ "Suc k"]) simp
  next
    case False
    then have "retries ctx attempt i w = attempt w"
      by (cases ra) (auto simp: retries.simps [of ctx attempt i w] a)
    then show ?thesis by (intro exI [of _ 0]) simp
  qed
qed

text \<open>Base64 text has no space byte and no comma.\<close>

lemma alphabet_words: "c \<in> b64_alphabet \<Longrightarrow> c \<notin> space_heads \<and> c \<noteq> CHR '',''"
proof
  assume c: "c \<in> b64_alphabet"
  have "\<forall>x \<in> space_heads \<union> {CHR '',''}. b64_val x = None \<and> x \<noteq> pad"
    by (simp add: space_heads_def space_seqs_def ascii_spaces_def wide_spaces_def b64_val_def pad_def Let_def)
  with c show "c \<notin> space_heads" "c \<noteq> CHR '',''" using b64_alphabet_excludes by blast+
qed

lemma challenge_header:
  assumes "scheme \<in> {''NTLM'', ''Negotiate''}" and "0 < length token" and "length token < 65536"
  shows "challenge [auth_header scheme token] scheme = Inr (scheme, token)"
proof -
  have b: "\<forall>c \<in> set (b64_encode token). c \<notin> space_heads \<and> c \<noteq> CHR '',''"
    using b64_encode_alphabet [of token] alphabet_words by blast
  have s: "\<forall>c \<in> set scheme. c \<notin> space_heads \<and> c \<noteq> CHR '',''" and ne: "scheme \<noteq> []"
    using assms(1) by (auto simp: space_heads_def space_seqs_def ascii_spaces_def wide_spaces_def)
  from b s have "CHR '','' \<notin> set (auth_header scheme token)" by (auto simp: auth_header_def)
  from str_split_last [OF this, of "[]"]
  have split: "str_split (auth_header scheme token) '','' = [auth_header scheme token]" by simp
  have "b64_encode token \<noteq> []" using assms(2) by (cases token rule: b64_encode.cases) (auto simp: Let_def)
  with b s ne have "str_fields (auth_header scheme token) = [scheme, b64_encode token]"
    unfolding auth_header_def by (intro str_fields_two) auto
  with split assms b64_decode_encode show ?thesis
    by (auto simp: challenge_def challenge_field_def equal_fold_def)
qed

subsection \<open>Properties\<close>

text \<open>The NTLM token of an authorization header is read back exactly: \<open>challenge\<close> finds in the header
  line of either scheme the token of at most 65535 bytes that was written there.\<close>

theorem challenge_roundtrip:
  assumes "scheme \<in> {''NTLM'', ''Negotiate''}" and "0 < length token" and "length token < 65536"
  shows "challenge [auth_header scheme token] scheme = Inr (scheme, token)"
  by (rule challenge_header [OF assms])

theorem challenge_roundtrip_witness:
  "challenge [auth_header ''NTLM'' ''NTLMSSP''] ''NTLM'' = Inr (''NTLM'', ''NTLMSSP'')"
  by (rule challenge_roundtrip) simp_all

text \<open>C5: A post on an authenticated lane writes its message at most once, exactly once when it
  returns a reply, and not at all when its error is marked unsent; after any other error the lane
  is dead: every later post on it is refused, unsent, without touching the network.\<close>

theorem persistent_post_contract:
  assumes "persistent_post env i ctx m w = (r, w')" and "i < length (lanes w)"
  shows "(wire w' = wire w \<or> wire w' = wire w @ [m]) \<and>
    (\<forall>d. r = Inr d \<longrightarrow> wire w' = wire w @ [m]) \<and>
    (\<forall>e. r = Inl e \<longrightarrow> errors_is e ErrUnsent \<longrightarrow> wire w' = wire w) \<and>
    (\<forall>e. r = Inl e \<longrightarrow> \<not> errors_is e ErrUnsent \<longrightarrow>
       (\<forall>ctx' m'. persistent_post env i ctx' m' w' =
          (Inl (unsent (Msg ''NTLM connection is closed'')), w')))"
proof -
  have "once wire (wire w) m r w'" by (rule persistent.post_once [OF assms(1)])
  moreover have "persistent_post env i ctx' m' w' = (Inl (unsent (Msg ''NTLM connection is closed'')), w')"
    if "r = Inl e" "\<not> errors_is e ErrUnsent" for e ctx' m'
    using failed_then_dead [of env i ctx m w e w'] dead_lane [of w' i] assms that
    by (simp add: persistent_post_def)
  ultimately show ?thesis by (simp add: once_def)
qed

text \<open>A network whose connection is reset after the request was written.\<close>

definition reset_env :: "unit net_env" where
  "reset_env = \<lparr>alive = (\<lambda>i n. True), dial = (\<lambda>i n. (None, n)),
     exchange = (\<lambda>i auth p c n. (Inl Net_reset, n)), wrap = (\<lambda>i n p. Inl (Msg [])),
     unwrap = (\<lambda>i n c s. Inl (Msg [])), sealed_state = (\<lambda>i n. n), media = (\<lambda>c. None),
     soap_envelope = (\<lambda>b. True), identify_reply = (\<lambda>b. True), clock = (\<lambda>n. 0), root_error = None,
     ntlm_client = True, ntlm_negotiate = (\<lambda>n. (Some ''N'', n)),
     ntlm_authenticate = (\<lambda>b n. (Some ''A'', n)), ntlm_session = (\<lambda>n. True)\<rparr>"

definition one_lane :: "unit world" where
  "one_lane = \<lparr>net = (), lanes = [(fresh_lane False)\<lparr>dialed := True, connected := True\<rparr>], sent = []\<rparr>"

lemma reset_post:
  "\<exists>w'. persistent_post reset_env 0 (\<lambda>_. None) ''<Create/>'' one_lane =
     (Inl (Wrap ''WinRM SOAP exchange'' (NetError False (Sentinel ConnReset))), w') \<and> wire w' = [''<Create/>'']"
  by (simp add: persistent_post_def postLocked_def reset_env_def one_lane_def fresh_lane_def
      sendHTTP_def wire_def Let_def set_lane_def)

theorem persistent_post_contract_witness:
  "\<exists>w'. wire w' = [''<Create/>''] \<and> persistent_post reset_env 0 (\<lambda>_. None) ''<Create/>'' w' =
     (Inl (unsent (Msg ''NTLM connection is closed'')), w')"
proof -
  obtain w' where p: "persistent_post reset_env 0 (\<lambda>_. None) ''<Create/>'' one_lane =
     (Inl (Wrap ''WinRM SOAP exchange'' (NetError False (Sentinel ConnReset))), w')"
    "wire w' = [''<Create/>'']" using reset_post by blast
  have "0 < length (lanes one_lane)" by (simp add: one_lane_def)
  from persistent_post_contract [OF p(1) this] p(2) show ?thesis by auto
qed

text \<open>C6: The standalone transport, which may authenticate up to three times, still never replays: in
  all attempts together the message is written at most once, exactly once when there is a reply,
  and not at all when the error is marked unsent.\<close>

theorem transport_post_no_replay:
  assumes "transport_post env endpoint ctx m w = (r, w')"
  shows "(wire w' = wire w \<or> wire w' = wire w @ [m]) \<and>
    (\<forall>d. r = Inr d \<longrightarrow> wire w' = wire w @ [m]) \<and>
    (\<forall>e. r = Inl e \<longrightarrow> errors_is e ErrUnsent \<longrightarrow> wire w' = wire w) \<and>
    (\<exists>k \<le> 2. (r, w') = postOnce env endpoint ctx m
        (((\<lambda>w. snd (postOnce env endpoint ctx m w)) ^^ k) w))"
proof -
  have "\<exists>k \<le> 2. retries ctx (postOnce env endpoint ctx m) 0 w = postOnce env endpoint ctx m
        (((\<lambda>w. snd (postOnce env endpoint ctx m w)) ^^ k) w)"
    using retries_bound [of 0 ctx "postOnce env endpoint ctx m" w] by auto
  with assms standalone.post_once [OF assms] show ?thesis
    unfolding once_def transport_post_def withHandshakeRetries_def by metis
qed

lemma reset_transport:
  "fst (transport_post reset_env ''http://host'' (\<lambda>_. None) ''<Create/>'' one_lane) =
     Inl (unsent (HandshakeTransport ''NTLM discovery'' (NetError False (Sentinel ConnReset))))"
  by (simp add: transport_post_def withHandshakeRetries_def retries.simps postOnce_def retry_again_def
      authenticateConnection_def authenticate_lane_def handshake_def sendHTTP_def reset_env_def
      has_prefix_def fresh_lane_def Let_def retryableHandshake_def)

theorem transport_post_no_replay_witness:
  "\<exists>e w'. transport_post reset_env ''http://host'' (\<lambda>_. None) ''<Create/>'' one_lane = (Inl e, w') \<and>
     wire w' = wire one_lane"
proof -
  obtain w' where p: "transport_post reset_env ''http://host'' (\<lambda>_. None) ''<Create/>'' one_lane =
      (Inl (unsent (HandshakeTransport ''NTLM discovery'' (NetError False (Sentinel ConnReset)))), w')"
    using reset_transport by (metis prod.collapse)
  from transport_post_no_replay [OF p] have "wire w' = wire one_lane" by simp
  with p show ?thesis by blast
qed

end
