(* ===== verification/Response.thy ===== *)
theory Response
  imports Writers Go_Text Base64
begin

text \<open>
  \<open>internal/remote/response.go\<close>: WinRM replies after XML decoding (the decoder is a parameter of
  the callers), the fault and timeout classification of \<open>parseResponse\<close>, the output streams of
  \<open>receive\<close>, and \<open>validID\<close>.
\<close>

record receive_body =
  streams :: "(bytes \<times> bytes) list"
  state_value :: bytes
  state_exit :: bytes

record response =
  action :: bytes
  fault :: "bytes option"
  shell_id :: bytes
  command_id :: bytes
  received :: "receive_body option"

definition wsShell :: bytes where
  "wsShell = ''http://schemas.microsoft.com/wbem/wsman/1/windows/shell/''"

definition wsTransfer :: bytes where
  "wsTransfer = ''http://schemas.xmlsoap.org/ws/2004/09/transfer/''"

text \<open>\<open>strconv.ParseUint(s, 10, 32)\<close>.\<close>

definition parse_uint32 :: "bytes \<Rightarrow> nat option" where
  "parse_uint32 s = (if s = [] then None else
     case dec_acc 0 s of None \<Rightarrow> None | Some n \<Rightarrow> if n < 2 ^ 32 then Some n else None)"

definition parseResponse :: "(bytes \<Rightarrow> response option) \<Rightarrow> bytes \<Rightarrow> goerr + response" where
  "parseResponse decode body =
     (case decode body of
        None \<Rightarrow> Inl (Msg ''invalid SOAP XML response'')
      | Some r \<Rightarrow>
          (case fault r of
             None \<Rightarrow> Inr r
           | Some code \<Rightarrow>
               if code = ''2150858793'' then Inl (Sentinel ErrOperationTimeout)
               else (case parse_uint32 code of
                   Some n \<Rightarrow> Inl (Msg (''WinRM fault '' @ dec n))
                 | None \<Rightarrow> Inl (Msg ''WinRM SOAP fault''))))"

text \<open>The loop over the streams, writing to stdout or stderr on the caller's state.\<close>

fun write_streams :: "'s writer \<Rightarrow> 's writer \<Rightarrow> (bytes \<times> bytes) list \<Rightarrow> 's \<Rightarrow> goerr option \<times> 's" where
  "write_streams out err [] s = (None, s)"
| "write_streams out err ((nam, enc) # rest) s =
     (case b64_decode False enc of
        None \<Rightarrow> (Some (Msg ''invalid base64 output from WinRM''), s)
      | Some data \<Rightarrow>
          (if nam \<noteq> ''stdout'' \<and> nam \<noteq> ''stderr'' then (Some (Msg ''unexpected WinRM stream''), s)
           else case (if nam = ''stdout'' then out else err) data s of
               (n, Some e, s') \<Rightarrow> (Some (Wrap ''writing command output'' e), s')
             | (n, None, s') \<Rightarrow>
                 if n \<noteq> length data then (Some (Sentinel IoShortWrite), s')
                 else write_streams out err rest s'))"

definition done_state :: bytes where
  "done_state = wsShell @ ''CommandState/Done''"

text \<open>\<open>receive\<close>: \<open>None\<close> is \<open>done = false\<close>, \<open>Some rc\<close> the exit code.\<close>

definition resp_receive ::
  "'s writer \<Rightarrow> 's writer \<Rightarrow> response \<Rightarrow> 's \<Rightarrow> (goerr + nat option) \<times> 's" where
  "resp_receive out err r s =
     (case received r of
        None \<Rightarrow> (Inl (Msg ''expected WinRM ReceiveResponse''), s)
      | Some rb \<Rightarrow>
          if action r \<noteq> wsShell @ ''ReceiveResponse'' then (Inl (Msg ''expected WinRM ReceiveResponse''), s)
          else (case write_streams out err (streams rb) s of
              (Some e, s') \<Rightarrow> (Inl e, s')
            | (None, s') \<Rightarrow>
                if state_value rb = done_state then
                  (case parse_uint32 (trim_space (state_exit rb)) of
                     None \<Rightarrow> (Inl (Msg ''invalid or missing remote exit code''), s')
                   | Some n \<Rightarrow> (Inr (Some n), s'))
                else (Inr None, s')))"

text \<open>\<open>validID\<close>: the range loop decodes UTF-8, and every byte of a multi-byte sequence fails.\<close>

definition id_char :: "char \<Rightarrow> bool" where
  "id_char c \<longleftrightarrow> (CHR ''a'' \<le> c \<and> c \<le> CHR ''z'') \<or> (CHR ''A'' \<le> c \<and> c \<le> CHR ''Z'') \<or>
     (CHR ''0'' \<le> c \<and> c \<le> CHR ''9'') \<or> c = CHR ''-''"

definition validID :: "bytes \<Rightarrow> bool" where
  "validID s \<longleftrightarrow> s \<noteq> [] \<and> length s \<le> 128 \<and> list_all id_char s"

subsection \<open>Laws\<close>

lemma parse_uint32_bound: "parse_uint32 s = Some n \<Longrightarrow> n < 2 ^ 32"
  by (auto simp: parse_uint32_def split: if_splits option.splits)

lemma parseResponse_ok: "parseResponse decode b = Inr r \<Longrightarrow> decode b = Some r \<and> fault r = None"
  by (auto simp: parseResponse_def split: option.splits if_splits)

lemma parseResponse_error:
  "parseResponse decode b = Inl e \<Longrightarrow> e = Sentinel ErrOperationTimeout \<or> (\<exists>m. e = Msg m)"
  by (auto simp: parseResponse_def split: option.splits if_splits)

text \<open>An identifier of a shell or command cannot leave its XML element.\<close>

lemma validID_safe: "validID s \<Longrightarrow> c \<in> set s \<Longrightarrow> c \<notin> set ''<>&'' \<and> c \<noteq> CHR 0x22 \<and> c \<noteq> CHR 0x27"
  by (auto simp: validID_def list_all_iff id_char_def less_eq_char_def)

end
