(* ===== verification/Utf8.thy ===== *)
theory Utf8
  imports Prelude
begin

text \<open>
  Go's UTF-8 and UTF-16 as the program uses them: \<open>utf8.ValidString\<close>, the conversion
  \<open>[]rune(s)\<close> and \<open>utf16.Encode\<close> (\<open>command.go\<close>, \<open>transfer_scripts.go\<close>, \<open>protocol.go\<close>).
  \<open>decode_rune\<close> follows \<open>utf8.DecodeRuneInString\<close>: an invalid byte decodes to the replacement
  character with width 1.  The lemmas show that the valid strings are exactly the encodings of
  sequences of Unicode scalar values, and that UTF-16 loses nothing on them.
\<close>

subsection \<open>Decoding\<close>

definition rune_error :: nat where "rune_error = 0xFFFD"

definition in_range :: "nat \<Rightarrow> nat \<Rightarrow> char \<Rightarrow> bool" where
  "in_range lo hi c \<longleftrightarrow> lo \<le> byte_val c \<and> byte_val c \<le> hi"

abbreviation cont :: "char \<Rightarrow> bool" where "cont \<equiv> in_range 0x80 0xBF"

abbreviation low6 :: "char \<Rightarrow> nat" where "low6 c \<equiv> byte_val c - 0x80"

definition decode2 :: "nat \<Rightarrow> bytes \<Rightarrow> nat \<times> nat" where
  "decode2 a s = (case s of
      b # _ \<Rightarrow> if cont b then ((a - 0xC0) * 64 + low6 b, 2) else (rune_error, 1)
    | _ \<Rightarrow> (rune_error, 1))"

definition decode3 :: "nat \<Rightarrow> bytes \<Rightarrow> nat \<times> nat" where
  "decode3 a s = (case s of
      b # c # _ \<Rightarrow>
        if in_range (if a = 0xE0 then 0xA0 else 0x80) (if a = 0xED then 0x9F else 0xBF) b \<and> cont c
        then (((a - 0xE0) * 64 + low6 b) * 64 + low6 c, 3) else (rune_error, 1)
    | _ \<Rightarrow> (rune_error, 1))"

definition decode4 :: "nat \<Rightarrow> bytes \<Rightarrow> nat \<times> nat" where
  "decode4 a s = (case s of
      b # c # d # _ \<Rightarrow>
        if in_range (if a = 0xF0 then 0x90 else 0x80) (if a = 0xF4 then 0x8F else 0xBF) b \<and>
           cont c \<and> cont d
        then ((((a - 0xF0) * 64 + low6 b) * 64 + low6 c) * 64 + low6 d, 4) else (rune_error, 1)
    | _ \<Rightarrow> (rune_error, 1))"

fun decode_rune :: "bytes \<Rightarrow> nat \<times> nat" where
  "decode_rune [] = (rune_error, 0)"
| "decode_rune (x # s) =
     (let a = byte_val x in
      if a < 0x80 then (a, 1)
      else if 0xC2 \<le> a \<and> a \<le> 0xDF then decode2 a s
      else if 0xE0 \<le> a \<and> a \<le> 0xEF then decode3 a s
      else if 0xF0 \<le> a \<and> a \<le> 0xF4 then decode4 a s
      else (rune_error, 1))"

lemma decode_rune_width: "s \<noteq> [] \<Longrightarrow> 0 < snd (decode_rune s)"
  by (cases s) (auto simp: Let_def decode2_def decode3_def decode4_def split: list.splits)

lemma decode_rune_shrinks:
  assumes "s \<noteq> []" and "(r, k) = decode_rune s"
  shows "(drop k s, s) \<in> measure length"
proof -
  have "0 < k" using decode_rune_width [OF assms(1)] by (simp flip: assms(2))
  with assms(1) show ?thesis by simp
qed

function runes :: "bytes \<Rightarrow> nat list" where
  "runes s = (if s = [] then [] else
     (case decode_rune s of (r, k) \<Rightarrow> r # runes (drop k s)))"
  by pat_completeness auto
termination
proof (relation "measure length")
  fix s :: bytes and r k
  assume "s \<noteq> []" "(r, k) = decode_rune s"
  then show "(drop k s, s) \<in> measure length" by (rule decode_rune_shrinks)
qed simp

function valid_utf8 :: "bytes \<Rightarrow> bool" where
  "valid_utf8 s = (if s = [] then True else
     (case decode_rune s of (r, k) \<Rightarrow>
        if r = rune_error \<and> k = 1 then False else valid_utf8 (drop k s)))"
  by pat_completeness auto
termination
proof (relation "measure length")
  fix s :: bytes and r k
  assume "s \<noteq> []" "(r, k) = decode_rune s" "\<not> (r = rune_error \<and> k = 1)"
  from this(1,2) show "(drop k s, s) \<in> measure length" by (rule decode_rune_shrinks)
qed simp

declare runes.simps [simp del] valid_utf8.simps [simp del]

subsection \<open>Encoding\<close>

definition scalar :: "nat \<Rightarrow> bool" where
  "scalar n \<longleftrightarrow> n < 0xD800 \<or> 0xE000 \<le> n \<and> n < 0x110000"

definition encode_rune :: "nat \<Rightarrow> bytes" where
  "encode_rune n =
     (if n < 0x80 then [char_of n]
      else if n < 0x800 then [char_of (0xC0 + n div 64), char_of (0x80 + n mod 64)]
      else if n < 0x10000 then
        [char_of (0xE0 + n div 4096), char_of (0x80 + n div 64 mod 64), char_of (0x80 + n mod 64)]
      else [char_of (0xF0 + n div 262144), char_of (0x80 + n div 4096 mod 64),
            char_of (0x80 + n div 64 mod 64), char_of (0x80 + n mod 64)])"

lemma byte_of: "n < 256 \<Longrightarrow> byte_val (char_of n) = n"
  by simp

lemma encode_rune_nonempty [simp]: "encode_rune n \<noteq> []"
  by (simp add: encode_rune_def)

text \<open>The base-64 digits of a code point.\<close>

lemma digits_64:
  assumes "m0 < 64" and "m1 < 64" and "n = (q * 64 + m1) * 64 + m0"
  shows "n div 64 = q * 64 + m1" "n mod 64 = m0" "n div 4096 = q" "n div 64 mod 64 = (m1 :: nat)"
proof -
  show 1: "n div 64 = q * 64 + m1" "n mod 64 = m0"
  proof -
    have "n = m0 + 64 * (q * 64 + m1)" using assms(3) by simp
    then show "n div 64 = q * 64 + m1" "n mod 64 = m0"
      using assms(1) by (simp_all only: div_mult_self2 mod_mult_self2) simp_all
  qed
  have "n div 4096 = n div 64 div 64" by (simp add: div_mult2_eq [symmetric])
  with 1 assms(2) show "n div 4096 = q" "n div 64 mod 64 = m1" by simp_all
qed

lemma split_64: "\<exists>q m1 m0. (n :: nat) = (q * 64 + m1) * 64 + m0 \<and> m1 < 64 \<and> m0 < 64"
proof -
  have "n = (n div 64 div 64 * 64 + n div 64 mod 64) * 64 + n mod 64" by simp
  then show ?thesis by (metis mod_less_divisor zero_less_numeral)
qed

lemma decode_encode_rune:
  assumes "scalar n"
  shows "decode_rune (encode_rune n @ r) = (n, length (encode_rune n))"
proof -
  obtain q m1 m0 where n: "n = (q * 64 + m1) * 64 + m0" and m: "m1 < 64" "m0 < 64"
    using split_64 by blast
  note d = digits_64 [OF m(2) m(1) n]
  consider "n < 0x80" | "0x80 \<le> n" "n < 0x800" | "0x800 \<le> n" "n < 0x10000" | "0x10000 \<le> n" by linarith
  then show ?thesis
  proof cases
    case 1
    then show ?thesis by (simp add: encode_rune_def)
  next
    case 2
    then have "2 \<le> n div 64" "n div 64 < 32" by auto
    with 2 show ?thesis by (simp add: encode_rune_def decode2_def in_range_def)
  next
    case 3
    have q: "q < 16" "q = 0 \<longrightarrow> 32 \<le> m1" "q = 13 \<longrightarrow> m1 < 32"
      using 3 assms m unfolding n scalar_def by auto
    have e: "encode_rune n = [char_of (0xE0 + q), char_of (0x80 + m1), char_of (0x80 + m0)]"
      using 3 m by (simp add: encode_rune_def d(2-))
    show ?thesis unfolding e using q m n by (auto simp: decode3_def in_range_def)
  next
    case 4
    obtain p m2 where q: "q = p * 64 + m2" "m2 < 64"
      by (metis div_mult_mod_eq mod_less_divisor zero_less_numeral)
    have p: "n div 262144 = p"
    proof -
      have "n div 262144 = n div 4096 div 64" by (simp add: div_mult2_eq [symmetric])
      with d q show ?thesis by simp
    qed
    have r: "p < 5" "p = 0 \<longrightarrow> 16 \<le> m2" "p = 4 \<longrightarrow> m2 < 16"
      using 4 assms m q unfolding n scalar_def by auto
    have e: "encode_rune n = [char_of (0xF0 + p), char_of (0x80 + m2), char_of (0x80 + m1),
        char_of (0x80 + m0)]"
      using 4 q m by (simp add: encode_rune_def d(2-) p)
    show ?thesis unfolding e using r m n q by (auto simp: decode4_def in_range_def)
  qed
qed

text \<open>What a successful decoding says about the bytes.\<close>

lemma in_rangeE:
  assumes "in_range lo hi c"
  obtains m where "lo \<le> m" "m \<le> hi" "c = char_of m" "byte_val c = m"
  using assms that [of "byte_val c"] by (simp add: in_range_def)

lemma contE:
  assumes "cont c"
  obtains m where "m < 64" "c = char_of (0x80 + m)" "low6 c = m"
proof -
  from assms obtain k where k: "0x80 \<le> k" "k \<le> 0xBF" "c = char_of k" "byte_val c = k"
    by (rule in_rangeE)
  then have "k - 0x80 < 64" "c = char_of (0x80 + (k - 0x80))" "low6 c = k - 0x80" by simp_all
  then show ?thesis by (rule that)
qed

lemma decode2_sound:
  assumes "decode2 a s = (n, k)" and "0xC2 \<le> a" and "a \<le> 0xDF" and "\<not> (n = rune_error \<and> k = 1)"
  shows "scalar n \<and> char_of a # s = encode_rune n @ drop k (x # s) \<and> 2 \<le> k"
proof -
  obtain b t where s: "s = b # t" and b: "cont b" and n: "n = (a - 0xC0) * 64 + low6 b" "k = 2"
    using assms by (auto simp: decode2_def split: list.splits if_splits)
  obtain m where m: "m < 64" "b = char_of (0x80 + m)" "low6 b = m" using b by (rule contE)
  have "n = m + 64 * (a - 0xC0)" using n m by simp
  then have d: "n div 64 = a - 0xC0" "n mod 64 = m" using m(1) by simp_all
  have r: "0x80 \<le> n" "n < 0x800" using n m assms(2,3) by auto
  then have "encode_rune n = [char_of a, b]" using d m assms(2) by (simp add: encode_rune_def)
  with r s n(2) show ?thesis by (simp add: scalar_def)
qed

lemma decode3_sound:
  assumes "decode3 a s = (n, k)" and "0xE0 \<le> a" and "a \<le> 0xEF" and "\<not> (n = rune_error \<and> k = 1)"
  shows "scalar n \<and> char_of a # s = encode_rune n @ drop k (x # s) \<and> 2 \<le> k"
proof -
  obtain b c t where s: "s = b # c # t" and c: "cont c"
    and b: "in_range (if a = 0xE0 then 0xA0 else 0x80) (if a = 0xED then 0x9F else 0xBF) b"
    and n: "n = ((a - 0xE0) * 64 + low6 b) * 64 + low6 c" "k = 3"
    using assms by (auto simp: decode3_def split: list.splits if_splits)
  obtain m0 where m0: "m0 < 64" "c = char_of (0x80 + m0)" "low6 c = m0" using c by (rule contE)
  have "cont b" using b by (auto simp: in_range_def split: if_splits)
  then obtain m1 where m1: "m1 < 64" "b = char_of (0x80 + m1)" "low6 b = m1" by (rule contE)
  have lim: "a = 0xE0 \<longrightarrow> 32 \<le> m1" "a = 0xED \<longrightarrow> m1 < 32"
    using b m1 by (auto simp: in_range_def)
  define q where "q = a - 0xE0"
  have q: "a = 0xE0 + q" "q < 16" using assms(2,3) by (auto simp: q_def)
  have e: "n = (q * 64 + m1) * 64 + m0" using n m0 m1 by (simp add: q_def)
  note d = digits_64 [OF m0(1) m1(1) e]
  have r: "0x800 \<le> n" "n < 0x10000" using e q lim m0(1) m1(1) by auto
  consider "q \<le> 12" | "q = 13" | "14 \<le> q" by linarith
  then have "scalar n"
  proof cases
    case 2
    then have "m1 < 32" using lim q(1) by simp
    with 2 e m0(1) show ?thesis by (simp add: scalar_def)
  qed (use e m0(1) m1(1) r(2) in \<open>simp_all add: scalar_def\<close>)
  note r = r this
  from r have "encode_rune n = [char_of a, b, c]" using d m0 m1 q by (simp add: encode_rune_def)
  with r s n(2) show ?thesis by simp
qed

lemma decode4_sound:
  assumes "decode4 a s = (n, k)" and "0xF0 \<le> a" and "a \<le> 0xF4" and "\<not> (n = rune_error \<and> k = 1)"
  shows "scalar n \<and> char_of a # s = encode_rune n @ drop k (x # s) \<and> 2 \<le> k"
proof -
  obtain b c e t where s: "s = b # c # e # t" and c: "cont c" "cont e"
    and b: "in_range (if a = 0xF0 then 0x90 else 0x80) (if a = 0xF4 then 0x8F else 0xBF) b"
    and n: "n = (((a - 0xF0) * 64 + low6 b) * 64 + low6 c) * 64 + low6 e" "k = 4"
    using assms by (auto simp: decode4_def split: list.splits if_splits)
  obtain m0 where m0: "m0 < 64" "e = char_of (0x80 + m0)" "low6 e = m0" using c(2) by (rule contE)
  obtain m1 where m1: "m1 < 64" "c = char_of (0x80 + m1)" "low6 c = m1" using c(1) by (rule contE)
  have "cont b" using b by (auto simp: in_range_def split: if_splits)
  then obtain m2 where m2: "m2 < 64" "b = char_of (0x80 + m2)" "low6 b = m2" by (rule contE)
  have lim: "a = 0xF0 \<longrightarrow> 16 \<le> m2" "a = 0xF4 \<longrightarrow> m2 < 16"
    using b m2 by (auto simp: in_range_def)
  define p where "p = a - 0xF0"
  have p: "a = 0xF0 + p" "p < 5" using assms(2,3) by (auto simp: p_def)
  have e: "n = ((p * 64 + m2) * 64 + m1) * 64 + m0" using n m0 m1 m2 by (simp add: p_def)
  note d = digits_64 [OF m0(1) m1(1) e]
  have "n div 262144 = n div 4096 div 64" by (simp add: div_mult2_eq [symmetric])
  then have d3: "n div 262144 = p" "n div 4096 mod 64 = m2" using d m2(1) by simp_all
  have r: "0x10000 \<le> n" "scalar n"
    using e p lim m0(1) m1(1) m2(1) by (auto simp: scalar_def)
  then have "encode_rune n = [char_of a, b, c, char_of (0x80 + m0)]"
    using d(2,4) d3 m0(2) m1(2) m2(2) p(1) by (simp add: encode_rune_def)
  with r s n(2) m0(2) show ?thesis by simp
qed

lemma encode_decode_rune:
  assumes "decode_rune s = (n, k)" and "s \<noteq> []" and "\<not> (n = rune_error \<and> k = 1)"
  shows "scalar n \<and> s = encode_rune n @ drop k s"
proof -
  obtain x t where s: "s = x # t" using assms(2) by (cases s) auto
  define a where "a = byte_val x"
  have x: "char_of a = x" by (simp add: a_def)
  consider (ascii) "a < 0x80" | (two) "0xC2 \<le> a" "a \<le> 0xDF" | (three) "0xE0 \<le> a" "a \<le> 0xEF"
    | (four) "0xF0 \<le> a" "a \<le> 0xF4" | (bad) "\<not> a < 0x80" "\<not> (0xC2 \<le> a \<and> a \<le> 0xDF)"
        "\<not> (0xE0 \<le> a \<and> a \<le> 0xEF)" "\<not> (0xF0 \<le> a \<and> a \<le> 0xF4)" by blast
  then show ?thesis
  proof cases
    case ascii
    with assms(1) s x show ?thesis by (auto simp: a_def [symmetric] scalar_def encode_rune_def)
  next
    case two
    with assms(1) s have "decode2 a t = (n, k)" by (simp add: a_def [symmetric])
    from decode2_sound [OF this two assms(3), of x] show ?thesis by (simp add: s x)
  next
    case three
    with assms(1) s have "decode3 a t = (n, k)" by (simp add: a_def [symmetric])
    from decode3_sound [OF this three assms(3), of x] show ?thesis by (simp add: s x)
  next
    case four
    with assms(1) s have "decode4 a t = (n, k)" by (simp add: a_def [symmetric])
    from decode4_sound [OF this four assms(3), of x] show ?thesis by (simp add: s x)
  next
    case bad
    then have "decode_rune s = (rune_error, 1)" by (simp only: s decode_rune.simps Let_def a_def [symmetric] if_False)
    with assms(1,3) show ?thesis by auto
  qed
qed

subsection \<open>Valid strings are encodings\<close>

definition utf8_encode :: "nat list \<Rightarrow> bytes" where
  "utf8_encode rs = concat (map encode_rune rs)"

lemma runes_encode: "\<forall>r \<in> set rs. scalar r \<Longrightarrow> runes (utf8_encode rs) = rs"
proof (induction rs)
  case (Cons r rs)
  then show ?case
    by (simp add: utf8_encode_def runes.simps [of "encode_rune r @ _"] decode_encode_rune)
qed (simp add: utf8_encode_def runes.simps)

lemma valid_encode: "\<forall>r \<in> set rs. scalar r \<Longrightarrow> valid_utf8 (utf8_encode rs)"
proof (induction rs)
  case (Cons r rs)
  have "\<not> (r = rune_error \<and> length (encode_rune r) = 1)" by (auto simp: encode_rune_def rune_error_def)
  with Cons show ?case
    by (simp add: utf8_encode_def valid_utf8.simps [of "encode_rune r @ _"] decode_encode_rune)
qed (simp add: utf8_encode_def valid_utf8.simps)

lemma valid_decode:
  "valid_utf8 s \<Longrightarrow> (\<forall>r \<in> set (runes s). scalar r) \<and> utf8_encode (runes s) = s"
proof (induction s rule: valid_utf8.induct)
  case (1 s)
  show ?case
  proof (cases "s = []")
    case False
    obtain r k where d: "decode_rune s = (r, k)" by (cases "decode_rune s") auto
    with 1 False have ok: "\<not> (r = rune_error \<and> k = 1)" "valid_utf8 (drop k s)"
      by (auto simp: valid_utf8.simps [of s] split: if_splits)
    from "1.IH" [OF False d [symmetric] ok] encode_decode_rune [OF d False ok(1)]
    show ?thesis using False d by (simp add: runes.simps [of s] utf8_encode_def)
  qed (simp add: runes.simps [of "[]"] utf8_encode_def)
qed

lemma valid_utf8_iff: "valid_utf8 s \<longleftrightarrow> (\<exists>rs. (\<forall>r \<in> set rs. scalar r) \<and> s = utf8_encode rs)"
  using valid_decode valid_encode by metis

text \<open>ASCII strings.\<close>

lemma ascii_utf8: "\<forall>c \<in> set s. byte_val c < 0x80 \<Longrightarrow> valid_utf8 s \<and> runes s = map byte_val s"
  by (induction s) (auto simp: valid_utf8.simps [of "_ # _"] runes.simps [of "_ # _"]
      valid_utf8.simps [of "[]"] runes.simps [of "[]"] Let_def rune_error_def)

subsection \<open>UTF-16\<close>

text \<open>\<open>utf16.Encode\<close>: code points outside the planes become surrogate pairs.\<close>

fun utf16_rune :: "nat \<Rightarrow> nat list" where
  "utf16_rune r =
     (if r < 0xD800 \<or> 0xE000 \<le> r \<and> r < 0x10000 then [r]
      else if 0x10000 \<le> r \<and> r < 0x110000
      then [0xD800 + (r - 0x10000) div 1024, 0xDC00 + (r - 0x10000) mod 1024]
      else [rune_error])"

declare utf16_rune.simps [simp del]

definition utf16_encode :: "nat list \<Rightarrow> nat list" where
  "utf16_encode rs = concat (map utf16_rune rs)"

text \<open>The reader's side: pairs of surrogates are joined.\<close>

fun utf16_decode :: "nat list \<Rightarrow> nat list" where
  "utf16_decode [] = []"
| "utf16_decode [u] = [u]"
| "utf16_decode (u # v # us) =
     (if 0xD800 \<le> u \<and> u < 0xDC00 \<and> 0xDC00 \<le> v \<and> v < 0xE000
      then (0x10000 + (u - 0xD800) * 1024 + (v - 0xDC00)) # utf16_decode us
      else u # utf16_decode (v # us))"

lemma utf16_decode_plain: "\<not> (0xD800 \<le> u \<and> u < 0xDC00) \<Longrightarrow> utf16_decode (u # us) = u # utf16_decode us"
  by (cases us) auto

lemma utf16_roundtrip: "\<forall>r \<in> set rs. scalar r \<Longrightarrow> utf16_decode (utf16_encode rs) = rs"
proof (induction rs)
  case (Cons r rs)
  define us where "us = utf16_encode rs"
  have us: "utf16_decode us = rs" using Cons by (simp add: us_def)
  have enc: "utf16_encode (r # rs) = utf16_rune r @ us" by (simp add: utf16_encode_def us_def)
  show ?case
  proof (cases "r < 0x10000")
    case True
    with Cons.prems have "utf16_rune r = [r]" "\<not> (0xD800 \<le> r \<and> r < 0xDC00)"
      by (auto simp: utf16_rune.simps [of r] scalar_def)
    with us show ?thesis by (simp add: enc utf16_decode_plain)
  next
    case False
    with Cons.prems have "r < 0x110000" by (auto simp: scalar_def)
    with False have "(r - 0x10000) div 1024 < 1024" by auto
    moreover have "(r - 0x10000) div 1024 * 1024 + (r - 0x10000) mod 1024 = r - 0x10000" by simp
    ultimately show ?thesis using us False \<open>r < 0x110000\<close>
      by (simp add: enc utf16_rune.simps [of r])
  qed
qed (simp add: utf16_encode_def)

lemma utf16_rune_bound: "u \<in> set (utf16_rune r) \<Longrightarrow> u < 65536"
proof -
  assume u: "u \<in> set (utf16_rune r)"
  define d m where "d = (r - 0x10000) div 1024" and "m = (r - 0x10000) mod 1024"
  have "m < 1024" by (simp add: m_def)
  moreover have "d < 1024" if "r < 0x110000"
    using that by (simp add: d_def less_mult_imp_div_less)
  ultimately show ?thesis
    using u by (auto simp: utf16_rune.simps [of r] rune_error_def d_def [symmetric] m_def [symmetric]
      split: if_splits)
qed

lemma utf16_unit_bound: "u \<in> set (utf16_encode rs) \<Longrightarrow> u < 65536"
  unfolding utf16_encode_def using utf16_rune_bound by auto

end
