(* ===== verification/Command.thy ===== *)
theory Command
  imports Utf8 Go_Text Go_Errors Base64
begin

text \<open>
  \<open>internal/remote/command.go\<close> and \<open>transfer_scripts.go\<close>: the command line sent to the remote
  host.  \<open>winrm.Powershell\<close> (the library's \<open>-EncodedCommand\<close> encoder) and the embedded script
  files are parameters.  The main results: the command-length limits, and that parameter values
  put into a transfer script are base64 literals which decode to the value, so that no path can
  become script syntax.
\<close>

subsection \<open>PowerShell and Command\<close>

definition quote :: bytes where "quote = [CHR 0x27]"

definition utf8_prelude :: bytes where
  "utf8_prelude = ''$ErrorActionPreference = '' @ quote @ ''Stop'' @ quote @
     ''; [Console]::OutputEncoding = New-Object System.Text.UTF8Encoding($false); '' @
     ''$OutputEncoding = [Console]::OutputEncoding; ''"

definition PowerShell :: "(bytes \<Rightarrow> bytes) \<Rightarrow> bytes \<Rightarrow> goerr + bytes" where
  "PowerShell encode script =
     check (\<not> valid_utf8 script) (Msg ''PowerShell script must be UTF-8'') (
     let encoded = encode (utf8_prelude @ script) in
     check (encoded = []) (Msg ''cannot encode PowerShell script'') (
     let command = replace_first encoded ''powershell.exe -EncodedCommand ''
           ''powershell.exe -NoLogo -NoProfile -NonInteractive -EncodedCommand '' in
     check (length command > 8000)
       (Msg ''encoded PowerShell command exceeds the 8000-character limit; use a smaller script'')
       (Inr command)))"

definition Command :: "(bytes \<Rightarrow> bytes) \<Rightarrow> bytes \<Rightarrow> bool \<Rightarrow> goerr + bytes" where
  "Command encode txt powershell =
     (if powershell then PowerShell encode txt
      else check (length (utf16_encode (runes txt)) > 8000)
             (Msg ''cmd command exceeds the 8000-character limit'') (Inr txt))"

subsection \<open>Transfer scripts\<close>

text \<open>\<open>utf16LEBytes\<close>: the low byte, then the high byte of each unit.\<close>

definition utf16LEBytes :: "bytes \<Rightarrow> bytes" where
  "utf16LEBytes s = concat (map (\<lambda>u. [char_of (u mod 256), char_of (u div 256)])
     (utf16_encode (runes s)))"

text \<open>\<open>loadScript\<close>: \<open>fs\<close> reads an embedded file.\<close>

definition loadScript :: "(bytes \<Rightarrow> goerr + bytes) \<Rightarrow> bytes \<Rightarrow> goerr + bytes list \<times> bytes" where
  "loadScript fs file =
     (case fs (''scripts/'' @ file) of
        Inl e \<Rightarrow> Inl (Wrap ''script'' e)
      | Inr body \<Rightarrow>
          (case str_index body [CHR 0x0A] of
             None \<Rightarrow> Inr ([], body)
           | Some i \<Rightarrow>
               let first = take i body in
               if has_prefix first ''# @allow ''
               then Inr (str_fields (trim_prefix first ''# @allow ''), drop (i + 1) body)
               else Inr ([], body)))"

text \<open>One assignment: \<open>$k = [Text.Encoding]::Unicode.GetString([Convert]::FromBase64String('...'));\<close>\<close>

definition assignment :: "bytes \<Rightarrow> bytes \<Rightarrow> bytes" where
  "assignment k lit = ''$'' @ k @ '' = [Text.Encoding]::Unicode.GetString([Convert]::FromBase64String('' @
     quote @ lit @ quote @ '')); ''"

fun assignments :: "(bytes \<times> bytes) list \<Rightarrow> goerr + bytes" where
  "assignments [] = Inr []"
| "assignments ((k, v) # vs) =
     check (\<not> valid_utf8 v) (Msg ''invalid UTF-8'')
       (and_then (assignments vs) (\<lambda>rest.
          Inr (assignment k (b64_encode (utf16LEBytes v)) @ rest)))"

text \<open>The map of parameters is a list of pairs in the order the loop visits them.\<close>

definition transferScript ::
  "(bytes \<Rightarrow> bytes) \<Rightarrow> (bytes \<Rightarrow> goerr + bytes) \<Rightarrow> bytes \<Rightarrow> (bytes \<times> bytes) list \<Rightarrow> goerr + bytes" where
  "transferScript encode fs file vals =
     and_then (loadScript fs file) (\<lambda>(allow, body).
       check (list_ex (\<lambda>(k, v). k \<notin> set allow) vals) (Msg ''parameter not allowed'')
         (and_then (assignments vals) (\<lambda>text.
            let script = utf8_prelude @ text @ body in
            and_then (PowerShell encode script) (\<lambda>_. Inr script))))"

subsection \<open>Literals\<close>

fun le_units :: "bytes \<Rightarrow> nat list" where
  "le_units (a # b # s) = (byte_val a + 256 * byte_val b) # le_units s"
| "le_units _ = []"

lemma le_units_concat:
  "\<forall>u \<in> set us. u < 65536 \<Longrightarrow>
     le_units (concat (map (\<lambda>u. [char_of (u mod 256), char_of (u div 256)]) us)) = us"
  by (induction us) (auto simp: less_mult_imp_div_less)

text \<open>PowerShell's reading of a literal: base64, then little-endian UTF-16.\<close>

definition read_literal :: "bytes \<Rightarrow> nat list option" where
  "read_literal lit = map_option (\<lambda>b. utf16_decode (le_units b)) (b64_decode True lit)"

lemma read_literal_value:
  assumes "valid_utf8 v"
  shows "read_literal (b64_encode (utf16LEBytes v)) = Some (runes v)"
proof -
  have "le_units (utf16LEBytes v) = utf16_encode (runes v)"
    unfolding utf16LEBytes_def using utf16_unit_bound by (intro le_units_concat) blast
  with valid_decode [OF assms] show ?thesis
    by (simp add: read_literal_def utf16_roundtrip)
qed

lemma assignments_ok:
  "assignments vs = Inr t \<Longrightarrow>
     t = concat (map (\<lambda>(k, v). assignment k (b64_encode (utf16LEBytes v))) vs) \<and>
     (\<forall>(k, v) \<in> set vs. valid_utf8 v)"
  by (induction vs arbitrary: t rule: assignments.induct) auto

text \<open>C39: In a transfer script every parameter is allowed by the script file and enters the text only
  as a base64 literal between quotes: the literal has no character outside the base64 alphabet, in
  particular no quote, and PowerShell's reading of it (base64, then UTF-16) is exactly the value.
  No path or identifier can become script syntax.\<close>

theorem transferScript_literals:
  assumes "transferScript encode fs file vals = Inr script"
  shows "\<exists>allow body lit. loadScript fs file = Inr (allow, body) \<and>
    script = utf8_prelude @ concat (map (\<lambda>(k, v). assignment k (lit v)) vals) @ body \<and>
    (\<forall>(k, v) \<in> set vals. k \<in> set allow \<and> set (lit v) \<subseteq> b64_alphabet \<and> CHR 0x27 \<notin> set (lit v) \<and>
       read_literal (lit v) = Some (runes v) \<and> utf8_encode (runes v) = v)"
proof -
  from assms obtain allow body t where l: "loadScript fs file = Inr (allow, body)"
    and k: "\<not> list_ex (\<lambda>(k, v). k \<notin> set allow) vals" and t: "assignments vals = Inr t"
    and s: "script = utf8_prelude @ t @ body"
    by (auto simp: transferScript_def Let_def)
  define lit where "lit v = b64_encode (utf16LEBytes v)" for v
  have "CHR 0x27 \<notin> b64_alphabet" by (rule b64_alphabet_excludes) (simp_all add: b64_val_def pad_def)
  then have "set (lit v) \<subseteq> b64_alphabet \<and> CHR 0x27 \<notin> set (lit v)" for v
    using b64_encode_alphabet [of "utf16LEBytes v"] by (auto simp: lit_def)
  moreover have "read_literal (lit v) = Some (runes v) \<and> utf8_encode (runes v) = v"
    if "valid_utf8 v" for v
    using read_literal_value [OF that] valid_decode [OF that] by (simp add: lit_def)
  ultimately have "\<forall>(k, v) \<in> set vals. k \<in> set allow \<and> set (lit v) \<subseteq> b64_alphabet \<and>
      CHR 0x27 \<notin> set (lit v) \<and> read_literal (lit v) = Some (runes v) \<and> utf8_encode (runes v) = v"
    using k assignments_ok [OF t] by (fastforce simp: list_ex_iff)
  moreover have "script = utf8_prelude @ concat (map (\<lambda>(k, v). assignment k (lit v)) vals) @ body"
    using s assignments_ok [OF t] by (simp add: lit_def)
  ultimately show ?thesis using l by blast
qed

text \<open>A file system with one script, and a value that tries to leave its literal.\<close>

definition sample_fs :: "bytes \<Rightarrow> goerr + bytes" where
  "sample_fs path = (if path = ''scripts/cleanup.ps1''
     then Inr (''# @allow stage'' @ [CHR 0x0A] @ ''exit 0'') else Inl (Msg ''not found''))"

lemma sample_load: "loadScript sample_fs ''cleanup.ps1'' = Inr ([''stage''], ''exit 0'')"
  by (simp add: loadScript_def sample_fs_def has_prefix_def trim_prefix_def Let_def str_fields_def
      fields_from.simps space_seqs_def ascii_spaces_def wide_spaces_def)

lemma sample_script:
  "is_ok (transferScript (\<lambda>s. ''powershell.exe -EncodedCommand AAAA'') sample_fs ''cleanup.ps1''
     [(''stage'', quote @ ''; exit 1; #'')])"
proof -
  define lit where "lit = b64_encode (utf16LEBytes (quote @ ''; exit 1; #''))"
  have "\<forall>c \<in> b64_alphabet. byte_val c < 0x80"
    by (auto simp: b64_alphabet_def pad_def b64_char_def)
  then have lit: "\<forall>c \<in> set lit. byte_val c < 0x80" using b64_encode_alphabet by (auto simp: lit_def)
  have v: "valid_utf8 (quote @ ''; exit 1; #'')" by (simp add: ascii_utf8 quote_def)
  have "valid_utf8 (utf8_prelude @ assignment ''stage'' lit @ ''exit 0'')"
    using lit by (intro ascii_utf8 [THEN conjunct1])
      (auto simp: utf8_prelude_def assignment_def quote_def)
  with v show ?thesis
    by (simp add: transferScript_def sample_load PowerShell_def Let_def replace_first_def str_cut_def
        has_prefix_def flip: lit_def)
qed

theorem transferScript_literals_witness:
  "\<exists>lit. CHR 0x27 \<notin> set (lit (quote @ ''; exit 1; #'')) \<and>
     read_literal (lit (quote @ ''; exit 1; #'')) = Some (runes (quote @ ''; exit 1; #''))"
proof -
  obtain script where "transferScript (\<lambda>s. ''powershell.exe -EncodedCommand AAAA'') sample_fs
      ''cleanup.ps1'' [(''stage'', quote @ ''; exit 1; #'')] = Inr script"
    using sample_script by (auto simp: is_ok_iff)
  from transferScript_literals [OF this] show ?thesis by auto
qed

text \<open>A command line that the program accepts stays within its limit: 8000 characters of the
  encoded PowerShell invocation, or 8000 UTF-16 units of a \<open>cmd\<close> command, which is passed
  unchanged; a script that is not valid UTF-8 is refused.\<close>

theorem Command_within_limit:
  assumes "Command encode txt powershell = Inr cmd"
  shows "if powershell then valid_utf8 txt \<and> cmd \<noteq> [] \<and> length cmd \<le> 8000
    else cmd = txt \<and> length (utf16_encode (runes txt)) \<le> 8000"
proof (cases powershell)
  case True
  have "replace_first e old new \<noteq> []" if "e \<noteq> []" "new \<noteq> []" for e old new
    using that by (auto simp: replace_first_def split: prod.splits)
  with assms True show ?thesis by (auto simp: Command_def PowerShell_def Let_def)
qed (use assms in \<open>auto simp: Command_def\<close>)

theorem Command_within_limit_witness:
  "length (utf16_encode (runes ''hostname'')) \<le> 8000"
proof -
  have "Command (\<lambda>s. []) ''hostname'' False = Inr ''hostname''"
    using ascii_utf8 [of "''hostname''"] by (simp add: Command_def utf16_encode_def utf16_rune.simps)
  from Command_within_limit [OF this] show ?thesis by simp
qed

end
