(* ===== verification/Session.thy ===== *)
theory Session
  imports Response Command Poster
begin

text \<open>
  \<open>internal/remote/session.go\<close>, \<open>runner.go\<close> and \<open>control_runner.go\<close>: a WinRS shell that owns one
  command, from Create to Delete, over transports that keep the \<open>poster\<close> contract.  The SOAP
  request builders of the WinRM library and the XML decoder are parameters (record \<open>builders\<close>).
  The receive loop runs beside the caller in Go; its polls are the only SOAP messages it sends, and
  the caller sends none until the loop has its output writers, so the model runs it in place and
  leaves to parameters whether a waiting call sees the loop's end or the context's end first.
\<close>

record request =
  req_endpoint :: bytes
  req_command :: bytes
  req_codepage :: bytes
  req_powershell :: bool

record builders =
  encode_ps :: "bytes \<Rightarrow> bytes"
  open_request :: "bytes \<Rightarrow> bytes"
  execute_request :: "bytes \<Rightarrow> bytes \<Rightarrow> bytes \<Rightarrow> bytes"
  send_request :: "bytes \<Rightarrow> bytes \<Rightarrow> bytes \<Rightarrow> bytes \<Rightarrow> bool \<Rightarrow> bytes"
  output_request :: "bytes \<Rightarrow> bytes \<Rightarrow> bytes \<Rightarrow> bytes"
  signal_request :: "bytes \<Rightarrow> bytes \<Rightarrow> bytes \<Rightarrow> bytes"
  delete_request :: "bytes \<Rightarrow> bytes \<Rightarrow> bytes"
  decode :: "bytes \<Rightarrow> response option"

record session =
  endpoint :: bytes
  shellID :: bytes
  commandID :: bytes

subsection \<open>startSession\<close>

definition cdata_end :: bytes where "cdata_end = '']]>''"
definition cdata_split :: bytes where "cdata_split = '']]]]><![CDATA[>''"

definition codepage_attr :: bytes where
  "codepage_attr = ''Name='' @ [CHR 0x22] @ ''WINRS_CODEPAGE'' @ [CHR 0x22] @ ''>''"

definition open_message :: "builders \<Rightarrow> request \<Rightarrow> goerr + bytes" where
  "open_message b req =
     (let body = open_request b (req_endpoint req);
          marker = codepage_attr @ ''65001'' in
      if \<not> req_powershell req \<and> (req_codepage req = ''866'' \<or> req_codepage req = ''1251'')
      then check (length (str_split body marker) - 1 \<noteq> 1) (Msg ''cannot set WinRS codepage'')
             (Inr (replace_first body marker (codepage_attr @ req_codepage req)))
      else Inr body)"

definition deleteShellBestEffort ::
  "builders \<Rightarrow> bytes \<Rightarrow> bytes \<Rightarrow> 'w post \<Rightarrow> 'w post option \<Rightarrow> 'w ctx \<Rightarrow> 'w \<Rightarrow> goerr option \<times> 'w" where
  "deleteShellBestEffort b ep shell cleanup fallback budget w =
     (if shell = [] then (None, w)
      else let m = delete_request b ep shell in
        case post_alternatives [fallback] budget m (cleanup budget m w) of
          (Inl e, w') \<Rightarrow> (Some e, w')
        | (Inr reply, w') \<Rightarrow>
            (case parseResponse (decode b) reply of
               Inl e \<Rightarrow> (Some (Msg ''invalid WinRM DeleteResponse''), w')
             | Inr r \<Rightarrow>
                 if action r \<noteq> wsTransfer @ ''DeleteResponse''
                 then (Some (Msg ''invalid WinRM DeleteResponse''), w') else (None, w')))"

text \<open>The error paths behind a created shell.\<close>

definition abandon_shell ::
  "builders \<Rightarrow> bytes \<Rightarrow> bytes \<Rightarrow> 'w post \<Rightarrow> 'w post option \<Rightarrow> 'w ctx \<Rightarrow> goerr \<Rightarrow> goerr \<Rightarrow> 'w \<Rightarrow>
   (goerr + session) \<times> 'w" where
  "abandon_shell b ep shell cleanup fallback budget kept lost w =
     (case deleteShellBestEffort b ep shell cleanup fallback budget w of
        (None, w') \<Rightarrow> (Inl kept, w')
      | (Some _, w') \<Rightarrow> (Inl lost, w'))"

definition start_command ::
  "builders \<Rightarrow> bytes \<Rightarrow> bytes \<Rightarrow> bytes \<Rightarrow> 'w post \<Rightarrow> 'w post \<Rightarrow> 'w post option \<Rightarrow> 'w ctx \<Rightarrow> 'w ctx \<Rightarrow> 'w \<Rightarrow>
   (goerr + session) \<times> 'w" where
  "start_command b ep shell command p cleanup fallback ctx budget w =
     (case p ctx (execute_request b ep shell command) w of
        (Inl e, w') \<Rightarrow>
          abandon_shell b ep shell cleanup fallback budget e
            (Joined [e, Sentinel ErrRemoteStateUnknown]) w'
      | (Inr reply, w') \<Rightarrow>
          (case parseResponse (decode b) reply of
             Inl e \<Rightarrow>
               abandon_shell b ep shell cleanup fallback budget e
                 (Joined [e, Sentinel ErrRemoteStateUnknown]) w'
           | Inr started \<Rightarrow>
               if action started \<noteq> wsShell @ ''CommandResponse'' \<or> \<not> validID (command_id started)
               then abandon_shell b ep shell cleanup fallback budget
                      (Msg ''invalid WinRM command response'') (Sentinel ErrRemoteStateUnknown) w'
               else (Inr \<lparr>endpoint = ep, shellID = shell, commandID = command_id started\<rparr>, w')))"

definition startSessionLanes ::
  "builders \<Rightarrow> request \<Rightarrow> 'w post \<Rightarrow> 'w post \<Rightarrow> 'w post option \<Rightarrow> 'w ctx \<Rightarrow> 'w ctx \<Rightarrow> 'w \<Rightarrow>
   (goerr + session) \<times> 'w" where
  "startSessionLanes b req p cleanup fallback ctx budget w =
     (case Command (encode_ps b) (req_command req) (req_powershell req) of
        Inl e \<Rightarrow> (Inl e, w)
      | Inr cmd \<Rightarrow>
          (let command = replace_all cmd cdata_end cdata_split; ep = req_endpoint req in
           case open_message b req of
             Inl e \<Rightarrow> (Inl e, w)
           | Inr body \<Rightarrow>
               (case p ctx body w of
                  (Inl e, w') \<Rightarrow>
                    ((if errors_is e ErrUnsent then Inl (notStarted e)
                      else Inl (Joined [e, Sentinel ErrRemoteStateUnknown])), w')
                | (Inr reply, w') \<Rightarrow>
                    (case parseResponse (decode b) reply of
                       Inl e \<Rightarrow> (Inl (Joined [e, Sentinel ErrRemoteStateUnknown]), w')
                     | Inr opened \<Rightarrow>
                         if action opened \<noteq> wsTransfer @ ''CreateResponse'' \<or> \<not> validID (shell_id opened)
                         then (Inl (Joined [Msg ''invalid WinRM shell response'',
                                            Sentinel ErrRemoteStateUnknown]), w')
                         else start_command b ep (shell_id opened) command p cleanup fallback ctx budget w'))))"

subsection \<open>send, receive, close\<close>

definition session_send ::
  "builders \<Rightarrow> session \<Rightarrow> 'w post \<Rightarrow> bool \<Rightarrow> 'w ctx \<Rightarrow> bytes \<Rightarrow> bool \<Rightarrow> 'w \<Rightarrow> goerr option \<times> 'w" where
  "session_send b s lane closed ctx data eof w =
     (if closed then (Some (Msg ''session closed''), w)
      else case lane ctx (send_request b (endpoint s) (shellID s) (commandID s) data eof) w of
        (Inl e, w') \<Rightarrow> (Some e, w')
      | (Inr reply, w') \<Rightarrow>
          (case parseResponse (decode b) reply of
             Inl e \<Rightarrow> (Some e, w')
           | Inr r \<Rightarrow>
               if action r \<noteq> wsShell @ ''SendResponse''
               then (Some (Msg ''invalid WinRM SendResponse''), w') else (None, w')))"

text \<open>One turn of the receive loop: the result that ends it, or \<open>None\<close> to poll again.\<close>

definition receive_poll ::
  "builders \<Rightarrow> session \<Rightarrow> 'w post \<Rightarrow> 'o writer \<Rightarrow> 'o writer \<Rightarrow> 'w ctx \<Rightarrow> 'w \<times> 'o \<Rightarrow>
   (goerr + nat) option \<times> 'w \<times> 'o" where
  "receive_poll b s lane out err ctx wu =
     (case wu of (w, u) \<Rightarrow>
      (case ctx w of
        Some c \<Rightarrow> (Some (Inl (ctx_goerr c)), w, u)
      | None \<Rightarrow>
          (case lane ctx (output_request b (endpoint s) (shellID s) (commandID s)) w of
             (Inl e, w') \<Rightarrow> ((if errors_is e ErrOperationTimeout then None else Some (Inl e)), w', u)
           | (Inr reply, w') \<Rightarrow>
               (case parseResponse (decode b) reply of
                  Inl e \<Rightarrow> ((if errors_is e ErrOperationTimeout then None else Some (Inl e)), w', u)
                | Inr r \<Rightarrow>
                    (case resp_receive out err r u of
                       (Inl e, u') \<Rightarrow> (Some (Inl e), w', u')
                     | (Inr (Some rc), u') \<Rightarrow> (Some (Inr rc), w', u')
                     | (Inr None, u') \<Rightarrow> (None, w', u'))))))"

text \<open>The loop may run for ever: \<open>None\<close> is a loop that does not return.\<close>

partial_function (option) receiveLoop ::
  "builders \<Rightarrow> session \<Rightarrow> 'w post \<Rightarrow> 'o writer \<Rightarrow> 'o writer \<Rightarrow> 'w ctx \<Rightarrow> 'w \<times> 'o \<Rightarrow>
   ((goerr + nat) \<times> 'w \<times> 'o) option" where
  "receiveLoop b s lane out err ctx wu =
     (let r = receive_poll b s lane out err ctx wu in
      if fst r = None then receiveLoop b s lane out err ctx (snd r) else Some (the (fst r), snd r))"

text \<open>The Signal of \<open>closeWith\<close>; the result says whether it failed.\<close>

definition close_signal :: "builders \<Rightarrow> session \<Rightarrow> 'w post \<Rightarrow> bool \<Rightarrow> 'w ctx \<Rightarrow> 'w \<Rightarrow> bool \<times> 'w" where
  "close_signal b s primary signal ctx w =
     (if signal \<and> commandID s \<noteq> [] then
        (case primary ctx (signal_request b (endpoint s) (shellID s) (commandID s)) w of
           (Inl e, w') \<Rightarrow> (True, w')
         | (Inr reply, w') \<Rightarrow>
             (case parseResponse (decode b) reply of
                Inl e \<Rightarrow> (True, w')
              | Inr r \<Rightarrow> (action r \<noteq> wsShell @ ''SignalResponse'', w')))
      else (False, w))"

text \<open>The Delete, handed on while it is proven unsent; the result says whether it is confirmed.\<close>

definition close_delete ::
  "builders \<Rightarrow> session \<Rightarrow> 'w post \<Rightarrow> 'w post \<Rightarrow> 'w post option \<Rightarrow> 'w ctx \<Rightarrow> 'w \<Rightarrow> bool \<times> 'w" where
  "close_delete b s first fallback s_fallback ctx w =
     (let m = delete_request b (endpoint s) (shellID s) in
      case post_alternatives [Some fallback, s_fallback] ctx m (first ctx m w) of
        (Inl e, w') \<Rightarrow> (False, w')
      | (Inr reply, w') \<Rightarrow>
          (case parseResponse (decode b) reply of
             Inl e \<Rightarrow> (False, w')
           | Inr r \<Rightarrow> (action r = wsTransfer @ ''DeleteResponse'', w')))"

text \<open>\<open>closeWith\<close>: \<open>closed\<close> is the session's flag before the call, \<open>joined\<close> whether the receive worker
  ends before the cleanup budget.\<close>

definition closeWith ::
  "builders \<Rightarrow> session \<Rightarrow> 'w post \<Rightarrow> 'w post \<Rightarrow> 'w post option \<Rightarrow> bool \<Rightarrow> 'w ctx \<Rightarrow> bool \<Rightarrow> bool \<Rightarrow> 'w \<Rightarrow>
   goerr option \<times> 'w" where
  "closeWith b s primary fallback s_fallback signal ctx joined closed w =
     (if closed then
        (if joined then (None, w) else (map_option ctx_goerr (ctx w), w))
      else
        (case close_signal b s primary signal ctx w of (signalFailed, w1) \<Rightarrow>
         (case close_delete b s (if signalFailed then fallback else primary) fallback s_fallback ctx w1 of
            (deleted, w2) \<Rightarrow>
              (case (if joined then None else ctx w2) of
                 None \<Rightarrow>
                   ((if \<not> deleted then Some (Sentinel ErrRemoteStateUnknown)
                     else if signalFailed then Some (Sentinel ErrCleanupFailed) else None), w2)
               | Some c \<Rightarrow>
                   ((if \<not> deleted then Some (Joined [Sentinel ErrRemoteStateUnknown, ctx_goerr c])
                     else Some (Joined [Sentinel ErrCleanupFailed, ctx_goerr c])), w2)))))"

subsection \<open>runWithPosters\<close>

text \<open>\<open>receive\<close>: the loop's result, or the context's error when the caller sees that first
  (\<open>early\<close>).\<close>

definition session_receive ::
  "builders \<Rightarrow> session \<Rightarrow> 'w post \<Rightarrow> 'o writer \<Rightarrow> 'o writer \<Rightarrow> 'w ctx \<Rightarrow> bool \<Rightarrow> 'w \<times> 'o \<Rightarrow>
   ((goerr + nat) \<times> 'w \<times> 'o) option" where
  "session_receive b s lane out err ctx early wu =
     (case receiveLoop b s lane out err ctx wu of
        None \<Rightarrow> None
      | Some (r, w, u) \<Rightarrow>
          (case (if early then ctx w else None) of
             Some c \<Rightarrow> Some (Inl (ctx_goerr c), w, u)
           | None \<Rightarrow> Some (r, w, u)))"

text \<open>The deferred close: an interrupted command is signaled and deleted on the cleanup lane, a
  completed one only deleted, on the command lane.\<close>

definition run_close ::
  "builders \<Rightarrow> session \<Rightarrow> 'w post \<Rightarrow> 'w post \<Rightarrow> 'w post option \<Rightarrow> 'w ctx \<Rightarrow> 'w ctx \<Rightarrow> bool \<Rightarrow>
   goerr option \<Rightarrow> 'w \<Rightarrow> goerr option \<times> 'w" where
  "run_close b s command cleanup fallback ctx budget joined runErr w =
     (if runErr \<noteq> None \<or> ctx w \<noteq> None
      then closeWith b s cleanup cleanup fallback True budget joined False w
      else closeWith b s command cleanup fallback False budget joined False w)"

record 'w run_params =
  run_ctx :: "'w ctx"
  run_budget :: "'w ctx"
  run_early :: bool
  run_joined :: bool

definition run_session ::
  "builders \<Rightarrow> session \<Rightarrow> 'w post \<Rightarrow> 'w post \<Rightarrow> 'w post option \<Rightarrow> 'w run_params \<Rightarrow> 'o writer \<Rightarrow> 'o writer \<Rightarrow>
   'w \<Rightarrow> 'o \<Rightarrow> ((nat \<times> goerr option \<times> goerr option) \<times> 'w \<times> 'o) option" where
  "run_session b s command cleanup fallback par out err w u =
     (let finish = (\<lambda>code runErr w u.
            case run_close b s command cleanup fallback (run_ctx par) (run_budget par) (run_joined par) runErr w of
              (cleanupErr, w') \<Rightarrow> Some ((code, runErr, cleanupErr), w', u))
      in case session_send b s command False (run_ctx par) [] True w of
           (Some e, w1) \<Rightarrow> finish 0 (Some e) w1 u
         | (None, w1) \<Rightarrow>
             (case session_receive b s command out err (run_ctx par) (run_early par) (w1, u) of
                None \<Rightarrow> None
              | Some (Inl e, w2, u2) \<Rightarrow> finish 0 (Some e) w2 u2
              | Some (Inr rc, w2, u2) \<Rightarrow> finish rc None w2 u2))"

text \<open>The exit code, the command's error, the cleanup error.\<close>

definition runWithPosters ::
  "builders \<Rightarrow> request \<Rightarrow> 'w post option \<Rightarrow> 'w post option \<Rightarrow> 'w post option \<Rightarrow> 'w run_params \<Rightarrow>
   'o writer \<Rightarrow> 'o writer \<Rightarrow> 'w \<Rightarrow> 'o \<Rightarrow> ((nat \<times> goerr option \<times> goerr option) \<times> 'w \<times> 'o) option" where
  "runWithPosters b req command cleanup fallback par out err w u =
     (case (command, cleanup) of
        (Some cmd, Some cln) \<Rightarrow>
          (case startSessionLanes b req cmd cln fallback (run_ctx par) (run_budget par) w of
             (Inl e, w1) \<Rightarrow> Some ((0, Some e, None), w1, u)
           | (Inr s, w1) \<Rightarrow> run_session b s cmd cln fallback par out err w1 u)
      | _ \<Rightarrow> Some ((0, Some (Msg ''missing authenticated connection''), None), w, u))"

text \<open>\<open>RunWithPosters\<close> joins the two errors; \<open>Run\<close> reports a cleanup failure after success apart.\<close>

definition completedCleanupError :: "goerr \<Rightarrow> goerr" where
  "completedCleanupError err =
     Wrap ''remote command completed but shell cleanup failed''
       (Sentinel (if errors_is err ErrRemoteStateUnknown then ErrRemoteStateUnknown else ErrCleanupFailed))"

definition run_result :: "goerr option \<Rightarrow> goerr option \<Rightarrow> goerr option" where
  "run_result runErr cleanupErr =
     (case (runErr, cleanupErr) of
        (None, Some e) \<Rightarrow> Some (completedCleanupError e)
      | _ \<Rightarrow> errors_join [runErr, cleanupErr])"

subsection \<open>Sessions over the poster contract\<close>

text \<open>At most one message.\<close>

definition opt_msg :: "bytes \<Rightarrow> bytes list \<Rightarrow> bool" where
  "opt_msg m ms \<longleftrightarrow> ms = [] \<or> ms = [m]"

lemma opt_msg_simps [simp]: "opt_msg m []" "opt_msg m [m]"
  by (simp_all add: opt_msg_def)

text \<open>The bodies of Create and Command that a request stands for.\<close>

definition create_body :: "builders \<Rightarrow> request \<Rightarrow> bytes" where
  "create_body b req = (case open_message b req of Inl e \<Rightarrow> [] | Inr body \<Rightarrow> body)"

definition command_body :: "builders \<Rightarrow> request \<Rightarrow> bytes \<Rightarrow> bytes" where
  "command_body b req shell = execute_request b (req_endpoint req) shell
     (case Command (encode_ps b) (req_command req) (req_powershell req) of
        Inl e \<Rightarrow> [] | Inr c \<Rightarrow> replace_all c cdata_end cdata_split)"

text \<open>The messages of a command's start, and what its error says about them.\<close>

definition start_error :: "goerr \<Rightarrow> bytes list \<Rightarrow> bool" where
  "start_error e d \<longleftrightarrow> \<not> errors_is e ErrNotStarted \<and> (\<not> errors_is e ErrRemoteStateUnknown \<longrightarrow> d \<noteq> [])"

text \<open>What a receive loop has written when it returns.\<close>

definition loop_wrote ::
  "builders \<Rightarrow> session \<Rightarrow> bytes list \<Rightarrow> goerr + nat \<Rightarrow> bytes list \<Rightarrow> bool" where
  "loop_wrote b s sent r sent' \<longleftrightarrow>
     (\<exists>n. sent' = sent @ replicate n (output_request b (endpoint s) (shellID s) (commandID s)) \<and>
          (\<forall>rc. r = Inr rc \<longrightarrow> 0 < n \<and> rc < 2 ^ 32))"

lemma loop_wrote_more:
  "loop_wrote b s (sent @ [output_request b (endpoint s) (shellID s) (commandID s)]) r sent' \<Longrightarrow>
   loop_wrote b s sent r sent'"
  unfolding loop_wrote_def by (metis append.assoc append_Cons append_Nil replicate_Suc zero_less_Suc)

text \<open>The messages of one command: Create, Command, the Send that closes its input, the Receive polls,
  Signal and Delete, in this order; each but the poll at most once, and none without the ones it
  needs.\<close>

record transcript =
  t_create :: "bytes list"
  t_command :: "bytes list"
  t_send :: "bytes list"
  t_polls :: nat
  t_signal :: "bytes list"
  t_delete :: "bytes list"

definition transcript_ok :: "builders \<Rightarrow> request \<Rightarrow> bytes \<Rightarrow> bytes \<Rightarrow> transcript \<Rightarrow> bool" where
  "transcript_ok b req shell cid t \<longleftrightarrow>
     opt_msg (create_body b req) (t_create t) \<and>
     opt_msg (command_body b req shell) (t_command t) \<and>
     opt_msg (send_request b (req_endpoint req) shell cid [] True) (t_send t) \<and>
     opt_msg (signal_request b (req_endpoint req) shell cid) (t_signal t) \<and>
     opt_msg (delete_request b (req_endpoint req) shell) (t_delete t) \<and>
     (t_command t @ t_delete t \<noteq> [] \<longrightarrow> t_create t \<noteq> [] \<and> validID shell) \<and>
     (t_send t @ t_signal t \<noteq> [] \<longrightarrow> t_command t \<noteq> [] \<and> validID cid) \<and>
     (0 < t_polls t \<longrightarrow> t_send t \<noteq> [])"

definition transcript_msgs :: "builders \<Rightarrow> request \<Rightarrow> bytes \<Rightarrow> bytes \<Rightarrow> transcript \<Rightarrow> bytes list" where
  "transcript_msgs b req shell cid t =
     t_create t @ t_command t @ t_send t @ replicate (t_polls t) (output_request b (req_endpoint req) shell cid) @
     t_signal t @ t_delete t"

text \<open>What the three results say of the transcript.\<close>

definition unknown_shell :: "goerr option \<Rightarrow> bool" where
  "unknown_shell e \<longleftrightarrow> (case e of None \<Rightarrow> False | Some e \<Rightarrow> errors_is e ErrRemoteStateUnknown)"

definition outcome_ok :: "transcript \<Rightarrow> nat \<times> goerr option \<times> goerr option \<Rightarrow> bool" where
  "outcome_ok t r \<longleftrightarrow>
     (case r of (code, runErr, cleanupErr) \<Rightarrow>
        (runErr = None \<longrightarrow> t_send t \<noteq> [] \<and> 0 < t_polls t \<and> code < 2 ^ 32) \<and>
        (\<not> unknown_shell runErr \<and> \<not> unknown_shell cleanupErr \<longrightarrow> t_create t = [] \<or> t_delete t \<noteq> []))"

locale session_posters = command: poster cmd wire + cleanup: poster cln wire
  for cmd :: "'w post" and cln :: "'w post" and wire :: "'w \<Rightarrow> bytes list" +
  fixes fb :: "'w post option"
  assumes fallback_law: "fb = Some post \<Longrightarrow> poster post wire"
begin

lemma delete_alternatives:
  assumes "poster first wire"
    and "post_alternatives (ps @ [fb]) ctx m (first ctx m w) = (r, w')" and "\<forall>p \<in> set ps. p = Some cln"
  shows "once wire (wire w) m r w'"
proof -
  obtain r0 w0 where f: "first ctx m w = (r0, w0)" by (cases "first ctx m w")
  have "\<forall>post. Some post \<in> set (ps @ [fb]) \<longrightarrow> poster post wire"
    using assms(3) fallback_law cleanup.poster_axioms by auto
  with poster.post_once [OF assms(1) f] assms(2) show ?thesis
    unfolding f by (rule post_alternatives_once [rotated])
qed

lemma best_effort:
  assumes "deleteShellBestEffort b ep shell cln fb budget w = (r, w')"
  obtains d where "wire w' = wire w @ d" and "opt_msg (delete_request b ep shell) d"
    and "r = None \<Longrightarrow> shell \<noteq> [] \<Longrightarrow> d \<noteq> []"
proof (cases "shell = []")
  case True
  with assms that [of "[]"] show ?thesis by (simp add: deleteShellBestEffort_def)
next
  case False
  let ?m = "delete_request b ep shell"
  obtain r1 w1 where p: "post_alternatives ([] @ [fb]) budget ?m (cln budget ?m w) = (r1, w1)"
    by (metis surj_pair)
  note o = delete_alternatives [OF cleanup.poster_axioms p]
  from assms False p have "w' = w1" and "r = None \<Longrightarrow> \<exists>x. r1 = Inr x"
    by (auto simp: deleteShellBestEffort_def Let_def split: prod.splits sum.splits if_splits)
  with o have "wire w' = wire w \<and> r \<noteq> None \<or> wire w' = wire w @ [?m]" by (auto simp: once_def)
  with that [of "[]"] that [of "[?m]"] show ?thesis by auto
qed

lemma abandoned:
  assumes "abandon_shell b ep shell cln fb budget kept lost w = (r, w')"
  obtains d where "wire w' = wire w @ d" and "opt_msg (delete_request b ep shell) d"
    and "r = Inl lost \<or> r = Inl kept \<and> (shell = [] \<or> d \<noteq> [])"
proof -
  obtain r1 w1 where e: "deleteShellBestEffort b ep shell cln fb budget w = (r1, w1)" by (metis surj_pair)
  from e obtain d where "wire w1 = wire w @ d" "opt_msg (delete_request b ep shell) d"
    "r1 = None \<Longrightarrow> shell \<noteq> [] \<Longrightarrow> d \<noteq> []" by (rule best_effort) auto
  with that [of d] assms e show ?thesis by (auto simp: abandon_shell_def split: option.splits)
qed

lemma started:
  assumes "start_command b ep shell command cmd cln fb ctx budget w = (r, w')" and "shell \<noteq> []"
  obtains x d where "wire w' = wire w @ x @ d"
    and "opt_msg (execute_request b ep shell command) x" and "opt_msg (delete_request b ep shell) d"
    and "\<And>e. r = Inl e \<Longrightarrow> start_error e d"
    and "\<And>s. r = Inr s \<Longrightarrow> x \<noteq> [] \<and> d = [] \<and> endpoint s = ep \<and> shellID s = shell \<and> validID (commandID s)"
proof -
  note finish = that
  let ?m = "execute_request b ep shell command"
  obtain r1 w1 where p: "cmd ctx ?m w = (r1, w1)" by (metis surj_pair)
  note o = command.post_once [OF p]
  have ab: thesis if a: "abandon_shell b ep shell cln fb budget kept lost w1 = (r, w')"
    and k: "\<not> errors_is kept ErrNotStarted" and l: "start_error lost []" for kept lost
  proof -
    from a obtain d where d: "wire w' = wire w1 @ d" "opt_msg (delete_request b ep shell) d"
      "r = Inl lost \<or> r = Inl kept \<and> (shell = [] \<or> d \<noteq> [])" by (rule abandoned)
    with k l assms(2) have "\<And>e. r = Inl e \<Longrightarrow> start_error e d" "\<And>s. r \<noteq> Inr s"
      by (auto simp: start_error_def)
    with d o finish [of "[]" d] finish [of "[?m]" d] show thesis by (auto simp: once_def)
  qed
  show thesis
  proof (cases r1)
    case (Inl e)
    with assms(1) p o show thesis
      by (intro ab [of e]) (auto simp: start_command_def once_def unmarked_def start_error_def)
  next
    case (Inr reply)
    with o have w1: "wire w1 = wire w @ [?m]" by (simp add: once_def)
    show thesis
    proof (cases "parseResponse (decode b) reply")
      case e: (Inl e)
      with assms(1) p Inr parseResponse_error [OF e] show thesis
        by (intro ab [of e]) (auto simp: start_command_def start_error_def)
    next
      case r: (Inr started)
      show thesis
      proof (cases "action started \<noteq> wsShell @ ''CommandResponse'' \<or> \<not> validID (command_id started)")
        case True
        with assms(1) p Inr r show thesis
          by (intro ab [of "Msg ''invalid WinRM command response''"])
             (auto simp: start_command_def start_error_def)
      next
        case False
        with assms(1) p Inr r w1 finish [of "[?m]" "[]"] show thesis
          by (auto simp: start_command_def)
      qed
    qed
  qed
qed

lemma opened:
  assumes "startSessionLanes b req cmd cln fb ctx budget w = (r, w')"
  obtains shell c x d where "wire w' = wire w @ c @ x @ d"
    and "opt_msg (create_body b req) c" and "opt_msg (command_body b req shell) x"
    and "opt_msg (delete_request b (req_endpoint req) shell) d"
    and "x @ d \<noteq> [] \<longrightarrow> c \<noteq> [] \<and> validID shell"
    and "\<And>e. r = Inl e \<Longrightarrow> (errors_is e ErrNotStarted \<longrightarrow> c = []) \<and>
           (\<not> errors_is e ErrRemoteStateUnknown \<longrightarrow> c = [] \<or> d \<noteq> [])"
    and "\<And>s. r = Inr s \<Longrightarrow> x \<noteq> [] \<and> d = [] \<and> endpoint s = req_endpoint req \<and> shellID s = shell \<and>
           validID (commandID s)"
proof (cases "Command (encode_ps b) (req_command req) (req_powershell req)")
  case (Inl e)
  with assms that [of "[]" "[]" "[]"] show thesis by (auto simp: startSessionLanes_def)
next
  case cmd: (Inr command)
  note finish = that
  show thesis
  proof (cases "open_message b req")
    case (Inl e)
    with assms cmd finish [of "[]" "[]" "[]"] show thesis by (auto simp: startSessionLanes_def Let_def)
  next
    case body: (Inr body)
    obtain r1 w1 where p: "cmd ctx body w = (r1, w1)" by (metis surj_pair)
    note o = command.post_once [OF p]
    have cb: "create_body b req = body" using body by (simp add: create_body_def)
    show thesis
    proof (cases r1)
      case (Inl e)
      then have "w' = w1" and "r = Inl (if errors_is e ErrUnsent then notStarted e
          else Joined [e, Sentinel ErrRemoteStateUnknown])"
        using assms cmd body p by (auto simp: startSessionLanes_def Let_def)
      with Inl o cb finish [of "[]" "[]" "[]"] finish [of "[body]" "[]" "[]"] show thesis
        by (auto simp: once_def unmarked_def)
    next
      case reply: (Inr reply)
      then have w1: "wire w1 = wire w @ [body]" using o by (simp add: once_def)
      show thesis
      proof (cases "\<exists>e. r = Inl e \<and> \<not> errors_is e ErrNotStarted \<and>
          errors_is e ErrRemoteStateUnknown \<and> w' = w1")
        case True
        with w1 cb finish [of "[body]" "[]" "[]"] show thesis by auto
      next
        case False
        let ?a = "replace_all command cdata_end cdata_split"
        from False have "\<exists>opened :: response. validID (shell_id opened) \<and>
            start_command b (req_endpoint req) (shell_id opened) ?a cmd cln fb ctx budget w1 = (r, w')"
          using assms cmd body p reply
          by (auto simp: startSessionLanes_def Let_def split: sum.splits if_splits dest: parseResponse_error)
        then obtain opened :: response where shell: "validID (shell_id opened)"
          and sc: "start_command b (req_endpoint req) (shell_id opened) ?a cmd cln fb ctx budget w1 = (r, w')"
          by blast
        have x: "command_body b req (shell_id opened) = execute_request b (req_endpoint req) (shell_id opened) ?a"
          using cmd by (simp add: command_body_def)
        from shell have "shell_id opened \<noteq> []" by (simp add: validID_def)
        from started [OF sc this] obtain x d where "wire w' = wire w1 @ x @ d"
          "opt_msg (execute_request b (req_endpoint req) (shell_id opened) ?a) x"
          "opt_msg (delete_request b (req_endpoint req) (shell_id opened)) d"
          "\<And>e. r = Inl e \<Longrightarrow> start_error e d"
          "\<And>s. r = Inr s \<Longrightarrow> x \<noteq> [] \<and> d = [] \<and> endpoint s = req_endpoint req \<and>
             shellID s = shell_id opened \<and> validID (commandID s)" by metis
        with w1 cb x shell finish [of "[body]" x d "shell_id opened"] show thesis
          by (auto simp: start_error_def)
      qed
    qed
  qed
qed

lemma sent_once:
  assumes "session_send b s cmd False ctx data eof w = (r, w')"
  obtains m where "wire w' = wire w @ m"
    and "opt_msg (send_request b (endpoint s) (shellID s) (commandID s) data eof) m"
    and "r = None \<Longrightarrow> m \<noteq> []"
proof -
  let ?m = "send_request b (endpoint s) (shellID s) (commandID s) data eof"
  obtain r1 w1 where p: "cmd ctx ?m w = (r1, w1)" by (metis surj_pair)
  note o = command.post_once [OF p]
  from assms p have "w' = w1" and "r = None \<Longrightarrow> \<exists>x. r1 = Inr x"
    by (auto simp: session_send_def split: sum.splits if_splits)
  with o have "wire w' = wire w \<and> r \<noteq> None \<or> wire w' = wire w @ [?m]" by (auto simp: once_def)
  with that [of "[]"] that [of "[?m]"] show ?thesis by auto
qed

text \<open>A poll that does not end the loop has written its message: a transport's error is never the
  timeout that keeps it going.\<close>

lemma polled:
  assumes "receive_poll b s cmd out err ctx (w, u) = (r, w', u')"
  obtains m where "wire w' = wire w @ m"
    and "opt_msg (output_request b (endpoint s) (shellID s) (commandID s)) m"
    and "r = None \<Longrightarrow> m \<noteq> []" and "\<And>rc. r = Some (Inr rc) \<Longrightarrow> m \<noteq> [] \<and> rc < 2 ^ 32"
proof (cases "ctx w")
  case (Some c)
  with assms that [of "[]"] show ?thesis by (auto simp: receive_poll_def)
next
  case None
  let ?m = "output_request b (endpoint s) (shellID s) (commandID s)"
  obtain r1 w1 where p: "cmd ctx ?m w = (r1, w1)" by (metis surj_pair)
  note o = command.post_once [OF p]
  have w': "w' = w1" and r: "r = None \<Longrightarrow> \<exists>x. r1 = Inr x"
    and rc: "\<And>rc. r = Some (Inr rc) \<Longrightarrow> (\<exists>x. r1 = Inr x) \<and> rc < 2 ^ 32"
    using assms None p o
    by (auto simp: receive_poll_def once_def unmarked_def resp_receive_def dest: parse_uint32_bound
        split: sum.splits option.splits if_splits prod.splits)
  with o have "wire w' = wire w \<and> r \<noteq> None \<and> (\<forall>rc. r \<noteq> Some (Inr rc)) \<or> wire w' = wire w @ [?m]"
    by (cases r1) (auto simp: once_def)
  with rc that [of "[]"] that [of "[?m]"] show ?thesis by auto
qed

lemma loop_sent_lane:
  assumes "receiveLoop b s lane out err ctx wu = Some y"
  shows "lane = cmd \<longrightarrow> loop_wrote b s (wire (fst wu)) (fst y) (wire (fst (snd y)))"
proof (rule receiveLoop.raw_induct [where P = "\<lambda>b s lane out err ctx wu y.
    lane = cmd \<longrightarrow> loop_wrote b s (wire (fst wu)) (fst y) (wire (fst (snd y)))", OF _ assms])
  fix f :: "builders \<Rightarrow> session \<Rightarrow> 'w post \<Rightarrow> 'a writer \<Rightarrow> 'a writer \<Rightarrow> 'w ctx \<Rightarrow> 'w \<times> 'a \<Rightarrow> _"
  fix b s lane out err ctx wu y
  assume IH: "\<And>b s lane out err ctx wu y. f b s lane out err ctx wu = Some y \<Longrightarrow>
      lane = cmd \<longrightarrow> loop_wrote b s (wire (fst wu)) (fst y) (wire (fst (snd y)))"
    and body: "(let r = receive_poll b s lane out err ctx wu in
      if fst r = None then f b s lane out err ctx (snd r) else Some (the (fst r), snd r)) = Some y"
  show "lane = cmd \<longrightarrow> loop_wrote b s (wire (fst wu)) (fst y) (wire (fst (snd y)))"
  proof
    assume lane: "lane = cmd"
    obtain w u r w' u' where p: "wu = (w, u)" "receive_poll b s cmd out err ctx (w, u) = (r, w', u')"
      by (metis surj_pair)
    from p(2) obtain m where m: "wire w' = wire w @ m"
      "opt_msg (output_request b (endpoint s) (shellID s) (commandID s)) m"
      "r = None \<Longrightarrow> m \<noteq> []" "\<And>rc. r = Some (Inr rc) \<Longrightarrow> m \<noteq> [] \<and> rc < 2 ^ 32"
      by (rule polled) blast
    show "loop_wrote b s (wire (fst wu)) (fst y) (wire (fst (snd y)))"
    proof (cases r)
      case None
      with m body p lane IH [of b s cmd out err ctx "(w', u')" y]
      have "loop_wrote b s (wire w @ m) (fst y) (wire (fst (snd y)))" "m = [output_request b (endpoint s) (shellID s) (commandID s)]"
        by (auto simp: opt_msg_def)
      with p show ?thesis by (auto dest: loop_wrote_more)
    next
      case (Some x)
      with m body p lane show ?thesis
        by (cases x) (force simp: loop_wrote_def opt_msg_def intro: exI [of _ 0] exI [of _ "Suc 0"])+
    qed
  qed
qed

lemmas loop_sent = loop_sent_lane [of _ _ cmd, rule_format, OF _ refl]

text \<open>Every poll that goes on adds a message, so a loop whose context ends no later than its \<open>N\<close>-th
  message returns.\<close>

lemma loop_returns:
  assumes "\<And>w. N \<le> length (wire w) \<Longrightarrow> ctx w \<noteq> None"
  shows "\<exists>y. receiveLoop b s cmd out err ctx wu = Some y"
proof (induction "N - length (wire (fst wu))" arbitrary: wu rule: less_induct)
  case less
  obtain w u r w' u' where p: "wu = (w, u)" "receive_poll b s cmd out err ctx (w, u) = (r, w', u')"
    by (metis surj_pair)
  show ?case
  proof (cases r)
    case None
    obtain m where "wire w' = wire w @ m" "0 < length m" by (rule polled [OF p(2)]) (use None in auto)
    moreover have "ctx w = None" using p(2) None by (auto simp: receive_poll_def split: option.splits)
    with assms have "length (wire w) < N" by (meson leI)
    ultimately have "N - length (wire w') < N - length (wire w)" by (cases m) auto
    then have "\<exists>y. receiveLoop b s cmd out err ctx (w', u') = Some y"
      by (intro less.hyps) (auto simp: p)
    with p None show ?thesis by (subst receiveLoop.simps) simp
  next
    case (Some x)
    with p show ?thesis by (subst receiveLoop.simps) simp
  qed
qed

text \<open>Signal and Delete: at most one each, and what the error says of the Delete.\<close>

lemma signaled:
  assumes "poster primary wire" and "close_signal b s primary signal ctx w = (failed, w')"
  obtains g where "wire w' = wire w @ g" and "opt_msg (signal_request b (endpoint s) (shellID s) (commandID s)) g"
    and "\<not> signal \<Longrightarrow> g = []" and "signal \<and> commandID s \<noteq> [] \<and> \<not> failed \<Longrightarrow> g \<noteq> []"
proof (cases "signal \<and> commandID s \<noteq> []")
  case False
  with assms that [of "[]"] show ?thesis by (auto simp: close_signal_def)
next
  case True
  let ?m = "signal_request b (endpoint s) (shellID s) (commandID s)"
  obtain r1 w1 where p: "primary ctx ?m w = (r1, w1)" by (metis surj_pair)
  note o = poster.post_once [OF assms(1) p]
  have "w' = w1" "\<not> failed \<Longrightarrow> \<exists>x. r1 = Inr x"
    using assms(2) True p by (auto simp: close_signal_def split: sum.splits)
  with o have "wire w' = wire w \<and> failed \<or> wire w' = wire w @ [?m]" by (auto simp: once_def)
  with True that [of "[]"] that [of "[?m]"] show ?thesis by auto
qed

lemma deleted:
  assumes "poster first wire" and "close_delete b s first cln fb ctx w = (ok, w')"
  obtains d where "wire w' = wire w @ d" and "opt_msg (delete_request b (endpoint s) (shellID s)) d"
    and "ok \<Longrightarrow> d \<noteq> []"
proof -
  let ?m = "delete_request b (endpoint s) (shellID s)"
  obtain r1 w1 where p: "post_alternatives ([Some cln] @ [fb]) ctx ?m (first ctx ?m w) = (r1, w1)"
    by (metis surj_pair)
  note o = delete_alternatives [OF assms(1) p]
  from assms(2) p have "w' = w1" "ok \<Longrightarrow> \<exists>x. r1 = Inr x"
    by (auto simp: close_delete_def Let_def split: sum.splits if_splits)
  with o have "wire w' = wire w \<and> \<not> ok \<or> wire w' = wire w @ [?m]" by (auto simp: once_def)
  with that [of "[]"] that [of "[?m]"] show ?thesis by auto
qed

text \<open>A closing error that does not leave the remote state unknown, or none, comes with a Delete.\<close>

lemma closed:
  assumes "poster primary wire"
    and "closeWith b s primary cln fb signal ctx joined False w = (r, w')"
  obtains g d where "wire w' = wire w @ g @ d"
    and "opt_msg (signal_request b (endpoint s) (shellID s) (commandID s)) g"
    and "opt_msg (delete_request b (endpoint s) (shellID s)) d"
    and "\<not> signal \<Longrightarrow> g = []"
    and "\<And>e. r = Some e \<Longrightarrow> \<not> errors_is e ErrRemoteStateUnknown \<Longrightarrow> d \<noteq> []"
    and "r = None \<Longrightarrow> d \<noteq> [] \<and> (signal \<and> commandID s \<noteq> [] \<longrightarrow> g \<noteq> [])"
proof -
  obtain f w1 where S: "close_signal b s primary signal ctx w = (f, w1)" by (metis surj_pair)
  let ?first = "if f then cln else primary"
  obtain ok w2 where D: "close_delete b s ?first cln fb ctx w1 = (ok, w2)" by (metis surj_pair)
  have "poster ?first wire" using assms(1) cleanup.poster_axioms by simp
  from deleted [OF this D] obtain d where d: "wire w2 = wire w1 @ d"
    "opt_msg (delete_request b (endpoint s) (shellID s)) d" "ok \<Longrightarrow> d \<noteq> []" by metis
  from signaled [OF assms(1) S] obtain g where g: "wire w1 = wire w @ g"
    "opt_msg (signal_request b (endpoint s) (shellID s) (commandID s)) g" "\<not> signal \<Longrightarrow> g = []"
    "signal \<and> commandID s \<noteq> [] \<and> \<not> f \<Longrightarrow> g \<noteq> []" by metis
  have "w' = w2" and "r = None \<Longrightarrow> ok \<and> \<not> f"
    and "\<And>e. r = Some e \<Longrightarrow> \<not> errors_is e ErrRemoteStateUnknown \<Longrightarrow> ok"
    using assms(2) S D by (auto simp: closeWith_def split: option.splits if_splits)
  with d g that [of g d] show ?thesis by auto
qed

lemma run_closed:
  assumes "run_close b s cmd cln fb ctx budget joined runErr w = (r, w')"
  obtains g d where "wire w' = wire w @ g @ d"
    and "opt_msg (signal_request b (endpoint s) (shellID s) (commandID s)) g"
    and "opt_msg (delete_request b (endpoint s) (shellID s)) d"
    and "\<not> unknown_shell r \<Longrightarrow> d \<noteq> []"
proof -
  let ?int = "runErr \<noteq> None \<or> ctx w \<noteq> None"
  have P: "poster (if ?int then cln else cmd) wire"
    using command.poster_axioms cleanup.poster_axioms by simp
  have "closeWith b s (if ?int then cln else cmd) cln fb ?int budget joined False w = (r, w')"
    using assms by (auto simp: run_close_def)
  from closed [OF P this] show ?thesis
    using that by (metis unknown_shell_def option.case_eq_if option.collapse)
qed

lemma session_ran:
  assumes "run_session b s cmd cln fb par out err w u = Some ((code, runErr, cleanupErr), w', u')"
  obtains m n g d where "wire w' = wire w @ m @ replicate n (output_request b (endpoint s) (shellID s) (commandID s)) @ g @ d"
    and "opt_msg (send_request b (endpoint s) (shellID s) (commandID s) [] True) m"
    and "opt_msg (signal_request b (endpoint s) (shellID s) (commandID s)) g"
    and "opt_msg (delete_request b (endpoint s) (shellID s)) d"
    and "\<not> unknown_shell cleanupErr \<Longrightarrow> d \<noteq> []"
    and "0 < n \<Longrightarrow> m \<noteq> []" and "runErr = None \<Longrightarrow> m \<noteq> [] \<and> 0 < n \<and> code < 2 ^ 32"
proof -
  let ?out = "output_request b (endpoint s) (shellID s) (commandID s)"
  obtain e1 w1 where S: "session_send b s cmd False (run_ctx par) [] True w = (e1, w1)" by (metis surj_pair)
  from sent_once [OF S] obtain m where m: "wire w1 = wire w @ m"
    "opt_msg (send_request b (endpoint s) (shellID s) (commandID s) [] True) m" "e1 = None \<Longrightarrow> m \<noteq> []" by metis
  have "\<exists>n w2. wire w2 = wire w1 @ replicate n ?out \<and> (0 < n \<longrightarrow> e1 = None) \<and>
      (runErr = None \<longrightarrow> e1 = None \<and> 0 < n \<and> code < 2 ^ 32) \<and>
      run_close b s cmd cln fb (run_ctx par) (run_budget par) (run_joined par) runErr w2 = (cleanupErr, w')"
  proof (cases e1)
    case (Some e)
    with S assms show ?thesis
      by (intro exI [of _ 0] exI [of _ w1]) (auto simp: run_session_def Let_def split: prod.splits)
  next
    case None
    with S assms obtain r w2 u2 where R: "session_receive b s cmd out err (run_ctx par) (run_early par) (w1, u) = Some (r, w2, u2)"
      and c: "run_close b s cmd cln fb (run_ctx par) (run_budget par) (run_joined par) runErr w2 = (cleanupErr, w')"
      and r: "runErr = None \<longrightarrow> r = Inr code"
      by (auto simp: run_session_def Let_def split: prod.splits option.splits sum.splits)
    from R obtain r' u2' where L: "receiveLoop b s cmd out err (run_ctx par) (w1, u) = Some (r', w2, u2')"
      and r': "r = Inr code \<longrightarrow> r' = Inr code"
      by (auto simp: session_receive_def split: option.splits prod.splits)
    from loop_sent [OF L] obtain n where "wire w2 = wire w1 @ replicate n ?out"
      "\<forall>rc. r' = Inr rc \<longrightarrow> 0 < n \<and> rc < 2 ^ 32" by (auto simp: loop_wrote_def)
    with None c r r' show ?thesis by (intro exI [of _ n] exI [of _ w2]) auto
  qed
  then obtain n w2 where n: "wire w2 = wire w1 @ replicate n ?out" "0 < n \<longrightarrow> e1 = None"
    "runErr = None \<longrightarrow> e1 = None \<and> 0 < n \<and> code < 2 ^ 32"
    and c: "run_close b s cmd cln fb (run_ctx par) (run_budget par) (run_joined par) runErr w2 = (cleanupErr, w')"
    by blast
  from run_closed [OF c] obtain g d where "wire w' = wire w2 @ g @ d"
    "opt_msg (signal_request b (endpoint s) (shellID s) (commandID s)) g"
    "opt_msg (delete_request b (endpoint s) (shellID s)) d"
    "\<not> unknown_shell cleanupErr \<Longrightarrow> d \<noteq> []" by metis
  with m n that [of m n g d] show ?thesis by auto
qed

text \<open>Any run, whatever the transports answer: a well-formed transcript, and a shell that is deleted
  unless an error says its state is unknown.\<close>

lemma ran:
  assumes "runWithPosters b req (Some cmd) (Some cln) fb par out err w u = Some (r, w', u')"
  shows "\<exists>shell cid t. transcript_ok b req shell cid t \<and> outcome_ok t r \<and>
    wire w' = wire w @ transcript_msgs b req shell cid t"
proof -
  obtain rs w1 where S: "startSessionLanes b req cmd cln fb (run_ctx par) (run_budget par) w = (rs, w1)"
    by (metis surj_pair)
  obtain shell c x d where o: "wire w1 = wire w @ c @ x @ d"
    "opt_msg (create_body b req) c" "opt_msg (command_body b req shell) x"
    "opt_msg (delete_request b (req_endpoint req) shell) d" "x @ d \<noteq> [] \<longrightarrow> c \<noteq> [] \<and> validID shell"
    and e: "\<And>e. rs = Inl e \<Longrightarrow> (errors_is e ErrNotStarted \<longrightarrow> c = []) \<and>
       (\<not> errors_is e ErrRemoteStateUnknown \<longrightarrow> c = [] \<or> d \<noteq> [])"
    and s: "\<And>s. rs = Inr s \<Longrightarrow> x \<noteq> [] \<and> d = [] \<and> endpoint s = req_endpoint req \<and> shellID s = shell \<and>
       validID (commandID s)" by (rule opened [OF S]) blast
  show ?thesis
  proof (cases rs)
    case (Inl err)
    with S assms have r: "r = (0, Some err, None)" "w' = w1" by (auto simp: runWithPosters_def)
    let ?t = "\<lparr>t_create = c, t_command = x, t_send = [], t_polls = 0, t_signal = [], t_delete = d\<rparr>"
    have "transcript_ok b req shell [] ?t" using o by (simp add: transcript_ok_def)
    moreover have "outcome_ok ?t r" using e [OF Inl] r by (simp add: outcome_ok_def unknown_shell_def)
    moreover have "wire w' = wire w @ transcript_msgs b req shell [] ?t"
      using o r by (simp add: transcript_msgs_def)
    ultimately show ?thesis by blast
  next
    case (Inr s')
    obtain code runErr cleanupErr where r: "r = (code, runErr, cleanupErr)" by (cases r)
    with Inr S assms have "run_session b s' cmd cln fb par out err w1 u = Some ((code, runErr, cleanupErr), w', u')"
      by (auto simp: runWithPosters_def)
    from session_ran [OF this] s [OF Inr] obtain m n g d' where
      n: "wire w' = wire w1 @ m @ replicate n (output_request b (req_endpoint req) shell (commandID s')) @ g @ d'"
      "opt_msg (send_request b (req_endpoint req) shell (commandID s') [] True) m"
      "opt_msg (signal_request b (req_endpoint req) shell (commandID s')) g"
      "opt_msg (delete_request b (req_endpoint req) shell) d'"
      "\<not> unknown_shell cleanupErr \<Longrightarrow> d' \<noteq> []" "0 < n \<Longrightarrow> m \<noteq> []"
      "runErr = None \<Longrightarrow> m \<noteq> [] \<and> 0 < n \<and> code < 2 ^ 32" by metis
    let ?t = "\<lparr>t_create = c, t_command = x, t_send = m, t_polls = n, t_signal = g, t_delete = d'\<rparr>"
    have "transcript_ok b req shell (commandID s') ?t" using o n s [OF Inr] by (simp add: transcript_ok_def)
    moreover have "outcome_ok ?t r" using n r by (simp add: outcome_ok_def)
    moreover have "wire w' = wire w @ transcript_msgs b req shell (commandID s') ?t"
      using o n s [OF Inr] by (simp add: transcript_msgs_def)
    ultimately show ?thesis by blast
  qed
qed

lemma start_terms:
  assumes "startSessionLanes b req cmd cln fb ctx budget w = (Inl e, w')"
  shows "(errors_is e ErrNotStarted \<longrightarrow> wire w' = wire w) \<and>
    (\<not> errors_is e ErrRemoteStateUnknown \<longrightarrow> wire w' = wire w \<or>
       (\<exists>shell. validID shell \<and> last (wire w') = delete_request b (req_endpoint req) shell))"
proof -
  from opened [OF assms] obtain shell c x d where o: "wire w' = wire w @ c @ x @ d"
    "opt_msg (delete_request b (req_endpoint req) shell) d" "x @ d \<noteq> [] \<longrightarrow> c \<noteq> [] \<and> validID shell"
    and e: "(errors_is e ErrNotStarted \<longrightarrow> c = []) \<and>
       (\<not> errors_is e ErrRemoteStateUnknown \<longrightarrow> c = [] \<or> d \<noteq> [])" by metis
  then show ?thesis by (auto simp: opt_msg_def)
qed

text \<open>A run returns when its context does not outlast \<open>N\<close> messages.\<close>

lemma run_returns:
  assumes "\<And>w. N \<le> length (wire w) \<Longrightarrow> run_ctx par w \<noteq> None"
  shows "\<exists>y. runWithPosters b req (Some cmd) (Some cln) fb par out err w u = Some y"
proof -
  have "\<exists>y. run_session b s cmd cln fb par out err w1 u = Some y" for s w1
  proof -
    obtain e w2 where "session_send b s cmd False (run_ctx par) [] True w1 = (e, w2)" by (metis surj_pair)
    moreover obtain y where "receiveLoop b s cmd out err (run_ctx par) (w2, u) = Some y"
      using loop_returns [of N "run_ctx par", OF assms] by blast
    ultimately show ?thesis
      by (auto simp: run_session_def Let_def session_receive_def split: option.splits prod.splits sum.splits)
  qed
  then show ?thesis by (auto simp: runWithPosters_def split: sum.splits prod.splits)
qed

end

end
