(* ===== verification/Replies.thy ===== *)
theory Replies
  imports Session
begin

text \<open>
  Conversations with their replies.  The transcripts of the theory \<open>Session\<close> say what was written; here a stretch
  of a run is a list of exchanges, each a message and what the transport returned for it, held one after the
  other from the world before to the world after.  What a reply means is stated on its decoded form alone:
  its action, its identifiers, the streams and the state of a Receive.  The lemmas carry the exchanges through the
  operations of \<open>internal/remote/session.go\<close>, \<open>runner.go\<close> and \<open>control_runner.go\<close>; they need no law of the transports.
\<close>

subsection \<open>Exchanges\<close>

type_synonym exchange = "bytes \<times> (goerr + bytes)"

inductive held :: "'w post set \<Rightarrow> 'w \<Rightarrow> exchange list \<Rightarrow> 'w \<Rightarrow> bool" for posts where
  silent: "held posts w [] w"
| posted: "post \<in> posts \<Longrightarrow> post ctx m w = (r, w1) \<Longrightarrow> held posts w1 xs w' \<Longrightarrow> held posts w ((m, r) # xs) w'"

inductive_simps held_Nil [simp]: "held posts w [] w'"

lemma held_one: "post \<in> posts \<Longrightarrow> post ctx m w = (r, w') \<Longrightarrow> held posts w [(m, r)] w'"
  by (rule held.posted [OF _ _ held.silent])

lemma held_append: "held posts w xs w1 \<Longrightarrow> held posts w1 ys w' \<Longrightarrow> held posts w (xs @ ys) w'"
  by (induction rule: held.induct) (auto intro: held.posted)

lemma held_snoc: "held posts w xs w1 \<Longrightarrow> post \<in> posts \<Longrightarrow> post ctx m w1 = (r, w') \<Longrightarrow> held posts w (xs @ [(m, r)]) w'"
  by (rule held_append [OF _ held_one])

lemma held_mono: "held posts w xs w' \<Longrightarrow> posts \<subseteq> others \<Longrightarrow> held others w xs w'"
  by (induction rule: held.induct) (auto intro: held.intros)

subsection \<open>What a reply says\<close>

text \<open>A reply that decodes, has no fault and carries this action.\<close>

definition answered_by :: "builders \<Rightarrow> bytes \<Rightarrow> goerr + bytes \<Rightarrow> response \<Rightarrow> bool" where
  "answered_by b a r resp \<longleftrightarrow> (\<exists>reply. r = Inr reply \<and> decode b reply = Some resp \<and> fault resp = None \<and> action resp = a)"

lemma answered_byI: "parseResponse (decode b) reply = Inr resp \<Longrightarrow> action resp = a \<Longrightarrow> answered_by b a (Inr reply) resp"
  using parseResponse_ok [of "decode b" reply resp] by (simp add: answered_by_def)

text \<open>A message that is handed on to the next lane as long as it is proven unsent.\<close>

definition handed_on :: "bytes \<Rightarrow> exchange list \<Rightarrow> goerr + bytes \<Rightarrow> bool" where
  "handed_on m xs r \<longleftrightarrow> (\<exists>us. xs = us @ [(m, r)] \<and> (\<forall>u \<in> set us. \<exists>e. u = (m, Inl e) \<and> errors_is e ErrUnsent))"

text \<open>A Delete that the server has confirmed.\<close>

definition deleted_by :: "builders \<Rightarrow> bytes \<Rightarrow> exchange list \<Rightarrow> bool" where
  "deleted_by b m xs \<longleftrightarrow> (\<exists>r resp. handed_on m xs r \<and> answered_by b (wsTransfer @ ''DeleteResponse'') r resp)"

text \<open>A poll that goes on: an operation timeout, or output of a command that is not done.\<close>

definition poll_again :: "builders \<Rightarrow> goerr + bytes \<Rightarrow> (bytes \<times> bytes) list \<Rightarrow> bool" where
  "poll_again b r ss \<longleftrightarrow>
     (ss = [] \<and> ((\<exists>e. r = Inl e \<and> errors_is e ErrOperationTimeout) \<or>
        (\<exists>reply resp. r = Inr reply \<and> decode b reply = Some resp \<and> fault resp = Some ''2150858793''))) \<or>
     (\<exists>resp rb. answered_by b (wsShell @ ''ReceiveResponse'') r resp \<and> received resp = Some rb \<and> ss = streams rb \<and>
        state_value rb \<noteq> wsShell @ ''CommandState/Done'')"

text \<open>The reply that ends the polling, with the exit code it carries.\<close>

definition poll_done :: "builders \<Rightarrow> goerr + bytes \<Rightarrow> (bytes \<times> bytes) list \<Rightarrow> nat \<Rightarrow> bool" where
  "poll_done b r ss rc \<longleftrightarrow>
     (\<exists>resp rb. answered_by b (wsShell @ ''ReceiveResponse'') r resp \<and> received resp = Some rb \<and> ss = streams rb \<and>
        state_value rb = wsShell @ ''CommandState/Done'' \<and> parse_uint32 (trim_space (state_exit rb)) = Some rc)"

text \<open>Polls with the message \<open>m\<close> up to the reply that reports the command done; \<open>ss\<close> are the streams of all replies.\<close>

inductive polled_to_end :: "builders \<Rightarrow> bytes \<Rightarrow> exchange list \<Rightarrow> (bytes \<times> bytes) list \<Rightarrow> nat \<Rightarrow> bool" for b m where
  last_poll: "poll_done b r ss rc \<Longrightarrow> polled_to_end b m [(m, r)] ss rc"
| one_more: "poll_again b r ss1 \<Longrightarrow> polled_to_end b m xs ss2 rc \<Longrightarrow> polled_to_end b m ((m, r) # xs) (ss1 @ ss2) rc"

text \<open>The decoded bytes of one of the streams.\<close>

definition stream_bytes :: "bytes \<Rightarrow> (bytes \<times> bytes) list \<Rightarrow> bytes" where
  "stream_bytes nam ss = concat (map (\<lambda>(n, enc). the (b64_decode False enc)) (filter (\<lambda>(n, enc). n = nam) ss))"

lemma stream_bytes_simps [simp]:
  "stream_bytes nam [] = []"
  "stream_bytes nam ((n, enc) # ss) = (if n = nam then the (b64_decode False enc) @ stream_bytes nam ss else stream_bytes nam ss)"
  by (simp_all add: stream_bytes_def)

lemma stream_bytes_append [simp]: "stream_bytes nam (ss @ ts) = stream_bytes nam ss @ stream_bytes nam ts"
  by (simp add: stream_bytes_def)

lemma write_streams_append:
  "write_streams out err ss u = (None, u1) \<Longrightarrow> write_streams out err ts u1 = (None, u2) \<Longrightarrow>
   write_streams out err (ss @ ts) u = (None, u2)"
proof (induction ss arbitrary: u)
  case (Cons s ss)
  obtain nam enc where s: "s = (nam, enc)" by fastforce
  from Cons.prems(1) obtain data n u' where d: "b64_decode False enc = Some data" "\<not> (nam \<noteq> ''stdout'' \<and> nam \<noteq> ''stderr'')"
    "(if nam = ''stdout'' then out else err) data u = (n, None, u')" "n = length data" "write_streams out err ss u' = (None, u1)"
    by (simp add: s split: option.splits if_splits prod.splits)
  from Cons.IH [OF d(5) Cons.prems(2)] d(1-4) show ?case by (simp add: s)
qed simp

subsection \<open>The end of a shell\<close>

lemma alternatives_held:
  "\<forall>post. Some post \<in> set ps \<longrightarrow> post \<in> posts \<Longrightarrow> post_alternatives ps ctx m (r, w) = (r', w') \<Longrightarrow>
   held posts w0 xs w \<Longrightarrow> handed_on m xs r \<Longrightarrow> \<exists>ys. held posts w0 ys w' \<and> handed_on m ys r'"
proof (induction ps arbitrary: r w xs)
  case (Cons p ps)
  show ?case
  proof (cases "\<exists>e post. r = Inl e \<and> errors_is e ErrUnsent \<and> p = Some post")
    case False
    with Cons.prems(2) have "post_alternatives ps ctx m (r, w) = (r', w') \<or> (r', w') = (r, w)"
      by (auto split: sum.splits option.splits if_splits)
    with Cons.IH [OF _ _ Cons.prems(3,4)] Cons.prems(1,3,4) show ?thesis by auto
  next
    case True
    then obtain e post where e: "r = Inl e" "errors_is e ErrUnsent" "p = Some post" by blast
    obtain r1 w1 where q: "post ctx m w = (r1, w1)" by (metis surj_pair)
    have "post \<in> posts" using Cons.prems(1) e(3) by simp
    from held_snoc [OF Cons.prems(3) this q] have "held posts w0 (xs @ [(m, r1)]) w1" .
    moreover have "handed_on m (xs @ [(m, r1)]) r1"
    proof -
      from Cons.prems(4) obtain us where "xs = us @ [(m, r)]" "\<forall>u \<in> set us. \<exists>e. u = (m, Inl e) \<and> errors_is e ErrUnsent"
        unfolding handed_on_def by blast
      with e(1,2) show ?thesis unfolding handed_on_def by (intro exI [of _ xs]) simp
    qed
    ultimately show ?thesis using Cons.IH [of r1 w1 "xs @ [(m, r1)]"] Cons.prems(1,2) e q by auto
  qed
qed auto

lemma handed_on_fst: "handed_on m xs r \<Longrightarrow> x \<in> set xs \<Longrightarrow> fst x = m"
  by (fastforce simp: handed_on_def)

lemma delete_held:
  assumes "first \<in> posts" "\<forall>post. Some post \<in> set ps \<longrightarrow> post \<in> posts"
    and "post_alternatives ps ctx m (first ctx m w) = (r, w')"
  shows "\<exists>xs. held posts w xs w' \<and> handed_on m xs r"
proof -
  obtain r0 w0 where f: "first ctx m w = (r0, w0)" by (metis surj_pair)
  have "handed_on m [(m, r0)] r0" by (simp add: handed_on_def)
  from alternatives_held [OF assms(2) assms(3) [unfolded f] held_one [OF assms(1) f] this] show ?thesis .
qed

lemma best_effort_held:
  assumes "cleanup \<in> posts" "set_option fallback \<subseteq> posts" "shell \<noteq> []"
    and "deleteShellBestEffort b ep shell cleanup fallback budget w = (r, w')"
  shows "\<exists>xs. held posts w xs w' \<and> (r = None \<longrightarrow> deleted_by b (delete_request b ep shell) xs)"
proof -
  let ?m = "delete_request b ep shell"
  obtain r1 w1 where p: "post_alternatives [fallback] budget ?m (cleanup budget ?m w) = (r1, w1)" by (metis surj_pair)
  have fb: "\<forall>post. Some post \<in> set [fallback] \<longrightarrow> post \<in> posts" using assms(2) by (cases fallback) auto
  from delete_held [OF assms(1) fb p] obtain xs where xs: "held posts w xs w1" "handed_on ?m xs r1" by blast
  have w: "w' = w1" using assms(3,4) p
    by (auto simp: deleteShellBestEffort_def Let_def split: sum.splits if_splits)
  have "deleted_by b ?m xs" if "r = None"
  proof -
    from assms(3,4) p that obtain reply resp where "r1 = Inr reply" "parseResponse (decode b) reply = Inr resp"
      "action resp = wsTransfer @ ''DeleteResponse''"
      by (auto simp: deleteShellBestEffort_def Let_def split: sum.splits if_splits)
    with xs(2) show ?thesis unfolding deleted_by_def by (blast intro: answered_byI)
  qed
  with xs(1) w show ?thesis by blast
qed

lemma close_delete_held:
  assumes "first \<in> posts" "fallback \<in> posts" "set_option s_fallback \<subseteq> posts"
    and "close_delete b s first fallback s_fallback ctx w = (ok, w')"
  shows "\<exists>xs. held posts w xs w' \<and> (ok \<longrightarrow> deleted_by b (delete_request b (endpoint s) (shellID s)) xs)"
proof -
  let ?m = "delete_request b (endpoint s) (shellID s)"
  obtain r1 w1 where p: "post_alternatives [Some fallback, s_fallback] ctx ?m (first ctx ?m w) = (r1, w1)" by (metis surj_pair)
  have fb: "\<forall>post. Some post \<in> set [Some fallback, s_fallback] \<longrightarrow> post \<in> posts" using assms(2,3) by (cases s_fallback) auto
  from delete_held [OF assms(1) fb p] obtain xs where xs: "held posts w xs w1" "handed_on ?m xs r1" by blast
  have w: "w' = w1" using assms(4) p by (auto simp: close_delete_def Let_def split: sum.splits)
  have "deleted_by b ?m xs" if "ok"
  proof -
    from assms(4) p that obtain reply resp where "r1 = Inr reply" "parseResponse (decode b) reply = Inr resp"
      "action resp = wsTransfer @ ''DeleteResponse''"
      by (auto simp: close_delete_def Let_def split: sum.splits)
    with xs(2) show ?thesis unfolding deleted_by_def by (blast intro: answered_byI)
  qed
  with xs(1) w show ?thesis by blast
qed

definition signaled_by :: "builders \<Rightarrow> bytes \<Rightarrow> exchange list \<Rightarrow> bool" where
  "signaled_by b m xs \<longleftrightarrow> (\<exists>r resp. xs = [(m, r)] \<and> answered_by b (wsShell @ ''SignalResponse'') r resp)"

lemma close_signal_held:
  assumes "primary \<in> posts" "close_signal b s primary signal ctx w = (failed, w')"
  shows "\<exists>xs. held posts w xs w' \<and>
    (\<not> failed \<longrightarrow> (if signal \<and> commandID s \<noteq> []
       then signaled_by b (signal_request b (endpoint s) (shellID s) (commandID s)) xs else xs = []))"
proof (cases "signal \<and> commandID s \<noteq> []")
  case False
  with assms(2) have "w' = w" by (auto simp: close_signal_def)
  with False show ?thesis by (intro exI [of _ "[]"]) auto
next
  case True
  let ?m = "signal_request b (endpoint s) (shellID s) (commandID s)"
  obtain r w1 where p: "primary ctx ?m w = (r, w1)" by (metis surj_pair)
  have w: "w' = w1" using assms(2) True p by (auto simp: close_signal_def split: sum.splits)
  have "signaled_by b ?m [(?m, r)]" if "\<not> failed"
  proof -
    from assms(2) True p that obtain reply resp where "r = Inr reply" "parseResponse (decode b) reply = Inr resp"
      "action resp = wsShell @ ''SignalResponse''" by (auto simp: close_signal_def split: sum.splits)
    then show ?thesis unfolding signaled_by_def by (blast intro: answered_byI)
  qed
  with True w held_one [OF assms(1) p] show ?thesis by auto
qed

text \<open>A closed shell: no error says that its state is unknown, so the Delete was confirmed; without an error a
  Signal that was asked for was confirmed too.\<close>

lemma close_held:
  assumes "primary \<in> posts" "fallback \<in> posts" "set_option s_fallback \<subseteq> posts"
    and "closeWith b s primary fallback s_fallback signal ctx joined False w = (r, w')"
  shows "\<exists>xs ys. held posts w (xs @ ys) w' \<and>
    (\<not> unknown_shell r \<longrightarrow> deleted_by b (delete_request b (endpoint s) (shellID s)) ys) \<and>
    (r = None \<longrightarrow> (if signal \<and> commandID s \<noteq> []
       then signaled_by b (signal_request b (endpoint s) (shellID s) (commandID s)) xs else xs = []))"
proof -
  obtain f w1 where S: "close_signal b s primary signal ctx w = (f, w1)" by (metis surj_pair)
  let ?first = "if f then fallback else primary"
  obtain ok w2 where D: "close_delete b s ?first fallback s_fallback ctx w1 = (ok, w2)" by (metis surj_pair)
  have "?first \<in> posts" using assms(1,2) by simp
  from close_delete_held [OF this assms(2,3) D] obtain ys where
    y: "held posts w1 ys w2" "ok \<longrightarrow> deleted_by b (delete_request b (endpoint s) (shellID s)) ys" by blast
  from close_signal_held [OF assms(1) S] obtain xs where x: "held posts w xs w1"
    "\<not> f \<longrightarrow> (if signal \<and> commandID s \<noteq> []
       then signaled_by b (signal_request b (endpoint s) (shellID s) (commandID s)) xs else xs = [])" by blast
  have "w' = w2" and "r = None \<Longrightarrow> \<not> f" and "\<not> unknown_shell r \<Longrightarrow> ok"
    using assms(4) S D by (auto simp: closeWith_def unknown_shell_def split: option.splits if_splits)
  with x y held_append [OF x(1) y(1)] show ?thesis by blast
qed

lemma run_close_held:
  assumes "command \<in> posts" "cleanup \<in> posts" "set_option fallback \<subseteq> posts"
    and "run_close b s command cleanup fallback ctx budget joined runErr w = (r, w')"
  shows "\<exists>xs ys. held posts w (xs @ ys) w' \<and>
    (\<not> unknown_shell r \<longrightarrow> deleted_by b (delete_request b (endpoint s) (shellID s)) ys) \<and>
    (r = None \<longrightarrow> xs = [] \<or> signaled_by b (signal_request b (endpoint s) (shellID s) (commandID s)) xs)"
proof -
  let ?int = "runErr \<noteq> None \<or> ctx w \<noteq> None"
  have c: "closeWith b s (if ?int then cleanup else command) cleanup fallback ?int budget joined False w = (r, w')"
    using assms(4) by (auto simp: run_close_def)
  have "(if ?int then cleanup else command) \<in> posts" using assms(1,2) by simp
  from close_held [OF this assms(2,3) c] show ?thesis by meson
qed

subsection \<open>The start of a command\<close>

text \<open>No shell was asked for, or the Create is proven unsent.\<close>

definition not_created :: "builders \<Rightarrow> request \<Rightarrow> exchange list \<Rightarrow> bool" where
  "not_created b req xs \<longleftrightarrow> xs = [] \<or> (\<exists>e. xs = [(create_body b req, Inl e)] \<and> errors_is e ErrUnsent)"

text \<open>A shell that was created and whose Delete is confirmed.\<close>

definition created_and_deleted :: "builders \<Rightarrow> request \<Rightarrow> exchange list \<Rightarrow> bool" where
  "created_and_deleted b req xs \<longleftrightarrow> (\<exists>c resp mid ds. xs = (create_body b req, c) # mid @ ds \<and>
     answered_by b (wsTransfer @ ''CreateResponse'') c resp \<and> validID (shell_id resp) \<and>
     deleted_by b (delete_request b (req_endpoint req) (shell_id resp)) ds)"

text \<open>A shell with a started command.\<close>

definition command_started :: "builders \<Rightarrow> request \<Rightarrow> bytes \<Rightarrow> bytes \<Rightarrow> exchange list \<Rightarrow> bool" where
  "command_started b req shell cid xs \<longleftrightarrow> (\<exists>c x copened cstarted. xs = [(create_body b req, c), (command_body b req shell, x)] \<and>
     answered_by b (wsTransfer @ ''CreateResponse'') c copened \<and> shell_id copened = shell \<and> validID shell \<and>
     answered_by b (wsShell @ ''CommandResponse'') x cstarted \<and> command_id cstarted = cid \<and> validID cid)"

lemma abandon_held:
  assumes "cleanup \<in> posts" "set_option fallback \<subseteq> posts" "shell \<noteq> []"
    and "abandon_shell b ep shell cleanup fallback budget kept lost w = (r, w')" and "errors_is lost ErrRemoteStateUnknown"
  shows "\<exists>xs e. held posts w xs w' \<and> r = Inl e \<and>
    (errors_is e ErrRemoteStateUnknown \<or> deleted_by b (delete_request b ep shell) xs)"
proof -
  obtain r1 w1 where d: "deleteShellBestEffort b ep shell cleanup fallback budget w = (r1, w1)" by (metis surj_pair)
  from best_effort_held [OF assms(1-3) d] obtain xs where
    "held posts w xs w1" "r1 = None \<longrightarrow> deleted_by b (delete_request b ep shell) xs" by blast
  with assms(4,5) d show ?thesis by (auto simp: abandon_shell_def split: option.splits)
qed

lemma start_command_held:
  assumes P: "p \<in> posts" "cleanup \<in> posts" "set_option fallback \<subseteq> posts" and shell: "shell \<noteq> []"
    and c: "start_command b ep shell command p cleanup fallback ctx budget w = (r, w')"
  shows "\<exists>x xs. held posts w ((execute_request b ep shell command, x) # xs) w' \<and>
    (\<forall>e. r = Inl e \<longrightarrow> errors_is e ErrRemoteStateUnknown \<or> deleted_by b (delete_request b ep shell) xs) \<and>
    (\<forall>s. r = Inr s \<longrightarrow> xs = [] \<and> endpoint s = ep \<and> shellID s = shell \<and> validID (commandID s) \<and>
       (\<exists>resp. answered_by b (wsShell @ ''CommandResponse'') x resp \<and> command_id resp = commandID s))"
proof -
  let ?m = "execute_request b ep shell command"
  obtain x w1 where p: "p ctx ?m w = (x, w1)" by (metis surj_pair)
  have ab: ?thesis if a: "abandon_shell b ep shell cleanup fallback budget kept lost w1 = (r, w')"
    and l: "errors_is lost ErrRemoteStateUnknown" for kept lost
  proof -
    from abandon_held [OF P(2,3) shell a l] obtain xs e where "held posts w1 xs w'" "r = Inl e"
      "errors_is e ErrRemoteStateUnknown \<or> deleted_by b (delete_request b ep shell) xs" by blast
    with held.posted [OF P(1) p] show ?thesis by (intro exI [of _ x] exI [of _ xs]) auto
  qed
  show ?thesis
  proof (cases "\<exists>reply resp. x = Inr reply \<and> parseResponse (decode b) reply = Inr resp \<and>
      action resp = wsShell @ ''CommandResponse'' \<and> validID (command_id resp)")
    case True
    then obtain reply resp where r: "x = Inr reply" "parseResponse (decode b) reply = Inr resp"
      "action resp = wsShell @ ''CommandResponse''" "validID (command_id resp)" by blast
    with c p have "r = Inr \<lparr>endpoint = ep, shellID = shell, commandID = command_id resp\<rparr>" "w' = w1"
      by (auto simp: start_command_def)
    with r answered_byI [OF r(2,3)] held_one [OF P(1) p] show ?thesis by auto
  next
    case False
    from c p False obtain kept lost where "abandon_shell b ep shell cleanup fallback budget kept lost w1 = (r, w')"
      "errors_is lost ErrRemoteStateUnknown"
      unfolding start_command_def by (cases x) (auto split: sum.splits if_splits)
    then show ?thesis by (rule ab)
  qed
qed

lemma start_held:
  assumes P: "p \<in> posts" "cleanup \<in> posts" "set_option fallback \<subseteq> posts"
    and c: "startSessionLanes b req p cleanup fallback ctx budget w = (r, w')"
  shows "\<exists>xs. held posts w xs w' \<and>
    (\<forall>e. r = Inl e \<longrightarrow> errors_is e ErrRemoteStateUnknown \<or> not_created b req xs \<or> created_and_deleted b req xs) \<and>
    (\<forall>s. r = Inr s \<longrightarrow> endpoint s = req_endpoint req \<and> command_started b req (shellID s) (commandID s) xs)"
proof (cases "Command (encode_ps b) (req_command req) (req_powershell req)")
  case (Inl e)
  with c have "r = Inl e" "w' = w" by (auto simp: startSessionLanes_def)
  then show ?thesis by (intro exI [of _ "[]"]) (simp add: not_created_def)
next
  case cmd: (Inr command)
  show ?thesis
  proof (cases "open_message b req")
    case (Inl e)
    with c cmd have "r = Inl e" "w' = w" by (auto simp: startSessionLanes_def Let_def)
    then show ?thesis by (intro exI [of _ "[]"]) (simp add: not_created_def)
  next
    case body: (Inr body)
    obtain x w1 where p: "p ctx body w = (x, w1)" by (metis surj_pair)
    have cb: "create_body b req = body" using body by (simp add: create_body_def)
    note one = held_one [OF P(1) p]
    let ?a = "replace_all command cdata_end cdata_split" and ?ep = "req_endpoint req"
    show ?thesis
    proof (cases "\<exists>reply resp. x = Inr reply \<and> parseResponse (decode b) reply = Inr resp \<and>
        action resp = wsTransfer @ ''CreateResponse'' \<and> validID (shell_id resp)")
      case False
      with c cmd body p obtain e where "r = Inl e" "w' = w1"
        "errors_is e ErrRemoteStateUnknown \<or> (\<exists>e0. x = Inl e0 \<and> errors_is e0 ErrUnsent)"
        by (cases x) (auto simp: startSessionLanes_def Let_def split: sum.splits if_splits)
      with one cb show ?thesis by (intro exI [of _ "[(body, x)]"]) (auto simp: not_created_def)
    next
      case True
      then obtain reply resp where o: "x = Inr reply" "parseResponse (decode b) reply = Inr resp"
        "action resp = wsTransfer @ ''CreateResponse''" "validID (shell_id resp)" by blast
      have ans: "answered_by b (wsTransfer @ ''CreateResponse'') x resp" using answered_byI [OF o(2,3)] o(1) by simp
      have ne: "shell_id resp \<noteq> []" using o(4) by (simp add: validID_def)
      have "start_command b ?ep (shell_id resp) ?a p cleanup fallback ctx budget w1 = (r, w')"
        using c cmd body p o by (simp add: startSessionLanes_def Let_def)
      from start_command_held [OF P ne this] obtain y xs where
        h: "held posts w1 ((execute_request b ?ep (shell_id resp) ?a, y) # xs) w'"
        and e: "\<forall>e. r = Inl e \<longrightarrow> errors_is e ErrRemoteStateUnknown \<or> deleted_by b (delete_request b ?ep (shell_id resp)) xs"
        and s: "\<forall>s. r = Inr s \<longrightarrow> xs = [] \<and> endpoint s = ?ep \<and> shellID s = shell_id resp \<and> validID (commandID s) \<and>
          (\<exists>started. answered_by b (wsShell @ ''CommandResponse'') y started \<and> command_id started = commandID s)" by blast
      have x: "command_body b req (shell_id resp) = execute_request b ?ep (shell_id resp) ?a"
        using cmd by (simp add: command_body_def)
      let ?xs = "(body, x) # (execute_request b ?ep (shell_id resp) ?a, y) # xs"
      have "created_and_deleted b req ?xs" if "deleted_by b (delete_request b ?ep (shell_id resp)) xs"
        unfolding created_and_deleted_def cb
        by (intro exI [of _ x] exI [of _ resp] exI [of _ "[(execute_request b ?ep (shell_id resp) ?a, y)]"] exI [of _ xs])
           (simp add: ans o(4) that)
      moreover have "command_started b req (shellID s) (commandID s) ?xs" if "r = Inr s" for s
        using s that ans o(4) x cb unfolding command_started_def by auto
      ultimately show ?thesis
        using held.posted [OF P(1) p h] e s by (intro exI [of _ ?xs]) auto
    qed
  qed
qed

subsection \<open>Sending and polling\<close>

definition sent_by :: "builders \<Rightarrow> bytes \<Rightarrow> exchange list \<Rightarrow> bool" where
  "sent_by b m xs \<longleftrightarrow> (\<exists>r resp. xs = [(m, r)] \<and> answered_by b (wsShell @ ''SendResponse'') r resp)"

lemma send_held:
  assumes "lane \<in> posts" "session_send b s lane closed ctx data eof w = (r, w')"
  shows "\<exists>xs. held posts w xs w' \<and>
    (r = None \<longrightarrow> sent_by b (send_request b (endpoint s) (shellID s) (commandID s) data eof) xs)"
proof (cases closed)
  case True
  with assms(2) show ?thesis by (intro exI [of _ "[]"]) (auto simp: session_send_def)
next
  case False
  let ?m = "send_request b (endpoint s) (shellID s) (commandID s) data eof"
  obtain x w1 where p: "lane ctx ?m w = (x, w1)" by (metis surj_pair)
  have w: "w' = w1" using assms(2) False p by (auto simp: session_send_def split: sum.splits if_splits)
  have "sent_by b ?m [(?m, x)]" if "r = None"
  proof -
    from assms(2) False p that obtain reply resp where "x = Inr reply" "parseResponse (decode b) reply = Inr resp"
      "action resp = wsShell @ ''SendResponse''" by (auto simp: session_send_def split: sum.splits if_splits)
    then show ?thesis unfolding sent_by_def by (blast intro: answered_byI)
  qed
  with w held_one [OF assms(1) p] show ?thesis by blast
qed

lemma resp_receive_more:
  assumes "resp_receive out err resp u = (Inr None, u')"
  shows "\<exists>rb. received resp = Some rb \<and> action resp = wsShell @ ''ReceiveResponse'' \<and>
    write_streams out err (streams rb) u = (None, u') \<and> state_value rb \<noteq> done_state"
  using assms by (auto simp: resp_receive_def split: option.splits prod.splits if_splits)

lemma resp_receive_done:
  assumes "resp_receive out err resp u = (Inr (Some rc), u')"
  shows "\<exists>rb. received resp = Some rb \<and> action resp = wsShell @ ''ReceiveResponse'' \<and>
    write_streams out err (streams rb) u = (None, u') \<and> state_value rb = done_state \<and>
    parse_uint32 (trim_space (state_exit rb)) = Some rc"
  using assms by (auto simp: resp_receive_def split: option.splits prod.splits if_splits)

lemma timeout_reply:
  assumes "parseResponse (decode b) reply = Inl e" "errors_is e ErrOperationTimeout"
  shows "\<exists>resp. decode b reply = Some resp \<and> fault resp = Some ''2150858793''"
  using assms by (auto simp: parseResponse_def split: option.splits if_splits)

text \<open>One turn of the receive loop.\<close>

lemma poll_held:
  assumes "lane \<in> posts" "receive_poll b s lane out err ctx (w, u) = (r, w', u')"
  shows "\<exists>xs. held posts w xs w' \<and>
    (r = None \<longrightarrow> (\<exists>x ss. xs = [(output_request b (endpoint s) (shellID s) (commandID s), x)] \<and> poll_again b x ss \<and>
       write_streams out err ss u = (None, u'))) \<and>
    (\<forall>rc. r = Some (Inr rc) \<longrightarrow> (\<exists>x ss. xs = [(output_request b (endpoint s) (shellID s) (commandID s), x)] \<and>
       poll_done b x ss rc \<and> write_streams out err ss u = (None, u')))"
proof (cases "ctx w")
  case (Some c)
  with assms(2) show ?thesis by (intro exI [of _ "[]"]) (auto simp: receive_poll_def)
next
  case None
  let ?m = "output_request b (endpoint s) (shellID s) (commandID s)"
  obtain x w1 where p: "lane ctx ?m w = (x, w1)" by (metis surj_pair)
  note one = held_one [OF assms(1) p]
  have go: ?thesis if "w' = w1" "r = None \<Longrightarrow> \<exists>ss. poll_again b x ss \<and> write_streams out err ss u = (None, u')"
      "\<And>rc. r = Some (Inr rc) \<Longrightarrow> \<exists>ss. poll_done b x ss rc \<and> write_streams out err ss u = (None, u')"
    using that one by blast
  show ?thesis
  proof (cases x)
    case (Inl e)
    with assms(2) None p have "w' = w1" "u' = u" "r = (if errors_is e ErrOperationTimeout then None else Some (Inl e))"
      by (auto simp: receive_poll_def)
    with Inl show ?thesis by (intro go) (auto simp: poll_again_def split: if_splits)
  next
    case x: (Inr reply)
    show ?thesis
    proof (cases "parseResponse (decode b) reply")
      case (Inl e)
      with assms(2) None p x have "w' = w1" "u' = u" "r = (if errors_is e ErrOperationTimeout then None else Some (Inl e))"
        by (auto simp: receive_poll_def)
      with x timeout_reply [OF Inl] show ?thesis by (intro go) (auto simp: poll_again_def split: if_splits)
    next
      case resp: (Inr resp)
      obtain y u1 where y: "resp_receive out err resp u = (y, u1)" by (metis surj_pair)
      with assms(2) None p x resp have w: "w' = w1" "u' = u1" and
        r: "r = (case y of Inl e \<Rightarrow> Some (Inl e) | Inr (Some rc) \<Rightarrow> Some (Inr rc) | Inr None \<Rightarrow> None)"
        by (auto simp: receive_poll_def split: sum.splits option.splits)
      show ?thesis
      proof (rule go [OF w(1)])
        assume "r = None"
        with r have "y = Inr None" by (auto split: sum.splits option.splits)
        with y resp_receive_more [of out err resp u u1] obtain rb where "received resp = Some rb"
          "action resp = wsShell @ ''ReceiveResponse''"
          "write_streams out err (streams rb) u = (None, u1)" "state_value rb \<noteq> done_state" by auto
        with answered_byI [OF resp] x w show "\<exists>ss. poll_again b x ss \<and> write_streams out err ss u = (None, u')"
          unfolding poll_again_def done_state_def by (intro exI [of _ "streams rb"]) blast
      next
        fix rc assume "r = Some (Inr rc)"
        with r have "y = Inr (Some rc)" by (auto split: sum.splits option.splits)
        with y resp_receive_done [of out err resp u rc u1] obtain rb where "received resp = Some rb"
          "action resp = wsShell @ ''ReceiveResponse''"
          "write_streams out err (streams rb) u = (None, u1)" "state_value rb = done_state"
          "parse_uint32 (trim_space (state_exit rb)) = Some rc" by auto
        with answered_byI [OF resp] x w show "\<exists>ss. poll_done b x ss rc \<and> write_streams out err ss u = (None, u')"
          unfolding poll_done_def done_state_def by (intro exI [of _ "streams rb"]) blast
      qed
    qed
  qed
qed

definition loop_held :: "'w post set \<Rightarrow> builders \<Rightarrow> session \<Rightarrow> 'o writer \<Rightarrow> 'o writer \<Rightarrow> 'w \<times> 'o \<Rightarrow> (goerr + nat) \<times> 'w \<times> 'o \<Rightarrow> bool" where
  "loop_held posts b s out err wu y \<longleftrightarrow>
     (\<exists>xs. held posts (fst wu) xs (fst (snd y)) \<and>
        (\<forall>rc. fst y = Inr rc \<longrightarrow> (\<exists>ss. polled_to_end b (output_request b (endpoint s) (shellID s) (commandID s)) xs ss rc \<and>
           write_streams out err ss (snd wu) = (None, snd (snd y)))))"

lemma loop_turn:
  assumes "lane \<in> posts" "receive_poll b s lane out err ctx (w, u) = (r, w1, u1)"
    and "case r of None \<Rightarrow> loop_held posts b s out err (w1, u1) y | Some x \<Rightarrow> y = (x, w1, u1)"
  shows "loop_held posts b s out err (w, u) y"
proof -
  let ?m = "output_request b (endpoint s) (shellID s) (commandID s)"
  from poll_held [OF assms(1,2)] obtain xs where x: "held posts w xs w1"
    "r = None \<longrightarrow> (\<exists>x ss. xs = [(?m, x)] \<and> poll_again b x ss \<and> write_streams out err ss u = (None, u1))"
    "\<forall>rc. r = Some (Inr rc) \<longrightarrow> (\<exists>x ss. xs = [(?m, x)] \<and> poll_done b x ss rc \<and> write_streams out err ss u = (None, u1))" by (elim exE conjE) (rule that)
  show ?thesis
  proof (cases r)
    case (Some z)
    with assms(3) x(1,3) show ?thesis unfolding loop_held_def by (auto intro: polled_to_end.last_poll)
  next
    case None
    with x(2) obtain a ss where a: "xs = [(?m, a)]" "poll_again b a ss" "write_streams out err ss u = (None, u1)" by blast
    from None assms(3) obtain ys where y: "held posts w1 ys (fst (snd y))" and
      rc: "\<forall>rc. fst y = Inr rc \<longrightarrow> (\<exists>ss. polled_to_end b ?m ys ss rc \<and> write_streams out err ss u1 = (None, snd (snd y)))"
      by (auto simp: loop_held_def)
    have "\<exists>ss. polled_to_end b ?m (xs @ ys) ss rc \<and> write_streams out err ss u = (None, snd (snd y))" if "fst y = Inr rc" for rc
    proof -
      from rc that obtain ts where "polled_to_end b ?m ys ts rc" "write_streams out err ts u1 = (None, snd (snd y))" by blast
      with a polled_to_end.one_more [OF a(2), of ?m ys ts rc] write_streams_append [OF a(3), of ts "snd (snd y)"]
      show ?thesis by auto
    qed
    with held_append [OF x(1) y] show ?thesis unfolding loop_held_def by auto
  qed
qed

lemma loop_held_lane:
  fixes posts :: "'w post set" and out :: "'o writer"
  assumes "receiveLoop b s lane o1 e1 ctx wu = Some y"
  shows "lane \<in> posts \<and> o1 = out \<and> e1 = err \<longrightarrow> loop_held posts b s out err wu y"
proof (rule receiveLoop.raw_induct [where P = "\<lambda>b s lane o1 e1 ctx wu y. lane \<in> posts \<and> o1 = out \<and> e1 = err \<longrightarrow>
      loop_held posts b s out err wu y", OF _ assms])
  fix f :: "builders \<Rightarrow> session \<Rightarrow> 'w post \<Rightarrow> 'o writer \<Rightarrow> 'o writer \<Rightarrow> 'w ctx \<Rightarrow> 'w \<times> 'o \<Rightarrow> _"
  fix b s lane o1 e1 ctx wu y
  assume IH: "\<And>b s lane o1 e1 ctx wu y. f b s lane o1 e1 ctx wu = Some y \<Longrightarrow>
      lane \<in> posts \<and> o1 = out \<and> e1 = err \<longrightarrow> loop_held posts b s out err wu y"
    and body: "(let r = receive_poll b s lane o1 e1 ctx wu in
      if fst r = None then f b s lane o1 e1 ctx (snd r) else Some (the (fst r), snd r)) = Some y"
  show "lane \<in> posts \<and> o1 = out \<and> e1 = err \<longrightarrow> loop_held posts b s out err wu y"
  proof
    assume o: "lane \<in> posts \<and> o1 = out \<and> e1 = err"
    obtain w u r w' u' where p: "wu = (w, u)" "receive_poll b s lane out err ctx (w, u) = (r, w', u')" by (metis surj_pair)
    have "case r of None \<Rightarrow> loop_held posts b s out err (w', u') y | Some x \<Rightarrow> y = (x, w', u')"
      using body IH [of b s lane out err ctx "(w', u')" y] o p by (auto split: option.splits)
    with loop_turn [OF _ p(2)] o p(1) show "loop_held posts b s out err wu y" by simp
  qed
qed

lemma receiveLoop_held:
  assumes "lane \<in> posts" "receiveLoop b s lane out err ctx (w, u) = Some (r, w', u')"
  shows "\<exists>xs. held posts w xs w' \<and>
    (\<forall>rc. r = Inr rc \<longrightarrow> (\<exists>ss. polled_to_end b (output_request b (endpoint s) (shellID s) (commandID s)) xs ss rc \<and>
       write_streams out err ss u = (None, u')))"
  using loop_held_lane [OF assms(2), of posts out err] assms(1) by (simp add: loop_held_def)

lemma session_receive_held:
  assumes "lane \<in> posts" "session_receive b s lane out err ctx early (w, u) = Some (r, w', u')"
  shows "\<exists>xs. held posts w xs w' \<and>
    (\<forall>rc. r = Inr rc \<longrightarrow> (\<exists>ss. polled_to_end b (output_request b (endpoint s) (shellID s) (commandID s)) xs ss rc \<and>
       write_streams out err ss u = (None, u')))"
proof -
  from assms(2) obtain r0 where l: "receiveLoop b s lane out err ctx (w, u) = Some (r0, w', u')" and
    r: "\<And>rc. r = Inr rc \<Longrightarrow> r0 = Inr rc"
    by (auto simp: session_receive_def split: option.splits prod.splits)
  from receiveLoop_held [OF assms(1) l] r show ?thesis by blast
qed

subsection \<open>A whole command\<close>

text \<open>The conversation of a command that has ended: started, its input closed, polled until it was reported done, and
  its shell deleted, after a Signal if the caller's context had ended by then; each step confirmed by its reply.\<close>

definition conversation ::
  "builders \<Rightarrow> request \<Rightarrow> bytes \<Rightarrow> bytes \<Rightarrow> exchange list \<Rightarrow> (bytes \<times> bytes) list \<Rightarrow> nat \<Rightarrow> bool" where
  "conversation b req shell cid xs ss rc \<longleftrightarrow> (\<exists>start input polls signal delete.
     xs = start @ input @ polls @ signal @ delete \<and> command_started b req shell cid start \<and>
     sent_by b (send_request b (req_endpoint req) shell cid [] True) input \<and>
     polled_to_end b (output_request b (req_endpoint req) shell cid) polls ss rc \<and>
     (signal = [] \<or> signaled_by b (signal_request b (req_endpoint req) shell cid) signal) \<and>
     deleted_by b (delete_request b (req_endpoint req) shell) delete)"

lemma run_session_held:
  assumes P: "command \<in> posts" "cleanup \<in> posts" "set_option fallback \<subseteq> posts"
    and r: "run_session b s command cleanup fallback par out err w u = Some ((code, runErr, cleanupErr), w', u')"
  shows "\<exists>input polls signal delete. held posts w (input @ polls @ signal @ delete) w' \<and>
    (\<not> unknown_shell cleanupErr \<longrightarrow> deleted_by b (delete_request b (endpoint s) (shellID s)) delete) \<and>
    (cleanupErr = None \<longrightarrow> signal = [] \<or> signaled_by b (signal_request b (endpoint s) (shellID s) (commandID s)) signal) \<and>
    (runErr = None \<longrightarrow> sent_by b (send_request b (endpoint s) (shellID s) (commandID s) [] True) input \<and>
       (\<exists>ss. polled_to_end b (output_request b (endpoint s) (shellID s) (commandID s)) polls ss code \<and>
          write_streams out err ss u = (None, u')))"
proof -
  obtain e1 w1 where S: "session_send b s command False (run_ctx par) [] True w = (e1, w1)" by (metis surj_pair)
  from send_held [OF P(1) S] obtain input where i: "held posts w input w1"
    "e1 = None \<longrightarrow> sent_by b (send_request b (endpoint s) (shellID s) (commandID s) [] True) input" by blast
  have "\<exists>polls w2. held posts w1 polls w2 \<and>
      run_close b s command cleanup fallback (run_ctx par) (run_budget par) (run_joined par) runErr w2 = (cleanupErr, w') \<and>
      (runErr = None \<longrightarrow> e1 = None \<and>
       (\<exists>ss. polled_to_end b (output_request b (endpoint s) (shellID s) (commandID s)) polls ss code \<and>
          write_streams out err ss u = (None, u')))"
  proof (cases e1)
    case (Some e)
    with S r show ?thesis
      by (intro exI [of _ "[]"] exI [of _ w1]) (auto simp: run_session_def Let_def split: prod.splits)
  next
    case None
    with S r obtain y w2 u2 where R: "session_receive b s command out err (run_ctx par) (run_early par) (w1, u) = Some (y, w2, u2)"
      and c: "run_close b s command cleanup fallback (run_ctx par) (run_budget par) (run_joined par) runErr w2 = (cleanupErr, w')"
      and y: "runErr = None \<longrightarrow> y = Inr code" "u' = u2"
      by (auto simp: run_session_def Let_def split: prod.splits option.splits sum.splits)
    from session_receive_held [OF P(1) R] None c y show ?thesis by blast
  qed
  then obtain polls w2 where p: "held posts w1 polls w2"
    and c: "run_close b s command cleanup fallback (run_ctx par) (run_budget par) (run_joined par) runErr w2 = (cleanupErr, w')"
    and r: "runErr = None \<longrightarrow> e1 = None \<and>
       (\<exists>ss. polled_to_end b (output_request b (endpoint s) (shellID s) (commandID s)) polls ss code \<and>
          write_streams out err ss u = (None, u'))" by blast
  from run_close_held [OF P c] obtain xs ys where h: "held posts w2 (xs @ ys) w'"
    "\<not> unknown_shell cleanupErr \<longrightarrow> deleted_by b (delete_request b (endpoint s) (shellID s)) ys"
    "cleanupErr = None \<longrightarrow> xs = [] \<or> signaled_by b (signal_request b (endpoint s) (shellID s) (commandID s)) xs" by blast
  from held_append [OF i(1) held_append [OF p h(1)]] h(2,3) r i(2) show ?thesis by blast
qed

text \<open>Any run of a command over its lanes.\<close>

definition shell_accounted :: "builders \<Rightarrow> request \<Rightarrow> exchange list \<Rightarrow> bool" where
  "shell_accounted b req xs \<longleftrightarrow> not_created b req xs \<or> created_and_deleted b req xs"

text \<open>What the exchanges of a run say of its result: a shell that was asked for is gone unless the error says that the
  remote state is unknown; without an error there was the whole conversation, the exit code is the one of its last
  poll, and the writers were given the streams of all replies.\<close>

definition accounted_run ::
  "'w post set \<Rightarrow> builders \<Rightarrow> request \<Rightarrow> 'o writer \<Rightarrow> 'o writer \<Rightarrow> 'w \<times> 'o \<Rightarrow> nat \<times> goerr option \<Rightarrow> 'w \<times> 'o \<Rightarrow> bool" where
  "accounted_run posts b req out err wu result wu' \<longleftrightarrow> (\<exists>xs. held posts (fst wu) xs (fst wu') \<and>
     (\<not> unknown_shell (snd result) \<longrightarrow> shell_accounted b req xs) \<and>
     (snd result = None \<longrightarrow> (\<exists>shell cid ss. conversation b req shell cid xs ss (fst result) \<and>
        write_streams out err ss (snd wu) = (None, snd wu'))))"

lemma runWithPosters_held:
  assumes P: "command \<in> posts" "cleanup \<in> posts" "set_option fallback \<subseteq> posts"
    and r: "runWithPosters b req (Some command) (Some cleanup) fallback par out err w u = Some ((code, runErr, cleanupErr), w', u')"
  shows "\<exists>xs. held posts w xs w' \<and>
    (\<not> unknown_shell runErr \<and> \<not> unknown_shell cleanupErr \<longrightarrow> shell_accounted b req xs) \<and>
    (runErr = None \<and> cleanupErr = None \<longrightarrow> (\<exists>shell cid ss. conversation b req shell cid xs ss code \<and>
       write_streams out err ss u = (None, u')))"
proof -
  obtain rs w1 where S: "startSessionLanes b req command cleanup fallback (run_ctx par) (run_budget par) w = (rs, w1)"
    by (metis surj_pair)
  from start_held [OF P S] obtain start where h: "held posts w start w1"
    and e: "\<forall>e. rs = Inl e \<longrightarrow> errors_is e ErrRemoteStateUnknown \<or> not_created b req start \<or> created_and_deleted b req start"
    and s: "\<forall>s. rs = Inr s \<longrightarrow> endpoint s = req_endpoint req \<and> command_started b req (shellID s) (commandID s) start" by blast
  show ?thesis
  proof (cases rs)
    case (Inl x)
    with S r have "runErr = Some x" "w' = w1" by (auto simp: runWithPosters_def)
    with h e Inl show ?thesis by (intro exI [of _ start]) (auto simp: unknown_shell_def shell_accounted_def)
  next
    case (Inr ses)
    with S r have run: "run_session b ses command cleanup fallback par out err w1 u = Some ((code, runErr, cleanupErr), w', u')"
      by (auto simp: runWithPosters_def)
    from s Inr have ep: "endpoint ses = req_endpoint req" and st: "command_started b req (shellID ses) (commandID ses) start" by auto
    from run_session_held [OF P run] obtain input polls signal delete where g: "held posts w1 (input @ polls @ signal @ delete) w'"
      and d: "\<not> unknown_shell cleanupErr \<longrightarrow> deleted_by b (delete_request b (req_endpoint req) (shellID ses)) delete"
      and sg: "cleanupErr = None \<longrightarrow> signal = [] \<or> signaled_by b (signal_request b (req_endpoint req) (shellID ses) (commandID ses)) signal"
      and rn: "runErr = None \<longrightarrow> sent_by b (send_request b (req_endpoint req) (shellID ses) (commandID ses) [] True) input \<and>
       (\<exists>ss. polled_to_end b (output_request b (req_endpoint req) (shellID ses) (commandID ses)) polls ss code \<and>
          write_streams out err ss u = (None, u'))" unfolding ep by blast
    let ?xs = "start @ input @ polls @ signal @ delete"
    have "shell_accounted b req ?xs" if "\<not> unknown_shell cleanupErr"
    proof -
      from st obtain c x resp where c: "start = [(create_body b req, c), x]" "answered_by b (wsTransfer @ ''CreateResponse'') c resp"
        "shell_id resp = shellID ses" "validID (shell_id resp)"
        unfolding command_started_def by (elim exE conjE) (rule that, assumption, assumption, assumption, simp)
      with d that have "created_and_deleted b req ?xs" unfolding created_and_deleted_def
        by (intro exI [of _ c] exI [of _ resp] exI [of _ "x # input @ polls @ signal"] exI [of _ delete]) simp
      then show ?thesis by (simp add: shell_accounted_def)
    qed
    moreover have "\<exists>shell cid ss. conversation b req shell cid ?xs ss code \<and> write_streams out err ss u = (None, u')"
      if "runErr = None" "cleanupErr = None"
    proof -
      from rn that obtain ss where "polled_to_end b (output_request b (req_endpoint req) (shellID ses) (commandID ses)) polls ss code"
        "write_streams out err ss u = (None, u')" by blast
      with rn st sg d that have "conversation b req (shellID ses) (commandID ses) ?xs ss code" unfolding conversation_def
        by (intro exI [of _ start] exI [of _ input] exI [of _ polls] exI [of _ signal] exI [of _ delete]) (auto simp: unknown_shell_def)
      with \<open>write_streams out err ss u = (None, u')\<close> show ?thesis by blast
    qed
    ultimately show ?thesis using held_append [OF h g] by blast
  qed
qed

end
