(* ===== verification/Runner.thy ===== *)
theory Runner
  imports Lanes Replies
begin

text \<open>
  \<open>internal/remote/runner.go\<close> and \<open>RunWithPosters\<close> of \<open>control_runner.go\<close>: commands over the NTLM
  lanes of \<open>persistent.go\<close>.  The session's laws are instantiated on the lanes here, with the
  standalone transport as the fallback for an unsent Delete.  Heartbeats (\<open>KeepAliveLanes\<close>) run on a
  timer beside a command and are not interleaved with it here.
\<close>

definition closeBoth :: "nat \<Rightarrow> nat \<Rightarrow> 'n world \<Rightarrow> 'n world" where
  "closeBoth i j w = close_lane j (close_lane i w)"

definition RunWithPosters ::
  "'n net_env \<Rightarrow> builders \<Rightarrow> request \<Rightarrow> nat \<Rightarrow> nat \<Rightarrow> 'n world run_params \<Rightarrow> 'o writer \<Rightarrow> 'o writer \<Rightarrow>
   'n world \<Rightarrow> 'o \<Rightarrow> ((nat \<times> goerr option) \<times> 'n world \<times> 'o) option" where
  "RunWithPosters env b req i j par out err w u =
     (case runWithPosters b req (Some (persistent_post env i)) (Some (persistent_post env j)) None
             par out err w u of
        None \<Rightarrow> None
      | Some ((code, runErr, cleanupErr), w', u') \<Rightarrow>
          Some ((code, errors_join [runErr, cleanupErr]), w', u'))"

definition Run ::
  "'n net_env \<Rightarrow> builders \<Rightarrow> request \<Rightarrow> 'n world run_params \<Rightarrow> 'o writer \<Rightarrow> 'o writer \<Rightarrow>
   'n world \<Rightarrow> 'o \<Rightarrow> ((nat \<times> goerr option) \<times> 'n world \<times> 'o) option" where
  "Run env b req par out err w u =
     (case NewPersistentPosters env (req_endpoint req) (run_ctx par) w of
        (Inl e, w1) \<Rightarrow> Some ((0, Some e), w1, u)
      | (Inr (i, j), w1) \<Rightarrow>
          (case runWithPosters b req (Some (persistent_post env i)) (Some (persistent_post env j))
                  (Some (transport_post env (req_endpoint req))) par out err w1 u of
             None \<Rightarrow> None
           | Some ((code, runErr, cleanupErr), w2, u') \<Rightarrow>
               Some ((code, run_result runErr cleanupErr), closeBoth i j w2, u')))"

subsection \<open>The session laws on the lanes\<close>

interpretation lanes: session_posters "persistent_post env i" "persistent_post env j" wire
    "map_option (transport_post env) ep" for env i j ep
  by (intro session_posters.intro session_posters_axioms.intro persistent.poster_axioms)
     (auto intro: standalone.poster_axioms)

lemma retries_silent:
  "(\<And>w r w'. attempt w = (r, w') \<Longrightarrow> wire w' = wire w) \<Longrightarrow>
   retries ctx attempt k w = (r, w') \<Longrightarrow> wire w' = wire w"
proof (induction ctx attempt k w rule: retries.induct)
  case (1 ctx attempt k w)
  obtain r1 w1 where a: "attempt w = (r1, w1)" by (metis surj_pair)
  show ?case
  proof (cases "\<exists>e. r1 = Inl e \<and> retry_again ctx k e w1")
    case True
    with 1 a show ?thesis by (auto simp: retries.simps [of ctx attempt k w])
  next
    case False
    with 1(2,3) a show ?thesis
      by (auto simp: retries.simps [of ctx attempt k w] split: sum.splits if_splits)
  qed
qed

lemma posters_silent:
  assumes "NewPersistentPosters env ep ctx w = (r, w')"
  shows "wire w' = wire w"
proof -
  have "wire w2 = wire w1" if "openPersistentWithRetries env ep ctx w1 = (r1, w2)" for w1 w2 and r1 :: "goerr + nat"
    using that authenticate_silent retries_silent
    unfolding openPersistentWithRetries_def withHandshakeRetries_def by blast
  with assms show ?thesis
    by (auto simp: NewPersistentPosters_def split: prod.splits sum.splits)
qed

lemma unknown_shell_None [simp]: "\<not> unknown_shell None"
  by (simp add: unknown_shell_def)

lemma wire_closeBoth [simp]: "wire (closeBoth i j w) = wire w"
  by (simp add: closeBoth_def)

lemma unknown_run_result:
  "unknown_shell (run_result runErr cleanupErr) \<longleftrightarrow> unknown_shell runErr \<or> unknown_shell cleanupErr"
  by (cases runErr; cases cleanupErr)
     (auto simp: run_result_def unknown_shell_def completedCleanupError_def)

lemma run_result_None: "run_result runErr cleanupErr = None \<longleftrightarrow> runErr = None \<and> cleanupErr = None"
  by (cases runErr; cases cleanupErr) (auto simp: run_result_def)

subsection \<open>A scripted server\<close>

text \<open>A server that admits any login and then answers each request with the next of the given bodies;
  the request builders write one word each.\<close>

definition plain_challenge :: bytes where
  "plain_challenge = signature @ map char_of [2::nat, 0, 0, 0, 0, 0, 0, 0, 0, 0, 0, 0, 0, 0, 0, 0, 0, 0, 0, 0,
     0, 0, 0, 0, 0, 0, 0, 0, 0, 0, 0, 0, 0, 0, 0, 0, 0, 0, 0, 0]"
lemma plain_accepted: "validateChallenge plain_challenge False = Inr ()"
  by (simp add: validateChallenge_eq bad_challenge_def plain_challenge_def signature_def message_flags_def flags_word_def buffer_inside_def buffer_at_def)

definition script_reply :: "nat \<Rightarrow> bytes list \<Rightarrow> bytes \<Rightarrow> reply" where
  "script_reply c auth b = \<lparr>status = c, content_type = ''application/soap+xml'', www_authenticate = auth,
     reply_body = b\<rparr>"

definition script_env :: "reply list net_env" where
  "script_env = \<lparr>alive = (\<lambda>i n. True), dial = (\<lambda>i n. (None, n)),
     exchange = (\<lambda>i auth p c n. case n of [] \<Rightarrow> (Inl Net_reset, []) | r # rs \<Rightarrow> (Inr r, rs)),
     wrap = (\<lambda>i n p. Inl (Msg [])),
     unwrap = (\<lambda>i n c s. Inl (Msg [])), sealed_state = (\<lambda>i n. n), media = (\<lambda>c. None),
     soap_envelope = (\<lambda>b. True), identify_reply = (\<lambda>b. True), clock = (\<lambda>n. 0), root_error = None,
     ntlm_client = True, ntlm_negotiate = (\<lambda>n. (Some ''N'', n)),
     ntlm_authenticate = (\<lambda>b n. (Some ''A'', n)), ntlm_session = (\<lambda>n. True)\<rparr>"

definition script_handshake :: "reply list" where
  "script_handshake = [script_reply 401 [''NTLM''] [],
     script_reply 401 [auth_header ''NTLM'' plain_challenge] [], script_reply 200 [] []]"

definition ready_lane :: lane where
  "ready_lane = (fresh_lane False)\<lparr>dialed := True, connected := True\<rparr>"

lemma offered: "challenge [''NTLM''] [] = Inr (''NTLM'', [])"
proof -
  have "str_fields ''NTLM'' = [''NTLM'']"
    by (rule str_fields_one) (simp_all add: space_heads_def space_seqs_def ascii_spaces_def wide_spaces_def)
  moreover have "str_split ''NTLM'' '','' = [''NTLM'']" by (rule str_split_last) simp
  ultimately show ?thesis by (simp add: challenge_def challenge_field_def equal_fold_def)
qed

lemma script_lane:
  "authenticate_lane script_env ''https://h:5986/wsman'' i (script_handshake @ n) = (Inr ready_lane, n)"
proof -
  have c: "challenge [auth_header ''NTLM'' plain_challenge] ''NTLM'' = Inr (''NTLM'', plain_challenge)"
    by (rule challenge_header) (simp_all add: plain_challenge_def signature_def)
  show ?thesis
    by (simp add: authenticate_lane_def handshake_def sendHTTP_def script_env_def script_handshake_def
        script_reply_def offered c authenticate_third_def plain_accepted fresh_lane_def ready_lane_def
        has_prefix_def maxResponse_def)
qed

lemma script_post:
  assumes "i < length (lanes w)" "lanes w ! i = ready_lane" "net w = script_reply 200 [] b # n" "length b < 100"
  shows "persistent_post script_env i (\<lambda>w. None) m w = (Inr b, w\<lparr>net := n, sent := sent w @ [(i, m)]\<rparr>)"
proof -
  have "(lanes w)[i := ready_lane] = lanes w" using assms(2) by (metis list_update_id)
  moreover have "to_lower ''application/soap+xml'' = ''application/soap+xml''" by (simp add: lower_char_def)
  ultimately show ?thesis using assms
  by (simp add: persistent_post_def postLocked_def sendHTTP_def script_env_def ready_lane_def fresh_lane_def
      script_reply_def read_reply_def maxResponse_def has_prefix_def Let_def set_lane_def)
qed


definition script_response :: "bytes \<Rightarrow> response" where
  "script_response a = \<lparr>action = a, fault = None, shell_id = ''S1'', command_id = ''C1'', received = None\<rparr>"

definition script_decode :: "bytes \<Rightarrow> response option" where
  "script_decode b = map_of
     [(''created'', script_response (wsTransfer @ ''CreateResponse'')),
      (''started'', script_response (wsShell @ ''CommandResponse'')),
      (''accepted'', script_response (wsShell @ ''SendResponse'')),
      (''running'', (script_response [])\<lparr>fault := Some ''2150858793''\<rparr>),
      (''done'', (script_response (wsShell @ ''ReceiveResponse''))\<lparr>received :=
          Some \<lparr>streams = [], state_value = done_state, state_exit = ''0''\<rparr>\<rparr>),
      (''said'', (script_response (wsShell @ ''ReceiveResponse''))\<lparr>received :=
          Some \<lparr>streams = [(''stdout'', ''aGk='')], state_value = ''running'', state_exit = []\<rparr>\<rparr>),
      (''deleted'', script_response (wsTransfer @ ''DeleteResponse''))] b"

definition script_builders :: builders where
  "script_builders = \<lparr>encode_ps = (\<lambda>c. c), open_request = (\<lambda>e. ''create''),
     execute_request = (\<lambda>e s c. ''command''), send_request = (\<lambda>e s c d eof. ''send''),
     output_request = (\<lambda>e s c. ''receive''), signal_request = (\<lambda>e s c. ''signal''),
     delete_request = (\<lambda>e s. ''delete''), decode = script_decode\<rparr>"

definition script_request :: request where
  "script_request = \<lparr>req_endpoint = ''https://h:5986/wsman'', req_command = ''dir'', req_codepage = [],
     req_powershell = False\<rparr>"

definition script_params :: "reply list world run_params" where
  "script_params = \<lparr>run_ctx = (\<lambda>w. None), run_budget = (\<lambda>w. None), run_early = False, run_joined = True\<rparr>"

definition discard :: "unit writer" where
  "discard p s = (length p, None, ())"

definition script_world :: "bytes list \<Rightarrow> (nat \<times> bytes) list \<Rightarrow> reply list world" where
  "script_world bodies msgs = \<lparr>net = map (script_reply 200 []) bodies, lanes = [ready_lane, ready_lane], sent = msgs\<rparr>"

definition script_start :: "bytes list \<Rightarrow> reply list world" where
  "script_start bodies = \<lparr>net = script_handshake @ script_handshake @ map (script_reply 200 []) bodies,
     lanes = [], sent = []\<rparr>"

lemma script_lanes:
  "NewPersistentPosters script_env ''https://h:5986/wsman'' (\<lambda>w. None) (script_start bodies) = (Inr (0, 1), script_world bodies [])"
  by (simp add: NewPersistentPosters_def openPersistentWithRetries_def withHandshakeRetries_def retries.simps
      authenticateConnection_def script_start_def script_world_def script_lane)

lemma script_reads:
  "i < 2 \<Longrightarrow> length b < 100 \<Longrightarrow> persistent_post script_env i (\<lambda>w. None) m (script_world (b # bs) ms) =
     (Inr b, script_world bs (ms @ [(i, m)]))"
  by (subst script_post) (auto simp: script_world_def less_2_cases_iff)

lemma script_command: "Command (\<lambda>c. c) ''dir'' False = Inr ''dir''"
  using ascii_utf8 [of "''dir''"] by (simp add: Command_def utf16_encode_def utf16_rune.simps)

lemma script_ids: "validID ''S1''" "validID ''C1''"
  by (simp_all add: validID_def id_char_def less_eq_char_def)

lemma script_done: "parse_uint32 (trim_space ''0'') = Some 0"
proof -
  have "trim_space ''0'' = ''0''"
    using space_heads_ascii [of "CHR ''0''"] by (intro trim_space_id) (simp_all add: ascii_spaces_def less_char_def)
  then show ?thesis by (simp add: parse_uint32_def digit_val_def less_eq_char_def)
qed

definition script_session :: session where
  "script_session = \<lparr>endpoint = ''https://h:5986/wsman'', shellID = ''S1'', commandID = ''C1''\<rparr>"

lemmas script_defs = script_builders_def script_request_def script_params_def script_session_def
  script_decode_def script_response_def parseResponse_def

lemma script_opens:
  "startSessionLanes script_builders script_request (persistent_post script_env 0) cln fb
     (\<lambda>w. None) budget (script_world (''created'' # ''started'' # bs) ms) =
   (Inr script_session, script_world bs (ms @ [(0, ''create''), (0, ''command'')]))"
proof -
  have r: "replace_all ''dir'' cdata_end cdata_split = ''dir''"
    by (simp add: replace_all_def cdata_end_def str_split_last)
  show ?thesis
    by (simp add: startSessionLanes_def script_command r open_message_def Let_def script_reads
        start_command_def script_ids script_defs wsShell_def wsTransfer_def)
qed

lemma script_polls:
  "receiveLoop script_builders script_session (persistent_post script_env 0) discard discard (\<lambda>w. None)
     (script_world (''running'' # ''done'' # bs) ms, ()) =
   Some (Inr 0, script_world bs (ms @ [(0, ''receive''), (0, ''receive'')]), ())"
proof -
  have "receive_poll script_builders script_session (persistent_post script_env 0) discard discard (\<lambda>w. None)
     (script_world (''running'' # ''done'' # bs) ms, ()) = (None, script_world (''done'' # bs) (ms @ [(0, ''receive'')]), ())"
    by (simp add: receive_poll_def script_reads script_defs)
  moreover have "receive_poll script_builders script_session (persistent_post script_env 0) discard discard (\<lambda>w. None)
     (script_world (''done'' # bs) (ms @ [(0, ''receive'')]), ()) = (Some (Inr 0), script_world bs (ms @ [(0, ''receive''), (0, ''receive'')]), ())"
    by (simp add: receive_poll_def script_reads script_defs resp_receive_def script_done)
  ultimately show ?thesis
    by (simp add: receiveLoop.simps [of _ _ _ _ _ _ "(script_world (''running'' # ''done'' # bs) ms, ())"]
      receiveLoop.simps [of _ _ _ _ _ _ "(script_world (''done'' # bs) (ms @ [(0, ''receive'')]), ())"])
qed

lemma script_closes:
  "run_close script_builders script_session (persistent_post script_env 0) cln fb (\<lambda>w. None) (\<lambda>w. None) True None
     (script_world [''deleted''] ms) = (None, script_world [] (ms @ [(0, ''delete'')]))"
  by (simp add: run_close_def closeWith_def close_signal_def close_delete_def Let_def script_reads script_defs wsTransfer_def)

lemma script_sends:
  "session_send script_builders script_session (persistent_post script_env 0) False (\<lambda>w. None) [] True
     (script_world (''accepted'' # bs) ms) = (None, script_world bs (ms @ [(0, ''send'')]))"
  by (simp add: session_send_def script_reads script_defs)

definition script_bodies :: "bytes list" where
  "script_bodies = [''created'', ''started'', ''accepted'', ''running'', ''done'', ''deleted'']"

lemma script_run: "\<exists>w'. Run script_env script_builders script_request script_params discard discard (script_start script_bodies) () =
   Some ((0, None), w', ()) \<and> wire w' = [''create'', ''command'', ''send'', ''receive'', ''receive'', ''delete'']"
proof -
  have p: "run_ctx script_params = (\<lambda>w. None)" "run_budget script_params = (\<lambda>w. None)" 
   "run_early script_params = False" "run_joined script_params = True" "req_endpoint script_request = ''https://h:5986/wsman''"
   by (simp_all add: script_params_def script_request_def)
  show ?thesis
    by (simp add: Run_def p script_bodies_def script_lanes runWithPosters_def script_opens run_session_def Let_def
       script_sends session_receive_def script_polls script_closes run_result_def)
     (simp add: wire_def script_world_def)
qed

subsection \<open>Properties\<close>

lemma Run_accounted:
  assumes "Run env b req par out err w u = Some ((code, e), w', u')"
  shows "(\<exists>x. NewPersistentPosters env (req_endpoint req) (run_ctx par) w = (Inl x, w') \<and> e = Some x \<and> u' = u) \<or>
    (\<exists>i j w1 w2. NewPersistentPosters env (req_endpoint req) (run_ctx par) w = (Inr (i, j), w1) \<and>
       accounted_run {persistent_post env i, persistent_post env j, transport_post env (req_endpoint req)}
         b req out err (w1, u) (code, e) (w2, u') \<and> w' = closeBoth i j w2)"
proof -
  obtain r w1 where N: "NewPersistentPosters env (req_endpoint req) (run_ctx par) w = (r, w1)" by (metis surj_pair)
  show ?thesis
  proof (cases r)
    case (Inl x)
    with N assms show ?thesis by (intro disjI1) (auto simp: Run_def)
  next
    case (Inr ij)
    obtain i j where ij: "ij = (i, j)" by fastforce
    from N Inr ij assms obtain runErr cleanupErr w2 where
      R: "runWithPosters b req (Some (persistent_post env i)) (Some (persistent_post env j))
         (Some (transport_post env (req_endpoint req))) par out err w1 u = Some ((code, runErr, cleanupErr), w2, u')"
      and e: "e = run_result runErr cleanupErr" "w' = closeBoth i j w2"
      by (auto simp: Run_def split: prod.splits option.splits)
    let ?P = "{persistent_post env i, persistent_post env j, transport_post env (req_endpoint req)}"
    have "accounted_run ?P b req out err (w1, u) (code, e) (w2, u')"
      using runWithPosters_held [OF _ _ _ R, of ?P] unfolding accounted_run_def fst_conv snd_conv
      by (simp add: e(1) unknown_run_result run_result_None)
    with N Inr ij e(2) show ?thesis by blast
  qed
qed

text \<open>A run without an error.\<close>

lemma Run_completed:
  assumes "Run env b req par out err w u = Some ((code, None), w', u')"
  shows "\<exists>i j w1 w2 xs shell cid ss. NewPersistentPosters env (req_endpoint req) (run_ctx par) w = (Inr (i, j), w1) \<and>
    held {persistent_post env i, persistent_post env j, transport_post env (req_endpoint req)} w1 xs w2 \<and>
    w' = closeBoth i j w2 \<and> conversation b req shell cid xs ss code \<and> write_streams out err ss u = (None, u')"
  using Run_accounted [OF assms] unfolding accounted_run_def fst_conv snd_conv by (elim disjE exE conjE) (blast, blast)

lemma RunWithPosters_completed:
  assumes "RunWithPosters env b req i j par out err w u = Some ((code, None), w', u')"
  shows "\<exists>xs shell cid ss. held {persistent_post env i, persistent_post env j} w xs w' \<and>
    conversation b req shell cid xs ss code \<and> write_streams out err ss u = (None, u')"
proof -
  from assms obtain runErr cleanupErr where r: "runWithPosters b req (Some (persistent_post env i))
      (Some (persistent_post env j)) None par out err w u = Some ((code, runErr, cleanupErr), w', u')"
    and e: "errors_join [runErr, cleanupErr] = None"
    by (auto simp: RunWithPosters_def split: option.splits prod.splits)
  from e have "runErr = None" "cleanupErr = None" by (simp_all add: errors_join_None_iff)
  with runWithPosters_held [OF _ _ _ r, of "{persistent_post env i, persistent_post env j}"] show ?thesis by auto
qed

lemma Run_conversation:
  assumes "Run env b req par out err w u = Some ((code, e), w', u')"
  shows "\<exists>shell cid t. transcript_ok b req shell cid t \<and>
    wire w' = wire w @ transcript_msgs b req shell cid t \<and>
    (\<not> unknown_shell e \<longrightarrow> t_create t = [] \<or> t_delete t \<noteq> []) \<and>
    (e = None \<longrightarrow> t_send t \<noteq> [] \<and> 0 < t_polls t \<and> t_delete t \<noteq> [] \<and> code < 2 ^ 32)"
proof -
  obtain r w1 where N: "NewPersistentPosters env (req_endpoint req) (run_ctx par) w = (r, w1)"
    by (metis surj_pair)
  note silent = posters_silent [OF N]
  show ?thesis
  proof (cases r)
    case (Inl x)
    with N assms have "e = Some x" "w' = w1" by (auto simp: Run_def)
    with silent show ?thesis
      by (intro exI [of _ "[]"] exI [of _ "\<lparr>t_create = [], t_command = [], t_send = [], t_polls = 0,
          t_signal = [], t_delete = []\<rparr>"]) (simp add: transcript_ok_def transcript_msgs_def)
  next
    case (Inr ij)
    with N assms obtain i j runErr cleanupErr w2 where
      R: "runWithPosters b req (Some (persistent_post env i)) (Some (persistent_post env j))
         (map_option (transport_post env) (Some (req_endpoint req))) par out err w1 u =
         Some ((code, runErr, cleanupErr), w2, u')"
      and e: "e = run_result runErr cleanupErr" "wire w' = wire w2"
      by (auto simp: Run_def split: prod.splits option.splits)
    from lanes.ran [OF R] obtain shell cid t where t: "transcript_ok b req shell cid t"
      "outcome_ok t (code, runErr, cleanupErr)" "wire w2 = wire w1 @ transcript_msgs b req shell cid t" by blast
    then have "\<not> unknown_shell e \<longrightarrow> t_create t = [] \<or> t_delete t \<noteq> []"
      "e = None \<longrightarrow> t_send t \<noteq> [] \<and> 0 < t_polls t \<and> code < 2 ^ 32 \<and> (t_create t = [] \<or> t_delete t \<noteq> [])"
      by (auto simp: outcome_ok_def e unknown_run_result run_result_None)
    with t e silent show ?thesis by (intro exI [of _ shell] exI [of _ cid] exI [of _ t])
        (auto simp: transcript_ok_def)
  qed
qed

text \<open>C1: A command over fresh lanes sends at most one Create, Command, Send, Signal and Delete and any
  number of Receives, in this order and none without those it depends on.  The replies account for the result: unless the
  error says that the remote state is unknown, no shell was asked for (or its Create is proven unsent), or the server
  has answered the Delete of the shell that it had created with DeleteResponse.  If the run reports no error, every step was
  answered as the protocol asks, the polls went on until the server reported the command done, the exit code is the one of
  that reply, the caller's writers accepted the streams of all replies, and the Delete was confirmed.\<close>

theorem Run_transcript:
  assumes "Run env b req par out err w u = Some ((code, e), w', u')"
  shows "(\<exists>shell cid t. transcript_ok b req shell cid t \<and>
      wire w' = wire w @ transcript_msgs b req shell cid t \<and>
      (\<not> unknown_shell e \<longrightarrow> t_create t = [] \<or> t_delete t \<noteq> []) \<and>
      (e = None \<longrightarrow> t_send t \<noteq> [] \<and> 0 < t_polls t \<and> t_delete t \<noteq> [] \<and> code < 2 ^ 32)) \<and>
    ((\<exists>x. NewPersistentPosters env (req_endpoint req) (run_ctx par) w = (Inl x, w') \<and> e = Some x \<and> u' = u) \<or>
     (\<exists>i j w1 w2 xs. NewPersistentPosters env (req_endpoint req) (run_ctx par) w = (Inr (i, j), w1) \<and>
        held {persistent_post env i, persistent_post env j, transport_post env (req_endpoint req)} w1 xs w2 \<and>
        w' = closeBoth i j w2 \<and>
        (\<not> unknown_shell e \<longrightarrow> not_created b req xs \<or> created_and_deleted b req xs) \<and>
        (e = None \<longrightarrow> (\<exists>shell cid ss. conversation b req shell cid xs ss code \<and> write_streams out err ss u = (None, u')))))"
  by (rule conjI [OF Run_conversation [OF assms]])
     (use Run_accounted [OF assms] in \<open>unfold accounted_run_def shell_accounted_def fst_conv snd_conv, blast\<close>)

theorem Run_transcript_witness:
  "\<exists>i j w1 w2 w' shell cid xs ss.
     Run script_env script_builders script_request script_params discard discard (script_start script_bodies) () =
       Some ((0, None), w', ()) \<and>
     held {persistent_post script_env i, persistent_post script_env j, transport_post script_env (req_endpoint script_request)} w1 xs w2 \<and>
     conversation script_builders script_request shell cid xs ss 0"
proof -
  from script_run obtain w' where r: "Run script_env script_builders script_request script_params discard
      discard (script_start script_bodies) () = Some ((0, None), w', ())" by blast
  from conjunct2 [OF Run_transcript [OF r]] obtain i j w1 w2 xs shell cid ss where
    "held {persistent_post script_env i, persistent_post script_env j, transport_post script_env (req_endpoint script_request)} w1 xs w2"
    "conversation script_builders script_request shell cid xs ss 0" by (elim disjE exE conjE) (blast, blast)
  with r show ?thesis by blast
qed

text \<open>C7: A command run ends: if the caller's context ends no later than when \<open>N\<close> messages have been
  sent, the run returns, although its receive loop has no bound of its own and a server may report
  timeouts for ever.\<close>

theorem Run_returns:
  assumes "\<forall>w. N \<le> length (wire w) \<longrightarrow> run_ctx par w \<noteq> None"
  shows "\<exists>y. Run env b req par out err w u = Some y"
proof -
  have R: "\<exists>y. runWithPosters b req (Some (persistent_post env i)) (Some (persistent_post env j))
      (Some (transport_post env (req_endpoint req))) par out err w1 u = Some y" for i j w1
    using lanes.run_returns [of N par b req env i j "Some (req_endpoint req)"] assms by auto
  obtain r w1 where N: "NewPersistentPosters env (req_endpoint req) (run_ctx par) w = (r, w1)"
    by (metis surj_pair)
  show ?thesis
  proof (cases r)
    case (Inr ij)
    obtain i j where ij: "ij = (i, j)" by (cases ij)
    obtain y where y: "runWithPosters b req (Some (persistent_post env i)) (Some (persistent_post env j))
      (Some (transport_post env (req_endpoint req))) par out err w1 u = Some y" using R by blast
    then show ?thesis by (cases y) (auto simp: Run_def N Inr ij split: prod.splits)
  qed (simp add: Run_def N)
qed

text \<open>A server that reports operation timeouts for ever, and a context that ends at the tenth message.\<close>

definition ten_messages :: "'n world run_params" where
  "ten_messages = \<lparr>run_ctx = (\<lambda>w. if 10 \<le> length (wire w) then Some Deadline else None),
     run_budget = (\<lambda>w. None), run_early = False, run_joined = True\<rparr>"

theorem Run_returns_witness:
  "\<exists>y. Run script_env script_builders script_request ten_messages discard discard
     (script_start ([''created'', ''started'', ''accepted''] @ replicate 20 ''running'')) () = Some y"
  by (rule Run_returns [of 10]) (simp add: ten_messages_def)




text \<open>What closing a session promises.  Closing again sends nothing.  The first close sends at most
  one Signal, none for a completed command, then at most one Delete over whichever of the three
  connections; without an error Delete was written, and so it was after an error that does not say
  \<open>ErrRemoteStateUnknown\<close>; a requested Signal was then written too.\<close>

theorem close_outcome:
  assumes "k \<in> {i, j}"
    and "closeWith b s (persistent_post env k) (persistent_post env j) (map_option (transport_post env) ep)
      signal ctx joined already w = (r, w')"
  shows "if already then w' = w else
    \<exists>g d. wire w' = wire w @ g @ d \<and>
      opt_msg (signal_request b (endpoint s) (shellID s) (commandID s)) g \<and>
      opt_msg (delete_request b (endpoint s) (shellID s)) d \<and>
      (\<not> signal \<longrightarrow> g = []) \<and> (\<not> unknown_shell r \<longrightarrow> d \<noteq> []) \<and>
      (r = None \<and> signal \<and> commandID s \<noteq> [] \<longrightarrow> g \<noteq> [])"
proof (cases already)
  case True
  with assms(2) show ?thesis by (auto simp: closeWith_def split: if_splits)
next
  case False
  with assms(2) have c: "closeWith b s (persistent_post env k) (persistent_post env j)
      (map_option (transport_post env) ep) signal ctx joined False w = (r, w')" by simp
  obtain g d where "wire w' = wire w @ g @ d"
    and "opt_msg (signal_request b (endpoint s) (shellID s) (commandID s)) g"
    and "opt_msg (delete_request b (endpoint s) (shellID s)) d" and "\<not> signal \<Longrightarrow> g = []"
    and "\<And>e. r = Some e \<Longrightarrow> \<not> errors_is e ErrRemoteStateUnknown \<Longrightarrow> d \<noteq> []"
    and "r = None \<Longrightarrow> d \<noteq> [] \<and> (signal \<and> commandID s \<noteq> [] \<longrightarrow> g \<noteq> [])"
    by (rule lanes.closed [OF persistent.poster_axioms c]) blast
  then have "wire w' = wire w @ g @ d \<and>
      opt_msg (signal_request b (endpoint s) (shellID s) (commandID s)) g \<and>
      opt_msg (delete_request b (endpoint s) (shellID s)) d \<and>
      (\<not> signal \<longrightarrow> g = []) \<and> (\<not> unknown_shell r \<longrightarrow> d \<noteq> []) \<and>
      (r = None \<and> signal \<and> commandID s \<noteq> [] \<longrightarrow> g \<noteq> [])"
    by (cases r) (auto simp: unknown_shell_def)
  with False show ?thesis by auto
qed

lemma script_signaled:
  "closeWith script_builders script_session (persistent_post script_env 1) (persistent_post script_env 1)
     (map_option (transport_post script_env) None) True (\<lambda>w. None) True False (script_world [''bad'', ''deleted''] []) =
   (Some (Sentinel ErrCleanupFailed), script_world [] [(1, ''signal''), (1, ''delete'')])"
  by (simp add: closeWith_def close_signal_def close_delete_def Let_def script_reads script_defs wsTransfer_def)

theorem close_outcome_witness:
  "\<exists>g d. [''signal'', ''delete''] = g @ d \<and> opt_msg ''signal'' g \<and> opt_msg ''delete'' d \<and> d \<noteq> []"
proof -
  have "(1::nat) \<in> {0, 1}" by simp
  from close_outcome [OF this script_signaled] show ?thesis
    by (simp add: wire_def script_world_def script_builders_def unknown_shell_def)
qed

end
