(* ===== verification/Json.thy ===== *)
theory Json
  imports Go_Text Utf8
begin

text \<open>
  The part of \<open>encoding/json\<close> that \<open>readRecord\<close> of \<open>internal/remote/transfer_codec.go\<close> calls: the byte
  scanner that finds the end of one value, the unquoting of strings, and the reading of a raw value
  into a string or a number.  The scanner is the library's state machine, with the stack of open
  objects and arrays; a record is at most 4096 bytes, below the library's nesting limit.
\<close>

subsection \<open>The scanner\<close>

datatype json_ctx = In_key | In_val | In_arr

datatype json_state =
    Begin_value | Begin_value_or_end | Begin_key | Begin_key_or_end | End_value
  | In_string | In_escape | In_hex nat | In_literal bytes
  | Num_neg | Num_zero | Num_int | Num_dot | Num_frac | Num_e | Num_sign | Num_exp

text \<open>After a byte: go on, the value ended before this byte, it ended with it, or an error.\<close>

datatype json_move = Go_on json_state "json_ctx list" | Ended | Closed | Failed

definition json_space :: "char \<Rightarrow> bool" where
  "json_space c \<longleftrightarrow> c = CHR 0x20 \<or> c = CHR 0x09 \<or> c = CHR 0x0D \<or> c = CHR 0x0A"

definition is_digit :: "char \<Rightarrow> bool" where
  "is_digit c \<longleftrightarrow> CHR ''0'' \<le> c \<and> c \<le> CHR ''9''"

definition is_hex :: "char \<Rightarrow> bool" where
  "is_hex c \<longleftrightarrow> is_digit c \<or> (CHR ''a'' \<le> c \<and> c \<le> CHR ''f'') \<or> (CHR ''A'' \<le> c \<and> c \<le> CHR ''F'')"

text \<open>Closing the innermost object or array.\<close>

definition json_pop :: "json_ctx list \<Rightarrow> json_move" where
  "json_pop stk = (if stk = [] then Closed else Go_on End_value stk)"

fun end_value :: "json_ctx list \<Rightarrow> char \<Rightarrow> json_move" where
  "end_value [] c = Ended"
| "end_value (k # stk) c =
     (if json_space c then Go_on End_value (k # stk)
      else case k of
        In_key \<Rightarrow> if c = CHR '':'' then Go_on Begin_value (In_val # stk) else Failed
      | In_val \<Rightarrow>
          if c = CHR '','' then Go_on Begin_key (In_key # stk)
          else if c = CHR 0x7D then json_pop stk else Failed
      | In_arr \<Rightarrow>
          if c = CHR '','' then Go_on Begin_value (In_arr # stk)
          else if c = CHR '']'' then json_pop stk else Failed)"

definition begin_value :: "json_ctx list \<Rightarrow> char \<Rightarrow> json_move" where
  "begin_value stk c =
     (if json_space c then Go_on Begin_value stk
      else if c = CHR 0x7B then Go_on Begin_key_or_end (In_key # stk)
      else if c = CHR ''['' then Go_on Begin_value_or_end (In_arr # stk)
      else if c = CHR 0x22 then Go_on In_string stk
      else if c = CHR ''-'' then Go_on Num_neg stk
      else if c = CHR ''0'' then Go_on Num_zero stk
      else if c = CHR ''t'' then Go_on (In_literal ''rue'') stk
      else if c = CHR ''f'' then Go_on (In_literal ''alse'') stk
      else if c = CHR ''n'' then Go_on (In_literal ''ull'') stk
      else if is_digit c then Go_on Num_int stk
      else Failed)"

definition begin_key :: "json_ctx list \<Rightarrow> char \<Rightarrow> json_move" where
  "begin_key stk c =
     (if json_space c then Go_on Begin_key stk
      else if c = CHR 0x22 then Go_on In_string stk else Failed)"

definition num_zero :: "json_ctx list \<Rightarrow> char \<Rightarrow> json_move" where
  "num_zero stk c =
     (if c = CHR ''.'' then Go_on Num_dot stk
      else if c = CHR ''e'' \<or> c = CHR ''E'' then Go_on Num_e stk
      else end_value stk c)"

definition num_sign :: "json_ctx list \<Rightarrow> char \<Rightarrow> json_move" where
  "num_sign stk c = (if is_digit c then Go_on Num_exp stk else Failed)"

fun json_step :: "json_state \<Rightarrow> json_ctx list \<Rightarrow> char \<Rightarrow> json_move" where
  "json_step Begin_value stk c = begin_value stk c"
| "json_step Begin_value_or_end stk c =
     (if json_space c then Go_on Begin_value_or_end stk
      else if c = CHR '']'' then end_value stk c else begin_value stk c)"
| "json_step Begin_key stk c = begin_key stk c"
| "json_step Begin_key_or_end stk c =
     (if json_space c then Go_on Begin_key_or_end stk
      else if c = CHR 0x7D then end_value (In_val # tl stk) c else begin_key stk c)"
| "json_step End_value stk c = end_value stk c"
| "json_step In_string stk c =
     (if c = CHR 0x22 then Go_on End_value stk
      else if c = CHR 0x5C then Go_on In_escape stk
      else if c < CHR 0x20 then Failed else Go_on In_string stk)"
| "json_step In_escape stk c =
     (if c \<in> set (''bfnrt/'' @ [CHR 0x5C, CHR 0x22]) then Go_on In_string stk
      else if c = CHR ''u'' then Go_on (In_hex 4) stk else Failed)"
| "json_step (In_hex k) stk c =
     (if is_hex c then Go_on (if k \<le> 1 then In_string else In_hex (k - 1)) stk else Failed)"
| "json_step (In_literal xs) stk c =
     (case xs of
        [] \<Rightarrow> Failed
      | x # rest \<Rightarrow> if c = x then Go_on (if rest = [] then End_value else In_literal rest) stk else Failed)"
| "json_step Num_neg stk c =
     (if c = CHR ''0'' then Go_on Num_zero stk else if is_digit c then Go_on Num_int stk else Failed)"
| "json_step Num_zero stk c = num_zero stk c"
| "json_step Num_int stk c = (if is_digit c then Go_on Num_int stk else num_zero stk c)"
| "json_step Num_dot stk c = (if is_digit c then Go_on Num_frac stk else Failed)"
| "json_step Num_frac stk c =
     (if is_digit c then Go_on Num_frac stk
      else if c = CHR ''e'' \<or> c = CHR ''E'' then Go_on Num_e stk else end_value stk c)"
| "json_step Num_e stk c =
     (if c = CHR ''+'' \<or> c = CHR ''-'' then Go_on Num_sign stk else num_sign stk c)"
| "json_step Num_sign stk c = num_sign stk c"
| "json_step Num_exp stk c = (if is_digit c then Go_on Num_exp stk else end_value stk c)"

text \<open>\<open>readValue\<close>: one value, and the bytes behind it; at the end of the input a value that could end
  there does.\<close>

fun scan_value :: "json_state \<Rightarrow> json_ctx list \<Rightarrow> bytes \<Rightarrow> (bytes \<times> bytes) option" where
  "scan_value st stk [] = (if json_step st stk (CHR 0x20) = Ended then Some ([], []) else None)"
| "scan_value st stk (c # s) =
     (case json_step st stk c of
        Go_on st' stk' \<Rightarrow> map_option (\<lambda>(v, rest). (c # v, rest)) (scan_value st' stk' s)
      | Ended \<Rightarrow> Some ([], c # s)
      | Closed \<Rightarrow> Some ([c], s)
      | Failed \<Rightarrow> None)"

definition skip_spaces :: "bytes \<Rightarrow> bytes" where
  "skip_spaces s = dropWhile json_space s"

definition read_value :: "bytes \<Rightarrow> (bytes \<times> bytes) option" where
  "read_value s = scan_value Begin_value [] (skip_spaces s)"

subsection \<open>Strings\<close>

definition hex_val :: "char \<Rightarrow> nat option" where
  "hex_val c =
     (if is_digit c then Some (byte_val c - 48)
      else if CHR ''a'' \<le> c \<and> c \<le> CHR ''f'' then Some (byte_val c - 87)
      else if CHR ''A'' \<le> c \<and> c \<le> CHR ''F'' then Some (byte_val c - 55) else None)"

text \<open>\<open>getu4\<close>: a \<open>\\u\<close> escape with four hexadecimal digits in front.\<close>

definition getu4 :: "bytes \<Rightarrow> nat option" where
  "getu4 s =
     (case s of
        x # u # a # b # c # d # rest \<Rightarrow>
          if x \<noteq> CHR 0x5C \<or> u \<noteq> CHR ''u'' then None
          else (case (hex_val a, hex_val b, hex_val c, hex_val d) of
              (Some p, Some q, Some r, Some t) \<Rightarrow> Some (((p * 16 + q) * 16 + r) * 16 + t)
            | _ \<Rightarrow> None)
      | _ \<Rightarrow> None)"

definition is_surrogate :: "nat \<Rightarrow> bool" where
  "is_surrogate r \<longleftrightarrow> 0xD800 \<le> r \<and> r < 0xE000"

text \<open>\<open>utf16.DecodeRune\<close>.\<close>

definition join_surrogates :: "nat \<Rightarrow> nat option \<Rightarrow> nat option" where
  "join_surrogates r1 r2 =
     (case r2 of
        Some r2 \<Rightarrow>
          if 0xD800 \<le> r1 \<and> r1 < 0xDC00 \<and> 0xDC00 \<le> r2 \<and> r2 < 0xE000
          then Some ((r1 - 0xD800) * 0x400 + (r2 - 0xDC00) + 0x10000) else None
      | None \<Rightarrow> None)"

definition unescape :: "char \<Rightarrow> char" where
  "unescape c =
     (if c = CHR ''b'' then CHR 0x08 else if c = CHR ''f'' then CHR 0x0C
      else if c = CHR ''n'' then CHR 0x0A else if c = CHR ''r'' then CHR 0x0D
      else if c = CHR ''t'' then CHR 0x09 else c)"

text \<open>\<open>unquote\<close> on the bytes between the quotes.  Invalid UTF-8 becomes the replacement character.\<close>

function unquote :: "bytes \<Rightarrow> bytes option" where
  "unquote s =
     (case s of
        [] \<Rightarrow> Some []
      | c # s' \<Rightarrow>
          if c = CHR 0x22 \<or> c < CHR 0x20 then None
          else if c = CHR 0x5C then
            (case s' of
               [] \<Rightarrow> None
             | e # rest \<Rightarrow>
                 if e = CHR ''u'' then
                   (case getu4 s of
                      None \<Rightarrow> None
                    | Some r \<Rightarrow>
                        if is_surrogate r then
                          (case join_surrogates r (getu4 (drop 6 s)) of
                             Some p \<Rightarrow> map_option ((@) (encode_rune p)) (unquote (drop 12 s))
                           | None \<Rightarrow> map_option ((@) (encode_rune rune_error)) (unquote (drop 6 s)))
                        else map_option ((@) (encode_rune r)) (unquote (drop 6 s)))
                 else if e \<in> set (''bfnrt/'' @ [CHR 0x5C, CHR 0x22, CHR 0x27])
                 then map_option ((#) (unescape e)) (unquote rest)
                 else None)
          else if c < CHR 0x80 then map_option ((#) c) (unquote s')
          else (case decode_rune s of (r, k) \<Rightarrow> map_option ((@) (encode_rune r)) (unquote (drop k s))))"
  by pat_completeness auto
termination
proof (relation "measure length", goal_cases)
  case (7 s c s' r k)
  then show ?case using decode_rune_shrinks [of s r k] by simp
qed auto

declare unquote.simps [simp del]

text \<open>A raw value that begins and ends with a quote.\<close>

definition string_value :: "bytes \<Rightarrow> bytes option" where
  "string_value raw = unquote (butlast (tl raw))"

subsection \<open>Unmarshalling\<close>

text \<open>\<open>json.Unmarshal\<close> into a string: \<open>null\<close> leaves the zero value.\<close>

definition unmarshal_string :: "bytes \<Rightarrow> bytes option" where
  "unmarshal_string raw =
     (if raw = ''null'' then Some []
      else if has_prefix raw [CHR 0x22] then string_value raw else None)"

definition valid_number :: "bytes \<Rightarrow> bool" where
  "valid_number s \<longleftrightarrow>
     (case s of [] \<Rightarrow> False | c # _ \<Rightarrow> (c = CHR ''-'' \<or> is_digit c) \<and> read_value s = Some (s, []))"

text \<open>\<open>json.Unmarshal\<close> into a \<open>json.Number\<close>: a number, the text of a quoted number, or \<open>null\<close>, which
  leaves it empty.\<close>

definition unmarshal_number :: "bytes \<Rightarrow> bytes option" where
  "unmarshal_number raw =
     (case raw of
        [] \<Rightarrow> None
      | c # _ \<Rightarrow>
          if raw = ''null'' then Some []
          else if c = CHR 0x22 then
            (case string_value raw of
               Some t \<Rightarrow> if valid_number t then Some t else None
             | None \<Rightarrow> None)
          else if c = CHR ''-'' \<or> is_digit c then Some raw
          else None)"

end
