(* ===== verification/Transfer_Record.thy ===== *)
theory Transfer_Record
  imports Json Remote_Path Go_Errors
begin

text \<open>
  \<open>readRecord\<close> of \<open>internal/remote/transfer_codec.go\<close>: the control record with which the remote
  scripts report what they wrote.  Errors keep the return they come from and drop the decoder's text.
\<close>

record transfer_record =
  Version :: int
  ID :: bytes
  Bytes :: int
  SHA256 :: bytes

datatype record_error =
    Rec_read goerr | Rec_too_large | Rec_no_object | Rec_key | Rec_unknown_key bytes
  | Rec_duplicate_key bytes | Rec_value bytes | Rec_version_number | Rec_version_range
  | Rec_id_string | Rec_bytes_number | Rec_bytes_integer | Rec_sha_string | Rec_close | Rec_trailing
  | Rec_missing_key | Rec_version int | Rec_id_mismatch | Rec_bytes_negative | Rec_sha_length
  | Rec_sha_hex

definition transferRecordVersion :: int where "transferRecordVersion = 1"
definition transferRecordMaxSize :: nat where "transferRecordMaxSize = 4096"

definition required_keys :: "bytes list" where
  "required_keys = [''version'', ''id'', ''bytes'', ''sha256'']"

subsection \<open>Fields\<close>

text \<open>\<open>json.Number.Int64\<close> is \<open>strconv.ParseInt\<close> in base 10.\<close>

definition parseInt64 :: "bytes \<Rightarrow> record_error + int" where
  "parseInt64 raw =
     (case unmarshal_number raw of
        None \<Rightarrow> Inl Rec_bytes_number
      | Some n \<Rightarrow> (case atoi n of None \<Rightarrow> Inl Rec_bytes_integer | Some i \<Rightarrow> Inr i))"

definition set_field :: "bytes \<Rightarrow> bytes \<Rightarrow> transfer_record \<Rightarrow> record_error + transfer_record" where
  "set_field key raw r =
     (if key = ''version'' then
        (case unmarshal_number raw of
           None \<Rightarrow> Inl Rec_version_number
         | Some n \<Rightarrow>
             (case atoi n of
                None \<Rightarrow> Inl Rec_version_range
              | Some i \<Rightarrow> check (i < 0 \<or> i > 2 ^ 31 - 1) Rec_version_range (Inr (r\<lparr>Version := i\<rparr>))))
      else if key = ''id'' then
        (case unmarshal_string raw of None \<Rightarrow> Inl Rec_id_string | Some s \<Rightarrow> Inr (r\<lparr>ID := s\<rparr>))
      else if key = ''bytes'' then and_then (parseInt64 raw) (\<lambda>n. Inr (r\<lparr>Bytes := n\<rparr>))
      else if key = ''sha256'' then
        (case unmarshal_string raw of None \<Rightarrow> Inl Rec_sha_string | Some s \<Rightarrow> Inr (r\<lparr>SHA256 := s\<rparr>))
      else Inr r)"

subsection \<open>The member loop\<close>

text \<open>\<open>dec.More\<close>.\<close>

definition more_members :: "bytes \<Rightarrow> bool" where
  "more_members s \<longleftrightarrow>
     (case skip_spaces s of [] \<Rightarrow> False | c # _ \<Rightarrow> c \<noteq> CHR '']'' \<and> c \<noteq> CHR 0x7D)"

text \<open>\<open>dec.Token\<close> where a key is due: behind the first key a comma comes first.\<close>

definition read_key :: "bool \<Rightarrow> bytes \<Rightarrow> (bytes \<times> bytes) option" where
  "read_key initial s =
     (let s = skip_spaces s;
          s = (if initial then s else if has_prefix s '','' then skip_spaces (tl s) else [])
      in if \<not> has_prefix s [CHR 0x22] then None
         else case read_value s of
           None \<Rightarrow> None
         | Some (raw, rest) \<Rightarrow> map_option (\<lambda>key. (key, rest)) (unmarshal_string raw))"

text \<open>\<open>dec.Decode\<close> of the value behind the colon.\<close>

definition read_member_value :: "bytes \<Rightarrow> (bytes \<times> bytes) option" where
  "read_member_value s =
     (let s = skip_spaces s in if has_prefix s '':'' then read_value (tl s) else None)"

lemma scan_value_split: "scan_value st stk s = Some (v, rest) \<Longrightarrow> s = v @ rest"
  by (induction st stk s arbitrary: v rule: scan_value.induct)
     (auto split: json_move.splits if_splits)

lemma skip_spaces_length: "length (skip_spaces s) \<le> length s"
  by (simp add: skip_spaces_def length_dropWhile_le)

lemma read_value_length: "read_value s = Some (v, rest) \<Longrightarrow> length rest \<le> length s"
  using skip_spaces_length [of s] by (auto simp: read_value_def dest!: scan_value_split)

lemma read_key_length: "read_key initial s = Some (key, rest) \<Longrightarrow> length rest \<le> length s"
  using skip_spaces_length [of s] skip_spaces_length [of "tl (skip_spaces s)"]
  by (auto simp: read_key_def Let_def dest!: read_value_length split: if_splits option.splits)

lemma read_member_value_length:
  "read_member_value s = Some (raw, rest) \<Longrightarrow> length rest < length s"
  using skip_spaces_length [of s]
  by (cases "skip_spaces s")
     (auto simp: read_member_value_def Let_def has_prefix_def dest!: read_value_length split: if_splits)

function read_members ::
  "bool \<Rightarrow> bytes list \<Rightarrow> transfer_record \<Rightarrow> bytes \<Rightarrow> record_error + bytes list \<times> transfer_record \<times> bytes" where
  "read_members initial seen r s =
     (if \<not> more_members s then Inr (seen, r, s)
      else case read_key initial s of
        None \<Rightarrow> Inl Rec_key
      | Some (key, s1) \<Rightarrow>
          check (key \<notin> set required_keys) (Rec_unknown_key key) (
          check (key \<in> set seen) (Rec_duplicate_key key) (
            (case read_member_value s1 of
               None \<Rightarrow> Inl (Rec_value key)
             | Some (raw, s2) \<Rightarrow>
                 and_then (set_field key raw r) (\<lambda>r'. read_members False (key # seen) r' s2)))))"
  by pat_completeness auto
termination
proof (relation "measure (\<lambda>(initial, seen, r, s). length s)", goal_cases)
  case (2 initial seen r s x key s1 y raw s2 r')
  then have "length s1 \<le> length s" "length s2 < length s1"
    using read_key_length [of initial s key s1] read_member_value_length [of s1 raw s2] by auto
  then show ?case by simp
qed simp

declare read_members.simps [simp del]

subsection \<open>readRecord\<close>

definition empty_record :: transfer_record where
  "empty_record = \<lparr>Version = 0, ID = [], Bytes = 0, SHA256 = []\<rparr>"

text \<open>The checks behind the closing brace.\<close>

definition check_record :: "bytes \<Rightarrow> bytes list \<Rightarrow> transfer_record \<Rightarrow> record_error + transfer_record" where
  "check_record expectedID seen r =
     check (\<exists>key \<in> set required_keys. key \<notin> set seen) Rec_missing_key (
     check (Version r \<noteq> transferRecordVersion) (Rec_version (Version r)) (
     check (ID r \<noteq> expectedID) Rec_id_mismatch (
     check (Bytes r < 0) Rec_bytes_negative (
     check (length (SHA256 r) \<noteq> 64) Rec_sha_length (
     check (\<not> list_all lower_hex (SHA256 r)) Rec_sha_hex (Inr r))))))"

text \<open>\<open>content\<close> is what the reader delivers before it ends, or fails with \<open>err\<close>; the limited reader stops
  after one byte too many.\<close>

definition readRecord :: "bytes \<Rightarrow> goerr option \<Rightarrow> bytes \<Rightarrow> record_error + transfer_record" where
  "readRecord content err expectedID =
     (case (if length content \<le> transferRecordMaxSize then err else None) of
        Some e \<Rightarrow> Inl (Rec_read e)
      | None \<Rightarrow>
          check (length content > transferRecordMaxSize) Rec_too_large (
          check (\<not> has_prefix (skip_spaces content) [CHR 0x7B]) Rec_no_object (
          and_then (read_members True [] empty_record (tl (skip_spaces content))) (\<lambda>(seen, r, rest).
          check (\<not> has_prefix (skip_spaces rest) [CHR 0x7D]) Rec_close (
          check (skip_spaces (tl (skip_spaces rest)) \<noteq> []) Rec_trailing (
          check_record expectedID seen r))))))"

subsection \<open>What a record guarantees\<close>

lemma skip_spaces_split: "\<exists>a. s = a @ skip_spaces s \<and> (\<forall>c \<in> set a. json_space c)"
  unfolding skip_spaces_def by (metis set_takeWhileD takeWhile_dropWhile_id)

lemma skip_spaces_Nil: "skip_spaces s = [] \<Longrightarrow> c \<in> set s \<Longrightarrow> json_space c"
  by (auto simp: skip_spaces_def dropWhile_eq_Nil_conv)

lemma has_prefix_one: "has_prefix s [c] \<longleftrightarrow> (\<exists>t. s = c # t)"
  by (cases s) (auto simp: has_prefix_def)

lemma atoi_bound: "atoi s = Some i \<Longrightarrow> - (2 ^ 63) \<le> i \<and> i < 2 ^ 63"
  by (auto simp: atoi_def Let_def split: if_splits option.splits)

lemma set_field_bytes:
  "set_field key raw r = Inr r' \<Longrightarrow> Bytes r < 2 ^ 63 \<Longrightarrow> Bytes r' < 2 ^ 63"
  by (auto simp: set_field_def parseInt64_def dest: atoi_bound split: if_splits option.splits)

lemma read_value_suffix: "read_value s = Some (v, rest) \<Longrightarrow> \<exists>a. s = a @ rest"
proof -
  assume "read_value s = Some (v, rest)"
  then have "skip_spaces s = v @ rest" unfolding read_value_def by (rule scan_value_split)
  with skip_spaces_split [of s] show ?thesis by (metis append.assoc)
qed

lemma tail_suffix: "\<exists>a. s = a @ tl (skip_spaces s)"
proof -
  obtain a where "s = a @ skip_spaces s" using skip_spaces_split by blast
  moreover have "skip_spaces s = take 1 (skip_spaces s) @ tl (skip_spaces s)"
    by (cases "skip_spaces s") simp_all
  ultimately have "s = (a @ take 1 (skip_spaces s)) @ tl (skip_spaces s)" by simp
  then show ?thesis by blast
qed

lemma read_key_suffix:
  assumes "read_key initial s = Some (key, rest)"
  shows "\<exists>a. s = a @ rest"
proof -
  obtain b where b: "s = b @ skip_spaces s" using skip_spaces_split by blast
  obtain c where c: "s = c @ skip_spaces (tl (skip_spaces s))"
    using tail_suffix [of s] skip_spaces_split [of "tl (skip_spaces s)"] by (metis append.assoc)
  from assms obtain raw where
    "read_value (if initial then skip_spaces s else skip_spaces (tl (skip_spaces s))) = Some (raw, rest)"
    by (auto simp: read_key_def Let_def has_prefix_def split: if_splits option.splits)
  then show ?thesis using b c by (cases initial) (auto dest!: read_value_suffix, (metis append.assoc)+)
qed

lemma read_member_value_suffix:
  assumes "read_member_value s = Some (raw, rest)"
  shows "\<exists>a. s = a @ rest"
proof -
  from assms have "read_value (tl (skip_spaces s)) = Some (raw, rest)"
    by (auto simp: read_member_value_def Let_def split: if_splits)
  then show ?thesis using read_value_suffix tail_suffix [of s] by (metis append.assoc)
qed

lemma read_members_result:
  "read_members initial seen r s = Inr (seen', r', rest) \<Longrightarrow>
   (Bytes r < 2 ^ 63 \<longrightarrow> Bytes r' < 2 ^ 63) \<and> (\<exists>a. s = a @ rest)"
proof (induction initial seen r s rule: read_members.induct)
  case (1 initial seen r s)
  show ?case
  proof (cases "more_members s")
    case True
    with 1(2) obtain key s1 raw s2 r1 where
      k: "read_key initial s = Some (key, s1)" "key \<in> set required_keys" "key \<notin> set seen"
        "read_member_value s1 = Some (raw, s2)" "set_field key raw r = Inr r1"
      and rest: "read_members False (key # seen) r1 s2 = Inr (seen', r', rest)"
      by (simp add: read_members.simps [of initial seen r s] split: option.splits prod.splits) blast
    have "(Bytes r1 < 2 ^ 63 \<longrightarrow> Bytes r' < 2 ^ 63) \<and> (\<exists>a. s2 = a @ rest)"
      by (rule 1(1)) (use True k rest in auto)
    with set_field_bytes [OF k(5)] read_key_suffix [OF k(1)] read_member_value_suffix [OF k(4)]
    show ?thesis by (metis append.assoc)
  next
    case False
    with 1(2) show ?thesis by (simp add: read_members.simps [of initial seen r s])
  qed
qed

lemma record_identity: "readRecord content err expectedID = Inr r \<Longrightarrow> Version r = 1 \<and> ID r = expectedID"
  by (auto simp: readRecord_def check_record_def transferRecordVersion_def check_def
      split: option.splits if_splits sum.splits prod.splits)

text \<open>C28: An accepted control record is one JSON object and nothing else, at most 4096 bytes long, and
  says what the caller asked about: version 1, the transfer's own identifier, a byte count that is a
  non-negative 64-bit integer and a lower-case SHA-256.\<close>

theorem readRecord_sound:
  assumes "readRecord content err expectedID = Inr r"
  shows "length content \<le> 4096 \<and> Version r = 1 \<and> ID r = expectedID \<and> 0 \<le> Bytes r \<and> Bytes r < 2 ^ 63 \<and>
    length (SHA256 r) = 64 \<and> list_all lower_hex (SHA256 r) \<and>
    (\<exists>a m b. content = a @ CHR 0x7B # m @ CHR 0x7D # b \<and> (\<forall>c \<in> set (a @ b). json_space c))"
proof -
  from assms obtain seen rest where len: "length content \<le> 4096"
    and h: "has_prefix (skip_spaces content) [CHR 0x7B]"
    and m: "read_members True [] empty_record (tl (skip_spaces content)) = Inr (seen, r, rest)"
    and t: "has_prefix (skip_spaces rest) [CHR 0x7D]" "skip_spaces (tl (skip_spaces rest)) = []"
    and c: "check_record expectedID seen r = Inr r"
    by (auto simp: readRecord_def transferRecordMaxSize_def check_record_def split: option.splits if_splits)
  obtain a where a: "content = a @ skip_spaces content" "\<forall>c \<in> set a. json_space c"
    using skip_spaces_split by blast
  obtain u where u: "skip_spaces content = CHR 0x7B # u" using h by (auto simp: has_prefix_one)
  from read_members_result [OF m] u obtain m' where m': "u = m' @ rest" "Bytes r < 2 ^ 63"
    by (auto simp: empty_record_def)
  obtain d where d: "rest = d @ skip_spaces rest" using skip_spaces_split by blast
  obtain b where b: "skip_spaces rest = CHR 0x7D # b" using t by (auto simp: has_prefix_one)
  have "\<forall>c \<in> set b. json_space c" using t(2) b skip_spaces_Nil by auto
  moreover have "content = a @ CHR 0x7B # (m' @ d) @ CHR 0x7D # b" using a(1) u m'(1) d b by simp
  ultimately have shape: "\<exists>a m b. content = a @ CHR 0x7B # m @ CHR 0x7D # b \<and> (\<forall>c \<in> set (a @ b). json_space c)"
    using a(2) by (metis Un_iff set_append)
  with c len m'(2) shape show ?thesis
    by (auto simp: check_record_def transferRecordVersion_def)
qed

subsection \<open>The records the scripts write\<close>

text \<open>A byte that stands for itself in a JSON string.\<close>

definition plain_char :: "char \<Rightarrow> bool" where
  "plain_char c \<longleftrightarrow> c \<noteq> CHR 0x22 \<and> c \<noteq> CHR 0x5C \<and> CHR 0x20 \<le> c \<and> c < CHR 0x80"

definition quoted :: "bytes \<Rightarrow> bytes" where
  "quoted x = CHR 0x22 # x @ [CHR 0x22]"

text \<open>The record of \<open>upload.ps1\<close> and \<open>download.ps1\<close>.\<close>

definition record_text :: "bytes \<Rightarrow> nat \<Rightarrow> bytes \<Rightarrow> bytes" where
  "record_text i n h =
     CHR 0x7B # quoted ''version'' @ '':'' @ ''1'' @ '','' @ quoted ''id'' @ '':'' @ quoted i @ '','' @
     quoted ''bytes'' @ '':'' @ dec n @ '','' @ quoted ''sha256'' @ '':'' @ quoted h @ [CHR 0x7D]"

lemma skip_spaces_stop [simp]: "\<not> json_space c \<Longrightarrow> skip_spaces (c # s) = c # s"
  by (simp add: skip_spaces_def)

lemma json_space_simps [simp]:
  "\<not> json_space (CHR 0x22)" "\<not> json_space (CHR '':'')" "\<not> json_space (CHR '','')"
  "\<not> json_space (CHR 0x7B)" "\<not> json_space (CHR 0x7D)"
  by (simp_all add: json_space_def)

lemma plain_facts:
  assumes "plain_char c"
  shows "c \<noteq> CHR 0x22" "c \<noteq> CHR 0x5C" "\<not> c < CHR 0x20" "c < CHR 0x80"
  using assms by (simp_all add: plain_char_def less_char_def less_eq_char_def)

lemma scan_string:
  "\<forall>c \<in> set x. plain_char c \<Longrightarrow>
   scan_value In_string [] (x @ CHR 0x22 # d # s) = Some (x @ [CHR 0x22], d # s)"
  by (induction x) (simp_all add: plain_facts)

lemma read_quoted:
  "\<forall>c \<in> set x. plain_char c \<Longrightarrow> read_value (quoted x @ d # s) = Some (quoted x, d # s)"
  by (simp add: read_value_def quoted_def begin_value_def scan_string)

lemma unquote_plain: "\<forall>c \<in> set x. plain_char c \<Longrightarrow> unquote x = Some x"
proof (induction x)
  case (Cons c x)
  then show ?case by (simp add: unquote.simps [of "c # x"] plain_facts)
qed (simp add: unquote.simps)

lemma unmarshal_quoted: "\<forall>c \<in> set x. plain_char c \<Longrightarrow> unmarshal_string (quoted x) = Some x"
  by (simp add: unmarshal_string_def quoted_def has_prefix_def string_value_def unquote_plain)

lemma is_digit_digit: "n < 10 \<Longrightarrow> is_digit (digit n)"
  using digit_val_digit [of n] by (auto simp: is_digit_def digit_val_def split: if_splits)

definition number_end :: "char \<Rightarrow> bool" where
  "number_end d \<longleftrightarrow> \<not> is_digit d \<and> d \<noteq> CHR ''.'' \<and> d \<noteq> CHR ''e'' \<and> d \<noteq> CHR ''E''"

lemma scan_digits:
  "\<forall>c \<in> set x. is_digit c \<Longrightarrow> number_end d \<Longrightarrow> scan_value Num_int [] (x @ d # s) = Some (x, d # s)"
  by (induction x) (auto simp: number_end_def num_zero_def)

lemma hd_dec: "0 < n \<Longrightarrow> \<exists>k x. dec n = digit k # x \<and> 0 < k \<and> k < 10"
proof (induction n rule: dec.induct)
  case (1 n)
  show ?case
  proof (cases "n < 10")
    case True
    with 1(2) show ?thesis by (auto simp: dec.simps [of n])
  next
    case False
    then have "0 < n div 10" by auto
    with False 1(1) obtain k x where "dec (n div 10) = digit k # x" "0 < k" "k < 10" by blast
    with False have "dec n = digit k # x @ [digit (n mod 10)]" by (simp add: dec.simps [of n])
    with \<open>0 < k\<close> \<open>k < 10\<close> show ?thesis by blast
  qed
qed

lemma dec_digits: "c \<in> set (dec n) \<Longrightarrow> is_digit c"
  using digits_dec [of c n] is_digit_digit by auto

lemma digit_value: "n < 10 \<Longrightarrow> byte_val (digit n) = 48 + n"
  by (simp add: digit_def)

lemma read_number:
  assumes "number_end d"
  shows "read_value (dec n @ d # s) = Some (dec n, d # s)"
proof (cases "n = 0")
  case True
  have "dec 0 = ''0''" 
    by (simp add: dec.simps [of 0] digit_def byte_val_eqI [of "CHR ''0''"])
  with assms True show ?thesis
    by (simp add: read_value_def json_space_def begin_value_def num_zero_def number_end_def)
next
  case False
  then obtain k x where k: "dec n = digit k # x" "0 < k" "k < 10" using hd_dec by blast
  have b: "byte_val (digit k) = 48 + k" using k by (simp add: digit_value)
  then have ne: "digit k \<noteq> c" if "byte_val c < 49 \<or> 57 < byte_val c" for c using that k by auto
  have "begin_value [] (digit k) = Go_on Num_int []"
    using k ne is_digit_digit [OF k(3)] by (simp add: begin_value_def json_space_def)
  moreover have "\<not> json_space (digit k)" using ne by (simp add: json_space_def)
  moreover have "\<forall>c \<in> set x. is_digit c" using dec_digits [of _ n] k(1) by simp
  ultimately show ?thesis using assms by (simp add: read_value_def k(1) scan_digits)
qed

text \<open>A number in quotes is read like the number itself.\<close>

lemma scan_digits_end: "\<forall>c \<in> set x. is_digit c \<Longrightarrow> scan_value Num_int [] x = Some (x, [])"
  by (induction x) (auto simp: num_zero_def is_digit_def less_eq_char_def)

lemma valid_number_dec: "0 < n \<Longrightarrow> valid_number (dec n)"
proof -
  assume "0 < n"
  then obtain k x where k: "dec n = digit k # x" "0 < k" "k < 10" using hd_dec by blast
  have "byte_val (digit k) = 48 + k" using k by (simp add: digit_value)
  then have ne: "digit k \<noteq> c" if "byte_val c < 49 \<or> 57 < byte_val c" for c using that k by auto
  have "begin_value [] (digit k) = Go_on Num_int []"
    using k ne is_digit_digit [OF k(3)] by (simp add: begin_value_def json_space_def)
  moreover have "\<not> json_space (digit k)" using ne by (simp add: json_space_def)
  moreover have "\<forall>c \<in> set x. is_digit c" using dec_digits [of _ n] k(1) by simp
  ultimately show ?thesis
    using is_digit_digit [OF k(3)] by (simp add: valid_number_def read_value_def k(1) scan_digits_end)
qed

lemma digit_plain_char: "is_digit c \<Longrightarrow> plain_char c"
  by (auto simp: is_digit_def plain_char_def less_eq_char_def less_char_def)

lemma quoted_count_accepted: "0 < n \<Longrightarrow> n < 2 ^ 63 \<Longrightarrow> parseInt64 (quoted (dec n)) = Inr (int n)"
proof -
  assume n: "0 < n" "n < 2 ^ 63"
  have "\<forall>c \<in> set (dec n). plain_char c" using dec_digits digit_plain_char by blast
  then have "string_value (quoted (dec n)) = Some (dec n)"
    by (simp add: string_value_def quoted_def unquote_plain)
  with n show ?thesis
    by (simp add: parseInt64_def unmarshal_number_def valid_number_dec atoi_dec quoted_def)
qed

lemma atoi_number: "n < 2 ^ 63 \<Longrightarrow> unmarshal_number (dec n) = Some (dec n)"
proof -
  obtain c x where c: "dec n = c # x" by (cases "dec n") simp_all
  then have d: "is_digit c" using dec_digits [of c n] by simp
  then have "c \<noteq> CHR ''n''" "c \<noteq> CHR 0x22" by (auto simp: is_digit_def less_eq_char_def)
  with d c show ?thesis by (simp add: unmarshal_number_def)
qed

text \<open>One member: its key is new and its value is read up to the byte \<open>d\<close>.\<close>

lemma member:
  assumes key: "key \<in> set required_keys" "key \<notin> set seen"
    and val: "read_value (v @ d # s) = Some (v, d # s)" "set_field key v r = Inr r'"
  shows "read_members initial seen r ((if initial then [] else '','') @ quoted key @ '':'' @ v @ d # s) =
    read_members False (key # seen) r' (d # s)"
proof -
  let ?pre = "if initial then [] else '',''"
  have plain: "\<forall>c \<in> set key. plain_char c"
    using key(1) by (auto simp: required_keys_def plain_char_def less_char_def less_eq_char_def)
  have q: "skip_spaces (quoted key @ t) = quoted key @ t" for t by (simp add: quoted_def)
  have "read_value (quoted key @ '':'' @ v @ d # s) = Some (quoted key, '':'' @ v @ d # s)"
    using read_quoted [OF plain, of "CHR '':''"] by simp
  then have k: "read_key initial (?pre @ quoted key @ '':'' @ v @ d # s) = Some (key, '':'' @ v @ d # s)"
    using unmarshal_quoted [OF plain] q by (simp add: read_key_def has_prefix_def) (simp add: quoted_def)
  have "more_members (?pre @ quoted key @ '':'' @ v @ d # s)"
    by (simp add: more_members_def quoted_def)
  moreover have "read_member_value ('':'' @ v @ d # s) = Some (v, d # s)"
    using val(1) by (simp add: read_member_value_def has_prefix_def)
  ultimately show ?thesis using k key val(2)
    unfolding read_members.simps [of initial seen r "?pre @ quoted key @ '':'' @ v @ d # s"] by simp
qed

lemma hex_plain: "list_all lower_hex h \<Longrightarrow> c \<in> set h \<Longrightarrow> plain_char c"
  by (auto simp: list_all_iff lower_hex_def plain_char_def less_eq_char_def less_char_def)

lemma number_ends [simp]: "number_end (CHR '','')" "number_end (CHR 0x7D)"
  by (simp_all add: number_end_def is_digit_def less_eq_char_def)

lemmas member_first = member [where initial = True, simplified]
lemmas member_next = member [where initial = False, simplified]

lemma dec_samples: "dec 1 = ''1''" "dec 12 = ''12''"
  by (simp_all add: dec.simps [of "Suc 0"] dec.simps [of 12] digit_def byte_val_eqI [of "CHR ''1''"]
      byte_val_eqI [of "CHR ''2''"])

lemma record_members:
  assumes i: "\<forall>c \<in> set i. plain_char c" and n: "n < 2 ^ 63" and h: "list_all lower_hex h"
  shows "read_members True [] empty_record (tl (record_text i n h) @ t) =
    Inr ([''sha256'', ''bytes'', ''id'', ''version''],
         \<lparr>Version = 1, ID = i, Bytes = int n, SHA256 = h\<rparr>, CHR 0x7D # t)"
proof -
  note one = dec_samples(1)
  have v: "set_field ''version'' ''1'' r = Inr (r\<lparr>Version := 1\<rparr>)" for r
    using atoi_number [of 1, unfolded one] atoi_dec [of 1, unfolded one] by (simp add: set_field_def)
  have b: "set_field ''bytes'' (dec n) r = Inr (r\<lparr>Bytes := int n\<rparr>)" for r
    using atoi_number [OF n] atoi_dec [OF n] by (simp add: set_field_def parseInt64_def)
  have hp: "\<forall>c \<in> set h. plain_char c" using hex_plain [OF h] by blast
  have ih: "set_field ''id'' (quoted i) r = Inr (r\<lparr>ID := i\<rparr>)"
    "set_field ''sha256'' (quoted h) r = Inr (r\<lparr>SHA256 := h\<rparr>)" for r
    using unmarshal_quoted [OF i] unmarshal_quoted [OF hp] by (simp_all add: set_field_def)
  have r1: "read_value (''1'' @ CHR '','' # s) = Some (''1'', CHR '','' # s)" for s
    using read_number [of "CHR '',''" 1 s, unfolded one] by simp
  have last: "\<not> more_members (CHR 0x7D # t)" by (simp add: more_members_def)
  note req = required_keys_def
  let ?s3 = "CHR '','' # quoted ''sha256'' @ CHR '':'' # quoted h @ CHR 0x7D # t"
  let ?s2 = "CHR '','' # quoted ''bytes'' @ CHR '':'' # dec n @ ?s3"
  let ?s1 = "CHR '','' # quoted ''id'' @ CHR '':'' # quoted i @ ?s2"
  have "read_members True [] empty_record (quoted ''version'' @ CHR '':'' # ''1'' @ ?s1) =
      read_members False [''version''] (empty_record\<lparr>Version := 1\<rparr>) ?s1"
    by (rule member_first) (use r1 v in \<open>simp_all add: req\<close>)
  also have "\<dots> = read_members False [''id'', ''version''] (empty_record\<lparr>Version := 1, ID := i\<rparr>) ?s2"
    by (rule member_next) (use read_quoted [OF i] ih in \<open>simp_all add: req\<close>)
  also have "\<dots> = read_members False [''bytes'', ''id'', ''version'']
      (empty_record\<lparr>Version := 1, ID := i, Bytes := int n\<rparr>) ?s3"
    by (rule member_next) (use read_number b in \<open>simp_all add: req\<close>)
  also have "\<dots> = read_members False [''sha256'', ''bytes'', ''id'', ''version'']
      (empty_record\<lparr>Version := 1, ID := i, Bytes := int n, SHA256 := h\<rparr>) (CHR 0x7D # t)"
    by (rule member_next) (use read_quoted [OF hp] ih in \<open>simp_all add: req\<close>)
  also have "\<dots> = Inr ([''sha256'', ''bytes'', ''id'', ''version''],
      empty_record\<lparr>Version := 1, ID := i, Bytes := int n, SHA256 := h\<rparr>, CHR 0x7D # t)"
    by (simp add: read_members.simps last)
  finally show ?thesis by (simp add: record_text_def empty_record_def)
qed

lemma read_record_text:
  assumes "\<forall>c \<in> set i. plain_char c" and "n < 2 ^ 63" and "list_all lower_hex h" and "length h = 64"
    and "\<forall>c \<in> set t. json_space c" and "length (record_text i n h @ t) \<le> 4096"
  shows "readRecord (record_text i n h @ t) None i = Inr \<lparr>Version = 1, ID = i, Bytes = int n, SHA256 = h\<rparr>"
proof -
  have s: "skip_spaces (record_text i n h @ t) = record_text i n h @ t" by (simp add: record_text_def)
  have tl: "tl (record_text i n h @ t) = tl (record_text i n h) @ t" by (simp add: record_text_def)
  have e: "skip_spaces t = []" using assms(5) by (simp add: skip_spaces_def)
  have "has_prefix (record_text i n h @ t) [CHR 0x7B]" by (simp add: record_text_def has_prefix_def)
  moreover have "check_record i [''sha256'', ''bytes'', ''id'', ''version'']
      \<lparr>Version = 1, ID = i, Bytes = int n, SHA256 = h\<rparr> = Inr \<lparr>Version = 1, ID = i, Bytes = int n, SHA256 = h\<rparr>"
    using assms by (simp add: check_record_def required_keys_def transferRecordVersion_def)
  ultimately show ?thesis
    using record_members [OF assms(1-3), of t] assms(6) e
    by (simp only: readRecord_def s tl) (simp add: transferRecordMaxSize_def has_prefix_def)
qed

text \<open>The record the remote scripts write is read back: for an identifier of plain characters, a
  64-bit count and a lower-case SHA-256, with any white space behind it (\<open>upload.ps1\<close> ends its line),
  \<open>readRecord\<close> returns exactly these values.\<close>

theorem readRecord_roundtrip:
  assumes "\<forall>c \<in> set i. plain_char c" and "n < 2 ^ 63" and "list_all lower_hex h" and "length h = 64"
    and "\<forall>c \<in> set t. json_space c" and "length (record_text i n h @ t) \<le> 4096"
  shows "readRecord (record_text i n h @ t) None i = Inr \<lparr>Version = 1, ID = i, Bytes = int n, SHA256 = h\<rparr>"
  using assms by (rule read_record_text)

definition sample_hash :: bytes where
  "sample_hash = replicate 64 (CHR ''a'')"

lemma sample_record:
  "\<forall>c \<in> set ''7f''. plain_char c" "list_all lower_hex sample_hash" "length sample_hash = 64"
  "length (record_text ''7f'' 12 sample_hash) \<le> 4094"
  by (simp_all add: plain_char_def less_char_def less_eq_char_def sample_hash_def lower_hex_def list_all_iff
      record_text_def quoted_def dec_samples)

theorem readRecord_roundtrip_witness:
  "readRecord (record_text ''7f'' 12 sample_hash @ [CHR 0x0D, CHR 0x0A]) None ''7f'' =
     Inr \<lparr>Version = 1, ID = ''7f'', Bytes = 12, SHA256 = sample_hash\<rparr>"
proof -
  have "length (record_text ''7f'' 12 sample_hash @ [CHR 0x0D, CHR 0x0A]) \<le> 4096"
    using sample_record(4) by simp
  from readRecord_roundtrip [OF sample_record(1) _ sample_record(2,3) _ this] show ?thesis
    by (simp add: json_space_def)
qed

theorem readRecord_sound_witness:
  "\<exists>a m b. record_text ''7f'' 12 sample_hash = a @ CHR 0x7B # m @ CHR 0x7D # b \<and>
     (\<forall>c \<in> set (a @ b). json_space c)"
proof -
  have "length (record_text ''7f'' 12 sample_hash @ []) \<le> 4096" using sample_record(4) by simp
  from read_record_text [OF sample_record(1) _ sample_record(2,3) _ this]
  have "readRecord (record_text ''7f'' 12 sample_hash) None ''7f'' =
      Inr \<lparr>Version = 1, ID = ''7f'', Bytes = 12, SHA256 = sample_hash\<rparr>" by simp
  from readRecord_sound [OF this] show ?thesis by blast
qed

end
