(* ===== verification/Script_Session.thy ===== *)
theory Script_Session
  imports Session Transfer_Record
begin

text \<open>
  The short sessions of a transfer, each of which runs one script with empty input:
  \<open>runWithCleanup\<close> (\<open>runner.go\<close>), \<open>transferControl\<close> (\<open>download.go\<close>), \<open>dispatchFinalizer\<close> and
  \<open>cleanupRemoteStage\<close> (\<open>upload.go\<close>, all under \<open>internal/remote\<close>).  They start a shell through one
  transport, send end of input, receive the output into bounded buffers and close the shell through
  the cleanup transport.
\<close>

subsection \<open>Bounded output\<close>

text \<open>The two \<open>boundedOutput\<close> buffers of a session.\<close>

type_synonym buffers = "bytes \<times> bytes"

definition out_write :: "int \<Rightarrow> buffers writer" where
  "out_write limit p bufs =
     (case bounded_write limit p (fst bufs) of (n, e, b) \<Rightarrow> (n, e, b, snd bufs))"

definition err_write :: "int \<Rightarrow> buffers writer" where
  "err_write limit p bufs =
     (case bounded_write limit p (snd bufs) of (n, e, b) \<Rightarrow> (n, e, fst bufs, b))"

subsection \<open>One script\<close>

text \<open>What such a session comes to, before it is closed.\<close>

datatype script_outcome =
    Start_failed goerr | Send_failed goerr | Receive_failed goerr | Exited nat bytes bytes

text \<open>The transports, contexts and limits of a script.  \<open>script_fallback\<close> sends a Delete that the
  cleanup transport could not send.\<close>

record 'w script_env =
  script_post :: "'w post"
  script_cleanup :: "'w post"
  script_fallback :: "'w post option"
  script_ctx :: "'w ctx"
  script_budget :: "'w ctx"
  script_early :: bool
  script_joined :: bool

definition close_script :: "builders \<Rightarrow> 'w script_env \<Rightarrow> session \<Rightarrow> 'w \<Rightarrow> goerr option \<times> 'w" where
  "close_script b env s w =
     closeWith b s (script_cleanup env) (script_cleanup env) (script_fallback env) False
       (script_budget env) (script_joined env) False w"

text \<open>The outcome, the error of the deferred close, and the world.\<close>

definition run_script ::
  "builders \<Rightarrow> 'w script_env \<Rightarrow> int \<times> int \<Rightarrow> request \<Rightarrow> 'w \<Rightarrow>
   (script_outcome \<times> goerr option \<times> 'w) option" where
  "run_script b env limits req w =
     (case startSessionLanes b req (script_post env) (script_cleanup env) (script_fallback env)
             (script_ctx env) (script_budget env) w of
        (Inl e, w1) \<Rightarrow> Some (Start_failed e, None, w1)
      | (Inr s, w1) \<Rightarrow>
          (case session_send b s (script_post env) False (script_ctx env) [] True w1 of
             (Some e, w2) \<Rightarrow>
               (case close_script b env s w2 of (ce, w3) \<Rightarrow> Some (Send_failed e, ce, w3))
           | (None, w2) \<Rightarrow>
               (case session_receive b s (script_post env) (out_write (fst limits)) (err_write (snd limits))
                       (script_ctx env) (script_early env) (w2, [], []) of
                  None \<Rightarrow> None
                | Some (Inl e, w3, bufs) \<Rightarrow>
                    (case close_script b env s w3 of (ce, w4) \<Rightarrow> Some (Receive_failed e, ce, w4))
                | Some (Inr rc, w3, out, err) \<Rightarrow>
                    (case close_script b env s w3 of (ce, w4) \<Rightarrow> Some (Exited rc out err, ce, w4)))))"

definition ps_request :: "bytes \<Rightarrow> bytes \<Rightarrow> request" where
  "ps_request ep script =
     \<lparr>req_endpoint = ep, req_command = script, req_codepage = [], req_powershell = True\<rparr>"

subsection \<open>runWithCleanup and transferControl\<close>

definition runWithCleanup ::
  "builders \<Rightarrow> 'w script_env \<Rightarrow> int \<times> int \<Rightarrow> request \<Rightarrow> 'w \<Rightarrow>
   ((goerr + nat \<times> bytes \<times> bytes) \<times> 'w) option" where
  "runWithCleanup b env limits req w =
     (case run_script b env limits req w of
        None \<Rightarrow> None
      | Some (Exited rc out err, ce, w') \<Rightarrow>
          Some ((if ce \<noteq> None then Inl (Msg ''remote command completed but shell cleanup failed'')
                 else Inr (rc, out, err)), w')
      | Some (Start_failed e, ce, w') \<Rightarrow> Some (Inl e, w')
      | Some (Send_failed e, ce, w') \<Rightarrow> Some (Inl e, w')
      | Some (Receive_failed e, ce, w') \<Rightarrow> Some (Inl e, w'))"

definition transferControl ::
  "builders \<Rightarrow> 'w script_env \<Rightarrow> bytes \<Rightarrow> bytes \<Rightarrow> 'w \<Rightarrow> ((goerr + bytes \<times> nat) \<times> 'w) option" where
  "transferControl b env ep script w =
     (case runWithCleanup b env (int transferRecordMaxSize, 1024) (ps_request ep script) w of
        None \<Rightarrow> None
      | Some (Inl e, w') \<Rightarrow> Some (Inl e, w')
      | Some (Inr (rc, out, err), w') \<Rightarrow>
          Some ((if length err \<noteq> 0 then Inl (Msg ''remote control command reported an error'')
                 else Inr (out, rc)), w'))"

subsection \<open>The result of a transfer\<close>

record transfer_result =
  t_bytes :: int
  t_sha :: bytes
  committed :: bool
  artifacts :: "bytes list"

definition no_result :: transfer_result where
  "no_result = \<lparr>t_bytes = 0, t_sha = [], committed = False, artifacts = []\<rparr>"

definition uncommitted :: "int \<Rightarrow> bytes \<Rightarrow> transfer_result" where
  "uncommitted n sha = no_result\<lparr>t_bytes := n, t_sha := sha\<rparr>"

text \<open>The embedded scripts and the PowerShell encoder.\<close>

record scripts =
  script_files :: "bytes \<Rightarrow> goerr + bytes"
  script_encode :: "bytes \<Rightarrow> bytes"

definition build_script :: "scripts \<Rightarrow> bytes \<Rightarrow> (bytes \<times> bytes) list \<Rightarrow> goerr + bytes" where
  "build_script sc file vals = transferScript (script_encode sc) (script_files sc) file vals"

subsection \<open>dispatchFinalizer\<close>

definition int_text :: "int \<Rightarrow> bytes" where
  "int_text i = (if i < 0 then ''-'' @ dec (nat (- i)) else dec (nat i))"

definition finalizer_values ::
  "bytes \<Rightarrow> bytes \<Rightarrow> bytes \<Rightarrow> bytes \<Rightarrow> int \<Rightarrow> bool \<Rightarrow> (bytes \<times> bytes) list" where
  "finalizer_values transferID stagePath destination sha n force =
     [(''id'', transferID), (''stage'', stagePath), (''destination'', destination),
      (''expected_sha256'', sha), (''expected_bytes'', int_text n),
      (''force'', if force then ''true'' else ''false'')]"

definition finalizer_ack :: "bytes \<Rightarrow> bytes" where
  "finalizer_ack transferID = ''OK: committed:'' @ transferID"

definition finalizer_verdict ::
  "bytes \<Rightarrow> bytes \<Rightarrow> int \<Rightarrow> script_outcome \<Rightarrow> transfer_result \<times> goerr option" where
  "finalizer_verdict transferID sha n outcome =
     (case outcome of
        Start_failed e \<Rightarrow> (uncommitted n sha, Some (FinalizationUnknown (Wrap ''start finalizer'' e)))
      | Send_failed e \<Rightarrow> (uncommitted n sha, Some (FinalizationUnknown (Wrap ''send finalizer eof'' e)))
      | Receive_failed e \<Rightarrow> (uncommitted n sha, Some (FinalizationUnknown (Wrap ''receive finalizer'' e)))
      | Exited rc out err \<Rightarrow>
          if rc \<noteq> 0 then (uncommitted n sha, Some (RemoteExit rc))
          else if trim_space out \<noteq> finalizer_ack transferID \<or> length err \<noteq> 0
          then (uncommitted n sha, Some (FinalizationUnknown (Msg ''finalizer ack missing'')))
          else ((uncommitted n sha)\<lparr>committed := True\<rparr>, None))"

text \<open>The deferred close joins its error to the one returned.\<close>

definition join_close :: "bytes \<Rightarrow> goerr option \<Rightarrow> goerr option \<Rightarrow> goerr option" where
  "join_close what runErr closeErr =
     (case closeErr of None \<Rightarrow> runErr | Some e \<Rightarrow> errors_join [runErr, Some (Wrap what e)])"

definition dispatchFinalizer ::
  "builders \<Rightarrow> scripts \<Rightarrow> 'w script_env \<Rightarrow> bytes \<Rightarrow> bytes \<Rightarrow> bytes \<Rightarrow> bytes \<Rightarrow> bytes \<Rightarrow> int \<Rightarrow> bool \<Rightarrow> 'w \<Rightarrow>
   ((transfer_result \<times> goerr option) \<times> 'w) option" where
  "dispatchFinalizer b sc env ep transferID stagePath destination sha n force w =
     (case build_script sc ''control.ps1'' (finalizer_values transferID stagePath destination sha n force) of
        Inl e \<Rightarrow> Some ((uncommitted n sha, Some (Wrap ''build finalizer'' e)), w)
      | Inr script \<Rightarrow>
          (case run_script b env (256, 1024) (ps_request ep script) w of
             None \<Rightarrow> None
           | Some (outcome, closeErr, w') \<Rightarrow>
               (case finalizer_verdict transferID sha n outcome of (res, runErr) \<Rightarrow>
                  Some ((res, join_close ''close finalizer'' runErr closeErr), w'))))"

subsection \<open>cleanupRemoteStage\<close>

definition cleanup_verdict :: "script_outcome \<Rightarrow> goerr option" where
  "cleanup_verdict outcome =
     (case outcome of
        Start_failed e \<Rightarrow> Some e
      | Send_failed e \<Rightarrow> Some e
      | Receive_failed e \<Rightarrow> Some e
      | Exited rc out err \<Rightarrow>
          if rc \<noteq> 0 \<or> length err \<noteq> 0 \<or> trim_space out \<noteq> ''OK: cleaned''
          then Some (Msg ''remote stage cleanup failed'') else None)"

definition cleanupRemoteStage ::
  "builders \<Rightarrow> scripts \<Rightarrow> 'w script_env \<Rightarrow> bytes \<Rightarrow> bytes \<Rightarrow> 'w \<Rightarrow> (goerr option \<times> 'w) option" where
  "cleanupRemoteStage b sc env ep stagePath w =
     (case build_script sc ''cleanup.ps1'' [(''stage'', stagePath)] of
        Inl e \<Rightarrow> Some (Some e, w)
      | Inr script \<Rightarrow>
          (case run_script b env (256, 256) (ps_request ep script) w of
             None \<Rightarrow> None
           | Some (outcome, closeErr, w') \<Rightarrow>
               Some (join_close ''close cleanup shell'' (cleanup_verdict outcome) closeErr, w')))"

subsection \<open>What the finalizer's result means\<close>

lemma join_close_None [simp]: "join_close what runErr closeErr = None \<longleftrightarrow> runErr = None \<and> closeErr = None"
  by (cases runErr; cases closeErr) (simp_all add: join_close_def)

lemma join_close_error [simp]: "\<exists>z. join_close what (Some y) closeErr = Some z"
  by (cases closeErr) (simp_all add: join_close_def)

definition acknowledged :: "bytes \<Rightarrow> script_outcome \<Rightarrow> bool" where
  "acknowledged transferID outcome \<longleftrightarrow>
     (\<exists>out. outcome = Exited 0 out [] \<and> trim_space out = finalizer_ack transferID)"

text \<open>The error of an upload that was not committed: the destination's state is unknown, or the script
  refused with an exit code.\<close>

definition denial :: "script_outcome \<Rightarrow> goerr option \<Rightarrow> bool" where
  "denial outcome err \<longleftrightarrow>
     (\<exists>e. err = Some e \<and> (is_finalization_unknown e \<or>
        (\<exists>rc out er. outcome = Exited rc out er \<and> rc \<noteq> 0 \<and> as_remote_exit e = Some rc)))"

lemma denial_joined: "denial outcome err \<Longrightarrow> denial outcome (join_close what err closeErr)"
  by (auto simp: denial_def join_close_def split: option.splits)

lemma verdict_cases:
  assumes "finalizer_verdict transferID sha n outcome = (res, err)"
  shows "t_bytes res = n \<and> t_sha res = sha \<and> artifacts res = [] \<and>
    (committed res \<longleftrightarrow> acknowledged transferID outcome) \<and> (\<not> committed res \<longrightarrow> denial outcome err)"
  using assms
  by (auto simp: finalizer_verdict_def acknowledged_def denial_def uncommitted_def no_result_def
      split: script_outcome.splits if_splits)

lemma finalizer_cases:
  assumes "dispatchFinalizer b sc env ep transferID stagePath destination sha n force w = Some ((res, err), w')"
  obtains (unbuilt) e where "build_script sc ''control.ps1''
        (finalizer_values transferID stagePath destination sha n force) = Inl e"
      and "res = uncommitted n sha" and "err = Some (Wrap ''build finalizer'' e)" and "w' = w"
    | (ran) script outcome ce where "build_script sc ''control.ps1''
        (finalizer_values transferID stagePath destination sha n force) = Inr script"
      and "run_script b env (256, 1024) (ps_request ep script) w = Some (outcome, ce, w')"
      and "t_bytes res = n" and "t_sha res = sha" and "artifacts res = []"
      and "committed res \<longleftrightarrow> acknowledged transferID outcome"
      and "\<not> committed res \<longrightarrow> denial outcome err"
proof (cases "build_script sc ''control.ps1'' (finalizer_values transferID stagePath destination sha n force)")
  case (Inl e)
  with assms unbuilt show thesis by (auto simp: dispatchFinalizer_def)
next
  case (Inr script)
  with assms obtain outcome ce runErr where
    S: "run_script b env (256, 1024) (ps_request ep script) w = Some (outcome, ce, w')"
    and V: "finalizer_verdict transferID sha n outcome = (res, runErr)"
    and e: "err = join_close ''close finalizer'' runErr ce"
    by (auto simp: dispatchFinalizer_def split: option.splits prod.splits)
  from verdict_cases [OF V] e show thesis by (intro ran [OF Inr S]) (auto intro: denial_joined)
qed

subsection \<open>The conversation of a script\<close>

text \<open>What an outcome says of the messages.\<close>

definition script_wrote :: "script_outcome \<Rightarrow> transcript \<Rightarrow> bool" where
  "script_wrote outcome t \<longleftrightarrow> t_signal t = [] \<and>
     (case outcome of
        Start_failed e \<Rightarrow> t_send t = [] \<and> (errors_is e ErrNotStarted \<longrightarrow> t_create t = []) \<and>
          (\<not> errors_is e ErrRemoteStateUnknown \<longrightarrow> t_create t = [] \<or> t_delete t \<noteq> [])
      | Send_failed e \<Rightarrow> t_command t \<noteq> [] \<and> t_polls t = 0
      | Receive_failed e \<Rightarrow> t_send t \<noteq> []
      | Exited rc out err \<Rightarrow> t_send t \<noteq> [] \<and> 0 < t_polls t \<and> rc < 2 ^ 32)"

context session_posters begin

lemma script_closed:
  assumes "close_script b env s w = (ce, w')" and "script_cleanup env = cln" and "script_fallback env = fb"
  obtains d where "wire w' = wire w @ d" and "opt_msg (delete_request b (endpoint s) (shellID s)) d"
    and "\<not> unknown_shell ce \<Longrightarrow> d \<noteq> []"
proof -
  have "closeWith b s cln cln fb False (script_budget env) (script_joined env) False w = (ce, w')"
    using assms by (simp add: close_script_def)
  from closed [OF cleanup.poster_axioms this] obtain g d where
    "wire w' = wire w @ g @ d" "opt_msg (delete_request b (endpoint s) (shellID s)) d" "g = []"
    "\<And>e. ce = Some e \<Longrightarrow> \<not> errors_is e ErrRemoteStateUnknown \<Longrightarrow> d \<noteq> []"
    "ce = None \<Longrightarrow> d \<noteq> []" by metis
  with that show ?thesis by (cases ce) (auto simp: unknown_shell_def)
qed

lemma script_transcript:
  assumes env: "script_post env = cmd" "script_cleanup env = cln" "script_fallback env = fb"
    and "run_script b env limits req w = Some (outcome, ce, w')"
  shows "\<exists>shell cid t. transcript_ok b req shell cid t \<and> wire w' = wire w @ transcript_msgs b req shell cid t \<and>
    script_wrote outcome t \<and> ((\<forall>e. outcome \<noteq> Start_failed e) \<and> \<not> unknown_shell ce \<longrightarrow> t_delete t \<noteq> [])"
proof -
  let ?ctx = "script_ctx env"
  obtain rs w1 where S: "startSessionLanes b req cmd cln fb ?ctx (script_budget env) w = (rs, w1)"
    by (metis surj_pair)
  obtain shell c x d where o: "wire w1 = wire w @ c @ x @ d"
    "opt_msg (create_body b req) c" "opt_msg (command_body b req shell) x"
    "opt_msg (delete_request b (req_endpoint req) shell) d" "x @ d \<noteq> [] \<longrightarrow> c \<noteq> [] \<and> validID shell"
    and e: "\<And>e. rs = Inl e \<Longrightarrow> (errors_is e ErrNotStarted \<longrightarrow> c = []) \<and>
       (\<not> errors_is e ErrRemoteStateUnknown \<longrightarrow> c = [] \<or> d \<noteq> [])"
    and s: "\<And>s. rs = Inr s \<Longrightarrow> x \<noteq> [] \<and> d = [] \<and> endpoint s = req_endpoint req \<and> shellID s = shell \<and>
       validID (commandID s)" by (rule opened [OF S]) blast
  show ?thesis
  proof (cases rs)
    case (Inl err)
    with S assms have r: "outcome = Start_failed err" "w' = w1" by (auto simp: run_script_def)
    let ?t = "\<lparr>t_create = c, t_command = x, t_send = [], t_polls = 0, t_signal = [], t_delete = d\<rparr>"
    have "transcript_ok b req shell [] ?t" using o by (simp add: transcript_ok_def)
    moreover have "script_wrote outcome ?t" using e [OF Inl] r by (simp add: script_wrote_def)
    moreover have "wire w' = wire w @ transcript_msgs b req shell [] ?t"
      using o r by (simp add: transcript_msgs_def)
    ultimately show ?thesis using r by blast
  next
    case (Inr s')
    let ?out = "output_request b (req_endpoint req) shell (commandID s')"
    note s' = s [OF Inr]
    obtain e2 w2 where Send: "session_send b s' cmd False ?ctx [] True w1 = (e2, w2)" by (metis surj_pair)
    from sent_once [OF Send] s' obtain m where m: "wire w2 = wire w1 @ m"
      "opt_msg (send_request b (req_endpoint req) shell (commandID s') [] True) m" "e2 = None \<Longrightarrow> m \<noteq> []"
      by metis
    have "\<exists>n w3. wire w3 = wire w2 @ replicate n ?out \<and> (0 < n \<longrightarrow> e2 = None) \<and>
        close_script b env s' w3 = (ce, w') \<and>
        (case outcome of Start_failed e \<Rightarrow> False | Send_failed e \<Rightarrow> n = 0 | Receive_failed e \<Rightarrow> e2 = None
         | Exited rc out err \<Rightarrow> e2 = None \<and> 0 < n \<and> rc < 2 ^ 32)"
    proof (cases e2)
      case (Some e)
      with assms(4) S Inr Send env show ?thesis
        by (intro exI [of _ 0] exI [of _ w2]) (auto simp: run_script_def split: prod.splits)
    next
      case None
      obtain y where R: "session_receive b s' cmd (out_write (fst limits)) (err_write (snd limits)) ?ctx
          (script_early env) (w2, [], []) = Some y"
        using assms(4) S Inr Send env None by (auto simp: run_script_def split: option.splits)
      obtain r w3 bufs where y: "y = (r, w3, bufs)" by (cases y)
      from R y obtain r' bufs' where L: "receiveLoop b s' cmd (out_write (fst limits)) (err_write (snd limits)) ?ctx
          (w2, [], []) = Some (r', w3, bufs')" and r': "\<And>rc. r = Inr rc \<Longrightarrow> r' = Inr rc"
        by (auto simp: session_receive_def split: option.splits prod.splits)
      from loop_sent [OF L] s' obtain n where n: "wire w3 = wire w2 @ replicate n ?out"
        "\<forall>rc. r' = Inr rc \<longrightarrow> 0 < n \<and> rc < 2 ^ 32" by (auto simp: loop_wrote_def)
      have "close_script b env s' w3 = (ce, w') \<and>
        (case outcome of Receive_failed e \<Rightarrow> r = Inl e | Exited rc out err \<Rightarrow> r = Inr rc | _ \<Rightarrow> False)"
        using assms(4) S Inr Send env None R y
        by (cases r; cases bufs) (auto simp: run_script_def split: prod.splits)
      with n r' None show ?thesis
        by (intro exI [of _ n] exI [of _ w3]) (auto split: script_outcome.splits)
    qed
    then obtain n w3 where n: "wire w3 = wire w2 @ replicate n ?out" "0 < n \<longrightarrow> e2 = None"
      and c: "close_script b env s' w3 = (ce, w')"
      and out: "case outcome of Start_failed e \<Rightarrow> False | Send_failed e \<Rightarrow> n = 0 | Receive_failed e \<Rightarrow> e2 = None
         | Exited rc out err \<Rightarrow> e2 = None \<and> 0 < n \<and> rc < 2 ^ 32" by blast
    from script_closed [OF c env(2,3)] s' obtain d' where d': "wire w' = wire w3 @ d'"
      "opt_msg (delete_request b (req_endpoint req) shell) d'" "\<not> unknown_shell ce \<Longrightarrow> d' \<noteq> []" by metis
    let ?t = "\<lparr>t_create = c, t_command = x, t_send = m, t_polls = n, t_signal = [], t_delete = d'\<rparr>"
    have "transcript_ok b req shell (commandID s') ?t" using o n m d' s' by (auto simp: transcript_ok_def)
    moreover have "script_wrote outcome ?t"
      using out m(3) s' by (auto simp: script_wrote_def split: script_outcome.splits)
    moreover have "wire w' = wire w @ transcript_msgs b req shell (commandID s') ?t"
      using o n m d' s' by (simp add: transcript_msgs_def)
    moreover have "\<not> unknown_shell ce \<longrightarrow> t_delete ?t \<noteq> []" using d' by simp
    ultimately show ?thesis by blast
  qed
qed

end

end
