(* ===== verification/Transfer_Lanes.thy ===== *)
theory Transfer_Lanes
  imports Runner Script_Session "HOL-Library.Monad_Syntax"
begin

text \<open>
  What both directions of a transfer share: the request and the data lanes of
  \<open>internal/remote/transfer.go\<close>, and the transports of the short control sessions.  Heartbeats of the
  lanes run on a timer and are not interleaved with the transfer here.
\<close>

subsection \<open>Data lanes\<close>

text \<open>\<open>transferConns\<close>: the connections of a transfer.\<close>

record 'w conns =
  conn_send :: "'w post"
  conn_receive :: "'w post"
  conn_cleanup :: "'w post"

text \<open>\<open>dataLanes\<close>: the lanes and the function that closes them, or an error.\<close>

type_synonym 'w data_lanes = "'w ctx \<Rightarrow> 'w \<Rightarrow> (goerr + 'w conns \<times> ('w \<Rightarrow> 'w)) \<times> 'w"

definition sharedLanes :: "'w post \<Rightarrow> 'w data_lanes" where
  "sharedLanes p ctx w = (Inr (\<lparr>conn_send = p, conn_receive = p, conn_cleanup = p\<rparr>, \<lambda>w. w), w)"

definition close_lanes :: "nat list \<Rightarrow> 'n world \<Rightarrow> 'n world" where
  "close_lanes ls w = fold close_lane ls w"

text \<open>The loop that opens the lanes; a failure closes those already open.\<close>

fun open_lanes ::
  "'n net_env \<Rightarrow> bytes \<Rightarrow> 'n world ctx \<Rightarrow> nat list \<Rightarrow> nat \<Rightarrow> 'n world \<Rightarrow> (goerr + nat list) \<times> 'n world" where
  "open_lanes env ep ctx opened 0 w = (Inr opened, w)"
| "open_lanes env ep ctx opened (Suc n) w =
     (case openPersistentWithRetries env ep ctx w of
        (Inl e, w') \<Rightarrow> (Inl e, close_lanes opened w')
      | (Inr i, w') \<Rightarrow> open_lanes env ep ctx (opened @ [i]) n w')"

definition persistentLanes :: "'n net_env \<Rightarrow> bytes \<Rightarrow> 'n world data_lanes" where
  "persistentLanes env ep ctx w =
     (case open_lanes env ep ctx [] 3 w of
        (Inl e, w') \<Rightarrow> (Inl e, w')
      | (Inr opened, w') \<Rightarrow>
          (Inr (\<lparr>conn_send = persistent_post env (opened ! 0), conn_receive = persistent_post env (opened ! 1),
                 conn_cleanup = persistent_post env (opened ! 2)\<rparr>, close_lanes opened), w'))"

subsection \<open>The request and its environment\<close>

record transfer_request =
  tr_endpoint :: bytes
  tr_direction :: bytes
  tr_local :: bytes
  tr_remote :: bytes
  tr_force :: bool

definition Upload_direction :: bytes where "Upload_direction = ''upload''"
definition Download_direction :: bytes where "Download_direction = ''download''"

text \<open>
  The transport of short-lived connections, the lanes, the caller's context, the budgets of the
  cleanups, whether receiving stops early and the worker is joined, the random transfer id, and SHA-256
  in hexadecimal.
\<close>

record 'w transfer_env =
  tx_post :: "'w post"
  tx_lanes :: "'w data_lanes"
  tx_ctx :: "'w ctx"
  tx_budget :: "'w ctx"
  tx_early :: bool
  tx_joined :: bool
  tx_id :: "goerr + bytes"
  tx_sha :: "bytes \<Rightarrow> bytes"

text \<open>The control sessions run over \<open>p\<close>; the cleanup of a stage runs over the cleanup lane, under a
  budget of its own instead of the caller's context.\<close>

definition control_env :: "('w, 'x) transfer_env_scheme \<Rightarrow> 'w conns \<Rightarrow> 'w script_env" where
  "control_env env c = \<lparr>script_post = tx_post env, script_cleanup = conn_cleanup c,
     script_fallback = Some (tx_post env), script_ctx = tx_ctx env, script_budget = tx_budget env,
     script_early = tx_early env, script_joined = tx_joined env\<rparr>"

definition cleanup_env :: "('w, 'x) transfer_env_scheme \<Rightarrow> 'w conns \<Rightarrow> 'w script_env" where
  "cleanup_env env c = (control_env env c)\<lparr>script_post := conn_cleanup c, script_ctx := tx_budget env\<rparr>"

text \<open>Closing the long session of a transfer.\<close>

definition close_stream ::
  "builders \<Rightarrow> session \<Rightarrow> ('w, 'x) transfer_env_scheme \<Rightarrow> 'w conns \<Rightarrow> 'w ctx \<Rightarrow> bool \<Rightarrow> 'w \<Rightarrow> goerr option \<times> 'w" where
  "close_stream b s env c ctx already w =
     closeWith b s (conn_cleanup c) (conn_cleanup c) (Some (tx_post env)) False ctx (tx_joined env) already w"

text \<open>The messages of \<open>validateRemotePath\<close> and \<open>readRecord\<close>.\<close>

fun path_text :: "path_error \<Rightarrow> bytes" where
  "path_text Path_empty = ''remote path must not be empty''"
| "path_text Path_nul = ''remote path must not contain NUL''"
| "path_text Path_unc = ''remote path must not be UNC or device form''"
| "path_text Path_short = ''remote path must be drive-rooted''"
| "path_text Path_no_letter = ''remote path must start with a drive letter''"
| "path_text Path_no_colon = ''remote path must use drive form '' @ quote @ ''X:'' @ quote"
| "path_text Path_no_root = ''remote path must use '' @ quote @ ''X:'' @ [CHR 0x5C] @ quote @ '' or '' @ quote @ ''X:/'' @ quote"
| "path_text Part_relative = ''remote path must not contain empty or relative components''"
| "path_text Part_stream = ''remote path must not contain alternate data streams''"
| "path_text Part_forbidden = ''remote path contains a forbidden Windows character''"
| "path_text Part_trailing = ''remote path must not end with space or dot''"
| "path_text (Part_reserved p) = ''remote path must not use reserved device name '' @ [CHR 0x22] @ p @ [CHR 0x22]"

definition record_goerr :: "record_error \<Rightarrow> goerr" where
  "record_goerr e = (case e of Rec_read x \<Rightarrow> Wrap ''record read'' x | _ \<Rightarrow> Msg ''record'')"

subsection \<open>The lanes keep the contract\<close>

lemma wire_close_lanes [simp]: "wire (close_lanes ls w) = wire w"
  unfolding close_lanes_def by (induction ls arbitrary: w) auto

lemma lane_opened: "openPersistentWithRetries env ep ctx w = (r, w') \<Longrightarrow> wire w' = wire w"
  using authenticate_silent retries_silent
  unfolding openPersistentWithRetries_def withHandshakeRetries_def by blast

lemma lanes_opened:
  "open_lanes env ep ctx opened n w = (r, w') \<Longrightarrow>
   wire w' = wire w \<and> (\<forall>ls. r = Inr ls \<longrightarrow> length ls = length opened + n)"
proof (induction n arbitrary: opened w)
  case (Suc n)
  obtain r1 w1 where o: "openPersistentWithRetries env ep ctx w = (r1, w1)" by (metis surj_pair)
  from lane_opened [OF this] Suc.prems Suc.IH [of _ w1] show ?case
    by (cases r1) (fastforce simp: o)+
qed auto

text \<open>The four transports of a transfer, each used by some session with the cleanup lane and the
  standalone transport behind it.\<close>

locale transfer_posters =
  control: poster p wire + sender: poster snp wire + receiver: poster rcv wire + cleanup: poster cln wire
  for p :: "'w post" and snp :: "'w post" and rcv :: "'w post" and cln :: "'w post"
    and wire :: "'w \<Rightarrow> bytes list"

sublocale transfer_posters \<subseteq> starts: session_posters p cln wire "Some p"
  by (intro session_posters.intro session_posters_axioms.intro control.poster_axioms sender.poster_axioms
      receiver.poster_axioms cleanup.poster_axioms) (auto intro: control.poster_axioms)

sublocale transfer_posters \<subseteq> sends: session_posters snp cln wire "Some p"
  by (intro session_posters.intro session_posters_axioms.intro control.poster_axioms sender.poster_axioms
      receiver.poster_axioms cleanup.poster_axioms) (auto intro: control.poster_axioms)

sublocale transfer_posters \<subseteq> receives: session_posters rcv cln wire "Some p"
  by (intro session_posters.intro session_posters_axioms.intro control.poster_axioms sender.poster_axioms
      receiver.poster_axioms cleanup.poster_axioms) (auto intro: control.poster_axioms)

sublocale transfer_posters \<subseteq> removes: session_posters cln cln wire "Some p"
  by (intro session_posters.intro session_posters_axioms.intro control.poster_axioms sender.poster_axioms
      receiver.poster_axioms cleanup.poster_axioms) (auto intro: control.poster_axioms)

interpretation winrm: transfer_posters "transport_post env ep" "persistent_post env i" "persistent_post env j"
    "persistent_post env k" wire for env ep i j k
  by (intro transfer_posters.intro persistent.poster_axioms standalone.poster_axioms)

lemma lanes_ready:
  assumes "persistentLanes env ep ctx w = (r, w')"
  shows "wire w' = wire w \<and> (\<forall>c cl. r = Inr (c, cl) \<longrightarrow> (\<exists>i j k. c = \<lparr>conn_send = persistent_post env i,
    conn_receive = persistent_post env j, conn_cleanup = persistent_post env k\<rparr>) \<and> (\<forall>w. wire (cl w) = wire w))"
  using assms by (auto simp: persistentLanes_def dest: lanes_opened split: sum.splits prod.splits)

end
