(* ===== verification/Upload.thy ===== *)
theory Upload
  imports Transfer_Lanes Crlf_Lines Chunk_Size
begin

text \<open>
  \<open>uploadLanes\<close> of \<open>internal/remote/upload.go\<close>.  The receiver script runs in a session of its own:
  the file is sent line by line through the send transport while a worker polls the receive transport
  into two bounded buffers.  The model runs the worker's loop in one go, at the moment at which the
  schedule \<open>up_ended\<close> says that it has ended, or at the latest when its result is awaited.  The file
  that is read, its later state and the operating system's answers are parameters (record
  \<open>upload_env\<close>); reads beyond the list are at the end of the file.
\<close>

definition uploadChunkRaw :: nat where
  "uploadChunkRaw = 32 * 1024"

text \<open>The opened source: its content, what each read of at most so many bytes returns, whether the
  worker has ended at the time of each check, whether the source is still the same file at the end, and
  its size then.\<close>

record 'w upload_env = "'w transfer_env" +
  up_source :: "goerr + bytes"
  up_reads :: "nat \<Rightarrow> (bytes \<times> goerr option) list"
  up_ended :: "nat \<Rightarrow> bool"
  up_same :: bool
  up_size :: nat

subsection \<open>The receive worker\<close>

type_synonym received = "(goerr + nat) \<times> buffers"

text \<open>The world, and the worker's result once it has ended.\<close>

type_synonym 'w stream_state = "'w \<times> received option"

definition run_worker :: "builders \<Rightarrow> session \<Rightarrow> 'w upload_env \<Rightarrow> 'w conns \<Rightarrow> 'w stream_state \<Rightarrow> 'w stream_state option" where
  "run_worker b s env c st =
     (case snd st of
        Some r \<Rightarrow> Some st
      | None \<Rightarrow>
          do { (r, w, bufs) \<leftarrow> session_receive b s (conn_receive c) (out_write (int transferRecordMaxSize))
                 (err_write 1024) (tx_ctx env) (tx_early env) (fst st, [], []);
               Some (w, Some (r, bufs)) })"

definition check_worker ::
  "builders \<Rightarrow> session \<Rightarrow> 'w upload_env \<Rightarrow> 'w conns \<Rightarrow> nat \<Rightarrow> 'w stream_state \<Rightarrow> 'w stream_state option" where
  "check_worker b s env c k st = (if up_ended env k then run_worker b s env c st else Some st)"

text \<open>\<open>streamCtx\<close> ends with the caller's context or with the worker.\<close>

definition stream_ctx :: "'w upload_env \<Rightarrow> received option \<Rightarrow> 'w ctx" where
  "stream_ctx env recv w =
     (case tx_ctx env w of Some e \<Rightarrow> Some e | None \<Rightarrow> if recv \<noteq> None then Some Canceled else None)"

definition early_exit :: "'w upload_env \<Rightarrow> goerr \<Rightarrow> 'w stream_state \<Rightarrow> goerr" where
  "early_exit env sendErr st =
     (if tx_ctx env (fst st) \<noteq> None then sendErr
      else case snd st of
        None \<Rightarrow> sendErr
      | Some (Inl e, _) \<Rightarrow> Wrap ''receiver stopped before end of input'' e
      | Some (Inr rc, _) \<Rightarrow> Msg (''receiver exited before end of input with code '' @ dec rc))"

definition send_line ::
  "builders \<Rightarrow> session \<Rightarrow> 'w upload_env \<Rightarrow> 'w conns \<Rightarrow> bytes \<Rightarrow> bool \<Rightarrow> 'w stream_state \<Rightarrow> goerr option \<times> 'w stream_state" where
  "send_line b s env c line eof st =
     (case session_send b s (conn_send c) False (stream_ctx env (snd st)) line eof (fst st) of
        (r, w) \<Rightarrow> (r, w, snd st))"

definition chunk_line :: "bytes \<Rightarrow> bytes" where
  "chunk_line d = b64_encode d @ [CR, LF]"

text \<open>The read loop: the remaining reads, the number of the next check, the bytes sent so far.\<close>

fun upload_stream ::
  "builders \<Rightarrow> session \<Rightarrow> 'w upload_env \<Rightarrow> 'w conns \<Rightarrow> (bytes \<times> goerr option) list \<Rightarrow> nat \<Rightarrow> bytes \<Rightarrow> 'w stream_state \<Rightarrow>
   ((goerr + bytes) \<times> 'w stream_state) option" where
  "upload_stream b s env c reads k acc st =
     do { st \<leftarrow> check_worker b s env c k st;
          (case stream_ctx env (snd st) (fst st) of
             Some e \<Rightarrow> Some (Inl (Wrap ''send chunk'' (early_exit env (ctx_goerr e) st)), st)
           | None \<Rightarrow>
               (case reads of
                  [] \<Rightarrow> Some (Inr acc, st)
                | (d, rerr) # rest \<Rightarrow>
                    (case (if d = [] then (None, st) else send_line b s env c (chunk_line d) False st) of
                       (Some e, st) \<Rightarrow>
                         do { st \<leftarrow> check_worker b s env c (k + 1) st;
                              Some (Inl (Wrap ''send chunk'' (early_exit env e st)), st) }
                     | (None, st) \<Rightarrow>
                         (case rerr of
                            None \<Rightarrow> upload_stream b s env c rest (k + 2) (acc @ d) st
                          | Some e \<Rightarrow>
                              if errors_is e IoEOF then Some (Inr (acc @ d), st)
                              else Some (Inl (Wrap ''read source'' e), st))))) }"

declare upload_stream.simps [simp del]

subsection \<open>The upload of an open source\<close>

text \<open>The checks between the worker's result and the commit: the source is unchanged, and the record
  agrees with what was sent.\<close>

definition verify_stage ::
  "'w upload_env \<Rightarrow> nat \<Rightarrow> bytes \<Rightarrow> bytes \<Rightarrow> received \<Rightarrow> goerr + bytes" where
  "verify_stage env initialSize transferID data recv =
     (case recv of (result, out, err) \<Rightarrow>
        (case result of
           Inl e \<Rightarrow> Inl (Wrap ''receive result'' e)
         | Inr code \<Rightarrow>
             check (code \<noteq> 0) (RemoteExit code) (
             check (length err > 0) (Msg ''receiver reported an error'') (
             check (\<not> up_same env \<or> up_size env \<noteq> initialSize \<or> length data \<noteq> initialSize)
               (Msg ''source changed during transfer'') (
             case readRecord out None transferID of
               Inl e \<Rightarrow> Inl (Wrap ''stage result'' (record_goerr e))
             | Inr rec \<Rightarrow>
                 check (Bytes rec \<noteq> int (length data)) (Msg ''stage count mismatch'') (
                 check (SHA256 rec \<noteq> tx_sha env data) (Msg ''stage hash mismatch'')
                   (Inr (tx_sha env data))))))))"

text \<open>From the started session to the deferred calls: the result, the error, and whether the session
  has been closed.\<close>

definition upload_body ::
  "builders \<Rightarrow> scripts \<Rightarrow> 'w upload_env \<Rightarrow> 'w conns \<Rightarrow> transfer_request \<Rightarrow> nat \<Rightarrow> bytes \<Rightarrow> bytes \<Rightarrow> nat \<Rightarrow> session \<Rightarrow> 'w \<Rightarrow>
   ((transfer_result \<times> goerr option) \<times> bool \<times> 'w) option" where
  "upload_body b sc env c req initialSize transferID stagePath chunkLimit s w =
     do { (r, st) \<leftarrow> upload_stream b s env c (up_reads env chunkLimit) 0 [] (w, None);
          (case r of
             Inl e \<Rightarrow> Some ((no_result, Some e), False, fst st)
           | Inr data \<Rightarrow>
             do { st \<leftarrow> check_worker b s env c (2 * length (up_reads env chunkLimit) + 1) st;
               (case send_line b s env c [] True st of
                  (Some e, st) \<Rightarrow>
                    do { st \<leftarrow> check_worker b s env c (2 * length (up_reads env chunkLimit) + 2) st;
                         Some ((no_result, Some (Wrap ''send eof'' (early_exit env e st))), False, fst st) }
                | (None, st) \<Rightarrow>
                    do { st \<leftarrow> run_worker b s env c st;
                         (case verify_stage env initialSize transferID data (the (snd st)) of
                            Inl e \<Rightarrow> Some ((no_result, Some e), False, fst st)
                          | Inr sha \<Rightarrow>
                              (case close_stream b s env c (tx_budget env) False (fst st) of
                                 (Some e, w) \<Rightarrow>
                                   Some ((uncommitted (int (length data)) sha,
                                          Some (Wrap ''close receiver before commit'' e)), True, w)
                               | (None, w) \<Rightarrow>
                                   do { (res, w) \<leftarrow> dispatchFinalizer b sc (control_env env c)
                                          (tr_endpoint req) transferID stagePath (tr_remote req) sha
                                          (int (length data)) (tr_force req) w;
                                        Some (res, True, w) })) }) }) }"

text \<open>The deferred function: close, and remove the stage of a failed upload unless the destination's
  state is unknown.\<close>

definition upload_deferred ::
  "builders \<Rightarrow> scripts \<Rightarrow> 'w upload_env \<Rightarrow> 'w conns \<Rightarrow> transfer_request \<Rightarrow> bytes \<Rightarrow> session \<Rightarrow>
   (transfer_result \<times> goerr option) \<times> bool \<times> 'w \<Rightarrow> ((transfer_result \<times> goerr option) \<times> 'w) option" where
  "upload_deferred b sc env c req stagePath s st =
     (case st of ((res, runErr), already, w) \<Rightarrow>
        (case close_stream b s env c (tx_budget env) already w of
           (Some e, w) \<Rightarrow>
             Some ((if committed res then res else res\<lparr>artifacts := artifacts res @ [stagePath]\<rparr>,
                    join_close ''close receiver'' runErr (Some e)), w)
         | (None, w) \<Rightarrow>
             (case runErr of
                None \<Rightarrow> Some ((res, None), w)
              | Some err \<Rightarrow>
                  if committed res then Some ((res, runErr), w)
                  else let res = res\<lparr>artifacts := artifacts res @ [stagePath]\<rparr> in
                    if is_finalization_unknown err then Some ((res, runErr), w)
                    else do { (ce, w) \<leftarrow> cleanupRemoteStage b sc (cleanup_env env c) (tr_endpoint req) stagePath w;
                              Some ((case ce of
                                 None \<Rightarrow> (res\<lparr>artifacts := []\<rparr>, runErr)
                               | Some e \<Rightarrow> (res, join_close ''remove remote stage'' runErr (Some e))), w) })))"

definition chunk_message :: "builders \<Rightarrow> session \<Rightarrow> chunk_builder" where
  "chunk_message b s data = Inr (send_request b (endpoint s) (shellID s) (commandID s) (chunk_line data) False)"

definition upload_session ::
  "builders \<Rightarrow> scripts \<Rightarrow> 'w upload_env \<Rightarrow> 'w conns \<Rightarrow> transfer_request \<Rightarrow> nat \<Rightarrow> bytes \<Rightarrow> bytes \<Rightarrow> bytes \<Rightarrow> 'w \<Rightarrow>
   ((transfer_result \<times> goerr option) \<times> 'w) option" where
  "upload_session b sc env c req initialSize transferID stagePath script w =
     (case startSessionLanes b (ps_request (tr_endpoint req) script) (tx_post env) (conn_cleanup c)
             (Some (tx_post env)) (tx_ctx env) (tx_budget env) w of
        (Inl e, w) \<Rightarrow> Some ((no_result, Some (Wrap ''start receiver'' e)), w)
      | (Inr s, w) \<Rightarrow>
          (case chunkSize 153600 (Some (chunk_message b s)) of
             Inl e \<Rightarrow>
               (case close_stream b s env c (tx_budget env) False w of
                  (_, w) \<Rightarrow> Some ((no_result, Some (Wrap ''size transfer chunk'' e)), w))
           | Inr n \<Rightarrow>
               do { st \<leftarrow> upload_body b sc env c req initialSize transferID stagePath
                      (if n > uploadChunkRaw then uploadChunkRaw else n) s w;
                    upload_deferred b sc env c req stagePath s st }))"

subsection \<open>uploadLanes\<close>

definition uploadLanes ::
  "builders \<Rightarrow> scripts \<Rightarrow> 'w upload_env \<Rightarrow> transfer_request \<Rightarrow> 'w \<Rightarrow>
   ((transfer_result \<times> goerr option) \<times> 'w) option" where
  "uploadLanes b sc env req w =
     (if tr_direction req \<noteq> Upload_direction then Some ((no_result, Some (Msg ''upload: wrong direction'')), w)
      else if tr_local req = [] \<or> tr_remote req = []
      then Some ((no_result, Some (TransferInput ''local and remote paths must not be empty'')), w)
      else case validateRemotePath (tr_remote req) of
        Inl e \<Rightarrow> Some ((no_result, Some (TransferInput (path_text e))), w)
      | Inr _ \<Rightarrow>
          (case up_source env of
             Inl e \<Rightarrow> Some ((no_result, Some (Wrap ''open source'' e)), w)
           | Inr content \<Rightarrow>
               (case tx_id env of
                  Inl e \<Rightarrow> Some ((no_result, Some (Wrap ''transfer id'' e)), w)
                | Inr transferID \<Rightarrow>
                    (case upload_stage_path (tr_remote req) transferID of
                       Inl e \<Rightarrow> Some ((no_result, Some (TransferInput ''destination'')), w)
                     | Inr stagePath \<Rightarrow>
                         (case build_script sc ''upload.ps1'' [(''id'', transferID), (''stage'', stagePath)] of
                            Inl e \<Rightarrow> Some ((no_result, Some (Wrap ''build receiver script'' e)), w)
                          | Inr script \<Rightarrow>
                              (case tx_lanes env (tx_ctx env) w of
                                 (Inl e, w) \<Rightarrow>
                                   Some ((no_result, Some (Wrap ''authenticate data connections'' e)), w)
                               | (Inr (c, closeLanes), w) \<Rightarrow>
                                   map_option (\<lambda>(res, w). (res, closeLanes w))
                                     (upload_session b sc env c req (length content) transferID stagePath
                                        script w)))))))"

end
