(* ===== verification/Script_Replies.thy ===== *)
theory Script_Replies
  imports Transfer_Lanes
begin

text \<open>
  The sessions of a transfer with their replies, on top of \<open>Replies\<close>: what the short scripts of \<open>Script_Session\<close>
  return is what the replies to their polls carried, and the long session of a transfer sends and polls in some
  interleaving.  As there, no law of the transports is needed.
\<close>

subsection \<open>Two exchanges at a time\<close>

lemma shuffles_append:
  "xs \<in> shuffles as bs \<Longrightarrow> ys \<in> shuffles cs ds \<Longrightarrow> xs @ ys \<in> shuffles (as @ cs) (bs @ ds)"
proof (induction as bs arbitrary: xs rule: shuffles.induct)
  case (1 bs)
  then show ?case by (induction bs arbitrary: xs) (auto simp: Cons_in_shuffles_iff)
next
  case (2 as)
  then show ?case by (induction as arbitrary: xs) (auto simp: Cons_in_shuffles_iff)
next
  case (3 a as b bs)
  from 3(3) consider zs where "xs = a # zs" "zs \<in> shuffles as (b # bs)"
    | zs where "xs = b # zs" "zs \<in> shuffles (a # as) bs" by (cases xs) auto
  then show ?case
  proof cases
    case 1
    with 3(1) [of zs] 3(4) show ?thesis by simp
  next
    case 2
    with 3(2) [of zs] 3(4) show ?thesis by simp
  qed
qed

lemma shuffles_sequence: "xs @ ys \<in> shuffles xs ys" "ys @ xs \<in> shuffles xs ys"
  using shuffles_append [of xs xs "[]" ys "[]" ys] shuffles_append [of ys "[]" ys xs xs "[]"] by simp_all

subsection \<open>Buffered output\<close>

lemma buffers_written:
  "write_streams (out_write l1) (err_write l2) ss (o1, e1) = (None, o2, e2) \<Longrightarrow>
   o2 = o1 @ stream_bytes ''stdout'' ss \<and> e2 = e1 @ stream_bytes ''stderr'' ss"
proof (induction ss arbitrary: o1 e1)
  case (Cons s ss)
  obtain nam enc where s: "s = (nam, enc)" by fastforce
  from Cons.prems obtain d n u' where d: "b64_decode False enc = Some d" "nam = ''stdout'' \<or> nam = ''stderr''"
    "(if nam = ''stdout'' then out_write l1 else err_write l2) d (o1, e1) = (n, None, u')"
    "write_streams (out_write l1) (err_write l2) ss u' = (None, o2, e2)"
    by (auto simp: s split: option.splits if_splits prod.splits)
  have "u' = (if nam = ''stdout'' then (o1 @ d, e1) else (o1, e1 @ d))"
    using d(3) by (auto simp: out_write_def err_write_def bounded_write_def split: if_splits)
  with Cons.IH [of "fst u'" "snd u'"] d(1,2,4) show ?case by (auto simp: s split: if_splits)
qed simp

subsection \<open>A script\<close>

text \<open>A script that was started in a shell of its own, given no input and polled until it was reported done with the
  code \<open>rc\<close>; \<open>out\<close> and \<open>er\<close> are what the replies to the polls carried.  Then its shell was closed: if \<open>confirmed\<close>,
  the server has confirmed the Delete.\<close>

definition script_held ::
  "'w post set \<Rightarrow> builders \<Rightarrow> request \<Rightarrow> nat \<Rightarrow> bytes \<Rightarrow> bytes \<Rightarrow> bool \<Rightarrow> 'w \<Rightarrow> 'w \<Rightarrow> bool" where
  "script_held posts b req rc out er confirmed w w' \<longleftrightarrow> (\<exists>shell cid start input polls ss closing.
     held posts w (start @ input @ polls @ closing) w' \<and> command_started b req shell cid start \<and>
     sent_by b (send_request b (req_endpoint req) shell cid [] True) input \<and>
     polled_to_end b (output_request b (req_endpoint req) shell cid) polls ss rc \<and>
     out = stream_bytes ''stdout'' ss \<and> er = stream_bytes ''stderr'' ss \<and>
     (confirmed \<longrightarrow> deleted_by b (delete_request b (req_endpoint req) shell) closing))"

lemma script_held_weaken: "script_held posts b req rc out er c w w' \<Longrightarrow> script_held posts b req rc out er False w w'"
  unfolding script_held_def by blast

lemma unsignaled_close_held:
  assumes "primary \<in> posts" "fallback \<in> posts" "set_option s_fallback \<subseteq> posts"
    and "closeWith b s primary fallback s_fallback False ctx joined closed w = (r, w')"
  shows "\<exists>xs. held posts w xs w' \<and> (\<not> closed \<and> r = None \<longrightarrow> deleted_by b (delete_request b (endpoint s) (shellID s)) xs)"
proof (cases closed)
  case True
  with assms(4) have "w' = w" by (auto simp: closeWith_def split: if_splits)
  with True show ?thesis by (intro exI [of _ "[]"]) simp
next
  case False
  with assms(4) have "closeWith b s primary fallback s_fallback False ctx joined False w = (r, w')" by simp
  from close_held [OF assms(1-3) this] obtain xs ys where h: "held posts w (xs @ ys) w'"
    "\<not> unknown_shell r \<longrightarrow> deleted_by b (delete_request b (endpoint s) (shellID s)) ys" "r = None \<longrightarrow> xs = []" by auto
  then show ?thesis by (intro exI [of _ "xs @ ys"]) (auto simp: unknown_shell_def)
qed

lemma run_script_held:
  assumes P: "script_post env \<in> posts" "script_cleanup env \<in> posts" "set_option (script_fallback env) \<subseteq> posts"
    and r: "run_script b env limits req w = Some (outcome, ce, w')"
  shows "(\<exists>xs. held posts w xs w') \<and>
    (\<forall>rc out er. outcome = Exited rc out er \<longrightarrow> script_held posts b req rc out er (ce = None) w w')"
proof -
  obtain rs w1 where S: "startSessionLanes b req (script_post env) (script_cleanup env) (script_fallback env)
      (script_ctx env) (script_budget env) w = (rs, w1)" by (metis surj_pair)
  from start_held [OF P S] obtain start where h1: "held posts w start w1"
    and s: "\<forall>s. rs = Inr s \<longrightarrow> endpoint s = req_endpoint req \<and> command_started b req (shellID s) (commandID s) start" by blast
  show ?thesis
  proof (cases rs)
    case (Inl e)
    with S r h1 show ?thesis by (auto simp: run_script_def)
  next
    case (Inr ses)
    obtain e2 w2 where T: "session_send b ses (script_post env) False (script_ctx env) [] True w1 = (e2, w2)"
      by (metis surj_pair)
    from send_held [OF P(1) T] obtain input where h2: "held posts w1 input w2"
      "e2 = None \<longrightarrow> sent_by b (send_request b (endpoint ses) (shellID ses) (commandID ses) [] True) input" by blast
    have closing: "\<exists>xs. held posts v xs w' \<and> (ce = None \<longrightarrow> deleted_by b (delete_request b (endpoint ses) (shellID ses)) xs)"
      if "close_script b env ses v = (ce, w')" for v
      using unsignaled_close_held [OF P(2,2,3) that [unfolded close_script_def]] by simp
    show ?thesis
    proof (cases e2)
      case (Some e)
      with S Inr T r have o: "outcome = Send_failed e" "close_script b env ses w2 = (ce, w')"
        by (auto simp: run_script_def split: prod.splits)
      from closing [OF o(2)] obtain ds where "held posts w2 ds w'" by blast
      from held_append [OF held_append [OF h1 h2(1)] this] o(1) show ?thesis by auto
    next
      case None
      with S Inr T r obtain y w3 bufs where R: "session_receive b ses (script_post env) (out_write (fst limits))
          (err_write (snd limits)) (script_ctx env) (script_early env) (w2, [], []) = Some (y, w3, bufs)"
        and c: "close_script b env ses w3 = (ce, w')"
        and o: "outcome = (case y of Inl e \<Rightarrow> Receive_failed e | Inr rc \<Rightarrow> Exited rc (fst bufs) (snd bufs))"
        by (auto simp: run_script_def split: option.splits prod.splits sum.splits)
      from session_receive_held [OF P(1) R] obtain polls where h3: "held posts w2 polls w3"
        and rc: "\<forall>rc. y = Inr rc \<longrightarrow> (\<exists>ss. polled_to_end b (output_request b (endpoint ses) (shellID ses) (commandID ses)) polls ss rc \<and>
          write_streams (out_write (fst limits)) (err_write (snd limits)) ss ([], []) = (None, bufs))" by blast
      from closing [OF c] obtain ds where h4: "held posts w3 ds w'"
        "ce = None \<longrightarrow> deleted_by b (delete_request b (endpoint ses) (shellID ses)) ds" by blast
      note h = held_append [OF h1 held_append [OF h2(1) held_append [OF h3 h4(1)]]]
      have "script_held posts b req rc out er (ce = None) w w'" if "outcome = Exited rc out er" for rc out er
      proof -
        from that o have y: "y = Inr rc" "bufs = (out, er)" by (auto split: sum.splits intro: prod_eqI)
        with rc obtain ss where "polled_to_end b (output_request b (endpoint ses) (shellID ses) (commandID ses)) polls ss rc"
          "write_streams (out_write (fst limits)) (err_write (snd limits)) ss ([], []) = (None, out, er)" by blast
        moreover from this(2) have "out = stream_bytes ''stdout'' ss" "er = stream_bytes ''stderr'' ss"
          using buffers_written [of "fst limits" "snd limits" ss "[]" "[]" out er] by simp_all
        ultimately show ?thesis using h h2(2) h4(2) s Inr None unfolding script_held_def
          by (intro exI [of _ "shellID ses"] exI [of _ "commandID ses"] exI [of _ start] exI [of _ input] exI [of _ polls]
              exI [of _ ss] exI [of _ ds]) simp
      qed
      with h show ?thesis by blast
    qed
  qed
qed

lemma transferControl_held:
  assumes P: "script_post env \<in> posts" "script_cleanup env \<in> posts" "set_option (script_fallback env) \<subseteq> posts"
    and r: "transferControl b env ep script w = Some (r, w')"
  shows "(\<exists>xs. held posts w xs w') \<and>
    (\<forall>out rc. r = Inr (out, rc) \<longrightarrow> script_held posts b (ps_request ep script) rc out [] True w w')"
proof -
  from r obtain outcome ce where R: "run_script b env (int transferRecordMaxSize, 1024) (ps_request ep script) w =
      Some (outcome, ce, w')" and o: "\<And>out rc. r = Inr (out, rc) \<Longrightarrow> outcome = Exited rc out [] \<and> ce = None"
    by (auto simp: transferControl_def runWithCleanup_def split: option.splits script_outcome.splits if_splits)
  from run_script_held [OF P R] o show ?thesis by fastforce
qed

subsection \<open>The transports of a transfer\<close>

definition transfer_posts :: "('w, 'x) transfer_env_scheme \<Rightarrow> 'w conns \<Rightarrow> 'w post set" where
  "transfer_posts env c = {tx_post env, conn_send c, conn_receive c, conn_cleanup c}"

lemma control_posts [simp]:
  "script_post (control_env env c) \<in> transfer_posts env c" "script_cleanup (control_env env c) \<in> transfer_posts env c"
  "set_option (script_fallback (control_env env c)) \<subseteq> transfer_posts env c"
  "script_post (cleanup_env env c) \<in> transfer_posts env c" "script_cleanup (cleanup_env env c) \<in> transfer_posts env c"
  "set_option (script_fallback (cleanup_env env c)) \<subseteq> transfer_posts env c"
  "tx_post env \<in> transfer_posts env c" "conn_send c \<in> transfer_posts env c" "conn_receive c \<in> transfer_posts env c"
  "conn_cleanup c \<in> transfer_posts env c" "set_option (Some (tx_post env)) \<subseteq> transfer_posts env c"
  by (simp_all add: transfer_posts_def control_env_def cleanup_env_def)

lemma close_stream_held:
  "close_stream b s env c ctx already w = (r, w') \<Longrightarrow>
   \<exists>xs. held (transfer_posts env c) w xs w' \<and>
     (\<not> already \<and> r = None \<longrightarrow> deleted_by b (delete_request b (endpoint s) (shellID s)) xs)"
  unfolding close_stream_def by (rule unsignaled_close_held) simp_all

lemma cleanup_held:
  assumes "cleanupRemoteStage b sc (cleanup_env env c) ep stage w = Some (r, w')"
  shows "\<exists>xs. held (transfer_posts env c) w xs w'"
proof (cases "build_script sc ''cleanup.ps1'' [(''stage'', stage)]")
  case (Inl e)
  with assms show ?thesis by (intro exI [of _ "[]"]) (simp add: cleanupRemoteStage_def)
next
  case (Inr script)
  with assms obtain outcome ce where "run_script b (cleanup_env env c) (256, 256) (ps_request ep script) w = Some (outcome, ce, w')"
    by (auto simp: cleanupRemoteStage_def split: option.splits)
  from run_script_held [OF _ _ _ this, of "transfer_posts env c"] show ?thesis by simp
qed

end
