(* ===== verification/Upload_Trace.thy ===== *)
theory Upload_Trace
  imports Upload Script_Replies
begin

text \<open>
  What an upload puts on the wire, and in which order: the receiver's conversation, in which chunks and
  polls interleave, then at most one finalizer, then at most one cleanup; and what the replies said when the receiver
  was given everything.
\<close>

subsection \<open>Interleaved sending and polling\<close>

text \<open>Between two states of the stream the messages \<open>ms\<close> were sent and some polls were made; polls are
  made once, by the worker that ends.\<close>

definition grew ::
  "('w \<Rightarrow> bytes list) \<Rightarrow> bytes \<Rightarrow> bytes list \<Rightarrow> 'w stream_state \<Rightarrow> 'w stream_state \<Rightarrow> bool" where
  "grew obs poll ms st st' \<longleftrightarrow>
     (\<exists>n z. obs (fst st') = obs (fst st) @ z \<and> z \<in> shuffles ms (replicate n poll) \<and>
        (snd st' = None \<longrightarrow> n = 0) \<and> (snd st \<noteq> None \<longrightarrow> snd st' = snd st \<and> n = 0) \<and>
        (\<forall>rc bufs. snd st = None \<and> snd st' = Some (Inr rc, bufs) \<longrightarrow> 0 < n))"

lemma grew_refl [simp]: "grew obs poll [] st st"
  by (auto simp: grew_def intro!: exI [of _ 0])

lemma grew_trans:
  assumes "grew obs poll ms st st1" and "grew obs poll ms' st1 st2"
  shows "grew obs poll (ms @ ms') st st2"
proof -
  obtain n z where 1: "obs (fst st1) = obs (fst st) @ z \<and> z \<in> shuffles ms (replicate n poll) \<and>
    (snd st1 = None \<longrightarrow> n = 0) \<and> (snd st \<noteq> None \<longrightarrow> snd st1 = snd st \<and> n = 0) \<and>
    (\<forall>rc bufs. snd st = None \<and> snd st1 = Some (Inr rc, bufs) \<longrightarrow> 0 < n)"
    using assms(1) unfolding grew_def by (elim exE)
  obtain n' z' where 2: "obs (fst st2) = obs (fst st1) @ z' \<and> z' \<in> shuffles ms' (replicate n' poll) \<and>
    (snd st2 = None \<longrightarrow> n' = 0) \<and> (snd st1 \<noteq> None \<longrightarrow> snd st2 = snd st1 \<and> n' = 0) \<and>
    (\<forall>rc bufs. snd st1 = None \<and> snd st2 = Some (Inr rc, bufs) \<longrightarrow> 0 < n')"
    using assms(2) unfolding grew_def by (elim exE)
  have "z @ z' \<in> shuffles (ms @ ms') (replicate (n + n') poll)"
    using shuffles_append [of z ms _ z' ms'] 1 2 by (simp add: replicate_add)
  with 1 2 show ?thesis unfolding grew_def
    by (intro exI [of _ "n + n'"] exI [of _ "z @ z'"]) (cases "snd st1", auto)
qed

lemma grew_poll: "grew obs poll [] st st1 \<Longrightarrow> grew obs poll ms st1 st2 \<Longrightarrow> grew obs poll ms st st2"
  using grew_trans [of obs poll "[]"] by simp

lemma grew_send: "grew obs poll ms st st1 \<Longrightarrow> grew obs poll [] st1 st2 \<Longrightarrow> grew obs poll ms st st2"
  using grew_trans [of obs poll ms st st1 "[]"] by simp

text \<open>The bytes of the source up to its end, as the reads deliver them.\<close>

fun read_all :: "(bytes \<times> goerr option) list \<Rightarrow> goerr + bytes list" where
  "read_all [] = Inr []"
| "read_all ((d, e) # rest) =
     (case e of
        None \<Rightarrow> (case read_all rest of Inl e \<Rightarrow> Inl e | Inr ds \<Rightarrow> Inr (d # ds))
      | Some e \<Rightarrow> if errors_is e IoEOF then Inr [d] else Inl e)"

definition chunk_text :: "builders \<Rightarrow> session \<Rightarrow> bytes \<Rightarrow> bytes" where
  "chunk_text b s d = send_request b (endpoint s) (shellID s) (commandID s) (chunk_line d) False"

definition poll_text :: "builders \<Rightarrow> session \<Rightarrow> bytes" where
  "poll_text b s = output_request b (endpoint s) (shellID s) (commandID s)"

definition eof_text :: "builders \<Rightarrow> session \<Rightarrow> bytes" where
  "eof_text b s = send_request b (endpoint s) (shellID s) (commandID s) [] True"

text \<open>One turn of the read loop.\<close>

lemma stream_turn:
  assumes "check_worker b s env c k st = Some st1" and "stream_ctx env (snd st1) (fst st1) = None"
    and "(if d = [] then (None, st1) else send_line b s env c (chunk_line d) False st1) = (r1, st2)"
  shows "upload_stream b s env c ((d, e) # reads) k acc st =
    (case r1 of
       Some e' \<Rightarrow>
         do { st \<leftarrow> check_worker b s env c (k + 1) st2;
              Some (Inl (Wrap ''send chunk'' (early_exit env e' st)), st) }
     | None \<Rightarrow>
         (case e of
            None \<Rightarrow> upload_stream b s env c reads (k + 2) (acc @ d) st2
          | Some e' \<Rightarrow>
              if errors_is e' IoEOF then Some (Inr (acc @ d), st2)
              else Some (Inl (Wrap ''read source'' e'), st2)))"
  using assms by (subst upload_stream.simps) (cases "d = []"; simp split: option.split)

context transfer_posters begin

lemma worker_ran:
  assumes "conn_receive c = rcv" and "run_worker b s env c st = Some st'"
  shows "grew wire (poll_text b s) [] st st' \<and> snd st' \<noteq> None"
proof (cases "snd st")
  case (Some r)
  with assms show ?thesis by (auto simp: run_worker_def)
next
  case None
  with assms obtain r w bufs where R: "session_receive b s rcv (out_write (int transferRecordMaxSize))
      (err_write 1024) (tx_ctx env) (tx_early env) (fst st, [], []) = Some (r, w, bufs)"
    and st': "st' = (w, Some (r, bufs))"
    by (auto simp: run_worker_def split: bind_splits prod.splits)
  from R obtain r' bufs' where L: "receiveLoop b s rcv (out_write (int transferRecordMaxSize)) (err_write 1024)
      (tx_ctx env) (fst st, [], []) = Some (r', w, bufs')" and r': "\<And>rc. r = Inr rc \<Longrightarrow> r' = Inr rc"
    by (auto simp: session_receive_def split: option.splits prod.splits)
  from receives.loop_sent [OF L] obtain n where "wire w = wire (fst st) @ replicate n (poll_text b s)"
    "\<forall>rc. r' = Inr rc \<longrightarrow> 0 < n" by (auto simp: loop_wrote_def poll_text_def)
  with st' None r' show ?thesis unfolding grew_def
    by (intro conjI exI [of _ n] exI [of _ "replicate n (poll_text b s)"]) auto
qed

lemma worker_checked:
  "conn_receive c = rcv \<Longrightarrow> check_worker b s env c k st = Some st' \<Longrightarrow> grew wire (poll_text b s) [] st st'"
  using worker_ran by (fastforce simp: check_worker_def split: if_splits)

lemma line_sent:
  assumes "conn_send c = snp" and "send_line b s env c line eof st = (r, st')"
  obtains ms where "grew wire (poll_text b s) ms st st'" and "snd st' = snd st"
    and "opt_msg (send_request b (endpoint s) (shellID s) (commandID s) line eof) ms" and "r = None \<Longrightarrow> ms \<noteq> []"
proof -
  obtain w where S: "session_send b s snp False (stream_ctx env (snd st)) line eof (fst st) = (r, w)"
    and st': "st' = (w, snd st)" using assms by (auto simp: send_line_def split: prod.splits)
  from sends.sent_once [OF S] obtain m where m: "wire w = wire (fst st) @ m"
    "opt_msg (send_request b (endpoint s) (shellID s) (commandID s) line eof) m" "r = None \<Longrightarrow> m \<noteq> []" by metis
  with st' have "grew wire (poll_text b s) m st st'"
    unfolding grew_def by (intro exI [of _ 0] exI [of _ m]) auto
  with that st' m show thesis by auto
qed

text \<open>The read loop sends a chunk per read; if it ends well, one for every non-empty read up to the end
  of the source.\<close>

lemma streamed:
  assumes "conn_send c = snp" and "conn_receive c = rcv"
    and "upload_stream b s env c reads k acc st = Some (r, st')"
  shows "\<exists>cs. grew wire (poll_text b s) (map (chunk_text b s) cs) st st' \<and>
    (\<forall>data. r = Inr data \<longrightarrow> (\<exists>ds. read_all reads = Inr ds \<and> data = acc @ concat ds \<and> cs = filter (\<lambda>d. d \<noteq> []) ds))"
  using assms(3)
proof (induction reads arbitrary: k acc st)
  case Nil
  then show ?case
    by (auto simp: upload_stream.simps [where reads="[]"] split: bind_splits option.splits
        dest!: worker_checked [OF assms(2)] intro!: exI [of _ "[]"])
next
  case (Cons x reads)
  obtain d e where x: "x = (d, e)" by (cases x)
  from Cons.prems obtain st1 where c: "check_worker b s env c k st = Some st1"
    by (auto simp: upload_stream.simps [where reads="x # reads"] split: bind_splits)
  note g1 = worker_checked [OF assms(2) c]
  show ?case
  proof (cases "stream_ctx env (snd st1) (fst st1)")
    case (Some ce)
    with Cons.prems c g1 show ?thesis
      by (intro exI [of _ "[]"]) (auto simp: upload_stream.simps [where reads="x # reads"])
  next
    case None
    define attempt where "attempt = (if d = [] then (None, st1) else send_line b s env c (chunk_line d) False st1)"
    obtain r1 st2 where a: "attempt = (r1, st2)" by (metis surj_pair)
    have "\<exists>ms. grew wire (poll_text b s) (map (chunk_text b s) ms) st1 st2 \<and>
        (r1 = None \<longrightarrow> ms = filter (\<lambda>d. d \<noteq> []) [d])"
    proof (cases "d = []")
      case True
      with a show ?thesis by (intro exI [of _ "[]"]) (auto simp: attempt_def)
    next
      case False
      with a have "send_line b s env c (chunk_line d) False st1 = (r1, st2)" by (simp add: attempt_def)
      from line_sent [OF assms(1) this] obtain ms where "grew wire (poll_text b s) ms st1 st2"
        "opt_msg (chunk_text b s d) ms" "r1 = None \<Longrightarrow> ms \<noteq> []" by (metis chunk_text_def)
      with False show ?thesis
        by (cases "ms = []") (auto simp: opt_msg_def intro: exI [of _ "[]"] exI [of _ "[d]"])
    qed
    then obtain ms where g2: "grew wire (poll_text b s) (map (chunk_text b s) ms) st1 st2"
      and ms: "r1 = None \<longrightarrow> ms = filter (\<lambda>d. d \<noteq> []) [d]" by blast
    note g = grew_poll [OF g1 g2]
    note body = stream_turn [OF c None a [unfolded attempt_def], of e reads acc, folded x]
    show ?thesis
    proof (cases r1)
      case (Some e')
      have "do { st \<leftarrow> check_worker b s env c (k + 1) st2;
          Some ((Inl (Wrap ''send chunk'' (early_exit env e' st)) :: goerr + bytes), st) } = Some (r, st')"
        using Cons.prems unfolding body Some by simp
      then obtain st3 where c3: "check_worker b s env c (k + 1) st2 = Some st3"
        and r: "Some (Inl (Wrap ''send chunk'' (early_exit env e' st3)) :: goerr + bytes, st3) = Some (r, st')"
        unfolding bind_eq_Some_conv by (elim exE conjE)
      from grew_send [OF g worker_checked [OF assms(2) c3]] r show ?thesis by auto
    next
      case r1: None
      show ?thesis
      proof (cases e)
        case None
        with Cons.prems body r1 have "upload_stream b s env c reads (k + 2) (acc @ d) st2 = Some (r, st')" by simp
        from Cons.IH [OF this] obtain cs where "grew wire (poll_text b s) (map (chunk_text b s) cs) st2 st'"
          "\<forall>data. r = Inr data \<longrightarrow> (\<exists>ds. read_all reads = Inr ds \<and> data = (acc @ d) @ concat ds \<and>
             cs = filter (\<lambda>d. d \<noteq> []) ds)" by blast
        with grew_trans [OF g] ms r1 None x show ?thesis
          by (intro exI [of _ "ms @ cs"]) (auto split: sum.splits)
      next
        case (Some e')
        with Cons.prems body r1 g ms x show ?thesis
          by (intro exI [of _ ms]) (auto split: if_splits)
      qed
    qed
  qed
qed

end

subsection \<open>The replies\<close>

text \<open>Between two states of the stream each of the messages \<open>ms\<close> was accepted by its reply; if the worker ended in
  between, the polls went up to the reply with its code, and its buffers are what the replies to them carried.\<close>

definition advanced ::
  "'w post set \<Rightarrow> builders \<Rightarrow> session \<Rightarrow> bytes list \<Rightarrow> 'w stream_state \<Rightarrow> 'w stream_state \<Rightarrow> bool" where
  "advanced posts b s ms st st' \<longleftrightarrow> (\<exists>xs sends polls. held posts (fst st) xs (fst st') \<and> xs \<in> shuffles sends polls \<and>
     list_all2 (\<lambda>m x. sent_by b m [x]) ms sends \<and>
     (snd st \<noteq> None \<longrightarrow> snd st' = snd st \<and> polls = []) \<and> (snd st' = None \<longrightarrow> polls = []) \<and>
     (\<forall>rc out er. snd st = None \<and> snd st' = Some (Inr rc, out, er) \<longrightarrow> (\<exists>ss. polled_to_end b (poll_text b s) polls ss rc \<and>
        out = stream_bytes ''stdout'' ss \<and> er = stream_bytes ''stderr'' ss)))"

lemma advanced_refl [simp]: "advanced posts b s [] st st"
  by (auto simp: advanced_def intro!: exI [of _ "[]"])

lemma advanced_trans:
  assumes "advanced posts b s ms st st1" and "advanced posts b s ms' st1 st2"
  shows "advanced posts b s (ms @ ms') st st2"
proof -
  obtain xs sends polls where 1: "held posts (fst st) xs (fst st1)" "xs \<in> shuffles sends polls"
    "list_all2 (\<lambda>m x. sent_by b m [x]) ms sends" "snd st \<noteq> None \<longrightarrow> snd st1 = snd st \<and> polls = []"
    "snd st1 = None \<longrightarrow> polls = []"
    "\<forall>rc out er. snd st = None \<and> snd st1 = Some (Inr rc, out, er) \<longrightarrow> (\<exists>ss. polled_to_end b (poll_text b s) polls ss rc \<and>
       out = stream_bytes ''stdout'' ss \<and> er = stream_bytes ''stderr'' ss)"
    using assms(1) unfolding advanced_def by (elim exE conjE) (rule that; assumption)
  obtain ys sends' polls' where 2: "held posts (fst st1) ys (fst st2)" "ys \<in> shuffles sends' polls'"
    "list_all2 (\<lambda>m x. sent_by b m [x]) ms' sends'" "snd st1 \<noteq> None \<longrightarrow> snd st2 = snd st1 \<and> polls' = []"
    "snd st2 = None \<longrightarrow> polls' = []"
    "\<forall>rc out er. snd st1 = None \<and> snd st2 = Some (Inr rc, out, er) \<longrightarrow> (\<exists>ss. polled_to_end b (poll_text b s) polls' ss rc \<and>
       out = stream_bytes ''stdout'' ss \<and> er = stream_bytes ''stderr'' ss)"
    using assms(2) unfolding advanced_def by (elim exE conjE) (rule that; assumption)
  have h: "held posts (fst st) (xs @ ys) (fst st2)" "xs @ ys \<in> shuffles (sends @ sends') (polls @ polls')"
    "list_all2 (\<lambda>m x. sent_by b m [x]) (ms @ ms') (sends @ sends')"
    using held_append [OF 1(1) 2(1)] shuffles_append [OF 1(2) 2(2)] list_all2_appendI [OF 1(3) 2(3)] by simp_all
  show ?thesis
  proof (cases "snd st1")
    case None
    with 1(5) have "polls = []" by simp
    moreover have "snd st = None" using 1(4) None by (cases "snd st") simp_all
    ultimately show ?thesis using h 2(5,6) None unfolding advanced_def
      by (intro exI [of _ "xs @ ys"] exI [of _ "sends @ sends'"] exI [of _ "polls @ polls'"]) auto
  next
    case (Some r)
    with 2(4) have "polls' = []" "snd st2 = snd st1" by auto
    with h 1(4,6) Some show ?thesis unfolding advanced_def
      by (intro exI [of _ "xs @ ys"] exI [of _ "sends @ sends'"] exI [of _ "polls @ polls'"]) auto
  qed
qed

lemma worker_advanced:
  assumes "run_worker b s env c st = Some st'"
  shows "advanced (transfer_posts env c) b s [] st st'"
proof (cases "snd st")
  case (Some r)
  with assms have "st' = st" by (simp add: run_worker_def)
  then show ?thesis by simp
next
  case None
  with assms obtain r w bufs where R: "session_receive b s (conn_receive c) (out_write (int transferRecordMaxSize))
      (err_write 1024) (tx_ctx env) (tx_early env) (fst st, [], []) = Some (r, w, bufs)"
    and st': "st' = (w, Some (r, bufs))"
    by (auto simp: run_worker_def split: bind_splits prod.splits)
  from session_receive_held [OF _ R, of "transfer_posts env c"] obtain polls where
    h: "held (transfer_posts env c) (fst st) polls w" and rc: "\<forall>rc. r = Inr rc \<longrightarrow>
      (\<exists>ss. polled_to_end b (poll_text b s) polls ss rc \<and>
         write_streams (out_write (int transferRecordMaxSize)) (err_write 1024) ss ([], []) = (None, bufs))"
    unfolding poll_text_def by auto
  have "\<exists>ss. polled_to_end b (poll_text b s) polls ss rc \<and> out = stream_bytes ''stdout'' ss \<and> er = stream_bytes ''stderr'' ss"
    if o: "snd st' = Some (Inr rc, out, er)" for rc out er
  proof -
    from rc o st' obtain ss where "polled_to_end b (poll_text b s) polls ss rc"
      "write_streams (out_write (int transferRecordMaxSize)) (err_write 1024) ss ([], []) = (None, out, er)" by auto
    with buffers_written [of "int transferRecordMaxSize" 1024 ss "[]" "[]" out er] show ?thesis by auto
  qed
  with h None st' show ?thesis unfolding advanced_def
    by (intro exI [of _ polls] exI [of _ "[]"]) auto
qed

lemma checked_advanced: "check_worker b s env c k st = Some st' \<Longrightarrow> advanced (transfer_posts env c) b s [] st st'"
  using worker_advanced by (fastforce simp: check_worker_def split: if_splits)

lemma line_advanced:
  assumes "send_line b s env c line eof st = (None, st')"
  shows "advanced (transfer_posts env c) b s [send_request b (endpoint s) (shellID s) (commandID s) line eof] st st'"
proof -
  obtain w where S: "session_send b s (conn_send c) False (stream_ctx env (snd st)) line eof (fst st) = (None, w)"
    and st': "st' = (w, snd st)" using assms by (auto simp: send_line_def split: prod.splits)
  from send_held [OF _ S, of "transfer_posts env c"] obtain xs where h: "held (transfer_posts env c) (fst st) xs w"
    "sent_by b (send_request b (endpoint s) (shellID s) (commandID s) line eof) xs" by auto
  from h(2) obtain x where "xs = [x]" unfolding sent_by_def by blast
  with h st' show ?thesis unfolding advanced_def
    by (intro exI [of _ xs] exI [of _ xs] exI [of _ "[]"]) auto
qed

lemma stream_advanced:
  "upload_stream b s env c reads k acc st = Some (Inr data, st') \<Longrightarrow>
   \<exists>ds. read_all reads = Inr ds \<and> data = acc @ concat ds \<and>
     advanced (transfer_posts env c) b s (map (chunk_text b s) (filter (\<lambda>d. d \<noteq> []) ds)) st st'"
proof (induction reads arbitrary: k acc st)
  case Nil
  then obtain st1 where c: "check_worker b s env c k st = Some st1" and "st' = st1" "data = acc"
    by (auto simp: upload_stream.simps [where reads="[]"] split: bind_splits option.splits)
  with checked_advanced [OF c] show ?case by simp
next
  case (Cons x reads)
  obtain d e where x: "x = (d, e)" by (cases x)
  from Cons.prems obtain st1 where c: "check_worker b s env c k st = Some st1"
    by (auto simp: upload_stream.simps [where reads="x # reads"] split: bind_splits)
  define attempt where "attempt = (if d = [] then (None, st1) else send_line b s env c (chunk_line d) False st1)"
  obtain r1 st2 where a': "attempt = (r1, st2)" by (metis surj_pair)
  have go: "stream_ctx env (snd st1) (fst st1) = None"
    using Cons.prems c by (auto simp: upload_stream.simps [where reads="x # reads"] split: option.splits)
  note body = stream_turn [OF c go a' [unfolded attempt_def], of e reads acc, folded x]
  have r1: "r1 = None" using Cons.prems body by (cases r1) (auto simp: bind_eq_Some_conv)
  from Cons.prems body r1 have rest: "(case e of None \<Rightarrow> upload_stream b s env c reads (k + 2) (acc @ d) st2
       | Some e' \<Rightarrow> if errors_is e' IoEOF then Some (Inr (acc @ d), st2) else Some (Inl (Wrap ''read source'' e'), st2)) =
       Some (Inr data, st')" by simp
  have a: "(if d = [] then (None, st1) else send_line b s env c (chunk_line d) False st1) = (None, st2)"
    using a' r1 by (simp add: attempt_def)
  have "advanced (transfer_posts env c) b s (map (chunk_text b s) (filter (\<lambda>d. d \<noteq> []) [d])) st1 st2"
  proof (cases "d = []")
    case False
    with a have "send_line b s env c (chunk_line d) False st1 = (None, st2)" by simp
    from line_advanced [OF this] False show ?thesis by (simp add: chunk_text_def)
  qed (use a in simp)
  note g = advanced_trans [OF checked_advanced [OF c] this, simplified append_Nil]
  show ?case
  proof (cases e)
    case None
    with rest have "upload_stream b s env c reads (k + 2) (acc @ d) st2 = Some (Inr data, st')" by simp
    from Cons.IH [OF this] obtain ds where "read_all reads = Inr ds" "data = (acc @ d) @ concat ds"
      "advanced (transfer_posts env c) b s (map (chunk_text b s) (filter (\<lambda>d. d \<noteq> []) ds)) st2 st'" by blast
    with advanced_trans [OF g this(3)] None x show ?thesis by (intro exI [of _ "d # ds"]) (auto split: if_splits)
  next
    case (Some e')
    with rest g x show ?thesis by (intro exI [of _ "[d]"]) (auto split: if_splits)
  qed
qed

subsection \<open>The end of an upload\<close>

text \<open>The messages of one script session with this outcome.\<close>

definition script_talk :: "builders \<Rightarrow> request \<Rightarrow> script_outcome \<Rightarrow> bytes list \<Rightarrow> bool" where
  "script_talk b req outcome msgs \<longleftrightarrow> (\<exists>shell cid t. transcript_ok b req shell cid t \<and>
     msgs = transcript_msgs b req shell cid t \<and> script_wrote outcome t)"

definition cleaned :: "script_outcome \<Rightarrow> bool" where
  "cleaned outcome \<longleftrightarrow> (\<exists>out. outcome = Exited 0 out [] \<and> trim_space out = ''OK: cleaned'')"

text \<open>The stage is reported, or its removal was confirmed.\<close>

definition stage_settled ::
  "builders \<Rightarrow> scripts \<Rightarrow> bytes \<Rightarrow> bytes \<Rightarrow> bytes list \<Rightarrow> bytes list \<Rightarrow> bool" where
  "stage_settled b sc ep stage msgs arts \<longleftrightarrow>
     arts = [stage] \<and> msgs = [] \<or>
     (\<exists>script outcome. build_script sc ''cleanup.ps1'' [(''stage'', stage)] = Inr script \<and>
        script_talk b (ps_request ep script) outcome msgs \<and>
        (arts = [stage] \<or> arts = [] \<and> cleaned outcome))"

text \<open>What deferred calls add to an error does not hide what it says.\<close>

definition err_kept :: "goerr option \<Rightarrow> goerr option \<Rightarrow> bool" where
  "err_kept err err' \<longleftrightarrow> (\<forall>e. err = Some e \<longrightarrow> (\<exists>e'. err' = Some e' \<and>
     (is_finalization_unknown e \<longrightarrow> is_finalization_unknown e') \<and>
     (\<forall>rc. as_remote_exit e = Some rc \<longrightarrow> as_remote_exit e' = Some rc)))"

lemma err_kept_simps [simp]: "err_kept err err" "err_kept err (join_close what err ce)"
  by (auto simp: err_kept_def join_close_def split: option.splits)

context transfer_posters begin

lemma stage_cleaned:
  assumes "tx_post env = p" and "conn_cleanup c = cln"
    and "cleanupRemoteStage b sc (cleanup_env env c) ep stage w = Some (ce, w')"
  obtains msgs where "wire w' = wire w @ msgs"
    and "stage_settled b sc ep stage msgs (if ce = None then [] else [stage])"
proof (cases "build_script sc ''cleanup.ps1'' [(''stage'', stage)]")
  case (Inl e)
  with assms that [of "[]"] show thesis by (auto simp: cleanupRemoteStage_def stage_settled_def)
next
  case (Inr script)
  with assms obtain outcome closeErr where
    R: "run_script b (cleanup_env env c) (256, 256) (ps_request ep script) w = Some (outcome, closeErr, w')"
    and ce: "ce = join_close ''close cleanup shell'' (cleanup_verdict outcome) closeErr"
    by (auto simp: cleanupRemoteStage_def split: option.splits)
  have "script_post (cleanup_env env c) = cln" "script_cleanup (cleanup_env env c) = cln"
    "script_fallback (cleanup_env env c) = Some p"
    using assms by (simp_all add: cleanup_env_def control_env_def)
  from removes.script_transcript [OF this R] obtain msgs where "script_talk b (ps_request ep script) outcome msgs"
    "wire w' = wire w @ msgs" unfolding script_talk_def by blast
  moreover have "ce = None \<longrightarrow> cleaned outcome"
    by (auto simp: ce cleanup_verdict_def cleaned_def split: script_outcome.splits if_splits)
  ultimately have "stage_settled b sc ep stage msgs (if ce = None then [] else [stage])"
    unfolding stage_settled_def using Inr by (intro disjI2 exI [of _ script] exI [of _ outcome]) auto
  with \<open>wire w' = wire w @ msgs\<close> that show thesis by blast
qed

lemma stream_closed:
  assumes "tx_post env = p" and "conn_cleanup c = cln" and "close_stream b s env c ctx already w = (ce, w')"
  obtains d where "wire w' = wire w @ d" and "opt_msg (delete_request b (endpoint s) (shellID s)) d"
    and "already \<Longrightarrow> w' = w \<and> d = []" and "\<not> already \<Longrightarrow> \<not> unknown_shell ce \<Longrightarrow> d \<noteq> []"
proof (cases already)
  case True
  with assms that [of "[]"] show thesis by (auto simp: close_stream_def closeWith_def split: if_splits)
next
  case False
  with assms have c: "closeWith b s cln cln (Some p) False ctx (tx_joined env) False w = (ce, w')"
    by (simp add: close_stream_def)
  obtain g d where "wire w' = wire w @ g @ d" "opt_msg (delete_request b (endpoint s) (shellID s)) d"
    "g = []" "\<not> unknown_shell ce \<longrightarrow> d \<noteq> []"
    by (rule removes.closed [OF cleanup.poster_axioms c]) (cases ce; auto simp: unknown_shell_def)
  with False that [of d] show thesis by simp
qed

lemma deferred:
  assumes "tx_post env = p" and "conn_cleanup c = cln"
    and U: "upload_deferred b sc env c req stage s ((res1, err1), already, w1) = Some ((res, err), w')"
    and "artifacts res1 = []" and "\<not> committed res1 \<longrightarrow> err1 \<noteq> None"
  obtains d msgs where "wire w' = wire w1 @ d @ msgs" and "opt_msg (delete_request b (endpoint s) (shellID s)) d"
    and "already \<Longrightarrow> d = []" and "committed res = committed res1 \<and> t_bytes res = t_bytes res1 \<and> t_sha res = t_sha res1"
    and "err_kept err1 err"
    and "committed res \<Longrightarrow> msgs = [] \<and> artifacts res = []"
    and "\<not> committed res \<Longrightarrow> stage_settled b sc (tr_endpoint req) stage msgs (artifacts res)"
    and "\<And>e. \<not> committed res \<Longrightarrow> err1 = Some e \<Longrightarrow> is_finalization_unknown e \<Longrightarrow> msgs = [] \<and> artifacts res = [stage]"
proof -
  note finish = that
  obtain ce w2 where C: "close_stream b s env c (tx_budget env) already w1 = (ce, w2)" by (metis surj_pair)
  from stream_closed [OF assms(1,2) C] obtain d where d: "wire w2 = wire w1 @ d"
    "opt_msg (delete_request b (endpoint s) (shellID s)) d" "already \<Longrightarrow> d = []" by metis
  show thesis
  proof (cases "ce \<noteq> None \<or> committed res1 \<or> (\<exists>e. err1 = Some e \<and> is_finalization_unknown e)")
    case True
    with U C assms(4,5) have "w' = w2" "committed res = committed res1 \<and> t_bytes res = t_bytes res1 \<and> t_sha res = t_sha res1"
      "err_kept err1 err" "artifacts res = (if committed res1 then [] else [stage])"
      by (auto simp: upload_deferred_def Let_def split: option.splits if_splits)
    with d show thesis by (intro finish [of d "[]"]) (auto simp: stage_settled_def)
  next
    case False
    with assms(5) obtain e where e: "err1 = Some e" "\<not> is_finalization_unknown e" by auto
    with False U C obtain ce2 where
      CS: "cleanupRemoteStage b sc (cleanup_env env c) (tr_endpoint req) stage w2 = Some (ce2, w')"
      and r: "(res, err) = (case ce2 of None \<Rightarrow> (res1\<lparr>artifacts := []\<rparr>, err1)
         | Some x \<Rightarrow> (res1\<lparr>artifacts := artifacts res1 @ [stage]\<rparr>, join_close ''remove remote stage'' err1 (Some x)))"
      by (auto simp: upload_deferred_def Let_def bind_eq_Some_conv split: option.splits prod.splits)
    from stage_cleaned [OF assms(1,2) CS] obtain msgs where m: "wire w' = wire w2 @ msgs"
      "stage_settled b sc (tr_endpoint req) stage msgs (if ce2 = None then [] else [stage])" by metis
    from r assms(4) have "committed res = committed res1 \<and> t_bytes res = t_bytes res1 \<and> t_sha res = t_sha res1"
      "err_kept err1 err" "artifacts res = (if ce2 = None then [] else [stage])"
      by (auto split: option.splits)
    with d m False e show thesis by (intro finish [of d msgs]) auto
  qed
qed

end

subsection \<open>From the stream to the finalizer\<close>

text \<open>What the checks before the commit establish.\<close>

definition stage_verified ::
  "'w upload_env \<Rightarrow> nat \<Rightarrow> bytes \<Rightarrow> bytes \<Rightarrow> bytes \<Rightarrow> bool" where
  "stage_verified env initialSize transferID data out \<longleftrightarrow>
     up_same env \<and> up_size env = initialSize \<and> length data = initialSize \<and>
     (\<exists>rec. readRecord out None transferID = Inr rec \<and> Bytes rec = int (length data) \<and>
        SHA256 rec = tx_sha env data)"

lemma verify_stage_ok:
  "verify_stage env initialSize transferID data (result, out, err) = Inr sha \<Longrightarrow>
   result = Inr 0 \<and> err = [] \<and> sha = tx_sha env data \<and> stage_verified env initialSize transferID data out"
  by (auto simp: verify_stage_def stage_verified_def check_def split: sum.splits if_splits)

context transfer_posters begin

lemma body_ran:
  assumes T: "tx_post env = p" "conn_send c = snp" "conn_receive c = rcv" "conn_cleanup c = cln"
    and U: "upload_body b sc env c req initialSize transferID stage n s w = Some ((res, err), already, w')"
  obtains (stopped) cs eof st d where "grew wire (poll_text b s) (map (chunk_text b s) cs @ eof) (w, None) st"
      and "opt_msg (eof_text b s) eof" and "wire w' = wire (fst st) @ d"
      and "opt_msg (delete_request b (endpoint s) (shellID s)) d" and "\<not> already \<Longrightarrow> d = []"
      and "\<not> committed res" and "err \<noteq> None" and "artifacts res = []"
    | (dispatched) ds st out w2 where "read_all (up_reads env n) = Inr ds"
      and "grew wire (poll_text b s) (map (chunk_text b s) (filter (\<lambda>d. d \<noteq> []) ds) @ [eof_text b s]) (w, None) st"
      and "snd st = Some (Inr 0, out, [])" and "stage_verified env initialSize transferID (concat ds) out"
      and "wire w2 = wire (fst st) @ [delete_request b (endpoint s) (shellID s)]" and "already"
      and "dispatchFinalizer b sc (control_env env c) (tr_endpoint req) transferID stage (tr_remote req)
             (tx_sha env (concat ds)) (int (length (concat ds))) (tr_force req) w2 = Some ((res, err), w')"
      and "advanced (transfer_posts env c) b s (map (chunk_text b s) (filter (\<lambda>d. d \<noteq> []) ds) @ [eof_text b s]) (w, None) st"
      and "\<exists>xs. held (transfer_posts env c) (fst st) xs w2 \<and> deleted_by b (delete_request b (endpoint s) (shellID s)) xs"
proof -
  obtain r st0 where S: "upload_stream b s env c (up_reads env n) 0 [] (w, None) = Some (r, st0)"
    using U by (auto simp: upload_body_def bind_eq_Some_conv)
  from streamed [OF T(2,3) S] obtain cs where g0: "grew wire (poll_text b s) (map (chunk_text b s) cs) (w, None) st0"
    and r: "\<forall>data. r = Inr data \<longrightarrow> (\<exists>ds. read_all (up_reads env n) = Inr ds \<and> data = [] @ concat ds \<and>
       cs = filter (\<lambda>d. d \<noteq> []) ds)" by blast
  show thesis
  proof (cases r)
    case (Inl e)
    with U S have "res = no_result" "err = Some e" "\<not> already" "w' = fst st0"
      by (auto simp: upload_body_def)
    with g0 show thesis by (intro stopped [of cs "[]" st0 "[]"]) (auto simp: no_result_def)
  next
    case (Inr data)
    with U S obtain st1 where K: "check_worker b s env c (2 * length (up_reads env n) + 1) st0 = Some st1"
      by (auto simp: upload_body_def bind_eq_Some_conv)
    note g1 = grew_send [OF g0 worker_checked [OF T(3) K]]
    obtain r2 st2 where E: "send_line b s env c [] True st1 = (r2, st2)" by (metis surj_pair)
    from line_sent [OF T(2) E] obtain eof where g2: "grew wire (poll_text b s) eof st1 st2"
      and eof: "opt_msg (eof_text b s) eof" "r2 = None \<Longrightarrow> eof \<noteq> []" by (metis eof_text_def)
    note g3 = grew_trans [OF g1 g2]
    show thesis
    proof (cases r2)
      case (Some e)
      with U S Inr K E obtain st3 where "check_worker b s env c (2 * length (up_reads env n) + 2) st2 = Some st3"
        and x: "res = no_result" "err \<noteq> None" "\<not> already" "w' = fst st3"
        by (auto simp: upload_body_def bind_eq_Some_conv)
      with grew_send [OF g3 worker_checked [OF T(3)]] eof show thesis
        by (intro stopped [of cs eof st3 "[]"]) (auto simp: no_result_def)
    next
      case None
      with U S Inr K E obtain st3 where W: "run_worker b s env c st2 = Some st3"
        by (auto simp: upload_body_def bind_eq_Some_conv)
      from worker_ran [OF T(3) W] have g4: "grew wire (poll_text b s) (map (chunk_text b s) cs @ eof) (w, None) st3"
        and "snd st3 \<noteq> None" using grew_send [OF g3] by auto
      then obtain result out er where recv: "snd st3 = Some (result, out, er)" by auto
      show thesis
      proof (cases "verify_stage env initialSize transferID data (result, out, er)")
        case (Inl e)
        with U S Inr K E None W recv have "res = no_result" "err = Some e" "\<not> already" "w' = fst st3"
          by (auto simp: upload_body_def)
        with g4 eof show thesis by (intro stopped [of cs eof st3 "[]"]) (auto simp: no_result_def)
      next
        case sha: (Inr sha)
        obtain ce w2 where C: "close_stream b s env c (tx_budget env) False (fst st3) = (ce, w2)" by (metis surj_pair)
        from stream_closed [OF T(1,4) C] obtain d where d: "wire w2 = wire (fst st3) @ d"
          "opt_msg (delete_request b (endpoint s) (shellID s)) d" "\<not> unknown_shell ce \<Longrightarrow> d \<noteq> []" by metis
        show thesis
        proof (cases ce)
          case (Some e)
          with U S Inr K E None W recv sha C have "\<not> committed res" "artifacts res = []" "err \<noteq> None" "already" "w' = w2"
            by (auto simp: upload_body_def uncommitted_def no_result_def)
          with g4 eof d show thesis by (intro stopped [of cs eof st3 d]) auto
        next
          case ce: None
          from r Inr obtain ds where ds: "read_all (up_reads env n) = Inr ds" "data = concat ds"
            "cs = filter (\<lambda>d. d \<noteq> []) ds" by auto
          from U S Inr K E None W recv sha C ce
          have "dispatchFinalizer b sc (control_env env c) (tr_endpoint req) transferID stage (tr_remote req)
             sha (int (length data)) (tr_force req) w2 = Some ((res, err), w')" "already"
            by (auto simp: upload_body_def bind_eq_Some_conv)
          moreover note verify_stage_ok [OF sha]
          moreover have "d = [delete_request b (endpoint s) (shellID s)]" using d(2,3) ce
            by (auto simp: opt_msg_def unknown_shell_def)
          moreover have "eof = [eof_text b s]" using eof None by (auto simp: opt_msg_def)
          moreover have "advanced (transfer_posts env c) b s (map (chunk_text b s) cs @ [eof_text b s]) (w, None) st3"
          proof -
            obtain ds' where "read_all (up_reads env n) = Inr ds'"
              "advanced (transfer_posts env c) b s (map (chunk_text b s) (filter (\<lambda>d. d \<noteq> []) ds')) (w, None) st0"
              using stream_advanced [OF S [unfolded Inr]] by blast
            with ds(1,3) have "advanced (transfer_posts env c) b s (map (chunk_text b s) cs) (w, None) st0" by simp
            from advanced_trans [OF this advanced_trans [OF checked_advanced [OF K]
                advanced_trans [OF line_advanced [OF E [unfolded None]] worker_advanced [OF W]]]]
            show ?thesis by (simp add: eof_text_def)
          qed
          moreover have "\<exists>xs. held (transfer_posts env c) (fst st3) xs w2 \<and>
              deleted_by b (delete_request b (endpoint s) (shellID s)) xs"
            using close_stream_held [OF C] ce by simp
          ultimately show thesis using ds g4 recv d(1)
            by (intro dispatched [of ds st3 out w2]) auto
        qed
      qed
    qed
  qed
qed

end

subsection \<open>The receiver's conversation\<close>

text \<open>Create, Command, then chunks, end of input and polls in some interleaving, then Delete; it may stop
  anywhere.\<close>

definition receiver_talk ::
  "builders \<Rightarrow> request \<Rightarrow> session \<Rightarrow> bytes list \<Rightarrow> bytes list \<Rightarrow> bytes list \<Rightarrow> bool" where
  "receiver_talk b req s cs eof msgs \<longleftrightarrow>
     (\<exists>c x n z d. msgs = c @ x @ z @ d \<and> opt_msg (create_body b req) c \<and>
        opt_msg (command_body b req (shellID s)) x \<and>
        z \<in> shuffles (map (chunk_text b s) cs @ eof) (replicate n (poll_text b s)) \<and>
        opt_msg (eof_text b s) eof \<and> opt_msg (delete_request b (endpoint s) (shellID s)) d \<and>
        (x @ d \<noteq> [] \<longrightarrow> c \<noteq> []) \<and> (z \<noteq> [] \<longrightarrow> x \<noteq> []))"

text \<open>The conversation of a receiver that was given everything, polled to its end and deleted.\<close>

definition receiver_done :: "builders \<Rightarrow> request \<Rightarrow> session \<Rightarrow> bytes list \<Rightarrow> bytes list \<Rightarrow> bool" where
  "receiver_done b req s cs msgs \<longleftrightarrow>
     (\<exists>n z. 0 < n \<and> msgs = [create_body b req, command_body b req (shellID s)] @ z @
          [delete_request b (endpoint s) (shellID s)] \<and>
        z \<in> shuffles (map (chunk_text b s) cs @ [eof_text b s]) (replicate n (poll_text b s)))"

text \<open>The same with its replies: the script was started, every chunk and the end of input were accepted, the polls went
  on until it was reported done with code 0, and the Delete of its shell was confirmed; \<open>out\<close> and \<open>er\<close> are what the
  replies to the polls carried.\<close>

definition receiver_held ::
  "'w post set \<Rightarrow> builders \<Rightarrow> request \<Rightarrow> bytes list \<Rightarrow> bytes \<Rightarrow> bytes \<Rightarrow> 'w \<Rightarrow> 'w \<Rightarrow> bool" where
  "receiver_held posts b req cs out er w w' \<longleftrightarrow> (\<exists>s start xs sends polls ss closing. endpoint s = req_endpoint req \<and>
     held posts w (start @ xs @ closing) w' \<and> command_started b req (shellID s) (commandID s) start \<and>
     xs \<in> shuffles sends polls \<and>
     list_all2 (\<lambda>m x. sent_by b m [x]) (map (chunk_text b s) cs @ [eof_text b s]) sends \<and>
     polled_to_end b (poll_text b s) polls ss 0 \<and> out = stream_bytes ''stdout'' ss \<and> er = stream_bytes ''stderr'' ss \<and>
     deleted_by b (delete_request b (endpoint s) (shellID s)) closing)"

lemma receiver_replied:
  assumes "held posts w0 start w" "endpoint s = req_endpoint req" "command_started b req (shellID s) (commandID s) start"
    and "advanced posts b s (map (chunk_text b s) cs @ [eof_text b s]) (w, None) st" "snd st = Some (Inr 0, out, er)"
    and "held posts (fst st) closing w'" "deleted_by b (delete_request b (endpoint s) (shellID s)) closing"
  shows "receiver_held posts b req cs out er w0 w'"
proof -
  obtain xs sends polls ss where x: "held posts w xs (fst st)" "xs \<in> shuffles sends polls"
    "list_all2 (\<lambda>m x. sent_by b m [x]) (map (chunk_text b s) cs @ [eof_text b s]) sends"
    "polled_to_end b (poll_text b s) polls ss 0" "out = stream_bytes ''stdout'' ss" "er = stream_bytes ''stderr'' ss"
    using assms(4,5) unfolding advanced_def by auto
  from held_append [OF assms(1) held_append [OF x(1) assms(6)]] assms(2,3,7) x(2-6) show ?thesis
    unfolding receiver_held_def
    by (intro exI [of _ s] exI [of _ start] exI [of _ xs] exI [of _ sends] exI [of _ polls] exI [of _ ss] exI [of _ closing]) simp
qed

text \<open>A finalizer that was dispatched: its verdict is that of the replies to its polls.\<close>

lemma finalizer_held:
  assumes D: "dispatchFinalizer b sc (control_env env c) ep transferID stage destination sha n force w = Some ((res, err), w')"
    and S: "build_script sc ''control.ps1'' (finalizer_values transferID stage destination sha n force) = Inr script"
  shows "(\<exists>xs. held (transfer_posts env c) w xs w') \<and>
    (if committed res then \<exists>out. trim_space out = finalizer_ack transferID \<and>
       script_held (transfer_posts env c) b (ps_request ep script) 0 out [] (err = None) w w'
     else \<exists>e. err = Some e \<and> (is_finalization_unknown e \<or> (\<exists>rc out er. rc \<noteq> 0 \<and> as_remote_exit e = Some rc \<and>
       script_held (transfer_posts env c) b (ps_request ep script) rc out er False w w')))"
proof -
  from D S obtain outcome ce runErr where
    R: "run_script b (control_env env c) (256, 1024) (ps_request ep script) w = Some (outcome, ce, w')"
    and V: "finalizer_verdict transferID sha n outcome = (res, runErr)"
    and e: "err = join_close ''close finalizer'' runErr ce"
    by (auto simp: dispatchFinalizer_def split: option.splits prod.splits)
  from run_script_held [OF _ _ _ R, of "transfer_posts env c"] have
    h: "\<exists>xs. held (transfer_posts env c) w xs w'" and out: "\<forall>rc out er. outcome = Exited rc out er \<longrightarrow>
      script_held (transfer_posts env c) b (ps_request ep script) rc out er (ce = None) w w'" by simp_all
  show ?thesis
  proof (cases "committed res")
    case True
    with verdict_cases [OF V] obtain ack where "outcome = Exited 0 ack []" "trim_space ack = finalizer_ack transferID"
      by (auto simp: acknowledged_def)
    moreover have "runErr = None"
      using V True by (auto simp: finalizer_verdict_def uncommitted_def no_result_def split: script_outcome.splits if_splits)
    ultimately show ?thesis using h out True e by auto
  next
    case False
    with verdict_cases [OF V] e have "denial outcome err" by (auto intro: denial_joined)
    with h out False script_held_weaken show ?thesis unfolding denial_def by fastforce
  qed
qed

lemma upload_deferred_idle:
  assumes "upload_deferred b sc env c req stage s ((res1, err1), True, w) = Some ((res, err), w')"
    and "committed res1 \<or> (\<exists>e. err1 = Some e \<and> is_finalization_unknown e)"
  shows "w' = w \<and> (err = None \<longrightarrow> err1 = None)"
  using assms by (auto simp: upload_deferred_def close_stream_def closeWith_def Let_def split: option.splits if_splits)

context transfer_posters begin

lemma upload_ran:
  assumes T: "tx_post env = p" "conn_send c = snp" "conn_receive c = rcv" "conn_cleanup c = cln"
    and U: "upload_session b sc env c req initialSize transferID stage script w = Some ((res, err), w')"
  defines "rq \<equiv> ps_request (tr_endpoint req) script"
  obtains (undispatched) s cs eof msgs rest where "receiver_talk b rq s cs eof msgs"
      and "wire w' = wire w @ msgs @ rest" and "\<not> committed res" and "err \<noteq> None"
      and "cs = [] \<and> eof = [] \<and> rest = [] \<and> artifacts res = [] \<or>
        stage_settled b sc (tr_endpoint req) stage rest (artifacts res)"
    | (dispatched) n s ds out msgs w2 w3 res1 err1 rest where "read_all (up_reads env n) = Inr ds"
      and "receiver_done b rq s (filter (\<lambda>d. d \<noteq> []) ds) msgs" and "wire w2 = wire w @ msgs"
      and "stage_verified env initialSize transferID (concat ds) out"
      and "dispatchFinalizer b sc (control_env env c) (tr_endpoint req) transferID stage (tr_remote req)
             (tx_sha env (concat ds)) (int (length (concat ds))) (tr_force req) w2 = Some ((res1, err1), w3)"
      and "wire w' = wire w3 @ rest"
      and "committed res = committed res1 \<and> t_bytes res = t_bytes res1 \<and> t_sha res = t_sha res1"
      and "err_kept err1 err" and "committed res \<Longrightarrow> rest = [] \<and> artifacts res = []"
      and "\<not> committed res \<Longrightarrow> stage_settled b sc (tr_endpoint req) stage rest (artifacts res)"
      and "\<And>e. \<not> committed res \<Longrightarrow> err1 = Some e \<Longrightarrow> is_finalization_unknown e \<Longrightarrow> rest = [] \<and> artifacts res = [stage]"
      and "receiver_held (transfer_posts env c) b rq (filter (\<lambda>d. d \<noteq> []) ds) out [] w w2"
      and "committed res1 \<or> (\<exists>e. err1 = Some e \<and> is_finalization_unknown e) \<Longrightarrow> w' = w3 \<and> (err = None \<longrightarrow> err1 = None)"
proof -
  obtain rs w1 where S: "startSessionLanes b rq p cln (Some p) (tx_ctx env) (tx_budget env) w = (rs, w1)"
    by (metis surj_pair)
  obtain shell cm x d where o: "wire w1 = wire w @ cm @ x @ d"
    "opt_msg (create_body b rq) cm" "opt_msg (command_body b rq shell) x"
    "opt_msg (delete_request b (req_endpoint rq) shell) d" "x @ d \<noteq> [] \<longrightarrow> cm \<noteq> [] \<and> validID shell"
    and s: "\<And>s. rs = Inr s \<Longrightarrow> x \<noteq> [] \<and> d = [] \<and> endpoint s = req_endpoint rq \<and> shellID s = shell \<and>
       validID (commandID s)" by (rule starts.opened [OF S]) blast
  show thesis
  proof (cases rs)
    case (Inl e)
    let ?s = "\<lparr>endpoint = req_endpoint rq, shellID = shell, commandID = []\<rparr>"
    from Inl U S T have "w' = w1" "res = no_result" "err \<noteq> None" by (auto simp: upload_session_def rq_def)
    moreover have "receiver_talk b rq ?s [] [] (cm @ x @ d)"
      unfolding receiver_talk_def using o
      by (intro exI [of _ cm] exI [of _ x] exI [of _ 0] exI [of _ "[]"] exI [of _ d]) auto
    ultimately show thesis using o(1) by (intro undispatched [of ?s "[]" "[]" "cm @ x @ d" "[]"]) (auto simp: no_result_def)
  next
    case (Inr s')
    note s' = s [OF Inr]
    have talk: "receiver_talk b rq s' cs eof (cm @ x @ z @ d')"
      if "z \<in> shuffles (map (chunk_text b s') cs @ eof) (replicate n (poll_text b s'))"
        "opt_msg (eof_text b s') eof" "opt_msg (delete_request b (endpoint s') (shellID s')) d'" for n z cs eof d'
      unfolding receiver_talk_def using o s' that
      by (intro exI [of _ cm] exI [of _ x] exI [of _ n] exI [of _ z] exI [of _ d']) auto
    have w1: "wire w1 = wire w @ cm @ x" using o(1) s' by simp
    show thesis
    proof (cases "chunkSize 153600 (Some (chunk_message b s'))")
      case (Inl e)
      obtain ce w2 where C: "close_stream b s' env c (tx_budget env) False w1 = (ce, w2)" by (metis surj_pair)
      from stream_closed [OF T(1,4) C] obtain d' where d': "wire w2 = wire w1 @ d'"
        "opt_msg (delete_request b (endpoint s') (shellID s')) d'" by metis
      from U S Inr Inl C T have "w' = w2" "res = no_result" "err \<noteq> None"
        by (auto simp: upload_session_def rq_def)
      with w1 d' talk [of "[]" "[]" "[]" 0 d'] show thesis
        by (intro undispatched [of s' "[]" "[]" "cm @ x @ [] @ d'" "[]"]) (auto simp: no_result_def)
    next
      case (Inr n)
      let ?n = "if n > uploadChunkRaw then uploadChunkRaw else n"
      from U S \<open>rs = Inr s'\<close> Inr T obtain res1 err1 already w2 where
        B: "upload_body b sc env c req initialSize transferID stage ?n s' w1 = Some ((res1, err1), already, w2)"
        and D: "upload_deferred b sc env c req stage s' ((res1, err1), already, w2) = Some ((res, err), w')"
        by (auto simp: upload_session_def rq_def bind_eq_Some_conv)
      from T B show thesis
      proof (cases rule: body_ran)
        case (stopped cs eof st d')
        obtain m z where z: "wire (fst st) = wire w1 @ z"
          "z \<in> shuffles (map (chunk_text b s') cs @ eof) (replicate m (poll_text b s'))"
          using stopped(1) by (auto simp: grew_def)
        have "\<not> committed res1 \<longrightarrow> err1 \<noteq> None" using stopped by simp
        from T(1,4) D stopped(8) this show thesis
        proof (rule deferred)
          fix d2 msgs
          assume m: "wire w' = wire w2 @ d2 @ msgs" "opt_msg (delete_request b (endpoint s') (shellID s')) d2"
            "already \<Longrightarrow> d2 = []" "committed res = committed res1 \<and> t_bytes res = t_bytes res1 \<and> t_sha res = t_sha res1"
            "err_kept err1 err" "\<not> committed res \<Longrightarrow> stage_settled b sc (tr_endpoint req) stage msgs (artifacts res)"
          have "opt_msg (delete_request b (endpoint s') (shellID s')) (d' @ d2)"
            using m(2,3) stopped(4,5) by (cases already) auto
          from talk [OF z(2) stopped(2) this] m stopped z w1 show thesis
            by (intro undispatched [of s' cs eof "cm @ x @ z @ d' @ d2" msgs]) (auto simp: err_kept_def)
        qed
      next
        case (dispatched ds st out w3)
        obtain m z where z: "wire (fst st) = wire w1 @ z" "0 < m"
          "z \<in> shuffles (map (chunk_text b s') (filter (\<lambda>d. d \<noteq> []) ds) @ [eof_text b s']) (replicate m (poll_text b s'))"
          using dispatched(2,3) by (auto simp: grew_def)
        have "cm = [create_body b rq]" "x = [command_body b rq (shellID s')]"
          using o s' by (auto simp: opt_msg_def)
        with z have fin: "receiver_done b rq s' (filter (\<lambda>d. d \<noteq> []) ds)
            (cm @ x @ z @ [delete_request b (endpoint s') (shellID s')])"
          by (auto simp: receiver_done_def)
        have F: "artifacts res1 = []" "\<not> committed res1 \<longrightarrow> err1 \<noteq> None"
          using dispatched(7) by (auto elim!: finalizer_cases simp: uncommitted_def no_result_def denial_def)
        note found = dispatched
        have idle: "committed res1 \<or> (\<exists>e. err1 = Some e \<and> is_finalization_unknown e) \<Longrightarrow> w' = w2 \<and> (err = None \<longrightarrow> err1 = None)"
          by (rule upload_deferred_idle [of b sc env c req stage s' res1 err1 w2 res err w']) (use D \<open>already\<close> in simp)
        have posts: "p \<in> transfer_posts env c" "cln \<in> transfer_posts env c" "set_option (Some p) \<subseteq> transfer_posts env c"
          using T by (simp_all add: transfer_posts_def)
        from start_held [OF posts S] \<open>rs = Inr s'\<close> obtain start where st: "held (transfer_posts env c) w start w1"
          "endpoint s' = req_endpoint rq" "command_started b rq (shellID s') (commandID s') start" by auto
        from found(9) obtain closing where "held (transfer_posts env c) (fst st) closing w3"
          "deleted_by b (delete_request b (endpoint s') (shellID s')) closing" by blast
        note replied = receiver_replied [OF st found(8,3) this]
        from T(1,4) D F show thesis
        proof (rule deferred)
          fix d2 msgs
          assume m: "wire w' = wire w2 @ d2 @ msgs" "already \<Longrightarrow> d2 = []"
            "committed res = committed res1 \<and> t_bytes res = t_bytes res1 \<and> t_sha res = t_sha res1"
            "err_kept err1 err" "committed res \<Longrightarrow> msgs = [] \<and> artifacts res = []"
            "\<not> committed res \<Longrightarrow> stage_settled b sc (tr_endpoint req) stage msgs (artifacts res)"
            "\<And>e. \<not> committed res \<Longrightarrow> err1 = Some e \<Longrightarrow> is_finalization_unknown e \<Longrightarrow>
               msgs = [] \<and> artifacts res = [stage]"
          have "wire w3 = wire w @ cm @ x @ z @ [delete_request b (endpoint s') (shellID s')]"
            using found(5) z(1) w1 by simp
          with found fin m replied idle show thesis
            by (intro that(2) [of ?n ds s' "cm @ x @ z @ [delete_request b (endpoint s') (shellID s')]" w3 out
                res1 err1 w2 msgs]) auto
        qed
      qed
    qed
  qed
qed

end

end
