(* ===== verification/Upload_Spec.thy ===== *)
theory Upload_Spec
  imports Upload_Trace
begin

text \<open>
  What \<open>uploadLanes\<close> promises over the standalone transport and three persistent lanes, as \<open>Transfer\<close>
  runs it: what a committed upload is, and what is known of the destination and of the stage after any
  other.
\<close>

subsection \<open>The stages of an upload\<close>

definition over_winrm :: "'n net_env \<Rightarrow> bytes \<Rightarrow> ('n world, 'x) transfer_env_scheme \<Rightarrow> bool" where
  "over_winrm host ep env \<longleftrightarrow> tx_post env = transport_post host ep \<and> tx_lanes env = persistentLanes host ep"

text \<open>What is fixed before the first connection.\<close>

definition upload_setup ::
  "scripts \<Rightarrow> 'w upload_env \<Rightarrow> transfer_request \<Rightarrow> bytes \<Rightarrow> bytes \<Rightarrow> bytes \<Rightarrow> bytes \<Rightarrow> bool" where
  "upload_setup sc env req content transferID stage script \<longleftrightarrow>
     tr_direction req = Upload_direction \<and> is_ok (validateRemotePath (tr_remote req)) \<and>
     up_source env = Inr content \<and> tx_id env = Inr transferID \<and>
     upload_stage_path (tr_remote req) transferID = Inr stage \<and>
     build_script sc ''upload.ps1'' [(''id'', transferID), (''stage'', stage)] = Inr script"

lemma upload_cases:
  assumes "uploadLanes b sc env req w = Some ((res, err), w')" and "over_winrm host (tr_endpoint req) env"
  obtains (refused) "res = no_result" and "err \<noteq> None" and "wire w' = wire w"
    | (admitted) content transferID stage script i j k c w1 w2 cl
      where "upload_setup sc env req content transferID stage script"
      and "c = \<lparr>conn_send = persistent_post host i, conn_receive = persistent_post host j,
             conn_cleanup = persistent_post host k\<rparr>"
      and "wire w1 = wire w" and "wire w' = wire w2"
      and "upload_session b sc env c req (length content) transferID stage script w1 = Some ((res, err), w2)"
      and "tx_lanes env (tx_ctx env) w = (Inr (c, cl), w1)" and "w' = cl w2"
proof (cases "\<exists>content transferID stage script. upload_setup sc env req content transferID stage script \<and>
    tr_local req \<noteq> [] \<and> tr_remote req \<noteq> []")
  case False
  with assms(1) have "res = no_result" "err \<noteq> None" "w' = w"
    by (auto simp: uploadLanes_def upload_setup_def split: sum.splits if_splits)
  with refused show thesis by simp
next
  case True
  then obtain content transferID stage script where S: "upload_setup sc env req content transferID stage script"
    and ne: "tr_local req \<noteq> [] \<and> tr_remote req \<noteq> []" by blast
  obtain r w1 where L: "persistentLanes host (tr_endpoint req) (tx_ctx env) w = (r, w1)" by (metis surj_pair)
  note ready = lanes_ready [OF L]
  have L': "tx_lanes env (tx_ctx env) w = (r, w1)" using L assms(2) by (simp add: over_winrm_def)
  show thesis
  proof (cases r)
    case (Inl e)
    with assms(1) S ne L' have "res = no_result" "err \<noteq> None" "w' = w1"
      by (auto simp: uploadLanes_def upload_setup_def is_ok_iff)
    with ready refused show thesis by simp
  next
    case (Inr ccl)
    then obtain c cl where r: "r = Inr (c, cl)" by (cases ccl) auto
    from assms(1) S ne L' r obtain w2 where
      U: "upload_session b sc env c req (length content) transferID stage script w1 = Some ((res, err), w2)"
      and w': "w' = cl w2" by (auto simp: uploadLanes_def upload_setup_def is_ok_iff)
    from ready r obtain i j k where c: "c = \<lparr>conn_send = persistent_post host i,
      conn_receive = persistent_post host j, conn_cleanup = persistent_post host k\<rparr>"
      and q: "\<forall>w. wire (cl w) = wire w" "wire w1 = wire w" by auto
    from q w' have "wire w' = wire w2" by simp
    from L' r have "tx_lanes env (tx_ctx env) w = (Inr (c, cl), w1)" by simp
    from admitted [OF S c q(2) \<open>wire w' = wire w2\<close> U this w'] show thesis .
  qed
qed

text \<open>The finalizer of a verified stage.\<close>

definition finalizer_script ::
  "scripts \<Rightarrow> 'w upload_env \<Rightarrow> transfer_request \<Rightarrow> bytes \<Rightarrow> bytes \<Rightarrow> bytes \<Rightarrow> goerr + bytes" where
  "finalizer_script sc env req transferID stage data =
     build_script sc ''control.ps1'' (finalizer_values transferID stage (tr_remote req) (tx_sha env data)
       (int (length data)) (tr_force req))"

text \<open>The source as it was read: all of it was sent to the receiver, which was deleted after its record
  had been verified; \<open>msgs\<close> is that conversation.\<close>

definition staged ::
  "builders \<Rightarrow> 'w upload_env \<Rightarrow> transfer_request \<Rightarrow> nat \<Rightarrow> bytes \<Rightarrow> bytes \<Rightarrow> bytes \<Rightarrow> bytes list \<Rightarrow> bool" where
  "staged b env req len transferID script data msgs \<longleftrightarrow>
     (\<exists>n s ds out. read_all (up_reads env n) = Inr ds \<and> data = concat ds \<and>
        stage_verified env len transferID data out \<and>
        receiver_done b (ps_request (tr_endpoint req) script) s (filter (\<lambda>d. d \<noteq> []) ds) msgs)"

text \<open>The same with its replies: the source was read to its end, every chunk of it was accepted by the receiver, the
  record in the output of the receiver agrees with what was sent, and the source is unchanged.\<close>

definition stage_confirmed ::
  "'w post set \<Rightarrow> builders \<Rightarrow> 'w upload_env \<Rightarrow> transfer_request \<Rightarrow> nat \<Rightarrow> bytes \<Rightarrow> bytes \<Rightarrow> bytes \<Rightarrow> 'w \<Rightarrow> 'w \<Rightarrow> bool" where
  "stage_confirmed posts b env req len transferID script data w w' \<longleftrightarrow>
     (\<exists>n ds out. read_all (up_reads env n) = Inr ds \<and> data = concat ds \<and> stage_verified env len transferID data out \<and>
        receiver_held posts b (ps_request (tr_endpoint req) script) (filter (\<lambda>d. d \<noteq> []) ds) out [] w w')"

text \<open>The finalizer of a confirmed stage, with its replies: it acknowledged the transfer, and then nothing else was
  exchanged; or the error says that the outcome is unknown, and then the stage is reported and not touched any more; or the
  error carries the non-zero code that the finalizer exited with.\<close>

definition finalizer_replied ::
  "'w post set \<Rightarrow> builders \<Rightarrow> request \<Rightarrow> bytes \<Rightarrow> bytes \<Rightarrow> transfer_result \<Rightarrow> goerr option \<Rightarrow> 'w \<Rightarrow> 'w \<Rightarrow> 'w \<Rightarrow> bool" where
  "finalizer_replied posts b req transferID stage res err w w' w'' \<longleftrightarrow>
     (if committed res
      then \<exists>out. trim_space out = finalizer_ack transferID \<and> script_held posts b req 0 out [] (err = None) w w' \<and> w'' = w'
      else \<exists>e. err = Some e \<and>
        (is_finalization_unknown e \<and> (\<exists>xs. held posts w xs w') \<and> w'' = w' \<and> artifacts res = [stage] \<or>
         (\<exists>rc out er. rc \<noteq> 0 \<and> as_remote_exit e = Some rc \<and> script_held posts b req rc out er False w w')))"

lemma finalizer_answered:
  assumes D: "dispatchFinalizer b sc (control_env env c) ep transferID stage destination sha n force w = Some ((res1, err1), w')"
    and S: "build_script sc ''control.ps1'' (finalizer_values transferID stage destination sha n force) = Inr script"
    and c: "committed res = committed res1" and k: "err_kept err1 err"
    and a: "\<And>e. \<not> committed res \<Longrightarrow> err1 = Some e \<Longrightarrow> is_finalization_unknown e \<Longrightarrow> artifacts res = [stage]"
    and i: "committed res1 \<or> (\<exists>e. err1 = Some e \<and> is_finalization_unknown e) \<Longrightarrow> w'' = w' \<and> (err = None \<longrightarrow> err1 = None)"
  shows "finalizer_replied (transfer_posts env c) b (ps_request ep script) transferID stage res err w w' w''"
proof (cases "committed res")
  case True
  with finalizer_held [OF D S] c obtain out where "trim_space out = finalizer_ack transferID"
    "script_held (transfer_posts env c) b (ps_request ep script) 0 out [] (err1 = None) w w'" by auto
  moreover from this(2) i True c have "script_held (transfer_posts env c) b (ps_request ep script) 0 out [] (err = None) w w'"
    unfolding script_held_def by blast
  moreover have "w'' = w'" using i True c by blast
  ultimately show ?thesis using True unfolding finalizer_replied_def by auto
next
  case False
  with finalizer_held [OF D S] c obtain e1 where e1: "err1 = Some e1" "\<exists>xs. held (transfer_posts env c) w xs w'"
    "is_finalization_unknown e1 \<or> (\<exists>rc out er. rc \<noteq> 0 \<and> as_remote_exit e1 = Some rc \<and>
       script_held (transfer_posts env c) b (ps_request ep script) rc out er False w w')" by auto
  with k obtain e where e: "err = Some e" "is_finalization_unknown e1 \<longrightarrow> is_finalization_unknown e"
    "\<forall>rc. as_remote_exit e1 = Some rc \<longrightarrow> as_remote_exit e = Some rc" by (auto simp: err_kept_def)
  show ?thesis
  proof (cases "is_finalization_unknown e1")
    case True
    with i e1(1) have "w'' = w'" by blast
    with True a [OF False e1(1) True] e1(2) e False show ?thesis unfolding finalizer_replied_def by simp
  next
    case unk: False
    with e1(3) obtain rc out er where "rc \<noteq> 0" "as_remote_exit e1 = Some rc"
      "script_held (transfer_posts env c) b (ps_request ep script) rc out er False w w'" by blast
    with e False show ?thesis unfolding finalizer_replied_def by (simp only: if_False) blast
  qed
qed

lemma finalized:
  fixes w :: "'n world"
  assumes "over_winrm host (tr_endpoint req) env"
    and "c = \<lparr>conn_send = persistent_post host i, conn_receive = persistent_post host j,
           conn_cleanup = persistent_post host k\<rparr>"
    and "dispatchFinalizer b sc (control_env env c) (tr_endpoint req) transferID stage (tr_remote req)
           (tx_sha env data) (int (length data)) (tr_force req) w = Some ((res, err), w')"
  obtains (unbuilt) "wire w' = wire w" and "\<not> committed res" and "err \<noteq> None"
    | (ran) fin outcome msgs where "finalizer_script sc env req transferID stage data = Inr fin"
      and "wire w' = wire w @ msgs" and "script_talk b (ps_request (tr_endpoint req) fin) outcome msgs"
      and "committed res \<longleftrightarrow> acknowledged transferID outcome"
      and "t_bytes res = int (length data)" and "t_sha res = tx_sha env data"
      and "\<not> committed res \<longrightarrow> denial outcome err"
  using assms(3)
proof (cases rule: finalizer_cases)
  case (unbuilt e)
  then show thesis by (intro that(1)) (auto simp: uncommitted_def no_result_def)
next
  case (ran fin outcome ce)
  have "script_post (control_env env c) = transport_post host (tr_endpoint req)"
    "script_cleanup (control_env env c) = persistent_post host k"
    "script_fallback (control_env env c) = Some (transport_post host (tr_endpoint req))"
    using assms(1,2) by (simp_all add: control_env_def over_winrm_def)
  from winrm.starts.script_transcript [OF this ran(2)] obtain msgs where
    "wire w' = wire w @ msgs" "script_talk b (ps_request (tr_endpoint req) fin) outcome msgs"
    unfolding script_talk_def by blast
  with ran show thesis by (intro that(2)) (auto simp: finalizer_script_def)
qed

text \<open>Every upload that got as far as its lanes, with what it put on the wire: the receiver's
  conversation, the finalizer's and the cleanup's.\<close>

lemma upload_phases:
  assumes "uploadLanes b sc env req w = Some ((res, err), w')" and W: "over_winrm host (tr_endpoint req) env"
  obtains (refused) "res = no_result" and "err \<noteq> None" and "wire w' = wire w"
    | (unfinished) content transferID stage script s cs eof R C
      where "upload_setup sc env req content transferID stage script"
      and "wire w' = wire w @ R @ C" and "\<not> committed res" and "err \<noteq> None"
      and "receiver_talk b (ps_request (tr_endpoint req) script) s cs eof R"
      and "cs = [] \<and> eof = [] \<and> C = [] \<and> artifacts res = [] \<or>
        stage_settled b sc (tr_endpoint req) stage C (artifacts res)"
    | (unbuilt) content transferID stage script data R C
      where "upload_setup sc env req content transferID stage script"
      and "staged b env req (length content) transferID script data R"
      and "wire w' = wire w @ R @ C" and "\<not> committed res" and "err \<noteq> None"
      and "stage_settled b sc (tr_endpoint req) stage C (artifacts res)"
    | (final) content transferID stage script data R fin outcome F C err1 c cl w1 w2 w3 w4
      where "upload_setup sc env req content transferID stage script"
      and "staged b env req (length content) transferID script data R"
      and "finalizer_script sc env req transferID stage data = Inr fin"
      and "script_talk b (ps_request (tr_endpoint req) fin) outcome F"
      and "wire w' = wire w @ R @ F @ C" and "committed res \<longleftrightarrow> acknowledged transferID outcome"
      and "t_bytes res = int (length data)" and "t_sha res = tx_sha env data"
      and "committed res \<longrightarrow> C = [] \<and> artifacts res = []"
      and "\<not> committed res \<longrightarrow> denial outcome err1 \<and> err_kept err1 err \<and>
        stage_settled b sc (tr_endpoint req) stage C (artifacts res) \<and>
        (\<forall>e. err1 = Some e \<and> is_finalization_unknown e \<longrightarrow> C = [] \<and> artifacts res = [stage])"
      and "tx_lanes env (tx_ctx env) w = (Inr (c, cl), w1)" and "w' = cl w4" and "wire w' = wire w3 @ C"
      and "stage_confirmed (transfer_posts env c) b env req (length content) transferID script data w1 w2"
      and "finalizer_replied (transfer_posts env c) b (ps_request (tr_endpoint req) fin) transferID stage res err w2 w3 w4"
  using assms
proof (cases rule: upload_cases)
  case refused
  then show thesis by (rule that(1))
next
  case (admitted content transferID stage script i j k c w1 w2 cl)
  have T: "tx_post env = transport_post host (tr_endpoint req)" "conn_send c = persistent_post host i"
    "conn_receive c = persistent_post host j" "conn_cleanup c = persistent_post host k"
    using W admitted(2) by (simp_all add: over_winrm_def)
  from T admitted(5) show thesis
  proof (cases rule: winrm.upload_ran)
    case (undispatched s cs eof R C)
    with admitted show thesis by (intro that(2)) auto
  next
    case (dispatched n s ds out R w3 w4 res1 err1 C)
    have st: "staged b env req (length content) transferID script (concat ds) R"
      using dispatched unfolding staged_def by blast
    from W admitted(2) dispatched(5) show thesis
    proof (cases rule: finalized)
      case unbuilt
      with st dispatched admitted show thesis
        by (intro that(3) [OF admitted(1) st]) (auto simp: err_kept_def)
    next
      case (ran fin outcome F)
      have conf: "stage_confirmed (transfer_posts env c) b env req (length content) transferID script (concat ds) w1 w3"
        unfolding stage_confirmed_def using dispatched(1,4,12) by blast
      have "finalizer_replied (transfer_posts env c) b (ps_request (tr_endpoint req) fin) transferID stage res err w3 w4 w2"
        by (rule finalizer_answered [OF dispatched(5) ran(1) [unfolded finalizer_script_def]])
           (use dispatched(7,8,11,13) in auto)
      moreover have "wire w' = wire w4 @ C" using admitted(4) dispatched(6) by simp
      moreover have "wire w' = wire w @ R @ F @ C" using admitted(3,4) dispatched(3,6) ran(2) by simp
      moreover have "committed res \<longleftrightarrow> acknowledged transferID outcome" "t_bytes res = int (length (concat ds))"
        "t_sha res = tx_sha env (concat ds)" using dispatched(7) ran(4-6) by simp_all
      moreover have "committed res \<longrightarrow> C = [] \<and> artifacts res = []" using dispatched(9) by blast
      moreover have "\<not> committed res \<longrightarrow> denial outcome err1 \<and> err_kept err1 err \<and>
          stage_settled b sc (tr_endpoint req) stage C (artifacts res) \<and>
          (\<forall>e. err1 = Some e \<and> is_finalization_unknown e \<longrightarrow> C = [] \<and> artifacts res = [stage])"
        using dispatched(7,8,10,11) ran(7) by auto
      ultimately show thesis by (intro that(4) [OF admitted(1) st ran(1,3) _ _ _ _ _ _ admitted(6,7) _ conf])
    qed
  qed
qed

subsection \<open>Properties\<close>

text \<open>C14: A committed upload is what the caller asked for.  Between the opening and the closing of the lanes the server
  ran exactly two scripts, each step confirmed by its reply.  The receiver of this transfer took every byte of the source up
  to its end, in order and as many as the source has, which did not change meanwhile; it was polled until it was reported
  done with code 0, the replies carried no error output and the record of this transfer with their number and hash, and its
  shell was deleted.  Then the finalizer, started with exactly these values, was polled until it was reported done
  with code 0, and the replies carried nothing but the acknowledgement of this transfer; without an error its shell is
  deleted, too.  The result reports these values and no artifact is left.\<close>

theorem upload_committed:
  assumes "uploadLanes b sc env req w = Some ((res, err), w')" and "over_winrm host (tr_endpoint req) env"
    and "committed res"
  shows "\<exists>content transferID stage script data fin out c cl w1 w2 w3.
    upload_setup sc env req content transferID stage script \<and> tx_lanes env (tx_ctx env) w = (Inr (c, cl), w1) \<and>
    stage_confirmed (transfer_posts env c) b env req (length content) transferID script data w1 w2 \<and>
    finalizer_script sc env req transferID stage data = Inr fin \<and>
    script_held (transfer_posts env c) b (ps_request (tr_endpoint req) fin) 0 out [] (err = None) w2 w3 \<and>
    trim_space out = ''OK: committed:'' @ transferID \<and> w' = cl w3 \<and>
    res = \<lparr>t_bytes = int (length data), t_sha = tx_sha env data, committed = True, artifacts = []\<rparr>"
  using assms(1,2)
proof (cases rule: upload_phases)
  case (final content transferID stage script data R fin outcome F C err1 c cl w1 w2 w3 w4)
  from final(15) assms(3) obtain out where out: "trim_space out = ''OK: committed:'' @ transferID"
    "script_held (transfer_posts env c) b (ps_request (tr_endpoint req) fin) 0 out [] (err = None) w2 w3" "w' = cl w3"
    using final(12) by (auto simp: finalizer_replied_def finalizer_ack_def cong: if_cong)
  have "res = \<lparr>t_bytes = int (length data), t_sha = tx_sha env data, committed = True, artifacts = []\<rparr>"
    using final(7-9) assms(3) by (cases res) simp
  with final(1,3,11,14) out show ?thesis by (intro exI conjI) (assumption | rule out)+
qed (use assms(3) in \<open>auto simp: no_result_def\<close>)

text \<open>The messages of a script that removes the stage, or nothing.\<close>

definition cleanup_talk :: "builders \<Rightarrow> scripts \<Rightarrow> bytes \<Rightarrow> bytes \<Rightarrow> bytes list \<Rightarrow> bool" where
  "cleanup_talk b sc ep stage msgs \<longleftrightarrow> msgs = [] \<or>
     (\<exists>script shell cid t. build_script sc ''cleanup.ps1'' [(''stage'', stage)] = Inr script \<and>
        transcript_ok b (ps_request ep script) shell cid t \<and> msgs = transcript_msgs b (ps_request ep script) shell cid t)"

lemma settled_cleanup [intro]: "stage_settled b sc ep stage msgs arts \<Longrightarrow> cleanup_talk b sc ep stage msgs"
  unfolding stage_settled_def cleanup_talk_def script_talk_def by blast

lemma cleanup_nothing [simp]: "cleanup_talk b sc ep stage []"
  by (simp add: cleanup_talk_def)

lemma done_talk: "receiver_done b req s cs msgs \<Longrightarrow> \<exists>eof. receiver_talk b req s cs eof msgs"
  unfolding receiver_done_def receiver_talk_def
  by (elim exE conjE, intro exI [of _ "[eof_text b s]"] exI [of _ "[create_body b req]"]
      exI [of _ "[command_body b req (shellID s)]"])
     (fastforce)

text \<open>The receiver's part of an upload that never started a finalizer.\<close>

definition receiver_part :: "builders \<Rightarrow> bytes \<Rightarrow> bytes \<Rightarrow> bytes list \<Rightarrow> bool" where
  "receiver_part b ep script msgs \<longleftrightarrow> (\<exists>s cs eof. receiver_talk b (ps_request ep script) s cs eof msgs)"

lemma staged_part: "staged b env req len transferID script data R \<Longrightarrow> receiver_part b (tr_endpoint req) script R"
  unfolding staged_def receiver_part_def using done_talk by blast

text \<open>C16: An upload that is not committed reports an error, and it says what is known of the destination.  Either
  nothing was written; or no finalizer was started, only the receiver and the cleanup of its stage.  Otherwise the
  finalizer of a stage that the receiver had confirmed was dispatched, and either the error says that the outcome of
  the finalization is unknown, nothing was exchanged after it and the stage is reported as an artifact; or the
  finalizer refused: it was polled until it was reported done with a code other than 0, the error carries the code of
  that reply, and only the cleanup of the stage followed.\<close>

theorem upload_not_committed:
  assumes "uploadLanes b sc env req w = Some ((res, err), w')" and "over_winrm host (tr_endpoint req) env"
    and "\<not> committed res"
  shows "\<exists>e. err = Some e \<and> (wire w' = wire w \<or>
    (\<exists>content transferID stage script R C. upload_setup sc env req content transferID stage script \<and>
       receiver_part b (tr_endpoint req) script R \<and> cleanup_talk b sc (tr_endpoint req) stage C \<and>
       wire w' = wire w @ R @ C) \<or>
    (\<exists>content transferID stage script data fin c cl w1 w2 w3 C.
       upload_setup sc env req content transferID stage script \<and> tx_lanes env (tx_ctx env) w = (Inr (c, cl), w1) \<and>
       stage_confirmed (transfer_posts env c) b env req (length content) transferID script data w1 w2 \<and>
       finalizer_script sc env req transferID stage data = Inr fin \<and>
       wire w' = wire w3 @ C \<and> cleanup_talk b sc (tr_endpoint req) stage C \<and>
       (is_finalization_unknown e \<and> (\<exists>xs. held (transfer_posts env c) w2 xs w3) \<and> w' = cl w3 \<and> artifacts res = [stage] \<or>
        (\<exists>rc out er. rc \<noteq> 0 \<and> as_remote_exit e = Some rc \<and>
           script_held (transfer_posts env c) b (ps_request (tr_endpoint req) fin) rc out er False w2 w3))))"
  using assms(1,2)
proof (cases rule: upload_phases)
  case refused
  then show ?thesis by auto
next
  case (unfinished content transferID stage script s cs eof R C)
  then have "cleanup_talk b sc (tr_endpoint req) stage C" "receiver_part b (tr_endpoint req) script R"
    by (auto simp: receiver_part_def)
  with unfinished show ?thesis by blast
next
  case (unbuilt content transferID stage script data R C)
  from unbuilt(6) staged_part [OF unbuilt(2)]
  have "cleanup_talk b sc (tr_endpoint req) stage C" "receiver_part b (tr_endpoint req) script R" by auto
  with unbuilt show ?thesis by blast
next
  case (final content transferID stage script data R fin outcome F C err1 c cl w1 w2 w3 w4)
  from final(15) obtain e where e: "err = Some e"
    "is_finalization_unknown e \<and> (\<exists>xs. held (transfer_posts env c) w2 xs w3) \<and> w4 = w3 \<and> artifacts res = [stage] \<or>
     (\<exists>rc out er. rc \<noteq> 0 \<and> as_remote_exit e = Some rc \<and>
        script_held (transfer_posts env c) b (ps_request (tr_endpoint req) fin) rc out er False w2 w3)"
    unfolding finalizer_replied_def if_not_P [OF assms(3)] by (elim exE conjE) (rule that)
  have k: "is_finalization_unknown e \<and> (\<exists>xs. held (transfer_posts env c) w2 xs w3) \<and> w' = cl w3 \<and> artifacts res = [stage] \<or>
     (\<exists>rc out er. rc \<noteq> 0 \<and> as_remote_exit e = Some rc \<and>
        script_held (transfer_posts env c) b (ps_request (tr_endpoint req) fin) rc out er False w2 w3)"
    using e(2) by (elim disjE conjE) (simp add: final(12), rule disjI2)
  from final(10) assms(3) have clean: "cleanup_talk b sc (tr_endpoint req) stage C" by blast
  show ?thesis unfolding e(1)
    by (rule exI, rule conjI, rule refl, rule disjI2, rule disjI2, intro exI conjI) (rule final(1) final(11) final(14) final(3) final(13) clean k)+
qed

text \<open>What becomes of the stage of an upload that is not committed: no input was sent to the
  receiver; or the stage is reported as an artifact, or a cleanup script confirmed its removal.  A
  finalizer that did not exit with a non-zero code may still be moving the stage: then it is reported
  and not touched.\<close>

theorem upload_stage_accounted:
  assumes "uploadLanes b sc env req w = Some ((res, err), w')" and "over_winrm host (tr_endpoint req) env"
    and "\<not> committed res"
  shows "artifacts res = [] \<and> (wire w' = wire w \<or> (\<exists>script s R. wire w' = wire w @ R \<and>
      receiver_talk b (ps_request (tr_endpoint req) script) s [] [] R)) \<or>
    (\<exists>content transferID stage script P C. upload_setup sc env req content transferID stage script \<and>
       wire w' = wire w @ P @ C \<and> stage_settled b sc (tr_endpoint req) stage C (artifacts res) \<and>
       (receiver_part b (tr_endpoint req) script P \<or>
        (\<exists>R fin outcome F. P = R @ F \<and> script_talk b (ps_request (tr_endpoint req) fin) outcome F \<and>
           ((\<exists>rc out er. outcome = Exited rc out er \<and> rc \<noteq> 0) \<or> C = [] \<and> artifacts res = [stage]))))"
  using assms(1,2)
proof (cases rule: upload_phases)
  case refused
  then show ?thesis by (auto simp: no_result_def)
next
  case (unfinished content transferID stage script s cs eof R C)
  show ?thesis
  proof (cases "cs = [] \<and> eof = [] \<and> C = [] \<and> artifacts res = []")
    case True
    with unfinished show ?thesis by auto
  next
    case False
    with unfinished have "stage_settled b sc (tr_endpoint req) stage C (artifacts res)"
      "receiver_part b (tr_endpoint req) script R" by (auto simp: receiver_part_def)
    with unfinished show ?thesis by blast
  qed
next
  case (unbuilt content transferID stage script data R C)
  with staged_part [OF unbuilt(2)] show ?thesis by blast
next
  case (final content transferID stage script data R fin outcome F C err1 c cl w1 w2 w3 w4)
  with assms(3) have S: "stage_settled b sc (tr_endpoint req) stage C (artifacts res)"
    and "(\<exists>rc out er. outcome = Exited rc out er \<and> rc \<noteq> 0) \<or> C = [] \<and> artifacts res = [stage]"
    by (auto simp: denial_def)
  then have "receiver_part b (tr_endpoint req) script (R @ F) \<or>
      (\<exists>R' fin outcome F'. R @ F = R' @ F' \<and> script_talk b (ps_request (tr_endpoint req) fin) outcome F' \<and>
         ((\<exists>rc out er. outcome = Exited rc out er \<and> rc \<noteq> 0) \<or> C = [] \<and> artifacts res = [stage]))"
    using final(4) by blast
  moreover have "wire w' = wire w @ (R @ F) @ C" using final(5) by simp
  ultimately show ?thesis using final(1) S by blast
qed

end
