(* ===== verification/Local_File.thy ===== *)
theory Local_File
  imports Go_Errors
begin

text \<open>
  The local side of a transfer: \<open>internal/remote/localfile.go\<close> and \<open>commit_unix.go\<close> on a file system
  that maps cleaned absolute paths to what is there.  System calls behave as documented (an exclusive
  create and a link refuse an existing name, a rename replaces it) and may also fail for reasons of
  their own, which are parameters.
\<close>

datatype node = Regular bytes | Symlink | Directory | Special

type_synonym file_system = "bytes \<Rightarrow> node option"

subsection \<open>Paths\<close>

text \<open>\<open>filepath.Dir\<close>, \<open>filepath.Join\<close> and \<open>filepath.Base\<close> on cleaned absolute paths.\<close>

definition path_dir :: "bytes \<Rightarrow> bytes" where
  "path_dir p =
     (let d = rev (dropWhile (\<lambda>c. c \<noteq> CHR ''/'') (rev p)) in
      if d = [] then ''.'' else if d = ''/'' then d else butlast d)"

definition path_join :: "bytes \<Rightarrow> bytes \<Rightarrow> bytes" where
  "path_join dir base =
     (if base = ''/'' then dir else if dir = ''/'' then dir @ base else dir @ ''/'' @ base)"

definition path_base :: "bytes \<Rightarrow> bytes" where
  "path_base p = (if p = ''/'' then p else rev (takeWhile (\<lambda>c. c \<noteq> CHR ''/'') (rev p)))"

definition hex_digit :: "nat \<Rightarrow> char" where
  "hex_digit n = (if n < 10 then char_of (48 + n) else char_of (87 + n))"

definition hex_encode :: "bytes \<Rightarrow> bytes" where
  "hex_encode s = concat (map (\<lambda>c. [hex_digit (byte_val c div 16), hex_digit (byte_val c mod 16)]) s)"

subsection \<open>Reading the source\<close>

text \<open>\<open>openSourceOS\<close>: the file system may change from \<open>before\<close> to \<open>at\<close> between the two system calls; opening
  a symbolic link is refused.\<close>

definition openSourceOS :: "file_system \<Rightarrow> file_system \<Rightarrow> goerr option \<Rightarrow> bytes \<Rightarrow> goerr + node" where
  "openSourceOS before at os path =
     (case before path of
        None \<Rightarrow> Inl (Msg ''no such file'')
      | Some (Regular _) \<Rightarrow>
          (case (os, at path) of
             (Some e, _) \<Rightarrow> Inl e
           | (None, None) \<Rightarrow> Inl (Msg ''no such file'')
           | (None, Some Symlink) \<Rightarrow> Inl (Msg ''symbolic link'')
           | (None, Some n) \<Rightarrow> Inr n)
      | Some _ \<Rightarrow> Inl (Msg ''source is not a regular file''))"

definition openSource :: "file_system \<Rightarrow> file_system \<Rightarrow> goerr option \<Rightarrow> bytes \<Rightarrow> goerr + bytes" where
  "openSource before at os path =
     check (path = []) (Msg ''source path must not be empty'')
       (and_then (openSourceOS before at os path) (\<lambda>n.
          case n of Regular d \<Rightarrow> Inr d | _ \<Rightarrow> Inl (Msg ''source is not a regular file'')))"

lemma openSource_regular:
  "openSource before at os path = Inr d \<Longrightarrow> path \<noteq> [] \<and> at path = Some (Regular d) \<and> (\<exists>d'. before path = Some (Regular d'))"
  by (auto simp: openSource_def openSourceOS_def split: option.splits node.splits)

subsection \<open>The stage\<close>

definition stage_file_name :: "bytes \<Rightarrow> bytes" where
  "stage_file_name r = ''.winsh-stage-'' @ hex_encode r"

text \<open>The attempts that are left; \<open>rand\<close> and \<open>os\<close> are what the random source and the system say in each.\<close>

fun create_attempts ::
  "bytes \<Rightarrow> (nat \<Rightarrow> bytes option) \<Rightarrow> (nat \<Rightarrow> goerr option) \<Rightarrow> nat \<Rightarrow> file_system \<Rightarrow>
   (goerr + bytes) \<times> file_system" where
  "create_attempts parent rand os 0 fs =
     (Inl (Msg ''create stage: exhausted random name retries''), fs)"
| "create_attempts parent rand os (Suc k) fs =
     (case rand k of
        None \<Rightarrow> (Inl (Msg ''rand''), fs)
      | Some r \<Rightarrow>
          (let stage = path_join parent (stage_file_name r) in
           if fs stage \<noteq> None then create_attempts parent rand os k fs
           else case os k of
             Some e \<Rightarrow> (Inl (Wrap ''create stage'' e), fs)
           | None \<Rightarrow> (Inr stage, fs(stage \<mapsto> Regular []))))"

definition createStage ::
  "(nat \<Rightarrow> bytes option) \<Rightarrow> (nat \<Rightarrow> goerr option) \<Rightarrow> bytes \<Rightarrow> file_system \<Rightarrow> (goerr + bytes) \<times> file_system" where
  "createStage rand os destPath fs =
     (if destPath = [] then (Inl (Msg ''destination path must not be empty''), fs)
      else let parent = path_dir destPath in
        if parent = [] \<or> parent = ''.'' then (Inl (Msg ''destination parent must be an absolute path''), fs)
        else case fs parent of
          None \<Rightarrow> (Inl (Msg ''destination parent''), fs)
        | Some n \<Rightarrow>
            if n \<noteq> Directory then (Inl (Msg ''destination parent is not a directory''), fs)
            else create_attempts parent rand os 8 fs)"

text \<open>\<open>rejectLocalLink\<close>: \<open>os\<close> is an error of \<open>Lstat\<close> other than a missing file.\<close>

definition rejectLocalLink :: "goerr option \<Rightarrow> bytes \<Rightarrow> file_system \<Rightarrow> goerr option" where
  "rejectLocalLink os path fs =
     (case os of
        Some e \<Rightarrow> Some (Wrap ''inspect local destination'' e)
      | None \<Rightarrow> if fs path = Some Symlink then Some (TransferInput ''local destination is a symlink'') else None)"

text \<open>\<open>hashStage\<close> reads the stage through its handle; \<open>os\<close> says which of its system calls fails: seek,
  copy, sync, rewind.\<close>

definition hashStage :: "(bytes \<Rightarrow> bytes) \<Rightarrow> (nat \<Rightarrow> goerr option) \<Rightarrow> bytes \<Rightarrow> goerr + nat \<times> bytes" where
  "hashStage sha os content =
     (case os 0 of Some e \<Rightarrow> Inl (Wrap ''seek stage'' e) | None \<Rightarrow>
     (case os 1 of Some e \<Rightarrow> Inl (Wrap ''read stage'' e) | None \<Rightarrow>
     (case os 2 of Some e \<Rightarrow> Inl (Wrap ''sync stage'' e) | None \<Rightarrow>
     (case os 3 of Some e \<Rightarrow> Inl (Wrap ''rewind stage'' e) | None \<Rightarrow>
        Inr (length content, sha content)))))"

text \<open>\<open>stagePathAt\<close>, with the random bytes.\<close>

definition stagePathAt :: "bytes option \<Rightarrow> bytes \<Rightarrow> goerr + bytes" where
  "stagePathAt rand destDir =
     (if destDir = [] then Inl (Msg ''destination directory must not be empty'')
      else case rand of
        None \<Rightarrow> Inl (Msg ''rand'')
      | Some r \<Rightarrow> Inr (path_join destDir (stage_file_name r)))"

subsection \<open>Commit\<close>

definition os_rename :: "goerr option \<Rightarrow> bytes \<Rightarrow> bytes \<Rightarrow> file_system \<Rightarrow> goerr option \<times> file_system" where
  "os_rename os old new fs =
     (case os of
        Some e \<Rightarrow> (Some e, fs)
      | None \<Rightarrow>
          if fs old = None \<or> fs new = Some Directory then (Some (Msg ''rename''), fs)
          else (None, (fs(new := fs old))(old := None)))"

definition os_link :: "goerr option \<Rightarrow> bytes \<Rightarrow> bytes \<Rightarrow> file_system \<Rightarrow> goerr option \<times> file_system" where
  "os_link os old new fs =
     (case os of
        Some e \<Rightarrow> (Some e, fs)
      | None \<Rightarrow>
          if fs old = None \<or> fs new \<noteq> None then (Some (Msg ''link''), fs) else (None, fs(new := fs old)))"

definition os_remove :: "goerr option \<Rightarrow> bytes \<Rightarrow> file_system \<Rightarrow> goerr option \<times> file_system" where
  "os_remove os path fs =
     (case os of
        Some e \<Rightarrow> (Some e, fs)
      | None \<Rightarrow> if fs path = None then (Some (Msg ''remove''), fs) else (None, fs(path := None)))"

definition commitStage ::
  "goerr option \<Rightarrow> bytes \<Rightarrow> bytes \<Rightarrow> bool \<Rightarrow> file_system \<Rightarrow> goerr option \<times> file_system" where
  "commitStage os stage destination force fs =
     (if stage = [] \<or> destination = [] then (Some (Msg ''stage and destination must not be empty''), fs)
      else if stage = destination then (Some (Msg ''stage equals destination''), fs)
      else if force then
        (case os_rename os stage destination fs of (e, fs') \<Rightarrow> (map_option (Wrap ''rename (force)'') e, fs'))
      else
        (case os_link os stage destination fs of (e, fs') \<Rightarrow> (map_option (Wrap ''link (no-replace)'') e, fs')))"

subsection \<open>Laws\<close>

text \<open>A new stage is a fresh name in the destination's directory; nothing else changes.\<close>

lemma create_attempts_ok:
  "create_attempts parent rand os k fs = (Inr stage, fs') \<Longrightarrow>
   fs stage = None \<and> fs' = fs(stage \<mapsto> Regular []) \<and> (\<exists>r. stage = path_join parent (stage_file_name r))"
  by (induction k) (auto simp: Let_def split: option.splits if_splits)

lemma create_attempts_error: "create_attempts parent rand os k fs = (Inl e, fs') \<Longrightarrow> fs' = fs"
  by (induction k) (auto simp: Let_def split: option.splits if_splits)

lemma createStage_ok:
  "createStage rand os dest fs = (Inr stage, fs') \<Longrightarrow>
   fs stage = None \<and> fs' = fs(stage \<mapsto> Regular []) \<and> fs (path_dir dest) = Some Directory \<and>
   (\<exists>r. stage = path_join (path_dir dest) (stage_file_name r))"
  by (auto simp: createStage_def Let_def dest: create_attempts_ok split: option.splits if_splits)

lemma createStage_error: "createStage rand os dest fs = (Inl e, fs') \<Longrightarrow> fs' = fs"
  by (auto simp: createStage_def Let_def dest: create_attempts_error split: option.splits if_splits)

lemma hashStage_ok: "hashStage sha os content = Inr r \<Longrightarrow> r = (length content, sha content)"
  by (simp add: hashStage_def split: option.splits)

text \<open>A removal whose error is ignored leaves the file where it is or takes it away.\<close>

lemma os_remove_None: "snd (os_remove None path fs) = fs(path := None)"
  by (auto simp: os_remove_def)

lemma os_remove_cases: "snd (os_remove os path fs) = fs(path := None) \<or> os \<noteq> None \<and> snd (os_remove os path fs) = fs"
  by (cases os) (auto simp: os_remove_def)

text \<open>A commit installs the stage's content or changes nothing, and replaces only when forced.\<close>

lemma commit_error: "commitStage os stage destination force fs = (Some e, fs') \<Longrightarrow> fs' = fs"
  by (auto simp: commitStage_def os_rename_def os_link_def split: option.splits if_splits)

lemma commit_ok:
  "commitStage os stage destination force fs = (None, fs') \<Longrightarrow>
   stage \<noteq> destination \<and> fs stage \<noteq> None \<and> (\<not> force \<longrightarrow> fs destination = None) \<and>
   fs'(stage := None) = (fs(stage := None))(destination := fs stage)"
  by (auto simp: commitStage_def os_rename_def os_link_def fun_eq_iff split: option.splits if_splits)

end
