(* ===== verification/Download.thy ===== *)
theory Download
  imports Transfer_Lanes Crlf_Lines Local_File
begin

text \<open>
  \<open>downloadLanes\<close> of \<open>internal/remote/download.go\<close>.  The sender script writes the file as base64 lines to
  its standard output; a worker polls them into a pipe, from which a second one decodes them into a
  local stage.  The sender's record, fetched by a script of its own, confirms number and hash before
  the stage is committed.

  The model runs the polling worker in one go, before or after the end of input is sent (\<open>dl_first\<close>),
  and the decoder on what the pipe accepted: a pipe write fails when the decoder has closed its end
  (\<open>dl_pipe\<close>).  The world has the remote side; the local file system is threaded beside it.
\<close>

subsection \<open>The environment\<close>

text \<open>\<open>filepath.Abs\<close> and \<open>EvalSymlinks\<close>, what the system says to \<open>Lstat\<close>, to the creation of a stage, to
  writes on it, to \<open>Sync\<close>, reading, \<open>Close\<close>, commit and to the removal of the stage's name, and the random names.\<close>

record 'w download_env = "'w transfer_env" +
  dl_abs :: "bytes \<Rightarrow> goerr + bytes"
  dl_eval :: "bytes \<Rightarrow> goerr + bytes"
  dl_lstat :: "goerr option"
  dl_rand :: "nat \<Rightarrow> bytes option"
  dl_create :: "nat \<Rightarrow> goerr option"
  dl_first :: bool
  dl_pipe :: "bytes list \<Rightarrow> bytes \<Rightarrow> (nat \<times> goerr) option"
  dl_disk :: "bytes \<Rightarrow> bytes \<Rightarrow> (nat \<times> goerr) option"
  dl_sync :: "goerr option"
  dl_read :: "nat \<Rightarrow> goerr option"
  dl_close :: "goerr option"
  dl_commit :: "goerr option"
  dl_remove :: "goerr option"

text \<open>A write that fails may have taken some of the bytes.\<close>

definition partial_write :: "(nat \<times> goerr) option \<Rightarrow> bytes \<Rightarrow> nat \<times> goerr option" where
  "partial_write fails p =
     (case fails of None \<Rightarrow> (length p, None) | Some (n, e) \<Rightarrow> (min n (length p), Some e))"

type_synonym pipe = "bytes list \<times> bytes"

definition pipe_write :: "'w download_env \<Rightarrow> pipe writer" where
  "pipe_write env p st =
     (case partial_write (dl_pipe env (fst st) p) p of (n, e) \<Rightarrow> (n, e, fst st @ [take n p], snd st))"

definition sender_err :: "pipe writer" where
  "sender_err p st = (case bounded_write 1024 p (snd st) of (n, e, b) \<Rightarrow> (n, e, fst st, b))"

definition stage_write :: "'w download_env \<Rightarrow> bytes writer" where
  "stage_write env p content =
     (case partial_write (dl_disk env content p) p of (n, e) \<Rightarrow> (n, e, content @ take n p))"

subsection \<open>The stream\<close>

definition receive_sender ::
  "builders \<Rightarrow> session \<Rightarrow> 'w download_env \<Rightarrow> 'w conns \<Rightarrow> 'w \<Rightarrow> ((goerr + nat) \<times> 'w \<times> pipe) option" where
  "receive_sender b s env c w =
     session_receive b s (conn_receive c) (pipe_write env) sender_err (tx_ctx env) (tx_early env) (w, [], [])"

text \<open>The error of the send, the worker's result, what it piped, and the world.  A worker that has not
  run when the send fails is cancelled by the close that follows.\<close>

definition run_sender ::
  "builders \<Rightarrow> session \<Rightarrow> 'w download_env \<Rightarrow> 'w conns \<Rightarrow> 'w \<Rightarrow>
   (goerr option \<times> (goerr + nat) \<times> pipe \<times> 'w) option" where
  "run_sender b s env c w =
     (if dl_first env then
        do { (r, w, piped) \<leftarrow> receive_sender b s env c w;
             (case session_send b s (conn_send c) False (tx_ctx env) [] True w of
                (e, w) \<Rightarrow> Some (e, r, piped, w)) }
      else
        (case session_send b s (conn_send c) False (tx_ctx env) [] True w of
           (Some e, w) \<Rightarrow> Some (Some e, Inl (ctx_goerr Canceled), ([], []), w)
         | (None, w) \<Rightarrow>
             do { (r, w, piped) \<leftarrow> receive_sender b s env c w;
                  Some (None, r, piped, w) }))"

text \<open>The decoder: how many bytes, its error, and the stage.\<close>

definition decode_piped ::
  "'w download_env \<Rightarrow> (goerr + nat) \<Rightarrow> pipe \<Rightarrow> nat \<times> goerr option \<times> bytes" where
  "decode_piped env r piped =
     copyBase64Lines (stage_write env) (fst piped) (case r of Inl e \<Rightarrow> Some e | Inr _ \<Rightarrow> None) 32768 []"

text \<open>A failed send or decoder closes the session at once, under the caller's context; whether it is
  then closed.\<close>

definition abort_stream ::
  "builders \<Rightarrow> session \<Rightarrow> 'w download_env \<Rightarrow> 'w conns \<Rightarrow> goerr option \<Rightarrow> bool \<Rightarrow> 'w \<Rightarrow> bool \<times> 'w" where
  "abort_stream b s env c e already w =
     (if e = None then (already, w)
      else (case close_stream b s env c (tx_ctx env) already w of (_, w) \<Rightarrow> (True, w)))"

definition stream_verdict ::
  "goerr option \<Rightarrow> goerr option \<Rightarrow> goerr + nat \<Rightarrow> bytes \<Rightarrow> goerr option" where
  "stream_verdict sendErr copyErr r stderr =
     (case sendErr of
        Some e \<Rightarrow> Some (Wrap ''send sender EOF'' e)
      | None \<Rightarrow>
          (case copyErr of
             Some e \<Rightarrow> Some (Wrap ''decode download'' e)
           | None \<Rightarrow>
               (case r of
                  Inl e \<Rightarrow> Some (Wrap ''receive download'' e)
                | Inr code \<Rightarrow>
                    if code \<noteq> 0 then Some (RemoteExit code)
                    else if length stderr \<noteq> 0 then Some (Msg ''sender reported an error'')
                    else None)))"

text \<open>The verdict, the decoder's count, the stage's content, whether the session is closed.\<close>

definition download_stream ::
  "builders \<Rightarrow> session \<Rightarrow> 'w download_env \<Rightarrow> 'w conns \<Rightarrow> 'w \<Rightarrow>
   (goerr option \<times> nat \<times> bytes \<times> bool \<times> 'w) option" where
  "download_stream b s env c w =
     do { (sendErr, r, piped, w) \<leftarrow> run_sender b s env c w;
          (case abort_stream b s env c sendErr False w of (already, w) \<Rightarrow>
            (case decode_piped env r piped of (n, copyErr, content) \<Rightarrow>
              (case abort_stream b s env c copyErr already w of (already, w) \<Rightarrow>
                 Some (stream_verdict sendErr copyErr r (snd piped), n, content, already, w)))) }"

subsection \<open>Record and commit\<close>

definition fetch_record ::
  "builders \<Rightarrow> scripts \<Rightarrow> 'w download_env \<Rightarrow> 'w conns \<Rightarrow> transfer_request \<Rightarrow> bytes \<Rightarrow> bytes \<Rightarrow> 'w \<Rightarrow>
   ((goerr + transfer_record) \<times> 'w) option" where
  "fetch_record b sc env c req transferID metadata w =
     (case build_script sc ''fetch.ps1'' [(''metadata'', metadata)] of
        Inl e \<Rightarrow> Some (Inl e, w)
      | Inr script \<Rightarrow>
          do { (r, w) \<leftarrow> transferControl b (control_env env c) (tr_endpoint req) script w;
               Some ((case r of
                  Inl e \<Rightarrow> Inl (Wrap ''fetch control record'' e)
                | Inr (control, rc) \<Rightarrow>
                    if rc \<noteq> 0 then Inl (RemoteExit rc)
                    else case readRecord control None transferID of
                      Inl e \<Rightarrow> Inl (Wrap ''control record'' (record_goerr e))
                    | Inr rec \<Rightarrow> Inr rec), w) })"

definition install_stage ::
  "'w download_env \<Rightarrow> transfer_request \<Rightarrow> bytes \<Rightarrow> bytes \<Rightarrow> bytes \<Rightarrow> nat \<Rightarrow> transfer_record \<Rightarrow> file_system \<Rightarrow>
   (transfer_result \<times> goerr option) \<times> file_system" where
  "install_stage env req destination stage content copied rec fs =
     (case dl_sync env of
        Some e \<Rightarrow> ((no_result, Some (Wrap ''sync stage'' e)), fs)
      | None \<Rightarrow>
          (case hashStage (tx_sha env) (dl_read env) content of
             Inl e \<Rightarrow> ((no_result, Some e), fs)
           | Inr (n, digest) \<Rightarrow>
               if n \<noteq> copied \<or> int n \<noteq> Bytes rec \<or> digest \<noteq> SHA256 rec
               then ((no_result, Some (Msg ''download integrity mismatch'')), fs)
               else case dl_close env of
                 Some e \<Rightarrow> ((no_result, Some (Wrap ''close stage'' e)), fs)
               | None \<Rightarrow>
                   (case commitStage (dl_commit env) stage destination (tr_force req) fs of
                      (Some e, fs) \<Rightarrow> ((no_result, Some (Wrap ''commit download'' e)), fs)
                    | (None, fs) \<Rightarrow> (((uncommitted (int n) digest)\<lparr>committed := True\<rparr>, None), fs))))"

subsection \<open>downloadLanes\<close>

text \<open>From the stream to the commit: result and error, whether the sender is known to be done, whether
  the session is closed, the file system and the world.\<close>

definition download_body ::
  "builders \<Rightarrow> scripts \<Rightarrow> 'w download_env \<Rightarrow> 'w conns \<Rightarrow> transfer_request \<Rightarrow> bytes \<Rightarrow> bytes \<Rightarrow> bytes \<Rightarrow> bytes \<Rightarrow>
   session \<Rightarrow> file_system \<Rightarrow> 'w \<Rightarrow>
   ((transfer_result \<times> goerr option) \<times> bool \<times> bool \<times> file_system \<times> 'w) option" where
  "download_body b sc env c req transferID metadata destination stage s fs w =
     do { (verdict, copied, content, already, w) \<leftarrow> download_stream b s env c w;
          let fs = fs(stage \<mapsto> Regular content);
          (case verdict of
             Some e \<Rightarrow> Some ((no_result, Some e), False, already, fs, w)
           | None \<Rightarrow>
               do { (r, w) \<leftarrow> fetch_record b sc env c req transferID metadata w;
                    (case r of
                       Inl e \<Rightarrow> Some ((no_result, Some e), True, already, fs, w)
                     | Inr rec \<Rightarrow>
                         (case install_stage env req destination stage content copied rec fs of
                            (res, fs) \<Rightarrow> Some (res, True, already, fs, w))) }) }"

text \<open>The deferred function of the session: close it, and remove the control record of a sender that
  is done.\<close>

definition download_deferred ::
  "builders \<Rightarrow> scripts \<Rightarrow> 'w download_env \<Rightarrow> 'w conns \<Rightarrow> transfer_request \<Rightarrow> bytes \<Rightarrow> session \<Rightarrow>
   transfer_result \<times> goerr option \<Rightarrow> bool \<Rightarrow> bool \<Rightarrow> 'w \<Rightarrow> ((transfer_result \<times> goerr option) \<times> 'w) option" where
  "download_deferred b sc env c req metadata s r senderDone already w =
     (case r of (res, runErr) \<Rightarrow>
       let kept = res\<lparr>artifacts := artifacts res @ [metadata]\<rparr> in
       (case close_stream b s env c (tx_budget env) already w of
          (Some e, w) \<Rightarrow> Some ((kept, join_close ''close sender'' runErr (Some e)), w)
        | (None, w) \<Rightarrow>
            if \<not> senderDone then Some ((kept, runErr), w)
            else do { (ce, w) \<leftarrow> cleanupRemoteStage b sc (cleanup_env env c) (tr_endpoint req) metadata w;
                      Some ((case ce of
                         None \<Rightarrow> (res, runErr)
                       | Some e \<Rightarrow> (kept, join_close ''remove control record'' runErr (Some e))), w) }))"

definition download_session ::
  "builders \<Rightarrow> scripts \<Rightarrow> 'w download_env \<Rightarrow> 'w conns \<Rightarrow> transfer_request \<Rightarrow> bytes \<Rightarrow> bytes \<Rightarrow> bytes \<Rightarrow> bytes \<Rightarrow>
   file_system \<Rightarrow> 'w \<Rightarrow> ((transfer_result \<times> goerr option) \<times> file_system \<times> 'w) option" where
  "download_session b sc env c req transferID metadata destination stage fs w =
     (case build_script sc ''download.ps1''
             [(''id'', transferID), (''source'', tr_remote req), (''metadata'', metadata)] of
        Inl e \<Rightarrow> Some ((no_result, Some e), fs, w)
      | Inr script \<Rightarrow>
          (case startSessionLanes b (ps_request (tr_endpoint req) script) (tx_post env) (conn_cleanup c)
                  (Some (tx_post env)) (tx_ctx env) (tx_budget env) w of
             (Inl e, w) \<Rightarrow> Some ((no_result, Some (Wrap ''start sender'' e)), fs, w)
           | (Inr s, w) \<Rightarrow>
               do { (r, senderDone, already, fs, w) \<leftarrow>
                      download_body b sc env c req transferID metadata destination stage s fs w;
                    (r, w) \<leftarrow> download_deferred b sc env c req metadata s r senderDone already w;
                    Some (r, fs, w) }))"

text \<open>With the lanes: the remote temporary directory, the stage, the session; the stage's name is
  removed on every way out, and an error of that removal is ignored.\<close>

definition download_over ::
  "builders \<Rightarrow> scripts \<Rightarrow> 'w download_env \<Rightarrow> 'w conns \<Rightarrow> transfer_request \<Rightarrow> bytes \<Rightarrow> bytes \<Rightarrow> bytes \<Rightarrow>
   file_system \<Rightarrow> 'w \<Rightarrow> ((transfer_result \<times> goerr option) \<times> file_system \<times> 'w) option" where
  "download_over b sc env c req transferID tempScript destination fs w =
     do { (r, w) \<leftarrow> transferControl b (control_env env c) (tr_endpoint req) tempScript w;
          (case r of
             Inl e \<Rightarrow> Some ((no_result, Some (Wrap ''remote temp'' e)), fs, w)
           | Inr (tempOut, rc) \<Rightarrow>
               if rc \<noteq> 0 then Some ((no_result, Some (RemoteExit rc)), fs, w)
               else let metadata = download_metadata_path (trim_space tempOut) transferID in
                 if \<not> is_ok (validateRemotePath metadata)
                 then Some ((no_result, Some (Msg ''invalid remote temporary directory'')), fs, w)
                 else case createStage (dl_rand env) (dl_create env) destination fs of
                   (Inl e, fs) \<Rightarrow> Some ((no_result, Some (Wrap ''local stage'' e)), fs, w)
                 | (Inr stage, fs) \<Rightarrow>
                     map_option (\<lambda>(r, fs, w). (r, snd (os_remove (dl_remove env) stage fs), w))
                       (download_session b sc env c req transferID metadata destination stage fs w)) }"

definition downloadLanes ::
  "builders \<Rightarrow> scripts \<Rightarrow> 'w download_env \<Rightarrow> transfer_request \<Rightarrow> file_system \<Rightarrow> 'w \<Rightarrow>
   ((transfer_result \<times> goerr option) \<times> file_system \<times> 'w) option" where
  "downloadLanes b sc env req fs w =
     (let refuse = (\<lambda>e. Some ((no_result, Some e), fs, w)) in
      if tr_direction req \<noteq> Download_direction then refuse (TransferInput ''invalid transfer direction'')
      else if tr_local req = [] then refuse (TransferInput ''local path is empty'')
      else case validateRemotePath (tr_remote req) of
        Inl e \<Rightarrow> refuse (TransferInput (path_text e))
      | Inr _ \<Rightarrow>
          (case dl_abs env (tr_local req) of
             Inl e \<Rightarrow> refuse (Wrap ''local destination'' e)
           | Inr path \<Rightarrow>
               (case dl_eval env (path_dir path) of
                  Inl e \<Rightarrow> refuse (Wrap ''local destination parent'' e)
                | Inr parent \<Rightarrow>
                    let destination = path_join parent (path_base path) in
                    case rejectLocalLink (dl_lstat env) destination fs of
                      Some e \<Rightarrow> refuse e
                    | None \<Rightarrow>
                        (case tx_id env of
                           Inl e \<Rightarrow> refuse e
                         | Inr transferID \<Rightarrow>
                             (case build_script sc ''temp.ps1'' [] of
                                Inl e \<Rightarrow> refuse e
                              | Inr tempScript \<Rightarrow>
                                  (case tx_lanes env (tx_ctx env) w of
                                     (Inl e, w) \<Rightarrow>
                                       Some ((no_result, Some (Wrap ''authenticate data connections'' e)), fs, w)
                                   | (Inr (c, closeLanes), w) \<Rightarrow>
                                       map_option (\<lambda>(r, fs, w). (r, fs, closeLanes w))
                                         (download_over b sc env c req transferID tempScript
                                            destination fs w)))))))"

end
