(* ===== verification/Download_Spec.thy ===== *)
theory Download_Spec
  imports Download Script_Replies
begin

text \<open>
  What \<open>downloadLanes\<close> promises about the local file system, whatever the network and the operating
  system do: the destination is replaced by a verified file or nothing changes.
\<close>

interpretation stage: io_writer "stage_write env" "\<lambda>content. content" for env
  by unfold_locales
     (auto simp: stage_write_def partial_write_def min_def split: option.splits prod.splits if_splits)

subsection \<open>The stages of a download\<close>

text \<open>CRLF lines of base64 text that decode to the content.\<close>

definition decodes_to :: "bytes \<Rightarrow> bytes \<Rightarrow> bool" where
  "decodes_to text content \<longleftrightarrow> (\<exists>ls ds. text = crlf_join ls \<and> lines_decode 32768 ls ds \<and> content = concat ds)"

text \<open>The session of the sender: its script was started, its input closed, and it was polled until it was reported done
  with code 0; the replies to the polls carried no error output, and lines that decode to the content.\<close>

definition sender_held ::
  "'w post set \<Rightarrow> builders \<Rightarrow> request \<Rightarrow> bytes \<Rightarrow> 'w \<Rightarrow> 'w \<Rightarrow> bool" where
  "sender_held posts b req content w w' \<longleftrightarrow> (\<exists>shell cid start xs input polls ss.
     held posts w (start @ xs) w' \<and> command_started b req shell cid start \<and> xs \<in> shuffles input polls \<and>
     sent_by b (send_request b (req_endpoint req) shell cid [] True) input \<and>
     polled_to_end b (output_request b (req_endpoint req) shell cid) polls ss 0 \<and>
     stream_bytes ''stderr'' ss = [] \<and> decodes_to (stream_bytes ''stdout'' ss) content)"

lemma verdict_None:
  "stream_verdict sendErr copyErr r er = None \<longleftrightarrow> sendErr = None \<and> copyErr = None \<and> r = Inr 0 \<and> er = []"
  by (auto simp: stream_verdict_def split: option.splits sum.splits)

lemma decode_ok:
  assumes "decode_piped env r piped = (n, None, content)"
  shows "decodes_to (concat (fst piped)) content \<and> n = length content"
proof -
  obtain fin where "copyBase64Lines (stage_write env) (fst piped) fin 32768 [] = (n, None, content)"
    using assms by (auto simp: decode_piped_def)
  then have "copy_scan (stage_write env) 32768 [] (fst piped) False fin 0 [] = (n, None, content)"
    by (simp add: copyBase64Lines_def)
  from copy_scan_sound [OF this stage.io_writer_axioms] show ?thesis by (auto simp: decodes_to_def)
qed

text \<open>What went through the pipe is what the replies carried.\<close>

lemma pipe_written:
  "write_streams (pipe_write env) sender_err ss (cs, e1) = (None, cs', e2) \<Longrightarrow>
   concat cs' = concat cs @ stream_bytes ''stdout'' ss \<and> e2 = e1 @ stream_bytes ''stderr'' ss"
proof (induction ss arbitrary: cs e1)
  case (Cons s ss)
  obtain nam enc where s: "s = (nam, enc)" by fastforce
  from Cons.prems obtain d n u' where d: "b64_decode False enc = Some d" "nam = ''stdout'' \<or> nam = ''stderr''"
    "(if nam = ''stdout'' then pipe_write env else sender_err) d (cs, e1) = (n, None, u')"
    "write_streams (pipe_write env) sender_err ss u' = (None, cs', e2)"
    by (auto simp: s split: option.splits if_splits prod.splits)
  have "concat (fst u') = concat cs @ (if nam = ''stdout'' then d else []) \<and> snd u' = e1 @ (if nam = ''stdout'' then [] else d)"
    using d(3) by (auto simp: pipe_write_def partial_write_def sender_err_def bounded_write_def split: if_splits option.splits)
  with Cons.IH [of "fst u'" "snd u'"] d(1,2,4) show ?case by (cases u') (auto simp: s split: if_splits)
qed simp

lemma receive_sender_held:
  assumes "receive_sender b s env c w = Some (r, w', piped)"
  shows "\<exists>polls. held (transfer_posts env c) w polls w' \<and>
    (\<forall>rc. r = Inr rc \<longrightarrow> (\<exists>ss. polled_to_end b (output_request b (endpoint s) (shellID s) (commandID s)) polls ss rc \<and>
       concat (fst piped) = stream_bytes ''stdout'' ss \<and> snd piped = stream_bytes ''stderr'' ss))"
proof -
  obtain cs er where p: "piped = (cs, er)" by fastforce
  from session_receive_held [OF _ assms [unfolded receive_sender_def], of "transfer_posts env c"] obtain polls where
    h: "held (transfer_posts env c) w polls w'" and rc: "\<forall>rc. r = Inr rc \<longrightarrow>
      (\<exists>ss. polled_to_end b (output_request b (endpoint s) (shellID s) (commandID s)) polls ss rc \<and>
         write_streams (pipe_write env) sender_err ss ([], []) = (None, piped))" by auto
  have "\<exists>ss. polled_to_end b (output_request b (endpoint s) (shellID s) (commandID s)) polls ss rc \<and>
      concat cs = stream_bytes ''stdout'' ss \<and> er = stream_bytes ''stderr'' ss" if "r = Inr rc" for rc
  proof -
    from rc that p obtain ss where "polled_to_end b (output_request b (endpoint s) (shellID s) (commandID s)) polls ss rc"
      "write_streams (pipe_write env) sender_err ss ([], []) = (None, cs, er)" by blast
    with pipe_written [of env ss "[]" "[]" cs er] show ?thesis by auto
  qed
  with h p show ?thesis by auto
qed

lemma run_sender_held:
  assumes "run_sender b s env c w = Some (e, r, piped, w')"
  shows "\<exists>xs. held (transfer_posts env c) w xs w' \<and>
    (e = None \<and> r = Inr rc \<longrightarrow> (\<exists>input polls ss. xs \<in> shuffles input polls \<and>
       sent_by b (send_request b (endpoint s) (shellID s) (commandID s) [] True) input \<and>
       polled_to_end b (output_request b (endpoint s) (shellID s) (commandID s)) polls ss rc \<and>
       concat (fst piped) = stream_bytes ''stdout'' ss \<and> snd piped = stream_bytes ''stderr'' ss))"
proof (cases "dl_first env")
  case True
  with assms obtain w1 where R: "receive_sender b s env c w = Some (r, w1, piped)"
    and S: "session_send b s (conn_send c) False (tx_ctx env) [] True w1 = (e, w')"
    by (cases "receive_sender b s env c w") (auto simp: run_sender_def split: prod.splits)
  from receive_sender_held [OF R] obtain polls where p: "held (transfer_posts env c) w polls w1"
    "\<forall>rc. r = Inr rc \<longrightarrow> (\<exists>ss. polled_to_end b (output_request b (endpoint s) (shellID s) (commandID s)) polls ss rc \<and>
       concat (fst piped) = stream_bytes ''stdout'' ss \<and> snd piped = stream_bytes ''stderr'' ss)" by blast
  from send_held [OF _ S, of "transfer_posts env c"] obtain input where i: "held (transfer_posts env c) w1 input w'"
    "e = None \<longrightarrow> sent_by b (send_request b (endpoint s) (shellID s) (commandID s) [] True) input" by auto
  from held_append [OF p(1) i(1)] p(2) i(2) shuffles_sequence(2) [of polls input] show ?thesis
    by (intro exI [of _ "polls @ input"]) blast
next
  case False
  obtain e1 w1 where S: "session_send b s (conn_send c) False (tx_ctx env) [] True w = (e1, w1)" by (metis surj_pair)
  from send_held [OF _ S, of "transfer_posts env c"] obtain input where i: "held (transfer_posts env c) w input w1"
    "e1 = None \<longrightarrow> sent_by b (send_request b (endpoint s) (shellID s) (commandID s) [] True) input" by auto
  show ?thesis
  proof (cases e1)
    case (Some x)
    with assms False S have "e = Some x" "w' = w1" by (auto simp: run_sender_def)
    with i show ?thesis by auto
  next
    case None
    with assms False S have R: "receive_sender b s env c w1 = Some (r, w', piped)" and e: "e = None"
      by (auto simp: run_sender_def bind_eq_Some_conv)
    from receive_sender_held [OF R] obtain polls where p: "held (transfer_posts env c) w1 polls w'"
      "\<forall>rc. r = Inr rc \<longrightarrow> (\<exists>ss. polled_to_end b (output_request b (endpoint s) (shellID s) (commandID s)) polls ss rc \<and>
         concat (fst piped) = stream_bytes ''stdout'' ss \<and> snd piped = stream_bytes ''stderr'' ss)" by blast
    from held_append [OF i(1) p(1)] p(2) i(2) None shuffles_sequence(1) [of input polls] show ?thesis
      by (intro exI [of _ "input @ polls"]) blast
  qed
qed

lemma aborted_held: "\<exists>xs. held (transfer_posts env c) w xs (snd (abort_stream b s env c e already w))"
proof (cases e)
  case None
  then show ?thesis by (intro exI [of _ "[]"]) (simp add: abort_stream_def)
next
  case (Some x)
  obtain r w' where "close_stream b s env c (tx_ctx env) already w = (r, w')" by (metis surj_pair)
  with close_stream_held [OF this] Some show ?thesis by (auto simp: abort_stream_def)
qed

lemma stream_held:
  assumes "download_stream b s env c w = Some (verdict, n, content, already, w')"
  shows "\<exists>xs. held (transfer_posts env c) w xs w' \<and>
    (verdict = None \<longrightarrow> n = length content \<and> \<not> already \<and> (\<exists>input polls ss. xs \<in> shuffles input polls \<and>
       sent_by b (send_request b (endpoint s) (shellID s) (commandID s) [] True) input \<and>
       polled_to_end b (output_request b (endpoint s) (shellID s) (commandID s)) polls ss 0 \<and>
       stream_bytes ''stderr'' ss = [] \<and> decodes_to (stream_bytes ''stdout'' ss) content))"
proof -
  obtain sendErr r piped w1 where R: "run_sender b s env c w = Some (sendErr, r, piped, w1)"
    using assms by (cases "run_sender b s env c w") (auto simp: download_stream_def)
  obtain m copyErr cont where D: "decode_piped env r piped = (m, copyErr, cont)" by (metis surj_pair)
  obtain al1 w2 where A: "abort_stream b s env c sendErr False w1 = (al1, w2)" by (metis surj_pair)
  obtain al2 w3 where B: "abort_stream b s env c copyErr al1 w2 = (al2, w3)" by (metis surj_pair)
  from assms R D A B have v: "verdict = stream_verdict sendErr copyErr r (snd piped)" "m = n" "cont = content" "w' = w3"
    "already = al2" by (auto simp: download_stream_def)
  from run_sender_held [OF R, of 0] obtain xs where x: "held (transfer_posts env c) w xs w1"
    "sendErr = None \<and> r = Inr 0 \<longrightarrow> (\<exists>input polls ss. xs \<in> shuffles input polls \<and>
       sent_by b (send_request b (endpoint s) (shellID s) (commandID s) [] True) input \<and>
       polled_to_end b (output_request b (endpoint s) (shellID s) (commandID s)) polls ss 0 \<and>
       concat (fst piped) = stream_bytes ''stdout'' ss \<and> snd piped = stream_bytes ''stderr'' ss)" by blast
  obtain ys where y: "held (transfer_posts env c) w1 ys w2" using aborted_held [of env c w1 b s sendErr False] A by auto
  obtain zs where z: "held (transfer_posts env c) w2 zs w3" using aborted_held [of env c w2 b s copyErr al1] B by auto
  note h = held_append [OF x(1) held_append [OF y z]]
  show ?thesis
  proof (cases verdict)
    case (Some e)
    with h v(4) show ?thesis by auto
  next
    case None
    with v(1) have "stream_verdict sendErr copyErr r (snd piped) = None" by simp
    then have ok: "sendErr = None" "copyErr = None" "r = Inr 0" "snd piped = []" by (simp_all only: verdict_None)
    with A B have "w3 = w1" "\<not> al2" by (simp_all add: abort_stream_def)
    from x(2) ok obtain input polls ss where i: "xs \<in> shuffles input polls"
      "sent_by b (send_request b (endpoint s) (shellID s) (commandID s) [] True) input"
      "polled_to_end b (output_request b (endpoint s) (shellID s) (commandID s)) polls ss 0"
      "concat (fst piped) = stream_bytes ''stdout'' ss" "stream_bytes ''stderr'' ss = []" by auto
    have "decode_piped env r piped = (n, None, content)" using D v ok by simp
    from decode_ok [OF this] i x(1) \<open>w3 = w1\<close> \<open>\<not> al2\<close> v(4,5) show ?thesis by (intro exI [of _ xs]) auto
  qed
qed

text \<open>What the record and the commit establish.\<close>

lemma installed:
  assumes "install_stage env req destination stage content n rec fs = ((res, err), fs')"
    and "fs stage = Some (Regular content)"
  shows "if committed res then err = None \<and> Bytes rec = int (length content) \<and> SHA256 rec = tx_sha env content \<and>
      res = \<lparr>t_bytes = int (length content), t_sha = tx_sha env content, committed = True, artifacts = []\<rparr> \<and>
      stage \<noteq> destination \<and> (\<not> tr_force req \<longrightarrow> fs destination = None) \<and>
      fs'(stage := None) = (fs(stage := None))(destination \<mapsto> Regular content)
    else err \<noteq> None \<and> res = no_result \<and> fs' = fs"
proof (cases "committed res")
  case True
  with assms(1) have C: "commitStage (dl_commit env) stage destination (tr_force req) fs = (None, fs')"
    and r: "err = None \<and> Bytes rec = int (length content) \<and> SHA256 rec = tx_sha env content \<and>
      res = \<lparr>t_bytes = int (length content), t_sha = tx_sha env content, committed = True, artifacts = []\<rparr>"
    by (auto simp: install_stage_def no_result_def uncommitted_def dest!: hashStage_ok
        split: option.splits sum.splits if_splits prod.splits)
  with commit_ok [OF C] assms(2) True show ?thesis by auto
next
  case False
  with assms(1) show ?thesis
    by (cases "dl_sync env"; cases "hashStage (tx_sha env) (dl_read env) content"; simp add: install_stage_def uncommitted_def)
       (auto dest: commit_error split: option.splits if_splits prod.splits)
qed

text \<open>The record is the output of the script that fetches it.\<close>

lemma record_fetched:
  assumes "fetch_record b sc env c req transferID metadata w = Some (r, w')"
  shows "(\<exists>xs. held (transfer_posts env c) w xs w') \<and> (\<forall>rec. r = Inr rec \<longrightarrow> (\<exists>fetch control.
    build_script sc ''fetch.ps1'' [(''metadata'', metadata)] = Inr fetch \<and>
    script_held (transfer_posts env c) b (ps_request (tr_endpoint req) fetch) 0 control [] True w w' \<and>
    readRecord control None transferID = Inr rec))"
proof (cases "build_script sc ''fetch.ps1'' [(''metadata'', metadata)]")
  case (Inl e)
  with assms show ?thesis by (auto simp: fetch_record_def intro: exI [of _ "[]"])
next
  case (Inr script)
  with assms obtain y where T: "transferControl b (control_env env c) (tr_endpoint req) script w = Some (y, w')"
    and d: "r = (case y of Inl e \<Rightarrow> Inl (Wrap ''fetch control record'' e)
      | Inr (control, rc) \<Rightarrow> if rc \<noteq> 0 then Inl (RemoteExit rc)
          else case readRecord control None transferID of
            Inl e \<Rightarrow> Inl (Wrap ''control record'' (record_goerr e)) | Inr rec \<Rightarrow> Inr rec)"
    by (cases "transferControl b (control_env env c) (tr_endpoint req) script w") (auto simp: fetch_record_def)
  have y: "\<exists>control. y = Inr (control, 0) \<and> readRecord control None transferID = Inr rec" if "r = Inr rec" for rec
    using d that by (auto split: sum.splits if_splits)
  from transferControl_held [OF _ _ _ T, of "transfer_posts env c"] have
    h: "\<exists>xs. held (transfer_posts env c) w xs w'" and t: "\<forall>out rc. y = Inr (out, rc) \<longrightarrow>
      script_held (transfer_posts env c) b (ps_request (tr_endpoint req) script) rc out [] True w w'" by simp_all
  show ?thesis
  proof (intro conjI allI impI)
    fix rec assume "r = Inr rec"
    from y [OF this] obtain control where "y = Inr (control, 0)" "readRecord control None transferID = Inr rec" by blast
    with t Inr show "\<exists>fetch control. build_script sc ''fetch.ps1'' [(''metadata'', metadata)] = Inr fetch \<and>
        script_held (transfer_posts env c) b (ps_request (tr_endpoint req) fetch) 0 control [] True w w' \<and>
        readRecord control None transferID = Inr rec" by (intro exI [of _ script] exI [of _ control]) simp
  qed (rule h)
qed

text \<open>The deferred function does not change what was committed, and keeps errors.\<close>

lemma deferred_result:
  assumes "download_deferred b sc env c req metadata s (res1, err1) senderDone already w = Some ((res, err), w')"
  shows "committed res = committed res1 \<and> t_bytes res = t_bytes res1 \<and> t_sha res = t_sha res1 \<and>
    artifacts res \<in> {artifacts res1, artifacts res1 @ [metadata]} \<and> (err1 \<noteq> None \<longrightarrow> err \<noteq> None)"
proof -
  obtain ce w1 where C: "close_stream b s env c (tx_budget env) already w = (ce, w1)" by (metis surj_pair)
  show ?thesis
  proof (cases "ce = None \<and> senderDone")
    case True
    with assms C obtain ce2 w2 where
      "cleanupRemoteStage b sc (cleanup_env env c) (tr_endpoint req) metadata w1 = Some (ce2, w2)"
      by (cases "cleanupRemoteStage b sc (cleanup_env env c) (tr_endpoint req) metadata w1")
        (auto simp: download_deferred_def)
    with True assms C show ?thesis
      by (cases ce2) (auto simp: download_deferred_def join_close_def errors_join_def)
  next
    case False
    with assms C show ?thesis by (cases ce) (auto simp: download_deferred_def Let_def split: if_splits)
  qed
qed

text \<open>The sender of the transfer delivered the content: it was started with the remote file and with the path of its
  record, its replies carried the content, and the output of the script that fetched the record confirms number
  and hash.\<close>

definition sent_and_confirmed ::
  "'w post set \<Rightarrow> builders \<Rightarrow> scripts \<Rightarrow> 'w download_env \<Rightarrow> transfer_request \<Rightarrow> bytes \<Rightarrow> bytes \<Rightarrow> bytes \<Rightarrow> 'w \<Rightarrow> 'w \<Rightarrow> bool" where
  "sent_and_confirmed posts b sc env req transferID metadata content w w' \<longleftrightarrow> (\<exists>sender fetch control w1.
     build_script sc ''download.ps1'' [(''id'', transferID), (''source'', tr_remote req), (''metadata'', metadata)] = Inr sender \<and>
     sender_held posts b (ps_request (tr_endpoint req) sender) content w w1 \<and>
     build_script sc ''fetch.ps1'' [(''metadata'', metadata)] = Inr fetch \<and>
     script_held posts b (ps_request (tr_endpoint req) fetch) 0 control [] True w1 w' \<and>
     readRecord control None transferID =
       Inr \<lparr>Version = 1, ID = transferID, Bytes = int (length content), SHA256 = tx_sha env content\<rparr>)"

text \<open>All of it, from the script that says where the remote side keeps temporary files.\<close>

definition delivered ::
  "'w post set \<Rightarrow> builders \<Rightarrow> scripts \<Rightarrow> 'w download_env \<Rightarrow> transfer_request \<Rightarrow> bytes \<Rightarrow> bytes \<Rightarrow> 'w \<Rightarrow> 'w \<Rightarrow> bool" where
  "delivered posts b sc env req transferID content w w' \<longleftrightarrow> (\<exists>temp dir w1.
     build_script sc ''temp.ps1'' [] = Inr temp \<and>
     script_held posts b (ps_request (tr_endpoint req) temp) 0 dir [] True w w1 \<and>
     sent_and_confirmed posts b sc env req transferID (download_metadata_path (trim_space dir) transferID) content w1 w')"

lemma body_delivered:
  assumes "download_body b sc env c req transferID metadata destination stage s fs w =
      Some ((res, err), senderDone, already, fs', w')"
  shows "if committed res then \<exists>content xs input polls ss fetch control w1. held (transfer_posts env c) w xs w1 \<and>
      xs \<in> shuffles input polls \<and> sent_by b (send_request b (endpoint s) (shellID s) (commandID s) [] True) input \<and>
      polled_to_end b (output_request b (endpoint s) (shellID s) (commandID s)) polls ss 0 \<and>
      stream_bytes ''stderr'' ss = [] \<and> decodes_to (stream_bytes ''stdout'' ss) content \<and>
      build_script sc ''fetch.ps1'' [(''metadata'', metadata)] = Inr fetch \<and>
      script_held (transfer_posts env c) b (ps_request (tr_endpoint req) fetch) 0 control [] True w1 w' \<and>
      readRecord control None transferID =
        Inr \<lparr>Version = 1, ID = transferID, Bytes = int (length content), SHA256 = tx_sha env content\<rparr> \<and>
      res = \<lparr>t_bytes = int (length content), t_sha = tx_sha env content, committed = True, artifacts = []\<rparr> \<and>
      stage \<noteq> destination \<and> (\<not> tr_force req \<longrightarrow> fs destination = None) \<and>
      fs'(stage := None) = (fs(stage := None))(destination \<mapsto> Regular content)
    else err \<noteq> None \<and> res = no_result \<and> fs'(stage := None) = fs(stage := None)"
proof -
  obtain verdict copied content alr w1 where
    S: "download_stream b s env c w = Some (verdict, copied, content, alr, w1)"
    using assms by (cases "download_stream b s env c w") (auto simp: download_body_def)
  show ?thesis
  proof (cases verdict)
    case (Some e)
    with assms S show ?thesis by (auto simp: download_body_def no_result_def)
  next
    case None
    from stream_held [OF S [unfolded None]] obtain xs input polls ss where ok: "held (transfer_posts env c) w xs w1"
      "copied = length content" "xs \<in> shuffles input polls"
      "sent_by b (send_request b (endpoint s) (shellID s) (commandID s) [] True) input"
      "polled_to_end b (output_request b (endpoint s) (shellID s) (commandID s)) polls ss 0"
      "stream_bytes ''stderr'' ss = []" "decodes_to (stream_bytes ''stdout'' ss) content"
      by (simp only: simp_thms) (elim exE conjE, rule that; assumption)
    obtain r w2 where F: "fetch_record b sc env c req transferID metadata w1 = Some (r, w2)"
      using assms S None by (cases "fetch_record b sc env c req transferID metadata w1") (auto simp: download_body_def)
    show ?thesis
    proof (cases r)
      case (Inl e)
      with assms S None F show ?thesis by (auto simp: download_body_def no_result_def)
    next
      case (Inr rec)
      obtain res2 fs2 where I: "install_stage env req destination stage content copied rec
          (fs(stage \<mapsto> Regular content)) = (res2, fs2)" by (metis surj_pair)
      with assms S None F Inr have e: "res2 = (res, err)" "fs2 = fs'" "w2 = w'" by (auto simp: download_body_def)
      note inst = installed [OF I [unfolded e(1,2)]]
      show ?thesis
      proof (cases "committed res")
        case True
        from record_fetched [OF F] Inr obtain fetch control where
          C: "build_script sc ''fetch.ps1'' [(''metadata'', metadata)] = Inr fetch"
            "script_held (transfer_posts env c) b (ps_request (tr_endpoint req) fetch) 0 control [] True w1 w'"
            "readRecord control None transferID = Inr rec" unfolding e(3) by blast
        from record_identity [OF C(3)] True inst have "rec = \<lparr>Version = 1, ID = transferID,
            Bytes = int (length content), SHA256 = tx_sha env content\<rparr>" by (cases rec) auto
        with C(3) have rd: "readRecord control None transferID = Inr \<lparr>Version = 1, ID = transferID,
            Bytes = int (length content), SHA256 = tx_sha env content\<rparr>" by simp
        have more: "res = \<lparr>t_bytes = int (length content), t_sha = tx_sha env content, committed = True, artifacts = []\<rparr>"
          "stage \<noteq> destination" "\<not> tr_force req \<longrightarrow> fs destination = None"
          "fs'(stage := None) = (fs(stage := None))(destination \<mapsto> Regular content)" using True inst by auto
        show ?thesis unfolding if_P [OF True]
          by (intro exI conjI) (rule ok(1) ok(3-7) C(1,2) rd more)+
      next
        case False
        with inst show ?thesis by auto
      qed
    qed
  qed
qed

lemma deferred_held:
  assumes "download_deferred b sc env c req metadata s r senderDone already w = Some (r', w')"
  shows "\<exists>xs. held (transfer_posts env c) w xs w'"
proof -
  obtain ce w1 where C: "close_stream b s env c (tx_budget env) already w = (ce, w1)" by (metis surj_pair)
  from close_stream_held [OF C] obtain xs where x: "held (transfer_posts env c) w xs w1" by blast
  show ?thesis
  proof (cases "ce = None \<and> senderDone")
    case True
    with assms C obtain ce2 where
      "cleanupRemoteStage b sc (cleanup_env env c) (tr_endpoint req) metadata w1 = Some (ce2, w')"
      by (cases r) (auto simp: download_deferred_def bind_eq_Some_conv)
    from cleanup_held [OF this] held_append [OF x] show ?thesis by blast
  next
    case False
    with assms C have "w' = w1" by (cases r; cases ce) (auto simp: download_deferred_def Let_def split: if_splits)
    with x show ?thesis by blast
  qed
qed

text \<open>The file system \<open>g\<close>, up to the transfer's own stage if its removal failed: a name that was free, beside the
  destination.\<close>

definition stage_may_stay :: "'w download_env \<Rightarrow> bytes \<Rightarrow> file_system \<Rightarrow> file_system \<Rightarrow> file_system \<Rightarrow> bool" where
  "stage_may_stay env destination fs g fs' \<longleftrightarrow> fs' = g \<or>
     dl_remove env \<noteq> None \<and> (\<exists>stage r. stage = path_join (path_dir destination) (stage_file_name r) \<and> fs stage = None \<and>
       fs' = g(stage := fs' stage))"

lemma stage_same [simp]: "stage_may_stay env destination fs g g"
  by (simp add: stage_may_stay_def)

lemma stage_removed: "dl_remove env = None \<Longrightarrow> stage_may_stay env destination fs g fs' \<longleftrightarrow> fs' = g"
  by (simp add: stage_may_stay_def)

lemma stage_dropped:
  assumes "fs2(stage := None) = g" "stage = path_join (path_dir destination) (stage_file_name r)" "fs stage = None"
  shows "stage_may_stay env destination fs g (snd (os_remove (dl_remove env) stage fs2))"
proof -
  have "fs2 = g(stage := fs2 stage)" using assms(1) by auto
  with os_remove_cases [of "dl_remove env" stage fs2] assms show ?thesis unfolding stage_may_stay_def by metis
qed

text \<open>A download from the file system \<open>fs\<close> to \<open>fs'\<close> and the world \<open>w\<close> to \<open>w'\<close>: the delivered content at the
  destination, or no change.\<close>

definition download_outcome ::
  "builders \<Rightarrow> scripts \<Rightarrow> 'w download_env \<Rightarrow> 'w conns \<Rightarrow> transfer_request \<Rightarrow> bytes \<Rightarrow> bytes \<Rightarrow> transfer_result \<Rightarrow> goerr option \<Rightarrow>
   file_system \<Rightarrow> file_system \<Rightarrow> 'w \<Rightarrow> 'w \<Rightarrow> bool" where
  "download_outcome b sc env c req transferID destination res err fs fs' w w' \<longleftrightarrow>
     (if committed res then
        (\<exists>content w1 rest. delivered (transfer_posts env c) b sc env req transferID content w w1 \<and>
           held (transfer_posts env c) w1 rest w' \<and> t_bytes res = int (length content) \<and> t_sha res = tx_sha env content \<and>
           (\<not> tr_force req \<longrightarrow> fs destination = None) \<and> fs' destination = Some (Regular content) \<and>
           stage_may_stay env destination fs (fs(destination \<mapsto> Regular content)) fs')
      else err \<noteq> None \<and> stage_may_stay env destination fs fs fs')"

lemma outcome_failed [simp]: "download_outcome b sc env c req transferID destination no_result (Some e) fs fs w w'"
  by (simp add: download_outcome_def no_result_def)

lemma session_installed:
  assumes "download_session b sc env c req transferID metadata destination stage (fs(stage \<mapsto> Regular [])) w =
      Some ((res, err), fs', w')" and "fs stage = None"
  shows "if committed res then \<exists>content w1 rest.
      sent_and_confirmed (transfer_posts env c) b sc env req transferID metadata content w w1 \<and>
      held (transfer_posts env c) w1 rest w' \<and> t_bytes res = int (length content) \<and> t_sha res = tx_sha env content \<and>
      (\<not> tr_force req \<longrightarrow> fs destination = None) \<and> stage \<noteq> destination \<and> fs'(stage := None) = fs(destination \<mapsto> Regular content)
    else err \<noteq> None \<and> fs'(stage := None) = fs"
proof -
  have gone: "fs(stage := None) = fs" using assms(2) by auto
  show ?thesis
  proof (cases "build_script sc ''download.ps1''
      [(''id'', transferID), (''source'', tr_remote req), (''metadata'', metadata)]")
    case (Inl e)
    with assms(1) gone show ?thesis by (auto simp: download_session_def no_result_def)
  next
    case (Inr script)
    let ?rq = "ps_request (tr_endpoint req) script"
    obtain rs w1 where S: "startSessionLanes b ?rq (tx_post env) (conn_cleanup c)
        (Some (tx_post env)) (tx_ctx env) (tx_budget env) w = (rs, w1)" by (metis surj_pair)
    show ?thesis
    proof (cases rs)
      case (Inl e)
      with assms(1) Inr S gone show ?thesis by (auto simp: download_session_def no_result_def)
    next
      case s: (Inr s)
      obtain res1 err1 senderDone already fs2 w2 where
        B: "download_body b sc env c req transferID metadata destination stage s (fs(stage \<mapsto> Regular [])) w1 =
          Some ((res1, err1), senderDone, already, fs2, w2)"
        using assms(1) Inr S s
        by (cases "download_body b sc env c req transferID metadata destination stage s (fs(stage \<mapsto> Regular [])) w1")
          (auto simp: download_session_def)
      with assms(1) Inr S s have
        D: "download_deferred b sc env c req metadata s (res1, err1) senderDone already w2 = Some ((res, err), w')"
        and fs': "fs' = fs2"
        by (auto simp: download_session_def bind_eq_Some_conv split: prod.splits)
      note body = body_delivered [OF B] and kept = deferred_result [OF D]
      show ?thesis
      proof (cases "committed res")
        case False
        with body kept gone show ?thesis unfolding fs' by auto
      next
        case True
        with kept body obtain content xs input polls ss fetch control w3 where
          h: "held (transfer_posts env c) w1 xs w3" "xs \<in> shuffles input polls"
            "sent_by b (send_request b (endpoint s) (shellID s) (commandID s) [] True) input"
            "polled_to_end b (output_request b (endpoint s) (shellID s) (commandID s)) polls ss 0"
            "stream_bytes ''stderr'' ss = []" "decodes_to (stream_bytes ''stdout'' ss) content"
          and f: "build_script sc ''fetch.ps1'' [(''metadata'', metadata)] = Inr fetch"
            "script_held (transfer_posts env c) b (ps_request (tr_endpoint req) fetch) 0 control [] True w3 w2"
            "readRecord control None transferID =
              Inr \<lparr>Version = 1, ID = transferID, Bytes = int (length content), SHA256 = tx_sha env content\<rparr>"
          and i: "res1 = \<lparr>t_bytes = int (length content), t_sha = tx_sha env content, committed = True, artifacts = []\<rparr>"
            "stage \<noteq> destination" "\<not> tr_force req \<longrightarrow> (fs(stage \<mapsto> Regular [])) destination = None"
            "fs2(stage := None) = ((fs(stage \<mapsto> Regular []))(stage := None))(destination \<mapsto> Regular content)"
          unfolding if_P [OF True] by (simp only: if_True, elim exE conjE) (rule that; assumption)
        from start_held [OF _ _ _ S, of "transfer_posts env c"] s obtain start where
          st: "held (transfer_posts env c) w start w1" "endpoint s = req_endpoint ?rq"
            "command_started b ?rq (shellID s) (commandID s) start" by auto
        have "sender_held (transfer_posts env c) b ?rq content w w3" unfolding sender_held_def
          using held_append [OF st(1) h(1)] st(2,3) h(2-6)
          by (intro exI [of _ "shellID s"] exI [of _ "commandID s"] exI [of _ start] exI [of _ xs] exI [of _ input]
              exI [of _ polls] exI [of _ ss]) simp
        with Inr f have "sent_and_confirmed (transfer_posts env c) b sc env req transferID metadata content w w2"
          unfolding sent_and_confirmed_def by blast
        moreover from deferred_held [OF D] obtain rest where "held (transfer_posts env c) w2 rest w'" by blast
        moreover have "t_bytes res = int (length content) \<and> t_sha res = tx_sha env content" using kept i(1) by simp
        moreover have "fs2(stage := None) = fs(destination \<mapsto> Regular content)" using i(4) gone by simp
        moreover have "\<not> tr_force req \<longrightarrow> fs destination = None" using i(2,3) by auto
        ultimately show ?thesis using True i(2) unfolding fs' by auto
      qed
    qed
  qed
qed

lemma over_installed:
  assumes "download_over b sc env c req transferID tempScript destination fs w = Some ((res, err), fs', w')"
    and "build_script sc ''temp.ps1'' [] = Inr tempScript"
  shows "download_outcome b sc env c req transferID destination res err fs fs' w w'"
proof -
  obtain r w1 where T: "transferControl b (control_env env c) (tr_endpoint req) tempScript w = Some (r, w1)"
    using assms by (cases "transferControl b (control_env env c) (tr_endpoint req) tempScript w")
      (auto simp: download_over_def)
  show ?thesis
  proof (cases r)
    case (Inl e)
    with assms T show ?thesis by (auto simp: download_over_def)
  next
    case (Inr x)
    obtain tempOut rc where x: "x = (tempOut, rc)" by (cases x)
    let ?m = "download_metadata_path (trim_space tempOut) transferID"
    obtain r2 fs1 where C: "createStage (dl_rand env) (dl_create env) destination fs = (r2, fs1)" by (metis surj_pair)
    show ?thesis
    proof (cases "rc \<noteq> 0 \<or> \<not> is_ok (validateRemotePath ?m) \<or> (\<exists>e. r2 = Inl e)")
      case True
      have "fs1 = fs" if "r2 = Inl e" for e using createStage_error C that by metis
      with True assms T Inr x C show ?thesis by (auto simp: download_over_def Let_def split: if_splits)
    next
      case False
      then obtain stage where r2: "r2 = Inr stage" by (cases r2) auto
      from createStage_ok [OF C [unfolded r2]] obtain rnd where f: "fs stage = None" "fs1 = fs(stage \<mapsto> Regular [])"
        "stage = path_join (path_dir destination) (stage_file_name rnd)" by auto
      from assms(1) T Inr x C False r2 f obtain fs2 where
        ses: "download_session b sc env c req transferID ?m destination stage (fs(stage \<mapsto> Regular [])) w1 =
           Some ((res, err), fs2, w')" and fs': "fs' = snd (os_remove (dl_remove env) stage fs2)"
        by (auto simp: download_over_def Let_def)
      note out = session_installed [OF ses f(1)]
      show ?thesis
      proof (cases "committed res")
        case res: False
        with out f(1) stage_dropped [OF _ f(3), of fs2 fs fs env] show ?thesis
          unfolding fs' download_outcome_def by simp
      next
        case res: True
        with out obtain content w2 rest where
          s: "sent_and_confirmed (transfer_posts env c) b sc env req transferID ?m content w1 w2"
            "held (transfer_posts env c) w2 rest w'" "t_bytes res = int (length content)" "t_sha res = tx_sha env content"
            "\<not> tr_force req \<longrightarrow> fs destination = None" "stage \<noteq> destination"
            "fs2(stage := None) = fs(destination \<mapsto> Regular content)"
          unfolding if_P [OF res] by (elim exE conjE) (rule that)
        have "script_held (transfer_posts env c) b (ps_request (tr_endpoint req) tempScript) 0 tempOut [] True w w1"
          using transferControl_held [OF _ _ _ T, of "transfer_posts env c"] Inr x False by simp
        with s(1) assms(2) have "delivered (transfer_posts env c) b sc env req transferID content w w2"
          unfolding delivered_def by blast
        moreover note stage_dropped [OF s(7) f(3), of fs env, OF f(1)]
        moreover have "fs' destination = Some (Regular content)"
        proof -
          have "(fs2(stage := None)) destination = Some (Regular content)" using s(7) by simp
          then have "fs2 destination = Some (Regular content)" using s(6) by simp
          with os_remove_cases [of "dl_remove env" stage fs2] s(6) fs' show ?thesis by auto
        qed
        ultimately show ?thesis using res s(2-5) fs' unfolding download_outcome_def by auto
      qed
    qed
  qed
qed

text \<open>The file the caller names.\<close>

definition local_destination :: "'w download_env \<Rightarrow> transfer_request \<Rightarrow> bytes \<Rightarrow> bool" where
  "local_destination env req destination \<longleftrightarrow>
     (\<exists>path parent. dl_abs env (tr_local req) = Inr path \<and> dl_eval env (path_dir path) = Inr parent \<and>
        destination = path_join parent (path_base path))"

text \<open>The lanes, and what was exchanged between their opening and closing.\<close>

lemma download_cases:
  assumes "downloadLanes b sc env req fs w = Some ((res, err), fs', w')"
  obtains (refused) "res = no_result" and "err \<noteq> None" and "fs' = fs"
    | (admitted) destination transferID c cl w1 w2 where "local_destination env req destination"
      and "is_ok (validateRemotePath (tr_remote req))" and "tx_id env = Inr transferID"
      and "fs destination \<noteq> Some Symlink" and "tx_lanes env (tx_ctx env) w = (Inr (c, cl), w1)" and "w' = cl w2"
      and "download_outcome b sc env c req transferID destination res err fs fs' w1 w2"
proof (cases "\<exists>path parent transferID tempScript c cl w1. tr_direction req = Download_direction \<and> tr_local req \<noteq> [] \<and>
    is_ok (validateRemotePath (tr_remote req)) \<and> dl_abs env (tr_local req) = Inr path \<and>
    dl_eval env (path_dir path) = Inr parent \<and>
    rejectLocalLink (dl_lstat env) (path_join parent (path_base path)) fs = None \<and>
    tx_id env = Inr transferID \<and> build_script sc ''temp.ps1'' [] = Inr tempScript \<and>
    tx_lanes env (tx_ctx env) w = (Inr (c, cl), w1)")
  case True
  then obtain path parent transferID tempScript c cl w1 where a: "tr_direction req = Download_direction"
    "tr_local req \<noteq> []" "is_ok (validateRemotePath (tr_remote req))" "dl_abs env (tr_local req) = Inr path"
    "dl_eval env (path_dir path) = Inr parent"
    "rejectLocalLink (dl_lstat env) (path_join parent (path_base path)) fs = None"
    "tx_id env = Inr transferID" "build_script sc ''temp.ps1'' [] = Inr tempScript"
    "tx_lanes env (tx_ctx env) w = (Inr (c, cl), w1)" by blast
  let ?d = "path_join parent (path_base path)"
  from assms a obtain w2 where
    o: "download_over b sc env c req transferID tempScript ?d fs w1 = Some ((res, err), fs', w2)" and w': "w' = cl w2"
    by (auto simp: downloadLanes_def Let_def is_ok_iff)
  have "local_destination env req ?d" "fs ?d \<noteq> Some Symlink"
    using a by (auto simp: local_destination_def rejectLocalLink_def split: option.splits if_splits)
  with over_installed [OF o a(8)] a w' show thesis by (intro admitted [of ?d transferID c cl w1 w2])
next
  case False
  have "err \<noteq> None"
  proof
    assume "err = None"
    with assms False show False
      by (auto simp: downloadLanes_def Let_def is_ok_iff split: if_splits sum.splits option.splits prod.splits)
  qed
  moreover from assms False have "res = no_result \<and> fs' = fs"
    by (auto simp: downloadLanes_def Let_def split: if_splits sum.splits option.splits prod.splits)
  ultimately show thesis using refused by simp
qed

subsection \<open>Properties\<close>

lemma downloadLanes_done:
  assumes "downloadLanes b sc env req fs w = Some ((res, err), fs', w')" and "committed res"
  shows "\<exists>destination transferID content c cl w1 w2 rest w3.
    local_destination env req destination \<and> is_ok (validateRemotePath (tr_remote req)) \<and> tx_id env = Inr transferID \<and>
    tx_lanes env (tx_ctx env) w = (Inr (c, cl), w1) \<and>
    delivered (transfer_posts env c) b sc env req transferID content w1 w2 \<and>
    held (transfer_posts env c) w2 rest w3 \<and> w' = cl w3 \<and>
    t_bytes res = int (length content) \<and> t_sha res = tx_sha env content \<and>
    fs' destination = Some (Regular content) \<and> stage_may_stay env destination fs (fs(destination \<mapsto> Regular content)) fs' \<and>
    (\<not> tr_force req \<longrightarrow> fs destination = None) \<and> fs destination \<noteq> Some Symlink"
  using assms(1)
proof (cases rule: download_cases)
  case refused
  with assms(2) show ?thesis by (simp add: no_result_def)
next
  case (admitted destination transferID c cl w1 w2)
  from admitted(7) assms(2) obtain content v rest where
    d: "delivered (transfer_posts env c) b sc env req transferID content w1 v" "held (transfer_posts env c) v rest w2"
      "t_bytes res = int (length content)" "t_sha res = tx_sha env content" "\<not> tr_force req \<longrightarrow> fs destination = None"
      "fs' destination = Some (Regular content)" "stage_may_stay env destination fs (fs(destination \<mapsto> Regular content)) fs'"
    unfolding download_outcome_def by auto
  show ?thesis by (intro exI conjI) (rule admitted d)+
qed

text \<open>C15: A committed download installed exactly what the sender sent.  Between the opening and the closing of the lanes
  the server ran the scripts of this transfer, each step confirmed by its reply: the sender, started with the remote file
  that was asked for, was polled until it was reported done with code 0, and the replies carried no error output
  and well-formed lines that decode to the content; then the script that fetches its record ended with code 0, its
  shell was deleted, and its output is the record of this transfer with the content's number of bytes and hash.  The
  destination, which without force did not exist before and which was never a symbolic link, now holds the
  content; nothing else has changed, except that the transfer's own stage beside it may stay if its removal failed.\<close>

theorem download_committed:
  assumes "downloadLanes b sc env req fs w = Some ((res, err), fs', w')" and "committed res"
  shows "\<exists>destination transferID content c cl w1 w2 rest w3.
    local_destination env req destination \<and> is_ok (validateRemotePath (tr_remote req)) \<and> tx_id env = Inr transferID \<and>
    tx_lanes env (tx_ctx env) w = (Inr (c, cl), w1) \<and>
    delivered (transfer_posts env c) b sc env req transferID content w1 w2 \<and>
    held (transfer_posts env c) w2 rest w3 \<and> w' = cl w3 \<and>
    t_bytes res = int (length content) \<and> t_sha res = tx_sha env content \<and>
    fs' destination = Some (Regular content) \<and> stage_may_stay env destination fs (fs(destination \<mapsto> Regular content)) fs' \<and>
    (\<not> tr_force req \<longrightarrow> fs destination = None) \<and> fs destination \<noteq> Some Symlink"
  using assms by (rule downloadLanes_done)

text \<open>C24: A download that is not committed reports an error and leaves the local file system as it found it, the
  destination included.  Only if the removal of its own stage failed, whose error is ignored, may this one name, which was
  free before, stay beside the destination.\<close>

theorem download_untouched:
  assumes "downloadLanes b sc env req fs w = Some ((res, err), fs', w')" and "\<not> committed res"
  shows "err \<noteq> None \<and> (fs' = fs \<or> dl_remove env \<noteq> None \<and> (\<exists>destination stage r. local_destination env req destination \<and>
    stage = path_join (path_dir destination) (stage_file_name r) \<and> fs stage = None \<and> fs' = fs(stage := fs' stage)))"
  using assms(1)
proof (cases rule: download_cases)
  case (admitted destination transferID c cl w1 w2)
  with assms(2) show ?thesis unfolding download_outcome_def stage_may_stay_def by auto
qed simp

end
