(* ===== verification/File_Transfer.thy ===== *)
theory File_Transfer
  imports Upload_Spec Download_Spec
begin

text \<open>
  \<open>Transfer\<close> and \<open>transferLanes\<close> of \<open>internal/remote/transfer.go\<close>: the checks on a request, the choice of
  the direction, and the transports it runs over.  Both directions end whenever their contexts do.
\<close>

subsection \<open>The entry points\<close>

definition transferLanes ::
  "builders \<Rightarrow> scripts \<Rightarrow> 'w upload_env \<Rightarrow> 'w download_env \<Rightarrow> transfer_request \<Rightarrow> file_system \<Rightarrow> 'w \<Rightarrow>
   ((transfer_result \<times> goerr option) \<times> file_system \<times> 'w) option" where
  "transferLanes b sc uenv denv req fs w =
     (let refuse = (\<lambda>m. Some ((no_result, Some (TransferInput m)), fs, w)) in
      if tr_direction req \<noteq> Upload_direction \<and> tr_direction req \<noteq> Download_direction
      then refuse ''transfer direction must be upload or download''
      else if tr_local req = [] \<or> tr_remote req = [] \<or> tr_local req = ''-'' \<or> tr_remote req = ''-''
      then refuse ''transfer requires two file paths''
      else case validateRemotePath (tr_remote req) of
        Inl e \<Rightarrow> refuse (path_text e)
      | Inr _ \<Rightarrow>
          if tr_direction req = Upload_direction
          then map_option (\<lambda>(r, w). (r, fs, w)) (uploadLanes b sc uenv req w)
          else downloadLanes b sc denv req fs w)"

definition Transfer ::
  "'n net_env \<Rightarrow> builders \<Rightarrow> scripts \<Rightarrow> 'n world upload_env \<Rightarrow> 'n world download_env \<Rightarrow> transfer_request \<Rightarrow>
   file_system \<Rightarrow> 'n world \<Rightarrow> ((transfer_result \<times> goerr option) \<times> file_system \<times> 'n world) option" where
  "Transfer host b sc uenv denv req fs w =
     (let post = transport_post host (tr_endpoint req); data = persistentLanes host (tr_endpoint req) in
      transferLanes b sc (uenv\<lparr>tx_post := post, tx_lanes := data\<rparr>) (denv\<lparr>tx_post := post, tx_lanes := data\<rparr>)
        req fs w)"

subsection \<open>Ends\<close>

definition returns :: "'a option \<Rightarrow> bool" where
  "returns x \<longleftrightarrow> x \<noteq> None"

lemma returns_simps [simp]: "returns (Some y)" "\<not> returns None" "returns (map_option f x) \<longleftrightarrow> returns x"
  by (auto simp: returns_def)

lemma returns_bind [intro]:
  "returns x \<Longrightarrow> (\<And>y. x = Some y \<Longrightarrow> returns (f y)) \<Longrightarrow> returns (x \<bind> f)"
  by (cases x) auto

lemma returns_iff: "returns x \<longleftrightarrow> (\<exists>y. x = Some y)"
  by (auto simp: returns_def)

text \<open>A context that ends no later than when \<open>N\<close> messages have been sent.\<close>

definition ends_by :: "nat \<Rightarrow> ('w \<Rightarrow> bytes list) \<Rightarrow> 'w ctx \<Rightarrow> bool" where
  "ends_by N obs ctx \<longleftrightarrow> (\<forall>w. N \<le> length (obs w) \<longrightarrow> ctx w \<noteq> None)"

context session_posters begin

lemma receive_returns:
  assumes "ends_by N wire ctx"
  shows "returns (session_receive b s cmd out err ctx early wu)"
proof -
  have "\<And>w. N \<le> length (wire w) \<Longrightarrow> ctx w \<noteq> None" using assms by (simp add: ends_by_def)
  from loop_returns [of N ctx, OF this] obtain y where "receiveLoop b s cmd out err ctx wu = Some y" by blast
  then show ?thesis by (cases y) (auto simp: session_receive_def split: option.splits)
qed

lemma script_returns:
  assumes "script_post env = cmd" and "ends_by N wire (script_ctx env)"
  shows "returns (run_script b env limits req w)"
proof -
  obtain rs w1 where S: "startSessionLanes b req cmd (script_cleanup env) (script_fallback env) (script_ctx env)
      (script_budget env) w = (rs, w1)" by (metis surj_pair)
  show ?thesis
  proof (cases rs)
    case (Inr s)
    obtain r w2 where E: "session_send b s cmd False (script_ctx env) [] True w1 = (r, w2)" by (metis surj_pair)
    have "returns (session_receive b s cmd (out_write (fst limits)) (err_write (snd limits)) (script_ctx env)
        (script_early env) (w2, [], []))" using receive_returns assms(2) by blast
    with S Inr E assms(1) show ?thesis
      by (cases r) (auto simp: run_script_def returns_iff split: prod.splits sum.splits)
  qed (use S assms(1) in \<open>simp add: run_script_def\<close>)
qed

end

context transfer_posters begin

lemma worker_returns:
  "conn_receive c = rcv \<Longrightarrow> ends_by N wire (tx_ctx env) \<Longrightarrow> returns (run_worker b s env c st)"
  using receives.receive_returns
  by (auto simp: run_worker_def split: option.splits intro!: returns_bind)

lemma check_returns:
  "conn_receive c = rcv \<Longrightarrow> ends_by N wire (tx_ctx env) \<Longrightarrow> returns (check_worker b s env c k st)"
  using worker_returns by (auto simp: check_worker_def)

lemma stream_returns:
  assumes "conn_receive c = rcv" and "ends_by N wire (tx_ctx env)"
  shows "returns (upload_stream b s env c reads k acc st)"
proof (induction reads arbitrary: k acc st)
  case Nil
  show ?case
    by (subst upload_stream.simps) (auto intro!: returns_bind check_returns [OF assms] split: option.splits)
next
  case (Cons x reads)
  show ?case
    by (subst upload_stream.simps)
       (auto intro!: returns_bind check_returns [OF assms] Cons.IH split: option.splits prod.splits)
qed

lemma finalizer_returns:
  assumes "tx_post env = p" and "ends_by N wire (tx_ctx env)"
  shows "returns (dispatchFinalizer b sc (control_env env c) ep transferID stage target sha n force w)"
proof -
  have "script_post (control_env env c) = p" "ends_by N wire (script_ctx (control_env env c))"
    using assms by (simp_all add: control_env_def)
  note r = starts.script_returns [OF this]
  show ?thesis
  proof (cases "build_script sc ''control.ps1'' (finalizer_values transferID stage target sha n force)")
    case (Inr script)
    from r [of b "(256, 1024)" "ps_request ep script" w] Inr show ?thesis
      by (auto simp: dispatchFinalizer_def returns_iff split: prod.splits)
  qed (simp add: dispatchFinalizer_def)
qed

lemma cleanup_returns:
  assumes "conn_cleanup c = cln" and "ends_by N wire (tx_budget env)"
  shows "returns (cleanupRemoteStage b sc (cleanup_env env c) ep stage w)"
proof -
  have "script_post (cleanup_env env c) = cln" "ends_by N wire (script_ctx (cleanup_env env c))"
    using assms by (simp_all add: cleanup_env_def)
  note r = removes.script_returns [OF this]
  show ?thesis
  proof (cases "build_script sc ''cleanup.ps1'' [(''stage'', stage)]")
    case (Inr script)
    from r [of b "(256, 256)" "ps_request ep script" w] Inr show ?thesis
      by (auto simp: cleanupRemoteStage_def returns_iff)
  qed (simp add: cleanupRemoteStage_def)
qed

lemma control_returns:
  assumes "tx_post env = p" and "ends_by N wire (tx_ctx env)"
  shows "returns (transferControl b (control_env env c) ep script w)"
proof -
  have "script_post (control_env env c) = p" "ends_by N wire (script_ctx (control_env env c))"
    using assms by (simp_all add: control_env_def)
  note r = starts.script_returns [OF this]
  from r [of b "(int transferRecordMaxSize, 1024)" "ps_request ep script" w] show ?thesis
    by (auto simp: transferControl_def runWithCleanup_def returns_iff split: script_outcome.splits prod.splits)
qed

lemma upload_returns:
  assumes "tx_post env = p" "conn_receive c = rcv" "conn_cleanup c = cln"
    and "ends_by N wire (tx_ctx env)" and "ends_by N wire (tx_budget env)"
  shows "returns (upload_session b sc env c req len transferID stage script w)"
proof -
  note rets = stream_returns [OF assms(2,4)] check_returns [OF assms(2,4)] worker_returns [OF assms(2,4)]
    finalizer_returns [OF assms(1,4)] cleanup_returns [OF assms(3,5)]
  have "returns (upload_body b sc env c req len transferID stage n s w)" for n s w
    unfolding upload_body_def
    by (auto intro!: returns_bind rets split: sum.splits prod.splits option.splits)
  moreover have "returns (upload_deferred b sc env c req stage s st)" for s st
    unfolding upload_deferred_def
    by (auto simp: Let_def intro!: returns_bind rets split: prod.splits option.splits)
  ultimately show ?thesis unfolding upload_session_def
    by (auto simp: Let_def intro!: returns_bind split: sum.splits prod.splits)
qed

lemma download_returns:
  assumes "tx_post env = p" "conn_receive c = rcv" "conn_cleanup c = cln"
    and "ends_by N wire (tx_ctx env)" and "ends_by N wire (tx_budget env)"
  shows "returns (download_over b sc env c req transferID tempScript destination fs w)"
proof -
  have "returns (receive_sender b s env c w)" for s w
    unfolding receive_sender_def using receives.receive_returns assms(2,4) by blast
  then have "returns (run_sender b s env c w)" for s w
    unfolding run_sender_def by (auto intro!: returns_bind split: prod.splits option.splits)
  then have S: "returns (download_stream b s env c w)" for s w
    unfolding download_stream_def by (auto intro!: returns_bind split: prod.splits)
  have F: "returns (fetch_record b sc env c req transferID metadata w)" for metadata w
    unfolding fetch_record_def using control_returns [OF assms(1,4)]
    by (auto intro!: returns_bind split: sum.splits)
  have "returns (download_body b sc env c req transferID metadata destination stage s fs w)" for metadata stage s fs w
    unfolding download_body_def Let_def
    by (auto intro!: returns_bind S F split: option.splits sum.splits prod.splits)
  moreover have "returns (download_deferred b sc env c req metadata s r dn already w)" for metadata s r dn already w
    unfolding download_deferred_def Let_def
    by (auto intro!: returns_bind cleanup_returns [OF assms(3,5)] split: prod.splits option.splits)
  ultimately have "returns (download_session b sc env c req transferID metadata destination stage fs w)"
    for metadata stage fs w
    unfolding download_session_def by (auto intro!: returns_bind split: sum.splits prod.splits)
  then show ?thesis unfolding download_over_def Let_def
    by (auto intro!: returns_bind control_returns [OF assms(1,4)] split: sum.splits prod.splits)
qed

end

lemma ready_posters:
  assumes "persistentLanes net_host ep ctx w = (Inr (c, cl), w')"
  obtains i j k where "conn_receive c = persistent_post net_host j" and "conn_cleanup c = persistent_post net_host k"
    and "conn_send c = persistent_post net_host i"
  using lanes_ready [OF assms] by auto

subsection \<open>Properties\<close>

text \<open>C27: A transfer ends, in either direction: if the caller's context and the cleanup budgets end no
  later than when \<open>N\<close> messages have been sent, it returns a result, although its receive loops have no
  bound of their own.\<close>

theorem Transfer_returns:
  assumes "\<forall>w. N \<le> length (wire w) \<longrightarrow> tx_ctx uenv w \<noteq> None \<and> tx_budget uenv w \<noteq> None \<and>
      tx_ctx denv w \<noteq> None \<and> tx_budget denv w \<noteq> None"
  shows "\<exists>y. Transfer net_host b sc uenv denv req fs w = Some y"
proof -
  let ?p = "transport_post net_host (tr_endpoint req)" and ?l = "persistentLanes net_host (tr_endpoint req)"
  let ?u = "uenv\<lparr>tx_post := ?p, tx_lanes := ?l\<rparr>" and ?d = "denv\<lparr>tx_post := ?p, tx_lanes := ?l\<rparr>"
  have u: "tx_post ?u = ?p" "ends_by N wire (tx_ctx ?u)" "ends_by N wire (tx_budget ?u)"
    and d: "tx_post ?d = ?p" "ends_by N wire (tx_ctx ?d)" "ends_by N wire (tx_budget ?d)"
    using assms by (simp_all add: ends_by_def)
  have U: "returns (upload_session b sc ?u c req len transferID stage script w1)"
    if "?l ctx w = (Inr (c, cl), w1)" for ctx c cl w1 len transferID stage script
    by (rule ready_posters [OF that]) (rule winrm.upload_returns [OF u(1) _ _ u(2,3)])
  have D: "returns (download_over b sc ?d c req transferID script destination fs w1)"
    if "?l ctx w = (Inr (c, cl), w1)" for ctx c cl w1 transferID script destination
    by (rule ready_posters [OF that]) (rule winrm.download_returns [OF d(1) _ _ d(2,3)])
  have "returns (uploadLanes b sc ?u req w)"
    using U by (auto simp: uploadLanes_def split: sum.splits prod.splits)
  moreover have "returns (downloadLanes b sc ?d req fs w)"
    using D by (auto simp: downloadLanes_def Let_def split: sum.splits prod.splits option.splits)
  ultimately have "returns (Transfer net_host b sc uenv denv req fs w)"
    by (auto simp: Transfer_def transferLanes_def Let_def split: sum.splits)
  then show ?thesis by (simp add: returns_iff)
qed

end
