(* ===== verification/Transfer_Sample.thy ===== *)
theory Transfer_Sample
  imports File_Transfer
begin

text \<open>
  A server for transfers, and what each of its sessions does on it: it admits every login and answers
  each request with the next scripted reply.  The runs that the properties of \<open>Upload_Spec\<close>,
  \<open>Download_Spec\<close> and \<open>File_Transfer\<close> are applied to are composed of these.
\<close>

subsection \<open>Exchanges\<close>

definition sw :: "reply list \<Rightarrow> lane list \<Rightarrow> (nat \<times> bytes) list \<Rightarrow> reply list world" where
  "sw bs ls ms = \<lparr>net = bs, lanes = ls, sent = ms\<rparr>"

lemma sw_simps [simp]:
  "net (sw bs ls ms) = bs" "lanes (sw bs ls ms) = ls" "sent (sw bs ls ms) = ms"
  "wire (sw bs ls ms) = map snd ms"
  by (simp_all add: sw_def wire_def)

definition used_lane :: lane where
  "used_lane = ready_lane\<lparr>lane_closed := True, connected := False\<rparr>"

definition host :: bytes where "host = ''https://h:5986/wsman''"

text \<open>A reply of one word.\<close>

abbreviation say :: "bytes \<Rightarrow> reply" where "say b \<equiv> script_reply 200 [] b"

lemma sample_post:
  assumes "ctx (sw (say b # n) ls ms) = None" and "i < length ls" and "ls ! i = ready_lane" and "length b < 100"
  shows "persistent_post script_env i ctx m (sw (say b # n) ls ms) = (Inr b, sw n ls (ms @ [(i, m)]))"
proof -
  have "ls[i := ready_lane] = ls" using assms(3) by (metis list_update_id)
  moreover have "to_lower ''application/soap+xml'' = ''application/soap+xml''" by (simp add: lower_char_def)
  ultimately show ?thesis using assms
  by (simp add: persistent_post_def postLocked_def sendHTTP_def script_env_def ready_lane_def fresh_lane_def
      script_reply_def read_reply_def maxResponse_def has_prefix_def Let_def set_lane_def sw_def)
qed

lemma sample_login:
  "authenticateConnection script_env host (sw (script_handshake @ n) ls ms) =
     (Inr (length ls), sw n (ls @ [ready_lane]) ms)"
  by (simp add: authenticateConnection_def host_def script_lane sw_def)

lemma sample_transport:
  assumes "ctx (sw (say b # n) (ls @ [ready_lane]) ms) = None" and "length b < 100"
  shows "transport_post script_env host ctx m (sw (script_handshake @ say b # n) ls ms) =
     (Inr b, sw n (ls @ [used_lane]) (ms @ [(length ls, m)]))"
proof -
  have "persistent_post script_env (length ls) ctx m (sw (say b # n) (ls @ [ready_lane]) ms) =
      (Inr b, sw n (ls @ [ready_lane]) (ms @ [(length ls, m)]))"
    using assms by (intro sample_post) simp_all
  moreover have "close_lane (length ls) (sw n (ls @ [ready_lane]) ms') = sw n (ls @ [used_lane]) ms'" for ms'
    by (simp add: close_lane_def set_lane_def Let_def used_lane_def ready_lane_def fresh_lane_def sw_def)
  ultimately show ?thesis
    by (simp add: transport_post_def withHandshakeRetries_def retries.simps postOnce_def sample_login)
qed

lemma sample_lanes:
  "persistentLanes script_env host ctx (sw (script_handshake @ script_handshake @ script_handshake @ n) ls ms) =
     (Inr (\<lparr>conn_send = persistent_post script_env (length ls),
            conn_receive = persistent_post script_env (length ls + 1),
            conn_cleanup = persistent_post script_env (length ls + 2)\<rparr>,
           close_lanes [length ls, length ls + 1, length ls + 2]),
      sw n (ls @ [ready_lane, ready_lane, ready_lane]) ms)"
  by (simp add: persistentLanes_def numeral_3_eq_3 openPersistentWithRetries_def withHandshakeRetries_def
      retries.simps sample_login)

text \<open>The context has ended: nothing is sent.\<close>

lemma sample_ended:
  assumes "ctx (sw n ls ms) = Some e" and "i < length ls" and "ls ! i = ready_lane"
  shows "persistent_post script_env i ctx m (sw n ls ms) = (Inl (unsent (ctx_goerr e)), sw n ls ms)"
  using assms by (simp add: persistent_post_def postLocked_def ready_lane_def fresh_lane_def Let_def)

lemma sample_transport_ended:
  assumes "ctx (sw [] ls ms) = Some e"
  shows "transport_post script_env host ctx m (sw [] ls ms) =
    (Inl (unsent (HandshakeTransport ''NTLM discovery'' (NetError False (Sentinel ConnReset)))), sw [] ls ms)"
  using assms
  by (simp add: transport_post_def withHandshakeRetries_def retries.simps postOnce_def retry_again_def
      authenticateConnection_def authenticate_lane_def handshake_def sendHTTP_def script_env_def host_def
      has_prefix_def fresh_lane_def sw_def)

subsection \<open>Sessions\<close>

text \<open>A reply that ends the command with this code after this output; the code is 1 for the reply \<open>refused\<close>.\<close>

definition finished :: "bytes \<Rightarrow> bytes \<Rightarrow> response" where
  "finished code text = (script_response (wsShell @ ''ReceiveResponse''))\<lparr>received :=
     Some \<lparr>streams = [(''stdout'', b64_encode text)], state_value = done_state, state_exit = code\<rparr>\<rparr>"

definition reply_code :: "bytes \<Rightarrow> nat" where
  "reply_code b = (if b = ''refused'' then 1 else 0)"

lemma reply_codes [simp]: "reply_code ''refused'' = 1" "b \<noteq> ''refused'' \<Longrightarrow> reply_code b = 0"
  by (simp_all add: reply_code_def)

definition sample_decode :: "(bytes \<times> bytes) list \<Rightarrow> bytes \<Rightarrow> response option" where
  "sample_decode outs b = (case map_of outs b of Some text \<Rightarrow> Some (finished (dec (reply_code b)) text) | None \<Rightarrow> script_decode b)"

text \<open>The builders of \<open>script_builders\<close>; \<open>outs\<close> are the replies that end a command.\<close>

definition sample_builders :: "(bytes \<times> bytes) list \<Rightarrow> builders" where
  "sample_builders outs = script_builders\<lparr>encode_ps := (\<lambda>c. ''ps''), decode := sample_decode outs\<rparr>"

abbreviation plain_outs :: "(bytes \<times> bytes) list \<Rightarrow> bool" where
  "plain_outs outs \<equiv> \<forall>b \<in> {''created'', ''started'', ''accepted'', ''deleted''}. map_of outs b = None"

lemma sample_ps: "PowerShell (\<lambda>c. ''ps'') script = Inr x \<Longrightarrow> x = ''ps''"
  by (auto simp: PowerShell_def Let_def check_def replace_first_def str_cut_def has_prefix_def split: if_splits)

lemma sample_starts:
  assumes "plain_outs outs" and "is_ok (PowerShell (\<lambda>c. ''ps'') script)"
    and "p ctx ''create'' w = (Inr ''created'', w1)" and "p ctx ''command'' w1 = (Inr ''started'', w2)"
  shows "startSessionLanes (sample_builders outs) (ps_request host script) p cln fb ctx budget w =
    (Inr script_session, w2)"
proof -
  have "Command (\<lambda>c. ''ps'') script True = Inr ''ps''"
    using assms(2) sample_ps by (auto simp: Command_def is_ok_iff)
  moreover have "replace_all ''ps'' cdata_end cdata_split = ''ps''"
    by (simp add: replace_all_def cdata_end_def str_split_last)
  ultimately show ?thesis using assms(1,3,4)
    by (simp add: startSessionLanes_def sample_builders_def ps_request_def open_message_def Let_def host_def
        start_command_def script_ids script_defs sample_decode_def wsShell_def wsTransfer_def)
qed

lemma sample_sends:
  assumes "plain_outs outs" and "lane ctx ''send'' w = (Inr ''accepted'', w')"
  shows "session_send (sample_builders outs) s lane False ctx data eof w = (None, w')"
  using assms by (simp add: session_send_def sample_builders_def sample_decode_def script_defs)

lemma sample_code: "parse_uint32 (trim_space (dec (reply_code b))) = Some (reply_code b)"
proof -
  have "trim_space ''0'' = ''0''" "trim_space ''1'' = ''1''"
    using space_heads_ascii [of "CHR ''0''"] space_heads_ascii [of "CHR ''1''"]
    by (intro trim_space_id; simp add: ascii_spaces_def less_char_def)+
  moreover have "dec 0 = ''0''" "dec 1 = ''1''" by code_simp+
  ultimately show ?thesis
    by (simp add: reply_code_def parse_uint32_def digit_val_def less_eq_char_def)
qed

lemma sample_receives:
  assumes "map_of outs b = Some text" and "ctx w = None" and "lane ctx ''receive'' w = (Inr b, w')"
    and "ctx w' = None" and "out text u = (length text, None, u')" and "reply_code b = rc"
  shows "session_receive (sample_builders outs) s lane out err ctx early (w, u) = Some (Inr rc, w', u')"
proof -
  have "resp_receive out err (finished (dec (reply_code b)) text) u = (Inr (Some rc), u')"
    using assms(5) sample_code [of b] by (simp add: resp_receive_def finished_def script_response_def assms(6) [symmetric])
  then have "receive_poll (sample_builders outs) s lane out err ctx (w, u) = (Some (Inr rc), w', u')"
    using assms(1-3)
    by (simp add: receive_poll_def sample_builders_def script_builders_def parseResponse_def sample_decode_def)
      (simp add: finished_def script_response_def)
  then show ?thesis using assms(4) by (simp add: session_receive_def receiveLoop.simps)
qed

lemma sample_closes:
  assumes "plain_outs outs" and "cln ctx ''delete'' w = (Inr ''deleted'', w')"
  shows "closeWith (sample_builders outs) s cln cln fb False ctx True False w = (None, w')"
  using assms
  by (simp add: closeWith_def close_signal_def close_delete_def Let_def sample_builders_def sample_decode_def
      script_defs wsTransfer_def)

text \<open>A script over the standalone transport, deleted on lane \<open>k\<close>.\<close>

definition script_messages :: "nat \<Rightarrow> nat \<Rightarrow> (nat \<times> bytes) list" where
  "script_messages l k = [(l, ''create''), (l + 1, ''command''), (l + 2, ''send''), (l + 3, ''receive''), (k, ''delete'')]"

definition script_replies :: "bytes \<Rightarrow> reply list \<Rightarrow> reply list" where
  "script_replies b n = script_handshake @ say ''created'' # script_handshake @ say ''started'' #
     script_handshake @ say ''accepted'' # script_handshake @ say b # say ''deleted'' # n"

text \<open>A context that is open for the whole script.\<close>

definition open_ctx :: "reply list world ctx \<Rightarrow> nat \<Rightarrow> bool" where
  "open_ctx ctx m \<longleftrightarrow> (\<forall>n ls ms. length ms < m \<longrightarrow> ctx (sw n ls ms) = None)"

lemma open_None [simp]: "open_ctx (\<lambda>w. None) m"
  by (simp add: open_ctx_def)

lemma replicate_four: "replicate 4 x = [x, x, x, x]"
  by (simp add: numeral_eq_Suc)

lemma sample_script_run:
  assumes "plain_outs outs" and "is_ok (PowerShell (\<lambda>c. ''ps'') script)" and "map_of outs b = Some text"
    and env: "script_post env = transport_post script_env host" "script_cleanup env = persistent_post script_env k"
      "script_joined env"
    and ctx: "open_ctx (script_ctx env) (length ms + 6)" "open_ctx (script_budget env) (length ms + 6)"
    and "k < length ls" "ls ! k = ready_lane" "length b < 100" "int (length text) \<le> fst limits" "reply_code b = rc"
  shows "run_script (sample_builders outs) env limits (ps_request host script) (sw (script_replies b n) ls ms) =
    Some (Exited rc text [], None, sw n (ls @ replicate 4 used_lane) (ms @ script_messages (length ls) k))"
proof -
  note c = ctx(1) [unfolded open_ctx_def, rule_format] ctx(2) [unfolded open_ctx_def, rule_format]
  let ?p = "transport_post script_env host" and ?B = "sample_builders outs" and ?x = "script_ctx env"
  let ?l = "length ls"
  have 1: "?p ?x ''create'' (sw (script_replies b n) ls ms) = (Inr ''created'', sw
      (script_handshake @ say ''started'' # script_handshake @ say ''accepted'' # script_handshake @ say b # say ''deleted'' # n)
      (ls @ [used_lane]) (ms @ [(?l, ''create'')]))"
    unfolding script_replies_def by (rule sample_transport) (simp_all add: c)
  have 2: "?p ?x ''command'' (sw (script_handshake @ say ''started'' # script_handshake @ say ''accepted'' #
      script_handshake @ say b # say ''deleted'' # n) (ls @ [used_lane]) (ms @ [(?l, ''create'')])) =
      (Inr ''started'', sw (script_handshake @ say ''accepted'' # script_handshake @ say b # say ''deleted'' # n)
      (ls @ [used_lane, used_lane]) (ms @ [(?l, ''create''), (?l + 1, ''command'')]))"
    by (subst sample_transport) (simp_all add: c)
  have 3: "?p ?x ''send'' (sw (script_handshake @ say ''accepted'' # script_handshake @ say b # say ''deleted'' # n)
      (ls @ [used_lane, used_lane]) (ms @ [(?l, ''create''), (?l + 1, ''command'')])) =
      (Inr ''accepted'', sw (script_handshake @ say b # say ''deleted'' # n) (ls @ [used_lane, used_lane, used_lane])
      (ms @ [(?l, ''create''), (?l + 1, ''command''), (?l + 2, ''send'')]))"
    by (subst sample_transport) (simp_all add: c)
  have 4: "?p ?x ''receive'' (sw (script_handshake @ say b # say ''deleted'' # n) (ls @ [used_lane, used_lane, used_lane])
      (ms @ [(?l, ''create''), (?l + 1, ''command''), (?l + 2, ''send'')])) =
      (Inr b, sw (say ''deleted'' # n) (ls @ replicate 4 used_lane)
      (ms @ [(?l, ''create''), (?l + 1, ''command''), (?l + 2, ''send''), (?l + 3, ''receive'')]))"
    using assms(11) by (subst sample_transport) (simp_all add: c replicate_four)
  have 5: "persistent_post script_env k (script_budget env) ''delete'' (sw (say ''deleted'' # n) (ls @ replicate 4 used_lane)
      (ms @ [(?l, ''create''), (?l + 1, ''command''), (?l + 2, ''send''), (?l + 3, ''receive'')])) =
      (Inr ''deleted'', sw n (ls @ replicate 4 used_lane) (ms @ script_messages ?l k))"
    using assms(9,10) by (subst sample_post) (simp_all add: c script_messages_def nth_append)
  have w: "out_write (fst limits) text ([], []) = (length text, None, text, [])"
    using assms(12) by (simp add: out_write_def bounded_write_def)
  note start = sample_starts [where p = ?p, OF assms(1,2) 1 2]
    and send = sample_sends [where lane = ?p, OF assms(1) 3]
    and close = sample_closes [where cln = "persistent_post script_env k", OF assms(1) 5]
  have recv: "session_receive ?B s ?p (out_write (fst limits)) er ?x early
      (sw (script_handshake @ say b # say ''deleted'' # n) (ls @ [used_lane, used_lane, used_lane])
        (ms @ [(?l, ''create''), (?l + 1, ''command''), (?l + 2, ''send'')]), [], []) = Some (Inr rc,
      sw (say ''deleted'' # n) (ls @ replicate 4 used_lane)
      (ms @ [(?l, ''create''), (?l + 1, ''command''), (?l + 2, ''send''), (?l + 3, ''receive'')]), text, [])"
    for s er early
    by (rule sample_receives [where lane = ?p and ctx = ?x and out = "out_write (fst limits)", OF assms(3) _ 4 _ w assms(13)])
      (simp_all add: c)
  show ?thesis
    using start send recv close
    by (simp add: run_script_def env close_script_def)
qed

text \<open>A script over the cleanup lane alone.\<close>

definition lane_messages :: "nat \<Rightarrow> (nat \<times> bytes) list" where
  "lane_messages k = [(k, ''create''), (k, ''command''), (k, ''send''), (k, ''receive''), (k, ''delete'')]"

definition lane_replies :: "bytes \<Rightarrow> reply list" where
  "lane_replies b = [say ''created'', say ''started'', say ''accepted'', say b, say ''deleted'']"

lemma sample_lane_script:
  assumes "plain_outs outs" and "is_ok (PowerShell (\<lambda>c. ''ps'') script)" and "map_of outs b = Some text"
    and env: "script_post env = persistent_post script_env k" "script_cleanup env = persistent_post script_env k"
      "script_joined env" "script_ctx env = (\<lambda>w. None)" "script_budget env = (\<lambda>w. None)"
    and "k < length ls" "ls ! k = ready_lane" "length b < 100" "int (length text) \<le> fst limits" "reply_code b = 0"
  shows "run_script (sample_builders outs) env limits (ps_request host script) (sw (lane_replies b) ls ms) =
    Some (Exited 0 text [], None, sw [] ls (ms @ lane_messages k))"
proof -
  let ?p = "persistent_post script_env k" and ?x = "(\<lambda>w. None) :: reply list world ctx"
  have p: "?p ?x m (sw (say b' # n) ls ms) = (Inr b', sw n ls (ms @ [(k, m)]))" if "length b' < 100" for m b' n ms
    using assms that by (intro sample_post) simp_all
  have w: "out_write (fst limits) text ([], []) = (length text, None, text, [])"
    using assms(12) by (simp add: out_write_def bounded_write_def)
  have 1: "?p ?x ''create'' (sw (lane_replies b) ls ms) =
      (Inr ''created'', sw [say ''started'', say ''accepted'', say b, say ''deleted''] ls (ms @ [(k, ''create'')]))"
    by (simp add: lane_replies_def p)
  have 2: "?p ?x ''command'' (sw [say ''started'', say ''accepted'', say b, say ''deleted''] ls ms1) =
      (Inr ''started'', sw [say ''accepted'', say b, say ''deleted''] ls (ms1 @ [(k, ''command'')]))" for ms1
    by (simp add: p)
  have 3: "?p ?x ''send'' (sw [say ''accepted'', say b, say ''deleted''] ls ms2) =
      (Inr ''accepted'', sw [say b, say ''deleted''] ls (ms2 @ [(k, ''send'')]))" for ms2
    by (simp add: p)
  have 4: "?p ?x ''receive'' (sw [say b, say ''deleted''] ls ms3) = (Inr b, sw [say ''deleted''] ls (ms3 @ [(k, ''receive'')]))" for ms3
    using assms(11) by (simp add: p)
  have 5: "?p ?x ''delete'' (sw [say ''deleted''] ls ms4) = (Inr ''deleted'', sw [] ls (ms4 @ [(k, ''delete'')]))" for ms4
    by (simp add: p)
  note start = sample_starts [where p = ?p and ctx = ?x, OF assms(1,2) 1 2]
    and send = sample_sends [where lane = ?p and ctx = ?x, OF assms(1) 3]
    and close = sample_closes [where cln = ?p and ctx = ?x, OF assms(1) 5]
  have recv: "session_receive (sample_builders outs) s ?p (out_write (fst limits)) er ?x early (sw [say b, say ''deleted''] ls ms3, [], []) =
      Some (Inr 0, sw [say ''deleted''] ls (ms3 @ [(k, ''receive'')]), text, [])" for s er early ms3
    by (rule sample_receives [where lane = ?p and ctx = ?x and out = "out_write (fst limits)", OF assms(3) _ 4 _ w assms(13)]) simp_all
  show ?thesis
    using start send recv close by (simp add: run_script_def env close_script_def lane_messages_def)
qed

subsection \<open>Scripts\<close>

text \<open>Script files that allow every parameter of a transfer.\<close>

definition unwords :: "bytes list \<Rightarrow> bytes" where
  "unwords ws = concat (map (\<lambda>w. w @ '' '') ws)"

lemma fields_unwords:
  "\<forall>w \<in> set ws. w \<noteq> [] \<and> (\<forall>c \<in> set w. c \<notin> space_heads) \<Longrightarrow> str_fields (unwords ws) = ws"
proof (induction ws)
  case (Cons w ws)
  then have "fields_from [] (w @ CHR '' '' # unwords ws) = w # str_fields (unwords ws)"
    using fields_from_word [of w "[]" "CHR '' '' # unwords ws"]
    by (simp add: fields_from_space ascii_spaces_def str_fields_def)
  with Cons show ?case by (simp add: str_fields_def unwords_def)
qed (simp add: unwords_def str_fields_def fields_from_nil)

definition parameters :: "bytes list" where
  "parameters = [''id'', ''stage'', ''destination'', ''expected_sha256'', ''expected_bytes'', ''force'',
     ''source'', ''metadata'']"

definition sample_scripts :: scripts where
  "sample_scripts = \<lparr>script_files = (\<lambda>f. Inr (''# @allow '' @ unwords parameters @ CHR 0x0A # ''exit 0'')),
     script_encode = (\<lambda>s. ''ps'')\<rparr>"

definition ascii :: "bytes \<Rightarrow> bool" where
  "ascii s \<longleftrightarrow> (\<forall>c \<in> set s. byte_val c < 0x80)"

lemma ascii_simps [simp]: "ascii []" "ascii (c # s) \<longleftrightarrow> byte_val c < 0x80 \<and> ascii s"
  "ascii (s @ t) \<longleftrightarrow> ascii s \<and> ascii t"
  by (auto simp: ascii_def)

lemma ascii_valid: "ascii s \<Longrightarrow> valid_utf8 s"
  using ascii_utf8 by (simp add: ascii_def)

lemma ascii_b64: "ascii (b64_encode s)"
proof -
  have "\<forall>c \<in> b64_alphabet. byte_val c < 0x80" by (auto simp: b64_alphabet_def pad_def b64_char_def)
  with b64_encode_alphabet show ?thesis by (auto simp: ascii_def)
qed

lemma ascii_assignment: "ascii k \<Longrightarrow> ascii lit \<Longrightarrow> ascii (assignment k lit)"
  by (simp add: assignment_def quote_def)

lemma ascii_assignments:
  "\<forall>(k, v) \<in> set vs. ascii k \<and> ascii v \<Longrightarrow> \<exists>t. assignments vs = Inr t \<and> ascii t"
proof (induction vs rule: assignments.induct)
  case (2 k v vs)
  then have v: "ascii k" "ascii v" and "\<forall>(k, v) \<in> set vs. ascii k \<and> ascii v" by auto
  with 2(1) ascii_valid obtain t where "assignments vs = Inr t" "ascii t" by blast
  with v show ?case by (simp add: ascii_valid ascii_assignment ascii_b64)
qed simp

lemma str_index_line: "c \<notin> set a \<Longrightarrow> str_index (a @ c # b) [c] = Some (length a)"
  by (induction a) (auto simp: has_prefix_def)

lemma sample_load_any: "loadScript (script_files sample_scripts) file = Inr (parameters, ''exit 0'')"
proof -
  have "CHR 0x0A \<notin> set (''# @allow '' @ unwords parameters)"
    by (simp add: unwords_def parameters_def)
  from str_index_line [OF this]
  have "str_index (''# @allow '' @ unwords parameters @ CHR 0x0A # ''exit 0'') [CHR 0x0A] =
      Some (length (''# @allow '' @ unwords parameters))" by simp
  moreover have "str_fields (unwords parameters) = parameters"
  proof (rule fields_unwords)
    have "list_all (\<lambda>c. c < CHR 0x80 \<and> c \<notin> set ascii_spaces) (concat parameters)" by code_simp
    then have "\<forall>c \<in> set (concat parameters). c \<notin> space_heads"
      using space_heads_ascii by (auto simp: list_all_iff)
    moreover have "\<forall>w \<in> set parameters. w \<noteq> []" by (simp add: parameters_def)
    ultimately show "\<forall>w \<in> set parameters. w \<noteq> [] \<and> (\<forall>c \<in> set w. c \<notin> space_heads)" by auto
  qed
  ultimately show ?thesis
    by (simp add: loadScript_def sample_scripts_def Let_def has_prefix_def trim_prefix_def)
qed

lemma sample_build:
  assumes "\<forall>(k, v) \<in> set vals. k \<in> set parameters \<and> ascii v"
  shows "\<exists>script. build_script sample_scripts file vals = Inr script \<and> is_ok (PowerShell (\<lambda>c. ''ps'') script)"
proof -
  have "\<forall>k \<in> set parameters. ascii k" by (simp add: parameters_def)
  with assms have "\<forall>(k, v) \<in> set vals. ascii k \<and> ascii v" by fast
  then obtain t where t: "assignments vals = Inr t" "ascii t" using ascii_assignments by blast
  have "ascii (utf8_prelude @ t @ ''exit 0'')" using t(2) by (simp add: utf8_prelude_def quote_def)
  then have "valid_utf8 (utf8_prelude @ t @ ''exit 0'')" by (rule ascii_valid)
  then have ps: "is_ok (PowerShell (\<lambda>c. ''ps'') (utf8_prelude @ t @ ''exit 0''))"
    by (simp add: PowerShell_def Let_def replace_first_def str_cut_def has_prefix_def is_ok_iff)
  have l: "list_ex (\<lambda>(k, v). k \<notin> set parameters) vals = False" using assms by (auto simp: list_ex_iff)
  have "script_encode sample_scripts = (\<lambda>c. ''ps'')" by (simp add: sample_scripts_def)
  with ps l sample_load_any t(1) show ?thesis
    by (auto simp: build_script_def transferScript_def Let_def is_ok_iff)
qed

end
