(* ===== verification/Upload_Witness.thy ===== *)
theory Upload_Witness
  imports Transfer_Sample
begin

text \<open>
  Uploads on the scripted server of \<open>Transfer_Sample\<close>: one that commits, one whose finalizer cannot be
  started, and one whose lanes cannot be opened.
\<close>

subsection \<open>An upload\<close>

definition sample_request :: "bytes \<Rightarrow> transfer_request" where
  "sample_request direction = \<lparr>tr_endpoint = host, tr_direction = direction, tr_local = ''/home/a.bin'',
     tr_remote = ''C:/a.bin'', tr_force = False\<rparr>"

definition sample_content :: bytes where "sample_content = ''hello world!''"

lemma sample_content_length [simp]: "length sample_content = 12"
  by (simp add: sample_content_def)

definition sample_stage :: bytes where "sample_stage = ''C:'' @ CHR 0x5C # ''.winsh-stage-7f''"

definition sample_ctx :: "nat \<Rightarrow> reply list world ctx" where
  "sample_ctx k w = (if length (sent w) < k then None else Some Canceled)"

lemma sample_open [simp]: "m \<le> k \<Longrightarrow> open_ctx (sample_ctx k) m"
  by (simp add: open_ctx_def sample_ctx_def)

definition sample_transfer :: "nat \<Rightarrow> reply list world transfer_env" where
  "sample_transfer k = \<lparr>tx_post = transport_post script_env host, tx_lanes = persistentLanes script_env host,
     tx_ctx = sample_ctx k, tx_budget = (\<lambda>w. None), tx_early = False, tx_joined = True,
     tx_id = Inr ''7f'', tx_sha = (\<lambda>s. sample_hash)\<rparr>"

definition sample_upload :: "reply list world upload_env" where
  "sample_upload = transfer_env.extend (sample_transfer 100)
     \<lparr>up_source = Inr sample_content, up_reads = (\<lambda>n. [(sample_content, Some (Sentinel IoEOF))]),
      up_ended = (\<lambda>k. False), up_same = True, up_size = 12\<rparr>"

lemma upload_fields [simp]:
  "tx_post sample_upload = transport_post script_env host"
  "tx_lanes sample_upload = persistentLanes script_env host"
  "tx_ctx sample_upload = sample_ctx 100" "tx_budget sample_upload = (\<lambda>w. None)" "tx_early sample_upload = False"
  "tx_joined sample_upload" "tx_id sample_upload = Inr ''7f''" "tx_sha sample_upload = (\<lambda>s. sample_hash)"
  "up_source sample_upload = Inr sample_content"
  "up_reads sample_upload = (\<lambda>n. [(sample_content, Some (Sentinel IoEOF))])"
  "up_ended sample_upload = (\<lambda>k. False)" "up_same sample_upload" "up_size sample_upload = 12"
  by (simp_all add: sample_upload_def sample_transfer_def transfer_env.defs)

lemma request_fields [simp]:
  "tr_endpoint (sample_request d) = host" "tr_direction (sample_request d) = d"
  "tr_local (sample_request d) = ''/home/a.bin''" "tr_remote (sample_request d) = ''C:/a.bin''"
  "\<not> tr_force (sample_request d)"
  by (simp_all add: sample_request_def)

definition sample_record_text :: bytes where
  "sample_record_text = record_text ''7f'' 12 sample_hash"

definition upload_outs :: "(bytes \<times> bytes) list" where
  "upload_outs = [(''staged'', sample_record_text), (''acked'', ''OK: committed:7f''), (''refused'', ''ERR: exists''),
     (''clean'', ''OK: cleaned'')]"

abbreviation upload_builders :: builders where
  "upload_builders \<equiv> sample_builders upload_outs"

definition sample_conns :: "reply list world conns" where
  "sample_conns = \<lparr>conn_send = persistent_post script_env 0, conn_receive = persistent_post script_env 1,
     conn_cleanup = persistent_post script_env 2\<rparr>"

lemma sample_record_read:
  "readRecord sample_record_text None ''7f'' = Inr \<lparr>Version = 1, ID = ''7f'', Bytes = 12, SHA256 = sample_hash\<rparr>"
  "length sample_record_text \<le> 4096"
proof -
  have "length (record_text ''7f'' 12 sample_hash @ []) \<le> 4096" using sample_record(4) by simp
  from read_record_text [OF sample_record(1) _ sample_record(2,3) _ this]
  show "readRecord sample_record_text None ''7f'' = Inr \<lparr>Version = 1, ID = ''7f'', Bytes = 12, SHA256 = sample_hash\<rparr>"
    by (simp add: sample_record_text_def)
  show "length sample_record_text \<le> 4096" using sample_record(4) by (simp add: sample_record_text_def)
qed

text \<open>The replies of the receiver's session, and the messages of the whole upload.\<close>

definition receiver_replies :: "reply list \<Rightarrow> reply list" where
  "receiver_replies n = script_handshake @ say ''created'' # script_handshake @ say ''started'' #
     say ''accepted'' # say ''accepted'' # say ''staged'' # say ''deleted'' # n"

definition receiver_messages :: "(nat \<times> bytes) list" where
  "receiver_messages = [(3, ''create''), (4, ''command''), (0, ''send''), (0, ''send''), (1, ''receive''), (2, ''delete'')]"

lemma upload_plain: "plain_outs upload_outs" "map_of upload_outs ''staged'' = Some sample_record_text"
  "map_of upload_outs ''acked'' = Some ''OK: committed:7f''" "map_of upload_outs ''refused'' = Some ''ERR: exists''"
  "map_of upload_outs ''clean'' = Some ''OK: cleaned''"
  by (simp_all add: upload_outs_def)

abbreviation three :: "lane list" where "three \<equiv> [ready_lane, ready_lane, ready_lane]"

lemma ctx_open [simp]: "sample_ctx k (sw n ls ms) = (if length ms < k then None else Some Canceled)"
  by (simp add: sample_ctx_def)

definition receiver_lanes :: "lane list" where "receiver_lanes = three @ [used_lane, used_lane]"

lemma receiver_lanes_simps [simp]:
  "length receiver_lanes = 5" "receiver_lanes ! 0 = ready_lane" "receiver_lanes ! 1 = ready_lane"
  "receiver_lanes ! Suc 0 = ready_lane" "receiver_lanes ! 2 = ready_lane"
  by (simp_all add: receiver_lanes_def)

lemma sample_line:
  assumes "length ms < 100"
  shows "send_line upload_builders script_session sample_upload sample_conns line eof
      (sw (say ''accepted'' # n) receiver_lanes ms, None) =
    (None, sw n receiver_lanes (ms @ [(0, ''send'')]), None)"
proof -
  have "persistent_post script_env 0 (stream_ctx sample_upload None) ''send'' (sw (say ''accepted'' # n) receiver_lanes ms) =
      (Inr ''accepted'', sw n receiver_lanes (ms @ [(0, ''send'')]))"
    using assms by (intro sample_post) (simp_all add: stream_ctx_def)
  from sample_sends [where lane = "persistent_post script_env 0", OF upload_plain(1) this]
  show ?thesis by (simp add: send_line_def sample_conns_def)
qed

lemma sample_worker:
  assumes "length ms < 99"
  shows "run_worker upload_builders script_session sample_upload sample_conns
      (sw (say ''staged'' # n) receiver_lanes ms, None) =
    Some (sw n receiver_lanes (ms @ [(1, ''receive'')]), Some (Inr 0, sample_record_text, []))"
proof -
  have p: "persistent_post script_env 1 (sample_ctx 100) ''receive'' (sw (say ''staged'' # n) receiver_lanes ms) =
      (Inr ''staged'', sw n receiver_lanes (ms @ [(1, ''receive'')]))"
    using assms by (intro sample_post) simp_all
  have w: "out_write (int transferRecordMaxSize) sample_record_text ([], []) =
      (length sample_record_text, None, sample_record_text, [])"
    using sample_record_read(2) by (simp add: out_write_def bounded_write_def transferRecordMaxSize_def)
  have "session_receive upload_builders script_session (persistent_post script_env 1) (out_write (int transferRecordMaxSize))
      (err_write 1024) (sample_ctx 100) False (sw (say ''staged'' # n) receiver_lanes ms, [], []) =
      Some (Inr 0, sw n receiver_lanes (ms @ [(1, ''receive'')]), sample_record_text, [])"
    using assms
    by (intro sample_receives [where lane = "persistent_post script_env 1" and ctx = "sample_ctx 100"
        and out = "out_write (int transferRecordMaxSize)", OF upload_plain(2) _ p _ w]) simp_all
  then show ?thesis by (simp add: run_worker_def sample_conns_def)
qed

lemma sample_close:
  "close_stream upload_builders script_session sample_upload sample_conns (\<lambda>w. None) False
     (sw (say ''deleted'' # n) receiver_lanes ms) = (None, sw n receiver_lanes (ms @ [(2, ''delete'')]))"
proof -
  have "persistent_post script_env 2 (\<lambda>w. None) ''delete'' (sw (say ''deleted'' # n) receiver_lanes ms) =
      (Inr ''deleted'', sw n receiver_lanes (ms @ [(2, ''delete'')]))"
    by (intro sample_post) simp_all
  from sample_closes [where cln = "persistent_post script_env 2", OF upload_plain(1) this]
  show ?thesis by (simp add: close_stream_def sample_conns_def)
qed

lemma ascii_stage: "ascii sample_stage" "ascii ''C:/a.bin''" "ascii ''7f''" "ascii sample_hash"
  by (simp_all add: sample_stage_def sample_hash_def ascii_def)

lemma sample_finalizer_run:
  assumes "map_of upload_outs b = Some printed" and "length b < 100" and "length printed \<le> 256" and "reply_code b = rc"
    and "finalizer_verdict ''7f'' sample_hash 12 (Exited rc printed []) = (res, err)"
  shows "dispatchFinalizer upload_builders sample_scripts (control_env sample_upload sample_conns) host ''7f'' sample_stage
     ''C:/a.bin'' sample_hash 12 False (sw (script_replies b n) receiver_lanes receiver_messages) =
   Some ((res, err), sw n (receiver_lanes @ replicate 4 used_lane) (receiver_messages @ script_messages 5 2))"
proof -
  have "\<exists>script. build_script sample_scripts ''control.ps1''
      (finalizer_values ''7f'' sample_stage ''C:/a.bin'' sample_hash 12 False) = Inr script \<and>
      is_ok (PowerShell (\<lambda>c. ''ps'') script)"
    using ascii_stage by (intro sample_build) (simp add: finalizer_values_def parameters_def int_text_def dec_samples)
  then obtain script where s: "build_script sample_scripts ''control.ps1''
      (finalizer_values ''7f'' sample_stage ''C:/a.bin'' sample_hash 12 False) = Inr script"
    "is_ok (PowerShell (\<lambda>c. ''ps'') script)" by blast
  have "run_script upload_builders (control_env sample_upload sample_conns) (256, 1024) (ps_request host script)
      (sw (script_replies b n) receiver_lanes receiver_messages) =
      Some (Exited rc printed [], None, sw n (receiver_lanes @ replicate 4 used_lane)
        (receiver_messages @ script_messages (length receiver_lanes) 2))"
    by (rule sample_script_run [OF upload_plain(1) s(2) assms(1)])
       (use assms(2-4) in \<open>simp_all add: control_env_def sample_conns_def receiver_messages_def\<close>)
  then show ?thesis using s(1) assms(5) by (simp add: dispatchFinalizer_def join_close_def)
qed

lemma sample_finalizer:
  "dispatchFinalizer upload_builders sample_scripts (control_env sample_upload sample_conns) host ''7f'' sample_stage
     ''C:/a.bin'' sample_hash 12 False (sw (script_replies ''acked'' []) receiver_lanes receiver_messages) =
   Some (((uncommitted 12 sample_hash)\<lparr>committed := True\<rparr>, None),
     sw [] (receiver_lanes @ replicate 4 used_lane) (receiver_messages @ script_messages 5 2))"
proof -
  have "trim_space ''OK: committed:7f'' = ''OK: committed:7f''"
    using space_heads_ascii [of "CHR ''O''"] space_heads_ascii [of "CHR ''f''"]
    by (intro trim_space_id) (simp_all add: ascii_spaces_def less_char_def)
  then show ?thesis
    by (intro sample_finalizer_run [OF upload_plain(3), where rc = 0]) (simp_all add: finalizer_verdict_def finalizer_ack_def)
qed

lemma sample_refusing_finalizer:
  "dispatchFinalizer upload_builders sample_scripts (control_env sample_upload sample_conns) host ''7f'' sample_stage
     ''C:/a.bin'' sample_hash 12 False (sw (script_replies ''refused'' n) receiver_lanes receiver_messages) =
   Some ((uncommitted 12 sample_hash, Some (RemoteExit 1)),
     sw n (receiver_lanes @ replicate 4 used_lane) (receiver_messages @ script_messages 5 2))"
  by (intro sample_finalizer_run [OF upload_plain(4), where rc = 1]) (simp_all add: finalizer_verdict_def)

lemma sample_body:
  assumes "dispatchFinalizer upload_builders sample_scripts (control_env sample_upload sample_conns) host ''7f'' sample_stage
     ''C:/a.bin'' sample_hash 12 False (sw tail receiver_lanes receiver_messages) = Some (r, w')"
  shows "upload_body upload_builders sample_scripts sample_upload sample_conns (sample_request Upload_direction) 12 ''7f''
     sample_stage chunk script_session
     (sw (say ''accepted'' # say ''accepted'' # say ''staged'' # say ''deleted'' # tail)
       receiver_lanes [(3, ''create''), (4, ''command'')]) = Some (r, True, w')"
proof -
  have v: "verify_stage sample_upload 12 ''7f'' sample_content (Inr 0, sample_record_text, []) = Inr sample_hash"
    by (simp add: verify_stage_def sample_record_read)
  show ?thesis
    using assms
    by (simp add: upload_body_def upload_stream.simps check_worker_def stream_ctx_def sample_line
        v sample_worker sample_close receiver_messages_def sample_content_def [THEN arg_cong [of _ _ "\<lambda>x. x = []"]])
qed

lemma sample_chunk: "\<exists>n. chunkSize 153600 (Some (chunk_message upload_builders s)) = Inr n"
proof -
  have f: "chunk_message upload_builders s d = Inr ''send''" for d
    by (simp add: chunk_message_def sample_builders_def script_builders_def)
  obtain n where "chunk_search 153600 (chunk_message upload_builders s) 1 153600 = Inr n"
    using chunk_search_total [of "chunk_message upload_builders s" 153600 1 153600] f by blast
  then show ?thesis by (simp add: chunkSize_def f)
qed

definition upload_replies :: "reply list \<Rightarrow> reply list" where
  "upload_replies n = script_handshake @ script_handshake @ script_handshake @ script_handshake @ say ''created'' #
     script_handshake @ say ''started'' # say ''accepted'' # say ''accepted'' # say ''staged'' # say ''deleted'' # n"

text \<open>An upload whose finalizer and deferred function do this.\<close>

lemma sample_upload_run:
  assumes "dispatchFinalizer upload_builders sample_scripts (control_env sample_upload sample_conns) host ''7f'' sample_stage
     ''C:/a.bin'' sample_hash 12 False (sw n receiver_lanes receiver_messages) = Some (r, w1)"
    and "upload_deferred upload_builders sample_scripts sample_upload sample_conns (sample_request Upload_direction)
      sample_stage script_session (r, True, w1) = Some (r', w2)"
  shows "\<exists>w'. uploadLanes upload_builders sample_scripts sample_upload (sample_request Upload_direction)
     (sw (upload_replies n) [] []) = Some (r', w') \<and> wire w' = wire w2"
proof -
  have path: "validateRemotePath (''C:/a.bin'') = Inr ()" by code_simp
  have stage: "upload_stage_path ''C:/a.bin'' ''7f'' = Inr sample_stage" by code_simp
  have "\<exists>script. build_script sample_scripts ''upload.ps1'' [(''id'', ''7f''), (''stage'', sample_stage)] = Inr script \<and>
      is_ok (PowerShell (\<lambda>c. ''ps'') script)"
    using ascii_stage by (intro sample_build) (simp add: parameters_def)
  then obtain script where s: "build_script sample_scripts ''upload.ps1'' [(''id'', ''7f''), (''stage'', sample_stage)] = Inr script"
    "is_ok (PowerShell (\<lambda>c. ''ps'') script)" by blast
  let ?p = "transport_post script_env host" and ?r = "say ''accepted'' # say ''accepted'' # say ''staged'' #
    say ''deleted'' # n"
  have 1: "?p (sample_ctx 100) ''create'' (sw (script_handshake @ say ''created'' # script_handshake @ say ''started'' # ?r) three []) =
      (Inr ''created'', sw (script_handshake @ say ''started'' # ?r) (three @ [used_lane]) [(3, ''create'')])"
    by (subst sample_transport) simp_all
  have 2: "?p (sample_ctx 100) ''command'' (sw (script_handshake @ say ''started'' # ?r) (three @ [used_lane]) [(3, ''create'')]) =
      (Inr ''started'', sw ?r receiver_lanes [(3, ''create''), (4, ''command'')])"
    by (subst sample_transport) (simp_all add: receiver_lanes_def)
  note start = sample_starts [where p = ?p and ctx = "sample_ctx 100", OF upload_plain(1) s(2) 1 2]
  obtain k where k: "chunkSize 153600 (Some (chunk_message upload_builders script_session)) = Inr k"
    using sample_chunk by blast
  have c: "sample_conns = \<lparr>conn_send = persistent_post script_env 0, conn_receive = persistent_post script_env 1,
      conn_cleanup = persistent_post script_env 2\<rparr>" by (simp add: sample_conns_def)
  have "upload_session upload_builders sample_scripts sample_upload sample_conns (sample_request Upload_direction) 12
      ''7f'' sample_stage script
      (sw (script_handshake @ say ''created'' # script_handshake @ say ''started'' # ?r) three []) = Some (r', w2)"
    using start k assms(2) by (simp add: upload_session_def sample_body [OF assms(1)])
  moreover have "persistentLanes script_env host (sample_ctx 100) (sw (upload_replies n) [] []) =
      (Inr (sample_conns, close_lanes [0, 1, 2]),
        sw (script_handshake @ say ''created'' # script_handshake @ say ''started'' # ?r) three [])"
    using sample_lanes [of "sample_ctx 100" "script_handshake @ say ''created'' # script_handshake @ say ''started'' # ?r" "[]" "[]"]
    by (simp add: upload_replies_def c numeral_2_eq_2)
  ultimately show ?thesis by (simp add: uploadLanes_def path stage s(1))
qed

lemma sample_over: "over_winrm script_env (tr_endpoint (sample_request d)) sample_upload"
  by (simp add: over_winrm_def)

theorem upload_committed_witness:
  "\<exists>data fin out c w2 w3. finalizer_script sample_scripts sample_upload (sample_request Upload_direction) ''7f'' sample_stage data =
       Inr fin \<and> length data = 12 \<and> trim_space out = ''OK: committed:7f'' \<and>
     script_held (transfer_posts sample_upload c) upload_builders (ps_request host fin) 0 out [] True w2 w3"
proof -
  have "upload_deferred upload_builders sample_scripts sample_upload sample_conns (sample_request Upload_direction)
      sample_stage script_session ((((uncommitted 12 sample_hash)\<lparr>committed := True\<rparr>, None), True, w)) =
      Some (((uncommitted 12 sample_hash)\<lparr>committed := True\<rparr>, None), w)" for w
    by (simp add: upload_deferred_def close_stream_def closeWith_def)
  from sample_upload_run [OF sample_finalizer this] obtain w' where
    u: "uploadLanes upload_builders sample_scripts sample_upload (sample_request Upload_direction)
      (sw (upload_replies (script_replies ''acked'' [])) [] []) = Some (((uncommitted 12 sample_hash)\<lparr>committed := True\<rparr>, None), w')"
    by blast
  have "committed ((uncommitted 12 sample_hash)\<lparr>committed := True\<rparr>)" by simp
  from upload_committed [OF u sample_over this] obtain content transferID stage script data fin out c w2 w3 where
    a: "upload_setup sample_scripts sample_upload (sample_request Upload_direction) content transferID stage script"
      "finalizer_script sample_scripts sample_upload (sample_request Upload_direction) transferID stage data = Inr fin"
      "script_held (transfer_posts sample_upload c) upload_builders (ps_request host fin) 0 out [] True w2 w3"
      "trim_space out = ''OK: committed:'' @ transferID"
      "(uncommitted 12 sample_hash)\<lparr>committed := True\<rparr> = \<lparr>t_bytes = int (length data),
        t_sha = tx_sha sample_upload data, committed = True, artifacts = []\<rparr>"
    unfolding request_fields simp_thms by (elim exE conjE) (rule that; assumption)
  have "upload_stage_path ''C:/a.bin'' ''7f'' = Inr sample_stage" by code_simp
  with a(1) have t: "transferID = ''7f''" "stage = sample_stage" by (simp_all add: upload_setup_def)
  have "length data = 12" using arg_cong [OF a(5), of t_bytes] by (simp add: uncommitted_def)
  moreover have "trim_space out = ''OK: committed:7f''" using a(4) t(1) by simp
  ultimately show ?thesis using a(2,3) unfolding t by blast
qed

text \<open>The server is gone when the finalizer is to be started: nothing is committed, and the stage is
  reported.\<close>

definition login_lost :: goerr where
  "login_lost = HandshakeTransport ''NTLM discovery'' (NetError False (Sentinel ConnReset))"

lemma sample_no_login:
  "transport_post script_env host ctx m (sw [] ls ms) = (Inl (unsent login_lost), sw [] ls ms)"
proof -
  have "authenticateConnection script_env host (sw [] ls ms) = (Inl login_lost, sw [] ls ms)"
    by (simp add: authenticateConnection_def authenticate_lane_def handshake_def sendHTTP_def script_env_def host_def
        has_prefix_def fresh_lane_def sw_def login_lost_def)
  then have o: "postOnce script_env host ctx m (sw [] ls ms) = (Inl (unsent login_lost), sw [] ls ms)"
    by (simp add: postOnce_def)
  show ?thesis unfolding transport_post_def withHandshakeRetries_def
    by (subst retries.simps, simp add: o, subst retries.simps, simp add: o, subst retries.simps, simp add: o retry_again_def)
qed

lemma sample_lost_finalizer:
  "\<exists>e. dispatchFinalizer upload_builders sample_scripts (control_env sample_upload sample_conns) host ''7f'' sample_stage
     ''C:/a.bin'' sample_hash 12 False (sw [] receiver_lanes receiver_messages) =
   Some ((uncommitted 12 sample_hash, Some (FinalizationUnknown e)), sw [] receiver_lanes receiver_messages)"
proof -
  obtain script where s: "build_script sample_scripts ''control.ps1''
      (finalizer_values ''7f'' sample_stage ''C:/a.bin'' sample_hash 12 False) = Inr script"
    "is_ok (PowerShell (\<lambda>c. ''ps'') script)"
    using sample_build [of "finalizer_values ''7f'' sample_stage ''C:/a.bin'' sample_hash 12 False" "''control.ps1''"] ascii_stage
    by (auto simp: finalizer_values_def parameters_def int_text_def dec_samples)
  have "Command (\<lambda>c. ''ps'') script True = Inr ''ps''"
    using s(2) sample_ps by (auto simp: Command_def is_ok_iff)
  then have "startSessionLanes upload_builders (ps_request host script) (transport_post script_env host) cln fb ctx budget
      (sw [] receiver_lanes receiver_messages) =
      (Inl (notStarted (unsent login_lost)), sw [] receiver_lanes receiver_messages)" for cln fb ctx budget
    by (simp add: startSessionLanes_def sample_builders_def ps_request_def open_message_def Let_def script_defs
        sample_no_login)
  then show ?thesis using s(1)
    by (simp add: dispatchFinalizer_def run_script_def control_env_def finalizer_verdict_def join_close_def)
qed

theorem upload_stage_accounted_witness:
  "\<exists>script P C. build_script sample_scripts ''upload.ps1'' [(''id'', ''7f''), (''stage'', sample_stage)] = Inr script \<and>
     map snd receiver_messages = P @ C \<and> stage_settled upload_builders sample_scripts host sample_stage C [sample_stage]"
proof -
  let ?res = "(uncommitted 12 sample_hash)\<lparr>artifacts := [sample_stage]\<rparr>"
  obtain e where f: "dispatchFinalizer upload_builders sample_scripts (control_env sample_upload sample_conns) host ''7f'' sample_stage
     ''C:/a.bin'' sample_hash 12 False (sw [] receiver_lanes receiver_messages) =
   Some ((uncommitted 12 sample_hash, Some (FinalizationUnknown e)), sw [] receiver_lanes receiver_messages)"
    using sample_lost_finalizer by blast
  have "upload_deferred upload_builders sample_scripts sample_upload sample_conns (sample_request Upload_direction)
      sample_stage script_session ((uncommitted 12 sample_hash, Some (FinalizationUnknown e)), True, w) =
      Some ((?res, Some (FinalizationUnknown e)), w)" for w
    by (simp add: upload_deferred_def close_stream_def closeWith_def uncommitted_def no_result_def)
  from sample_upload_run [OF f this] obtain w' where
    u: "uploadLanes upload_builders sample_scripts sample_upload (sample_request Upload_direction)
      (sw (upload_replies []) [] []) = Some ((?res, Some (FinalizationUnknown e)), w')"
    and w: "wire w' = map snd receiver_messages" by auto
  have "\<not> committed ?res" by (simp add: uncommitted_def no_result_def)
  have art: "artifacts ?res = [sample_stage]" by simp
  from upload_stage_accounted [OF u sample_over \<open>\<not> committed ?res\<close>] obtain content transferID stage script P C where
    a: "upload_setup sample_scripts sample_upload (sample_request Upload_direction) content transferID stage script"
      "wire w' = P @ C" "stage_settled upload_builders sample_scripts host stage C [sample_stage]"
    unfolding art sw_simps request_fields list.map append_Nil by (elim disjE exE conjE) (simp, simp, (rule that; assumption)+)
  have "upload_stage_path ''C:/a.bin'' ''7f'' = Inr sample_stage" by code_simp
  with a(1) have "build_script sample_scripts ''upload.ps1'' [(''id'', ''7f''), (''stage'', sample_stage)] = Inr script"
    "stage = sample_stage" by (simp_all add: upload_setup_def)
  with a w show ?thesis by metis
qed

text \<open>The lanes cannot be opened.\<close>

lemma sample_refused:
  "uploadLanes upload_builders sample_scripts sample_upload (sample_request Upload_direction) (sw [] [] []) =
     Some ((no_result, Some (Wrap ''authenticate data connections'' login_lost)), sw [] [] [])"
proof -
  have a: "authenticateConnection script_env host (sw [] [] []) = (Inl login_lost, sw [] [] [])"
    by (simp add: authenticateConnection_def authenticate_lane_def handshake_def sendHTTP_def script_env_def host_def
        has_prefix_def fresh_lane_def sw_def login_lost_def)
  have "retries (sample_ctx 100) (authenticateConnection script_env host) 0 (sw [] [] []) = (Inl login_lost, sw [] [] [])"
    by (subst retries.simps, simp add: a, subst retries.simps, simp add: a, subst retries.simps, simp add: a retry_again_def)
  then have "persistentLanes script_env host (sample_ctx 100) (sw [] [] []) = (Inl login_lost, sw [] [] [])"
    by (simp add: persistentLanes_def numeral_3_eq_3 openPersistentWithRetries_def withHandshakeRetries_def close_lanes_def)
  moreover have "validateRemotePath (''C:/a.bin'') = Inr ()" "upload_stage_path ''C:/a.bin'' ''7f'' = Inr sample_stage"
    by code_simp+
  moreover obtain script where "build_script sample_scripts ''upload.ps1'' [(''id'', ''7f''), (''stage'', sample_stage)] = Inr script"
    using sample_build [of "[(''id'', ''7f''), (''stage'', sample_stage)]" "''upload.ps1''"] ascii_stage
    by (auto simp: parameters_def)
  ultimately show ?thesis by (simp add: uploadLanes_def)
qed

text \<open>An upload that the finalizer refuses with code 1, after which the stage is removed.\<close>

lemma sample_stage_removal:
  "cleanupRemoteStage upload_builders sample_scripts (cleanup_env sample_upload sample_conns) host sample_stage
     (sw (lane_replies ''clean'') (receiver_lanes @ replicate 4 used_lane) ms) =
   Some (None, sw [] (receiver_lanes @ replicate 4 used_lane) (ms @ lane_messages 2))"
proof -
  obtain script where s: "build_script sample_scripts ''cleanup.ps1'' [(''stage'', sample_stage)] = Inr script"
    "is_ok (PowerShell (\<lambda>c. ''ps'') script)"
    using sample_build [of "[(''stage'', sample_stage)]" "''cleanup.ps1''"] ascii_stage by (auto simp: parameters_def)
  have "run_script upload_builders (cleanup_env sample_upload sample_conns) (256, 256)
      (ps_request host script) (sw (lane_replies ''clean'') (receiver_lanes @ replicate 4 used_lane) ms) =
      Some (Exited 0 ''OK: cleaned'' [], None, sw [] (receiver_lanes @ replicate 4 used_lane) (ms @ lane_messages 2))"
    using sample_lane_script [OF upload_plain(1) s(2) upload_plain(5), of "cleanup_env sample_upload sample_conns"
        2 "receiver_lanes @ replicate 4 used_lane" "(256, 256)" ms]
    by (simp add: cleanup_env_def control_env_def sample_conns_def nth_append)
  moreover have "trim_space ''OK: cleaned'' = ''OK: cleaned''"
    using space_heads_ascii [of "CHR ''O''"] space_heads_ascii [of "CHR ''d''"]
    by (intro trim_space_id) (simp_all add: ascii_spaces_def less_char_def)
  ultimately show ?thesis using s(1) by (simp add: cleanupRemoteStage_def cleanup_verdict_def join_close_def)
qed

lemma sample_refusal:
  "\<exists>w'. uploadLanes upload_builders sample_scripts sample_upload (sample_request Upload_direction)
     (sw (upload_replies (script_replies ''refused'' (lane_replies ''clean''))) [] []) =
     Some ((uncommitted 12 sample_hash, Some (RemoteExit 1)), w') \<and> count_list (wire w') ''create'' = 3"
proof -
  let ?l = "receiver_lanes @ replicate 4 used_lane" and ?ms = "receiver_messages @ script_messages 5 2"
  have "upload_deferred upload_builders sample_scripts sample_upload sample_conns (sample_request Upload_direction)
      sample_stage script_session ((uncommitted 12 sample_hash, Some (RemoteExit 1)), True, sw (lane_replies ''clean'') ?l ?ms) =
      Some ((uncommitted 12 sample_hash, Some (RemoteExit 1)), sw [] ?l (?ms @ lane_messages 2))"
    using sample_stage_removal [of ?ms]
    by (simp add: upload_deferred_def close_stream_def closeWith_def uncommitted_def no_result_def Let_def is_finalization_unknown_def)
  from sample_upload_run [OF sample_refusing_finalizer this] obtain w' where
    "uploadLanes upload_builders sample_scripts sample_upload (sample_request Upload_direction)
     (sw (upload_replies (script_replies ''refused'' (lane_replies ''clean''))) [] []) =
     Some ((uncommitted 12 sample_hash, Some (RemoteExit 1)), w')" "wire w' = map snd (?ms @ lane_messages 2)" by auto
  then show ?thesis by (auto simp: receiver_messages_def script_messages_def lane_messages_def)
qed

text \<open>The receiver and the cleanup create at most one shell each.\<close>

lemma count_opt: "opt_msg m xs \<Longrightarrow> count_list xs y \<le> 1" "opt_msg m xs \<Longrightarrow> m \<noteq> y \<Longrightarrow> count_list xs y = 0"
  by (auto simp: opt_msg_def)

lemma sample_requests [simp]:
  "command_body upload_builders rq shell = ''command''" "chunk_text upload_builders s d = ''send''"
  "eof_text upload_builders s = ''send''" "poll_text upload_builders s = ''receive''"
  "send_request upload_builders ep shell cid d eof = ''send''" "output_request upload_builders ep shell cid = ''receive''"
  "signal_request upload_builders ep shell cid = ''signal''" "delete_request upload_builders ep shell = ''delete''"
  by (simp_all add: command_body_def chunk_text_def eof_text_def poll_text_def sample_builders_def script_builders_def)

lemma sample_receiver_creates: "receiver_part upload_builders ep script R \<Longrightarrow> count_list R ''create'' \<le> 1"
proof -
  assume "receiver_part upload_builders ep script R"
  then obtain s cs eof c x n z d where r: "R = c @ x @ z @ d" "opt_msg (create_body upload_builders (ps_request ep script)) c"
    "opt_msg (command_body upload_builders (ps_request ep script) (shellID s)) x"
    "z \<in> shuffles (map (chunk_text upload_builders s) cs @ eof) (replicate n (poll_text upload_builders s))"
    "opt_msg (eof_text upload_builders s) eof" "opt_msg (delete_request upload_builders (endpoint s) (shellID s)) d"
    unfolding receiver_part_def receiver_talk_def by (elim exE conjE) (rule that; assumption)
  have "set z \<subseteq> {''send'', ''receive''}" using set_shuffles [OF r(4)] r(5) by (auto simp: opt_msg_def)
  then have "count_list z ''create'' = 0" by (auto simp: count_list_0_iff)
  with count_opt(1) [OF r(2), of "''create''"] count_opt(2) [OF r(3), of "''create''"] count_opt(2) [OF r(6), of "''create''"]
  show ?thesis by (simp add: r(1))
qed

lemma sample_cleanup_creates: "cleanup_talk upload_builders sc ep stage C \<Longrightarrow> count_list C ''create'' \<le> 1"
proof (cases "C = []")
  case False
  assume "cleanup_talk upload_builders sc ep stage C"
  with False obtain script shell cid t where t: "transcript_ok upload_builders (ps_request ep script) shell cid t"
    "C = transcript_msgs upload_builders (ps_request ep script) shell cid t" unfolding cleanup_talk_def by blast
  from t(1) have o: "opt_msg (create_body upload_builders (ps_request ep script)) (t_create t)" "opt_msg ''command'' (t_command t)"
    "opt_msg ''send'' (t_send t)" "opt_msg ''signal'' (t_signal t)" "opt_msg ''delete'' (t_delete t)"
    unfolding transcript_ok_def sample_requests by blast+
  have "count_list (t_create t) ''create'' \<le> 1" "count_list (t_command t) ''create'' = 0" "count_list (t_send t) ''create'' = 0"
    "count_list (t_signal t) ''create'' = 0" "count_list (t_delete t) ''create'' = 0"
    by (rule count_opt(1) [OF o(1)], rule count_opt(2) [OF o(2)], simp, rule count_opt(2) [OF o(3)], simp,
        rule count_opt(2) [OF o(4)], simp, rule count_opt(2) [OF o(5)], simp)
  moreover have "count_list (replicate (t_polls t) ''receive'') ''create'' = 0" by (simp add: count_list_0_iff)
  ultimately show ?thesis by (simp add: t(2) transcript_msgs_def)
qed simp

theorem upload_not_committed_witness:
  "\<exists>script data fin out er c w1 w2 w3. stage_confirmed (transfer_posts sample_upload c) upload_builders sample_upload
       (sample_request Upload_direction) 12 ''7f'' script data w1 w2 \<and> length data = 12 \<and>
     finalizer_script sample_scripts sample_upload (sample_request Upload_direction) ''7f'' sample_stage data = Inr fin \<and>
     script_held (transfer_posts sample_upload c) upload_builders (ps_request host fin) 1 out er False w2 w3"
proof -
  from sample_refusal obtain w' where
    u: "uploadLanes upload_builders sample_scripts sample_upload (sample_request Upload_direction)
     (sw (upload_replies (script_replies ''refused'' (lane_replies ''clean''))) [] []) =
     Some ((uncommitted 12 sample_hash, Some (RemoteExit 1)), w')" and w: "count_list (wire w') ''create'' = 3" by blast
  have "\<not> committed (uncommitted 12 sample_hash)" by (simp add: uncommitted_def no_result_def)
  from upload_not_committed [OF u sample_over this]
  consider (none) "wire w' = []"
    | (part) stage script R C where "receiver_part upload_builders host script R"
      "cleanup_talk upload_builders sample_scripts host stage C" "wire w' = [] @ R @ C"
    | (unknown) e where "Some (RemoteExit 1) = Some e" "is_finalization_unknown e"
    | (refused) e content transferID stage script data fin c w1 w2 w3 rc out er where "Some (RemoteExit 1) = Some e"
      "upload_setup sample_scripts sample_upload (sample_request Upload_direction) content transferID stage script"
      "stage_confirmed (transfer_posts sample_upload c) upload_builders sample_upload (sample_request Upload_direction)
         (length content) transferID script data w1 w2"
      "finalizer_script sample_scripts sample_upload (sample_request Upload_direction) transferID stage data = Inr fin"
      "as_remote_exit e = Some rc"
      "script_held (transfer_posts sample_upload c) upload_builders (ps_request host fin) rc out er False w2 w3"
    unfolding sw_simps request_fields list.map
    apply (elim exE conjE disjE)
    apply (rule that(1), assumption)
    apply (rule that(2); assumption)
    apply (rule that(3); assumption)
    apply (rule that(4); assumption) done
  then show ?thesis
  proof cases
    case none
    with w show ?thesis by simp
  next
    case part
    from sample_receiver_creates [OF part(1)] sample_cleanup_creates [OF part(2)] w show ?thesis by (simp add: part(3))
  next
    case unknown
    then show ?thesis by (auto simp: is_finalization_unknown_def)
  next
    case refused
    have "upload_stage_path ''C:/a.bin'' ''7f'' = Inr sample_stage" by code_simp
    with refused(2) have t: "transferID = ''7f''" "stage = sample_stage" "content = sample_content"
      by (simp_all add: upload_setup_def)
    have "length data = 12" using refused(3) by (auto simp: stage_confirmed_def stage_verified_def t)
    moreover have "rc = 1" using refused(1,5) by auto
    ultimately show ?thesis using refused(3,4,6) unfolding t sample_content_length by blast
  qed
qed

end
