(* ===== verification/Download_Witness.thy ===== *)
theory Download_Witness
  imports Upload_Witness
begin

text \<open>
  Downloads on the scripted server of \<open>Transfer_Sample\<close>: one that commits, and one that is cancelled
  after its sender was started.
\<close>

subsection \<open>The environment\<close>

definition download_outs :: "(bytes \<times> bytes) list" where
  "download_outs = [(''temp'', ''C:/T''), (''lines'', encoded_lines [sample_content]),
     (''record'', sample_record_text), (''clean'', ''OK: cleaned'')]"

abbreviation download_builders :: builders where
  "download_builders \<equiv> sample_builders download_outs"

lemma download_plain: "plain_outs download_outs" "map_of download_outs ''temp'' = Some ''C:/T''"
  "map_of download_outs ''lines'' = Some (encoded_lines [sample_content])"
  "map_of download_outs ''record'' = Some sample_record_text" "map_of download_outs ''clean'' = Some ''OK: cleaned''"
  by (simp_all add: download_outs_def)

definition sample_download :: "nat \<Rightarrow> reply list world download_env" where
  "sample_download k = transfer_env.extend (sample_transfer k)
     \<lparr>dl_abs = Inr, dl_eval = Inr, dl_lstat = None, dl_rand = (\<lambda>i. Some ''abcdefgh''), dl_create = (\<lambda>i. None),
      dl_first = False, dl_pipe = (\<lambda>cs p. None), dl_disk = (\<lambda>c p. None), dl_sync = None, dl_read = (\<lambda>_. None),
      dl_close = None, dl_commit = None, dl_remove = None\<rparr>"

lemma download_fields [simp]:
  "tx_post (sample_download k) = transport_post script_env host"
  "tx_lanes (sample_download k) = persistentLanes script_env host"
  "tx_ctx (sample_download k) = sample_ctx k" "tx_budget (sample_download k) = (\<lambda>w. None)"
  "tx_early (sample_download k) = False" "tx_joined (sample_download k)" "tx_id (sample_download k) = Inr ''7f''"
  "tx_sha (sample_download k) = (\<lambda>s. sample_hash)"
  "dl_abs (sample_download k) = Inr" "dl_eval (sample_download k) = Inr" "dl_lstat (sample_download k) = None"
  "dl_rand (sample_download k) = (\<lambda>i. Some ''abcdefgh'')" "dl_create (sample_download k) = (\<lambda>i. None)"
  "dl_first (sample_download k) = False" "dl_pipe (sample_download k) = (\<lambda>cs p. None)"
  "dl_disk (sample_download k) = (\<lambda>c p. None)" "dl_sync (sample_download k) = None"
  "dl_read (sample_download k) = (\<lambda>_. None)" "dl_close (sample_download k) = None" "dl_commit (sample_download k) = None"
  "dl_remove (sample_download k) = None"
  by (simp_all add: sample_download_def sample_transfer_def transfer_env.defs)

definition sample_files :: file_system where
  "sample_files p = (if p = ''/home'' then Some Directory else None)"

definition local_stage :: bytes where
  "local_stage = path_join ''/home'' (stage_file_name ''abcdefgh'')"

definition sample_metadata :: bytes where
  "sample_metadata = download_metadata_path ''C:/T'' ''7f''"

lemma sample_paths:
  "validateRemotePath (''C:/a.bin'') = Inr ()" "is_ok (validateRemotePath sample_metadata)"
  "path_dir (''/home/a.bin'') = ''/home''" "path_join ''/home'' (path_base (''/home/a.bin'')) = ''/home/a.bin''"
  "local_stage \<noteq> ''/home/a.bin''" "local_stage \<noteq> ''/home''" "local_stage \<noteq> []"
  by code_simp+

lemma ascii_metadata: "ascii sample_metadata"
proof -
  have "trim_right ''C:/T'' seps = ''C:/T''" by code_simp
  then show ?thesis by (simp add: sample_metadata_def download_metadata_path_def child_path_def)
qed

lemma trim_temp: "trim_space ''C:/T'' = ''C:/T''"
  using space_heads_ascii [of "CHR ''C''"] space_heads_ascii [of "CHR ''T''"]
  by (intro trim_space_id) (simp_all add: ascii_spaces_def less_char_def)

subsection \<open>Up to the started sender\<close>

definition temp_lanes :: "lane list" where "temp_lanes = three @ replicate 4 used_lane"
definition sender_lanes :: "lane list" where "sender_lanes = temp_lanes @ [used_lane, used_lane]"

lemma lanes_simps [simp]:
  "length temp_lanes = 7" "length sender_lanes = 9" "sender_lanes ! 0 = ready_lane" "sender_lanes ! 1 = ready_lane"
  "sender_lanes ! Suc 0 = ready_lane" "sender_lanes ! 2 = ready_lane"
  by (simp_all add: temp_lanes_def sender_lanes_def)

definition started_messages :: "(nat \<times> bytes) list" where
  "started_messages = script_messages 3 2 @ [(7, ''create''), (8, ''command'')]"

lemma started_length [simp]: "length started_messages = 7"
  by (simp add: started_messages_def script_messages_def)

lemma conns_fields [simp]:
  "conn_send sample_conns = persistent_post script_env 0" "conn_receive sample_conns = persistent_post script_env 1"
  "conn_cleanup sample_conns = persistent_post script_env 2"
  by (simp_all add: sample_conns_def)

lemma sample_temp:
  assumes "8 \<le> k" and "is_ok (PowerShell (\<lambda>c. ''ps'') script)"
  shows "transferControl download_builders (control_env (sample_download k) sample_conns) host script
      (sw (script_replies ''temp'' n) three []) = Some (Inr (''C:/T'', 0), sw n temp_lanes (script_messages 3 2))"
proof -
  have "run_script download_builders (control_env (sample_download k) sample_conns) (int transferRecordMaxSize, 1024)
      (ps_request host script) (sw (script_replies ''temp'' n) three []) =
      Some (Exited 0 ''C:/T'' [], None, sw n (three @ replicate 4 used_lane) ([] @ script_messages (length three) 2))"
    by (rule sample_script_run [OF download_plain(1) assms(2) download_plain(2)])
       (use assms(1) in \<open>simp_all add: control_env_def transferRecordMaxSize_def\<close>)
  then show ?thesis
    by (simp add: transferControl_def runWithCleanup_def temp_lanes_def numeral_3_eq_3)
qed

lemma sample_sender:
  assumes "8 \<le> k" and "is_ok (PowerShell (\<lambda>c. ''ps'') script)"
  shows "startSessionLanes download_builders (ps_request host script) (transport_post script_env host) cln fb
      (sample_ctx k) budget
      (sw (script_handshake @ say ''created'' # script_handshake @ say ''started'' # n) temp_lanes (script_messages 3 2)) =
    (Inr script_session, sw n sender_lanes started_messages)"
proof -
  let ?p = "transport_post script_env host"
  have 1: "?p (sample_ctx k) ''create'' (sw (script_handshake @ say ''created'' # script_handshake @ say ''started'' # n)
      temp_lanes (script_messages 3 2)) = (Inr ''created'', sw (script_handshake @ say ''started'' # n)
      (temp_lanes @ [used_lane]) (script_messages 3 2 @ [(7, ''create'')]))"
    using assms(1) by (subst sample_transport) (simp_all add: script_messages_def)
  have 2: "?p (sample_ctx k) ''command'' (sw (script_handshake @ say ''started'' # n) (temp_lanes @ [used_lane])
      (script_messages 3 2 @ [(7, ''create'')])) = (Inr ''started'', sw n sender_lanes started_messages)"
    using assms(1)
    by (subst sample_transport) (simp_all add: script_messages_def sender_lanes_def started_messages_def)
  show ?thesis by (rule sample_starts [where p = ?p and ctx = "sample_ctx k", OF download_plain(1) assms(2) 1 2])
qed

lemma sample_end_of_input:
  assumes "8 \<le> k"
  shows "session_send download_builders script_session (persistent_post script_env 0) False (sample_ctx k) [] True
      (sw (say ''accepted'' # n) sender_lanes started_messages) =
    (None, sw n sender_lanes (started_messages @ [(0, ''send'')]))"
proof -
  have "persistent_post script_env 0 (sample_ctx k) ''send'' (sw (say ''accepted'' # n) sender_lanes started_messages) =
      (Inr ''accepted'', sw n sender_lanes (started_messages @ [(0, ''send'')]))"
    using assms by (intro sample_post) simp_all
  from sample_sends [where lane = "persistent_post script_env 0", OF download_plain(1) this] show ?thesis .
qed

text \<open>A download whose session does this.\<close>

lemma sample_build_ok:
  assumes "\<forall>(k, v) \<in> set vals. k \<in> set parameters \<and> ascii v"
  obtains script where "build_script sample_scripts file vals = Inr script" and "is_ok (PowerShell (\<lambda>c. ''ps'') script)"
  using sample_build [OF assms] by blast

abbreviation staged_files :: file_system where
  "staged_files \<equiv> sample_files(local_stage \<mapsto> Regular [])"

definition download_replies :: "reply list \<Rightarrow> reply list" where
  "download_replies n = script_handshake @ script_handshake @ script_handshake @ script_replies ''temp'' n"

lemma sample_download_run:
  assumes "8 \<le> k"
    and "download_session download_builders sample_scripts (sample_download k) sample_conns (sample_request Download_direction)
      ''7f'' sample_metadata ''/home/a.bin'' local_stage staged_files (sw n temp_lanes (script_messages 3 2)) = Some (r, fs', w1)"
  shows "\<exists>w'. downloadLanes download_builders sample_scripts (sample_download k) (sample_request Download_direction)
      sample_files (sw (download_replies n) [] []) = Some (r, fs'(local_stage := None), w') \<and> wire w' = wire w1"
proof -
  obtain script where s: "build_script sample_scripts ''temp.ps1'' [] = Inr script" "is_ok (PowerShell (\<lambda>c. ''ps'') script)"
    by (rule sample_build_ok [of "[]" "''temp.ps1''"]) simp_all
  have stage: "createStage (\<lambda>i. Some ''abcdefgh'') (\<lambda>i. None) ''/home/a.bin'' sample_files = (Inr local_stage, staged_files)"
  proof -
    have free: "sample_files local_stage = None" using sample_paths(6) by (simp add: sample_files_def)
    have eight: "(8 :: nat) = Suc 7" by simp
    have "create_attempts ''/home'' (\<lambda>i. Some ''abcdefgh'') (\<lambda>i. None) 8 sample_files = (Inr local_stage, staged_files)"
      unfolding eight create_attempts.simps Let_def option.case local_stage_def [symmetric] free by simp
    then show ?thesis by (simp add: createStage_def sample_paths(3) Let_def sample_files_def)
  qed
  have "download_over download_builders sample_scripts (sample_download k) sample_conns (sample_request Download_direction)
      ''7f'' script ''/home/a.bin'' sample_files (sw (script_replies ''temp'' n) three []) =
      Some (r, fs'(local_stage := None), w1)"
    using sample_temp [OF assms(1) s(2), of n] assms(2) sample_paths(2)
    by (simp add: download_over_def trim_temp sample_metadata_def [symmetric] Let_def stage os_remove_None)
  moreover have "persistentLanes script_env host (sample_ctx k) (sw (download_replies n) [] []) =
      (Inr (sample_conns, close_lanes [0, 1, 2]), sw (script_replies ''temp'' n) three [])"
    using sample_lanes [of "sample_ctx k" "script_replies ''temp'' n" "[]" "[]"]
    by (simp add: download_replies_def sample_conns_def numeral_2_eq_2)
  moreover have "rejectLocalLink None ''/home/a.bin'' sample_files = None"
    by (simp add: rejectLocalLink_def sample_files_def)
  ultimately show ?thesis using s(1) by (simp add: downloadLanes_def sample_paths Let_def)
qed

subsection \<open>A cancelled download\<close>

text \<open>The caller's context ends with the eighth message, the sender's end of input.\<close>

definition cancelled_messages :: "(nat \<times> bytes) list" where
  "cancelled_messages = started_messages @ [(0, ''send'')]"

lemma sample_cancelled_stream:
  "download_stream download_builders script_session (sample_download 8) sample_conns
     (sw [say ''accepted''] sender_lanes started_messages) =
   Some (Some (Wrap ''decode download'' (ctx_goerr Canceled)), 0, [], True, sw [] sender_lanes cancelled_messages)"
proof -
  let ?w = "sw [] sender_lanes cancelled_messages"
  have ended: "sample_ctx 8 ?w = Some Canceled" by (simp add: cancelled_messages_def)
  have recv: "receive_sender download_builders script_session (sample_download 8) sample_conns ?w =
      Some (Inl (ctx_goerr Canceled), ?w, [], [])"
    using ended by (simp add: receive_sender_def session_receive_def receiveLoop.simps receive_poll_def)
  have run: "run_sender download_builders script_session (sample_download 8) sample_conns
      (sw [say ''accepted''] sender_lanes started_messages) = Some (None, Inl (ctx_goerr Canceled), ([], []), ?w)"
    using sample_end_of_input [of 8 "[]"] recv by (simp add: run_sender_def cancelled_messages_def)
  have dec: "decode_piped (sample_download 8) (Inl (ctx_goerr Canceled)) ([], []) = (0, Some (ctx_goerr Canceled), [])"
    by (simp add: decode_piped_def crlf_eval)
  have post: "persistent_post script_env 2 (sample_ctx 8) m ?w = (Inl (unsent (ctx_goerr Canceled)), ?w)" for m
    using ended by (intro sample_ended) simp_all
  have "close_stream download_builders script_session (sample_download 8) sample_conns (sample_ctx 8) False ?w =
      (Some (Sentinel ErrRemoteStateUnknown), ?w)"
    using post sample_no_login by (simp add: close_stream_def closeWith_def close_signal_def close_delete_def Let_def)
  with run dec show ?thesis
    by (simp add: download_stream_def abort_stream_def stream_verdict_def)
qed

lemma sample_cancelled:
  "\<exists>w'. downloadLanes download_builders sample_scripts (sample_download 8) (sample_request Download_direction) sample_files
     (sw (download_replies (script_handshake @ say ''created'' # script_handshake @ say ''started'' # [say ''accepted''])) [] []) =
     Some ((no_result\<lparr>artifacts := [sample_metadata]\<rparr>, Some (Wrap ''decode download'' (ctx_goerr Canceled))),
       sample_files, w') \<and> wire w' = map snd cancelled_messages"
proof -
  obtain script where s: "build_script sample_scripts ''download.ps1''
      [(''id'', ''7f''), (''source'', ''C:/a.bin''), (''metadata'', sample_metadata)] = Inr script"
    "is_ok (PowerShell (\<lambda>c. ''ps'') script)"
    by (rule sample_build_ok [of "[(''id'', ''7f''), (''source'', ''C:/a.bin''), (''metadata'', sample_metadata)]"])
      (simp_all add: parameters_def ascii_metadata)
  have body: "download_body download_builders sample_scripts (sample_download 8) sample_conns (sample_request Download_direction)
      ''7f'' sample_metadata ''/home/a.bin'' local_stage script_session staged_files
      (sw [say ''accepted''] sender_lanes started_messages) =
      Some ((no_result, Some (Wrap ''decode download'' (ctx_goerr Canceled))), False, True, staged_files,
        sw [] sender_lanes cancelled_messages)"
    by (simp add: download_body_def sample_cancelled_stream)
  have "download_session download_builders sample_scripts (sample_download 8) sample_conns (sample_request Download_direction)
      ''7f'' sample_metadata ''/home/a.bin'' local_stage staged_files
      (sw (script_handshake @ say ''created'' # script_handshake @ say ''started'' # [say ''accepted'']) temp_lanes (script_messages 3 2)) =
      Some ((no_result\<lparr>artifacts := [sample_metadata]\<rparr>, Some (Wrap ''decode download'' (ctx_goerr Canceled))),
        staged_files, sw [] sender_lanes cancelled_messages)"
    using s sample_sender [of 8 script "persistent_post script_env 2" "Some (transport_post script_env host)" "\<lambda>w. None"
        "[say ''accepted'']"] body
    by (simp add: download_session_def download_deferred_def Let_def close_stream_def closeWith_def no_result_def)
  from sample_download_run [OF _ this] obtain w' where
    "downloadLanes download_builders sample_scripts (sample_download 8) (sample_request Download_direction) sample_files
     (sw (download_replies (script_handshake @ say ''created'' # script_handshake @ say ''started'' # [say ''accepted''])) [] []) =
     Some ((no_result\<lparr>artifacts := [sample_metadata]\<rparr>, Some (Wrap ''decode download'' (ctx_goerr Canceled))),
       staged_files(local_stage := None), w')" "wire w' = map snd cancelled_messages" by auto
  moreover have "staged_files(local_stage := None) = sample_files"
    using sample_paths(6) by (auto simp: sample_files_def)
  ultimately show ?thesis by auto
qed

text \<open>C40: A download that is cancelled while it receives can leave its remote shell behind without
  saying so.  Here the context ends with the sender's end of input: the session is closed under the
  context that has ended, so its Delete is refused everywhere and the error is dropped; the deferred
  close, which has a budget of its own, finds the session closed and does nothing.  Two shells were
  created and one was deleted, and the error does not carry \<open>ErrRemoteStateUnknown\<close>.\<close>

theorem download_cancel_leaves_shell:
  "\<exists>res e fs' w'. downloadLanes download_builders sample_scripts (sample_download 8) (sample_request Download_direction)
     sample_files (sw (download_replies (script_handshake @ say ''created'' # script_handshake @ say ''started'' #
       [say ''accepted''])) [] []) = Some ((res, Some e), fs', w') \<and>
   wire w' = [''create'', ''command'', ''send'', ''receive'', ''delete'', ''create'', ''command'', ''send''] \<and>
   \<not> errors_is e ErrRemoteStateUnknown \<and> \<not> errors_is e ErrCleanupFailed"
proof -
  have "map snd cancelled_messages =
      [''create'', ''command'', ''send'', ''receive'', ''delete'', ''create'', ''command'', ''send'']"
    by (simp add: cancelled_messages_def started_messages_def script_messages_def)
  with sample_cancelled obtain w' where
    "downloadLanes download_builders sample_scripts (sample_download 8) (sample_request Download_direction) sample_files
     (sw (download_replies (script_handshake @ say ''created'' # script_handshake @ say ''started'' # [say ''accepted''])) [] []) =
     Some ((no_result\<lparr>artifacts := [sample_metadata]\<rparr>, Some (Wrap ''decode download'' (ctx_goerr Canceled))),
       sample_files, w')"
    "wire w' = [''create'', ''command'', ''send'', ''receive'', ''delete'', ''create'', ''command'', ''send'']" by metis
  moreover have "\<not> errors_is (Wrap ''decode download'' (ctx_goerr Canceled)) ErrRemoteStateUnknown"
    "\<not> errors_is (Wrap ''decode download'' (ctx_goerr Canceled)) ErrCleanupFailed" by simp_all
  ultimately show ?thesis by blast
qed

theorem download_untouched_witness:
  "\<exists>res err fs' w'. downloadLanes download_builders sample_scripts (sample_download 8) (sample_request Download_direction)
     sample_files (sw (download_replies (script_handshake @ say ''created'' # script_handshake @ say ''started'' #
       [say ''accepted''])) [] []) = Some ((res, err), fs', w') \<and> \<not> committed res \<and> err \<noteq> None \<and> fs' = sample_files"
proof -
  from sample_cancelled obtain w' where
    d: "downloadLanes download_builders sample_scripts (sample_download 8) (sample_request Download_direction) sample_files
     (sw (download_replies (script_handshake @ say ''created'' # script_handshake @ say ''started'' # [say ''accepted''])) [] []) =
     Some ((no_result\<lparr>artifacts := [sample_metadata]\<rparr>, Some (Wrap ''decode download'' (ctx_goerr Canceled))),
       sample_files, w')" by blast
  have "\<not> committed (no_result\<lparr>artifacts := [sample_metadata]\<rparr>)" by (simp add: no_result_def)
  with d download_untouched [OF d this] show ?thesis by blast
qed

subsection \<open>A committed download\<close>

definition fetched_lanes :: "lane list" where "fetched_lanes = sender_lanes @ replicate 4 used_lane"

lemma fetched_simps [simp]: "length fetched_lanes = 13" "fetched_lanes ! 2 = ready_lane"
  by (simp_all add: fetched_lanes_def nth_append)

definition tail_replies :: "reply list" where
  "tail_replies = script_replies ''record'' (say ''deleted'' # lane_replies ''clean'')"

definition sent_lines :: "(nat \<times> bytes) list" where
  "sent_lines = (started_messages @ [(0, ''send'')]) @ [(1, ''receive'')]"

lemma sent_length [simp]: "length sent_lines = 9"
  by (simp add: sent_lines_def)

lemma sample_stream:
  "download_stream download_builders script_session (sample_download 100) sample_conns
     (sw (say ''accepted'' # say ''lines'' # n) sender_lanes started_messages) =
   Some (None, 12, sample_content, False, sw n sender_lanes sent_lines)"
proof -
  let ?w = "sw (say ''lines'' # n) sender_lanes (started_messages @ [(0, ''send'')])"
  have p: "persistent_post script_env 1 (sample_ctx 100) ''receive'' ?w = (Inr ''lines'', sw n sender_lanes sent_lines)"
    unfolding sent_lines_def by (rule sample_post) simp_all
  have o: "pipe_write (sample_download 100) (encoded_lines [sample_content]) ([], []) =
      (length (encoded_lines [sample_content]), None, [encoded_lines [sample_content]], [])"
    by (simp add: pipe_write_def partial_write_def)
  have recv: "receive_sender download_builders script_session (sample_download 100) sample_conns ?w =
      Some (Inr 0, sw n sender_lanes sent_lines, [encoded_lines [sample_content]], [])"
    unfolding receive_sender_def download_fields conns_fields
    by (rule sample_receives [where lane = "persistent_post script_env 1" and ctx = "sample_ctx 100"
        and out = "pipe_write (sample_download 100)", OF download_plain(3) _ p _ o]) simp_all
  have run: "run_sender download_builders script_session (sample_download 100) sample_conns
      (sw (say ''accepted'' # say ''lines'' # n) sender_lanes started_messages) =
      Some (None, Inr 0, ([encoded_lines [sample_content]], []), sw n sender_lanes sent_lines)"
    using sample_end_of_input [of 100 "say ''lines'' # n"] recv by (simp add: run_sender_def)
  have "stage_write (sample_download 100) = buffer_write"
    by (simp add: fun_eq_iff stage_write_def partial_write_def buffer_write_def)
  moreover have "length (b64_encode sample_content) \<le> 32768"
    by (simp add: length_b64_encode encoded_len_def)
  ultimately have dec: "decode_piped (sample_download 100) (Inr 0) ([encoded_lines [sample_content]], []) = (12, None, sample_content)"
    using copy_encoded [of "[encoded_lines [sample_content]]" "[sample_content]" 32768 "[]"] by (simp add: decode_piped_def)
  from run dec show ?thesis by (simp add: download_stream_def abort_stream_def stream_verdict_def)
qed

lemma sample_fetch:
  "fetch_record download_builders sample_scripts (sample_download 100) sample_conns (sample_request d) ''7f'' sample_metadata
     (sw tail_replies sender_lanes sent_lines) =
   Some (Inr \<lparr>Version = 1, ID = ''7f'', Bytes = 12, SHA256 = sample_hash\<rparr>,
     sw (say ''deleted'' # lane_replies ''clean'') fetched_lanes (sent_lines @ script_messages 9 2))"
proof -
  obtain script where s: "build_script sample_scripts ''fetch.ps1'' [(''metadata'', sample_metadata)] = Inr script"
    "is_ok (PowerShell (\<lambda>c. ''ps'') script)"
    by (rule sample_build_ok [of "[(''metadata'', sample_metadata)]"]) (simp_all add: parameters_def ascii_metadata)
  have "run_script download_builders (control_env (sample_download 100) sample_conns) (int transferRecordMaxSize, 1024)
      (ps_request host script) (sw tail_replies sender_lanes sent_lines) =
      Some (Exited 0 sample_record_text [], None, sw (say ''deleted'' # lane_replies ''clean'') (sender_lanes @ replicate 4 used_lane)
        (sent_lines @ script_messages (length sender_lanes) 2))"
    unfolding tail_replies_def
    by (rule sample_script_run [OF download_plain(1) s(2) download_plain(4)])
       (use sample_record_read(2) in \<open>simp_all add: control_env_def transferRecordMaxSize_def\<close>)
  then show ?thesis using s(1)
    by (simp add: fetch_record_def transferControl_def runWithCleanup_def sample_record_read fetched_lanes_def)
qed

lemma sample_removal:
  "\<exists>w. cleanupRemoteStage download_builders sample_scripts (cleanup_env (sample_download 100) sample_conns) host sample_metadata
     (sw (lane_replies ''clean'') fetched_lanes ms) = Some (None, w)"
proof -
  obtain script where s: "build_script sample_scripts ''cleanup.ps1'' [(''stage'', sample_metadata)] = Inr script"
    "is_ok (PowerShell (\<lambda>c. ''ps'') script)"
    by (rule sample_build_ok [of "[(''stage'', sample_metadata)]"]) (simp_all add: parameters_def ascii_metadata)
  have "run_script download_builders (cleanup_env (sample_download 100) sample_conns) (256, 256)
      (ps_request host script) (sw (lane_replies ''clean'') fetched_lanes ms) =
      Some (Exited 0 ''OK: cleaned'' [], None, sw [] fetched_lanes (ms @ lane_messages 2))"
    using sample_lane_script [OF download_plain(1) s(2) download_plain(5), of "cleanup_env (sample_download 100) sample_conns"
        2 fetched_lanes "(256, 256)" ms] by (simp add: cleanup_env_def control_env_def)
  moreover have "trim_space ''OK: cleaned'' = ''OK: cleaned''"
    using space_heads_ascii [of "CHR ''O''"] space_heads_ascii [of "CHR ''d''"]
    by (intro trim_space_id) (simp_all add: ascii_spaces_def less_char_def)
  ultimately show ?thesis using s(1) by (simp add: cleanupRemoteStage_def cleanup_verdict_def join_close_def)
qed

abbreviation installed_files :: file_system where
  "installed_files \<equiv> sample_files(''/home/a.bin'' \<mapsto> Regular sample_content)"

lemma sample_downloaded:
  "\<exists>w'. downloadLanes download_builders sample_scripts (sample_download 100) (sample_request Download_direction) sample_files
     (sw (download_replies (script_handshake @ say ''created'' # script_handshake @ say ''started'' #
       say ''accepted'' # say ''lines'' # tail_replies)) [] []) =
     Some (((uncommitted 12 sample_hash)\<lparr>committed := True\<rparr>, None), installed_files, w')"
proof -
  obtain script where s: "build_script sample_scripts ''download.ps1''
      [(''id'', ''7f''), (''source'', ''C:/a.bin''), (''metadata'', sample_metadata)] = Inr script"
    "is_ok (PowerShell (\<lambda>c. ''ps'') script)"
    by (rule sample_build_ok [of "[(''id'', ''7f''), (''source'', ''C:/a.bin''), (''metadata'', sample_metadata)]"])
      (simp_all add: parameters_def ascii_metadata)
  let ?fs = "sample_files(local_stage \<mapsto> Regular sample_content)"
  have "sample_files ''/home/a.bin'' = None" by (simp add: sample_files_def)
  then have "commitStage None local_stage ''/home/a.bin'' False ?fs = (None, ?fs(''/home/a.bin'' \<mapsto> Regular sample_content))"
    using sample_paths(5,7) by (simp add: commitStage_def os_link_def)
  then have inst: "install_stage (sample_download 100) (sample_request Download_direction) ''/home/a.bin'' local_stage sample_content
      12 \<lparr>Version = 1, ID = ''7f'', Bytes = 12, SHA256 = sample_hash\<rparr> ?fs =
      (((uncommitted 12 sample_hash)\<lparr>committed := True\<rparr>, None), ?fs(''/home/a.bin'' \<mapsto> Regular sample_content))"
    by (simp add: install_stage_def hashStage_def)
  have body: "download_body download_builders sample_scripts (sample_download 100) sample_conns (sample_request Download_direction)
      ''7f'' sample_metadata ''/home/a.bin'' local_stage script_session staged_files
      (sw (say ''accepted'' # say ''lines'' # tail_replies) sender_lanes started_messages) =
      Some (((uncommitted 12 sample_hash)\<lparr>committed := True\<rparr>, None), True, False,
        ?fs(''/home/a.bin'' \<mapsto> Regular sample_content),
        sw (say ''deleted'' # lane_replies ''clean'') fetched_lanes (sent_lines @ script_messages 9 2))"
    using inst by (simp add: download_body_def sample_stream sample_fetch Let_def)
  have "persistent_post script_env 2 (\<lambda>w. None) ''delete'' (sw (say ''deleted'' # lane_replies ''clean'') fetched_lanes ms) =
      (Inr ''deleted'', sw (lane_replies ''clean'') fetched_lanes (ms @ [(2, ''delete'')]))" for ms
    by (intro sample_post) simp_all
  from sample_closes [where cln = "persistent_post script_env 2", OF download_plain(1) this]
  have close: "close_stream download_builders script_session (sample_download 100) sample_conns (\<lambda>w. None) False
      (sw (say ''deleted'' # lane_replies ''clean'') fetched_lanes ms) =
      (None, sw (lane_replies ''clean'') fetched_lanes (ms @ [(2, ''delete'')]))" for ms
    by (simp add: close_stream_def)
  obtain w where rm: "cleanupRemoteStage download_builders sample_scripts (cleanup_env (sample_download 100) sample_conns) host
      sample_metadata (sw (lane_replies ''clean'') fetched_lanes ((sent_lines @ script_messages 9 2) @ [(2, ''delete'')])) = Some (None, w)"
    using sample_removal by blast
  have "download_session download_builders sample_scripts (sample_download 100) sample_conns (sample_request Download_direction)
      ''7f'' sample_metadata ''/home/a.bin'' local_stage staged_files
      (sw (script_handshake @ say ''created'' # script_handshake @ say ''started'' # say ''accepted'' # say ''lines'' # tail_replies)
        temp_lanes (script_messages 3 2)) =
      Some (((uncommitted 12 sample_hash)\<lparr>committed := True\<rparr>, None), ?fs(''/home/a.bin'' \<mapsto> Regular sample_content), w)"
    using s sample_sender [of 100 script "persistent_post script_env 2" "Some (transport_post script_env host)" "\<lambda>w. None"
        "say ''accepted'' # say ''lines'' # tail_replies"] body close rm
    by (simp add: download_session_def download_deferred_def Let_def)
  from sample_download_run [OF _ this] obtain w' where
    "downloadLanes download_builders sample_scripts (sample_download 100) (sample_request Download_direction) sample_files
     (sw (download_replies (script_handshake @ say ''created'' # script_handshake @ say ''started'' #
       say ''accepted'' # say ''lines'' # tail_replies)) [] []) =
     Some (((uncommitted 12 sample_hash)\<lparr>committed := True\<rparr>, None),
       (?fs(''/home/a.bin'' \<mapsto> Regular sample_content))(local_stage := None), w')" by auto
  moreover have "(?fs(''/home/a.bin'' \<mapsto> Regular sample_content))(local_stage := None) = installed_files"
    using sample_paths(5,6) by (auto simp: sample_files_def fun_eq_iff)
  ultimately show ?thesis by auto
qed

theorem download_committed_witness:
  "\<exists>content c w1 w2. delivered (transfer_posts (sample_download 100) c) download_builders sample_scripts (sample_download 100)
     (sample_request Download_direction) ''7f'' content w1 w2 \<and> length content = 12 \<and>
     installed_files = sample_files(''/home/a.bin'' \<mapsto> Regular content)"
proof -
  from sample_downloaded obtain w' where
    d: "downloadLanes download_builders sample_scripts (sample_download 100) (sample_request Download_direction) sample_files
     (sw (download_replies (script_handshake @ say ''created'' # script_handshake @ say ''started'' #
       say ''accepted'' # say ''lines'' # tail_replies)) [] []) =
     Some (((uncommitted 12 sample_hash)\<lparr>committed := True\<rparr>, None), installed_files, w')" by blast
  have "committed ((uncommitted 12 sample_hash)\<lparr>committed := True\<rparr>)" by simp
  from download_committed [OF d this] obtain destination transferID content c w1 w2 where
    c: "local_destination (sample_download 100) (sample_request Download_direction) destination"
      "tx_id (sample_download 100) = Inr transferID"
      "delivered (transfer_posts (sample_download 100) c) download_builders sample_scripts (sample_download 100)
         (sample_request Download_direction) transferID content w1 w2"
      "t_bytes ((uncommitted 12 sample_hash)\<lparr>committed := True\<rparr>) = int (length content)"
      "stage_may_stay (sample_download 100) destination sample_files (sample_files(destination \<mapsto> Regular content)) installed_files"
    by blast
  have "installed_files = sample_files(destination \<mapsto> Regular content)" using c(5) by (simp only: stage_removed download_fields)
  moreover have "destination = ''/home/a.bin''" using c(1) by (simp add: local_destination_def sample_paths)
  moreover have "length content = 12" using c(4) by (simp add: uncommitted_def)
  moreover have "transferID = ''7f''" using c(2) by simp
  ultimately show ?thesis using c(3) by blast
qed

subsection \<open>A transfer that ends\<close>

theorem Transfer_returns_witness:
  "\<exists>y. Transfer script_env upload_builders sample_scripts (sample_upload\<lparr>tx_budget := sample_ctx 100\<rparr>)
     ((sample_download 100)\<lparr>tx_budget := sample_ctx 100\<rparr>) (sample_request Upload_direction) sample_files
     (sw (upload_replies (replicate 20 (say ''running''))) [] []) = Some y"
  by (rule Transfer_returns [of 100]) (simp add: sample_ctx_def wire_def)

end
