(* ===== verification/Frames.thy ===== *)
theory Frames
  imports Byte_Order Writers
begin

text \<open>
  The framing of \<open>internal/control/protocol.go\<close> and the \<open>framedWriter\<close> of \<open>server.go\<close>: a frame is
  the protocol version, a type byte, the payload length in four big-endian bytes and at most
  \<open>maxFramePayload\<close> bytes of payload.  The locale \<open>framing\<close> states what a pair of encoder and
  incremental decoder must satisfy for a stream of messages to be read back; its interpretation
  shows that \<open>writeFrame\<close> and \<open>readFrame\<close> do.
\<close>

subsection \<open>Streams of self-delimiting messages\<close>

locale framing =
  fixes enc :: "'m \<Rightarrow> bytes"
    and dec :: "bytes \<Rightarrow> 'e + 'm \<times> bytes"
    and valid :: "'m \<Rightarrow> bool"
  assumes dec_enc: "valid m \<Longrightarrow> dec (enc m @ rest) = Inr (m, rest)"
    and enc_dec: "dec b = Inr (m, rest) \<Longrightarrow> valid m \<and> b = enc m @ rest"
begin

lemma prefix_free:
  "valid m \<Longrightarrow> valid m' \<Longrightarrow> enc m @ r = enc m' @ r' \<Longrightarrow> m = m' \<and> r = r'"
  by (metis dec_enc Inr_inject prod.inject)

lemma inj_stream:
  "\<forall>m \<in> set ms. valid m \<Longrightarrow> \<forall>m \<in> set ms'. valid m \<Longrightarrow> (\<forall>m. valid m \<longrightarrow> enc m \<noteq> []) \<Longrightarrow>
     concat (map enc ms) = concat (map enc ms') \<Longrightarrow> ms = ms'"
proof (induction ms arbitrary: ms')
  case Nil
  then show ?case by (cases ms') auto
next
  case (Cons m ms)
  from Cons.prems(1,3,4) obtain m' ms'' where ms': "ms' = m' # ms''" by (cases ms') simp_all
  have eq: "enc m @ concat (map enc ms) = enc m' @ concat (map enc ms'')"
    using Cons.prems(4) by (simp add: ms')
  have "valid m" "valid m'" using Cons.prems(1,2) by (simp_all add: ms')
  note m = prefix_free [OF this eq]
  have "ms = ms''" using Cons.prems(1,2,3) m by (intro Cons.IH) (simp_all add: ms')
  with m ms' show ?case by simp
qed

text \<open>Reading with the decoder as long as it succeeds; the fuel is a number of messages.\<close>

primrec read_all :: "nat \<Rightarrow> bytes \<Rightarrow> 'm list \<times> bytes" where
  "read_all 0 b = ([], b)"
| "read_all (Suc n) b =
     (case dec b of
        Inl e \<Rightarrow> ([], b)
      | Inr (m, rest) \<Rightarrow> (case read_all n rest of (ms, r) \<Rightarrow> (m # ms, r)))"

lemma read_all_stream:
  "\<forall>m \<in> set ms. valid m \<Longrightarrow> read_all (length ms) (concat (map enc ms) @ r) = (ms, r)"
  by (induction ms) (auto simp: dec_enc)

lemma read_all_sound:
  "read_all n b = (ms, r) \<Longrightarrow> (\<forall>m \<in> set ms. valid m) \<and> b = concat (map enc ms) @ r"
proof (induction n arbitrary: b ms)
  case (Suc n)
  show ?case
  proof (cases "dec b")
    case (Inr a)
    obtain m rest where d: "dec b = Inr (m, rest)" using Inr by (cases a) auto
    obtain ms' where "read_all n rest = (ms', r)" "ms = m # ms'"
      using Suc.prems d by (auto split: prod.splits)
    with Suc.IH enc_dec [OF d] show ?thesis by auto
  qed (use Suc.prems in auto)
qed simp

end

subsection \<open>Frames\<close>

definition protocolVersion :: nat where "protocolVersion = 1"
definition maxFramePayload :: nat where "maxFramePayload = 64 * 1024"

text \<open>\<open>frameType\<close> is a byte; its named values.\<close>

type_synonym frame_type = nat

definition frameRequest :: frame_type where "frameRequest = 1"
definition frameStdout :: frame_type where "frameStdout = 2"
definition frameStderr :: frame_type where "frameStderr = 3"
definition frameResult :: frame_type where "frameResult = 4"
definition frameCheck :: frame_type where "frameCheck = 5"
definition frameExit :: frame_type where "frameExit = 6"
definition frameError :: frame_type where "frameError = 7"

lemmas frame_types = frameRequest_def frameStdout_def frameStderr_def frameResult_def
  frameCheck_def frameExit_def frameError_def

definition validFrameType :: "frame_type \<Rightarrow> bool" where
  "validFrameType kind \<longleftrightarrow> kind \<ge> frameRequest \<and> kind \<le> frameError"

type_synonym frame = "frame_type \<times> bytes"

definition frame_header :: "frame_type \<Rightarrow> nat \<Rightarrow> bytes" where
  "frame_header kind n = char_of protocolVersion # char_of kind # put_be32 n"

definition writeFrame :: "'s writer \<Rightarrow> frame_type \<Rightarrow> bytes \<Rightarrow> 's \<Rightarrow> goerr option \<times> 's" where
  "writeFrame w kind payload s =
     (if \<not> validFrameType kind \<or> length payload > maxFramePayload
      then (Some (Sentinel ErrProtocol), s)
      else (case control_writeAll w (frame_header kind (length payload)) s of
              (Some e, s') \<Rightarrow> (Some e, s')
            | (None, s') \<Rightarrow> control_writeAll w payload s'))"

text \<open>A reader is the bytes still to come and the error behind them.\<close>

type_synonym reader = "bytes \<times> goerr"

definition readFull :: "nat \<Rightarrow> reader \<Rightarrow> goerr + bytes \<times> reader" where
  "readFull n r =
     (case r of (b, e) \<Rightarrow>
        if n \<le> length b then Inr (take n b, drop n b, e)
        else Inl (if b \<noteq> [] \<and> e = Sentinel IoEOF then Sentinel IoUnexpectedEOF else e))"

definition readFrame :: "reader \<Rightarrow> goerr + frame \<times> reader" where
  "readFrame r =
     and_then (readFull 6 r) (\<lambda>(hdr, r').
       let kind = byte_val (hdr ! 1);
           len = the (be32 (drop 2 hdr))
       in check (byte_val (hdr ! 0) \<noteq> protocolVersion \<or> \<not> validFrameType kind \<or>
             len > maxFramePayload) (Sentinel ErrProtocol)
            (and_then (readFull len r') (\<lambda>(payload, r''). Inr ((kind, payload), r''))))"

text \<open>\<open>framedWriter.Write\<close> splits its data into frames of at most \<open>maxFramePayload\<close> bytes.  It
  returns the count, the error, and whether it called \<open>cancel\<close>.\<close>

function framed_write ::
  "'s writer \<Rightarrow> frame_type \<Rightarrow> bytes \<Rightarrow> nat \<Rightarrow> 's \<Rightarrow> nat \<times> goerr option \<times> bool \<times> 's" where
  "framed_write w kind data len s =
     (if data = [] then (len, None, False, s)
      else
        let chunk = (if length data > maxFramePayload then take maxFramePayload data else data) in
        case writeFrame w kind chunk s of
          (Some e, s') \<Rightarrow> (len - length data, Some e, True, s')
        | (None, s') \<Rightarrow> framed_write w kind (drop (length chunk) data) len s')"
  by pat_completeness auto
termination
  by (relation "measure (\<lambda>(w, kind, data, len, s). length data)")
    (auto simp: maxFramePayload_def)

declare framed_write.simps [simp del]

definition framedWriter_Write ::
  "'s writer \<Rightarrow> frame_type \<Rightarrow> bytes \<Rightarrow> 's \<Rightarrow> nat \<times> goerr option \<times> bool \<times> 's" where
  "framedWriter_Write w kind data s = framed_write w kind data (length data) s"

subsection \<open>The codec\<close>

definition frame_ok :: "frame \<Rightarrow> bool" where
  "frame_ok f \<longleftrightarrow> validFrameType (fst f) \<and> length (snd f) \<le> maxFramePayload"

definition frame_bytes :: "frame \<Rightarrow> bytes" where
  "frame_bytes f = frame_header (fst f) (length (snd f)) @ snd f"

text \<open>\<open>readFrame\<close> on a stream that ends with \<open>io.EOF\<close>.\<close>

definition frame_dec :: "bytes \<Rightarrow> goerr + frame \<times> bytes" where
  "frame_dec b = and_then (readFrame (b, Sentinel IoEOF)) (\<lambda>(f, r). Inr (f, fst r))"

lemma length_frame_header [simp]: "length (frame_header kind n) = 6"
  by (simp add: frame_header_def)

lemma readFrame_frame:
  assumes "frame_ok f"
  shows "readFrame (frame_bytes f @ rest, e) = Inr (f, rest, e)"
proof -
  obtain kind p where f: "f = (kind, p)" by (cases f)
  have k: "kind < 256" "length p \<le> maxFramePayload" "validFrameType kind"
    using assms by (simp_all add: f frame_ok_def validFrameType_def frame_types)
  have "be32 (put_be32 (length p) @ []) = Some (length p)"
    using k(2) by (intro be32_put) (simp add: maxFramePayload_def)
  with k show ?thesis
    by (simp add: f frame_bytes_def readFrame_def readFull_def frame_header_def Let_def
        protocolVersion_def)
qed

lemma readFull_ok:
  "readFull n (b, e) = Inr (x, b', e') \<Longrightarrow> b = x @ b' \<and> length x = n \<and> e' = e"
  by (auto simp: readFull_def split: if_splits)

lemma frame_header_of:
  assumes "length h = 6" and "byte_val (h ! 0) = protocolVersion"
  shows "h = frame_header (byte_val (h ! 1)) (the (be32 (drop 2 h)))"
proof -
  obtain a b t where h: "h = a # b # t" "length t = 4"
    using assms(1) by (cases h rule: list.exhaust) (auto simp: numeral_eq_Suc length_Suc_conv)
  obtain n where n: "be32 t = Some n" using be32_long [of t] h(2) by auto
  with put_be32 [OF n] h assms(2) show ?thesis
    by (simp add: frame_header_def) (metis char_of_byte_val)
qed

lemma readFrame_ok:
  assumes "readFrame (b, e) = Inr (f, b', e')"
  shows "frame_ok f \<and> b = frame_bytes f @ b' \<and> e' = e"
proof -
  obtain h b1 e1 where h: "readFull 6 (b, e) = Inr (h, b1, e1)"
    using assms by (auto simp: readFrame_def)
  define kind len where "kind = byte_val (h ! 1)" and "len = the (be32 (drop 2 h))"
  obtain p where ok: "byte_val (h ! 0) = protocolVersion" "validFrameType kind"
    "len \<le> maxFramePayload" and p: "readFull len (b1, e1) = Inr (p, b', e')" and f: "f = (kind, p)"
    using assms h by (auto simp: readFrame_def Let_def kind_def len_def)
  from readFull_ok [OF h] have b: "b = h @ b1" "length h = 6" "e1 = e" by simp_all
  from readFull_ok [OF p] have p': "b1 = p @ b'" "length p = len" "e' = e1" by simp_all
  have "h = frame_header kind len"
    using frame_header_of [OF b(2) ok(1)] by (simp add: kind_def len_def)
  with b p' ok f show ?thesis by (simp add: frame_ok_def frame_bytes_def)
qed

interpretation frames: framing frame_bytes frame_dec frame_ok
proof
  fix m rest
  assume "frame_ok m"
  then show "frame_dec (frame_bytes m @ rest) = Inr (m, rest)"
    by (simp add: frame_dec_def readFrame_frame)
next
  fix b m rest
  assume "frame_dec b = Inr (m, rest)"
  then show "frame_ok m \<and> b = frame_bytes m @ rest"
    using readFrame_ok by (auto simp: frame_dec_def)
qed

context io_writer begin

lemma writeFrame_ok:
  assumes "writeFrame wr kind p s = (None, s')"
  shows "frame_ok (kind, p) \<and> written s' = written s @ frame_bytes (kind, p)"
proof -
  from assms obtain s1 where ok: "frame_ok (kind, p)"
    and h: "control_writeAll wr (frame_header kind (length p)) s = (None, s1)"
    and b: "control_writeAll wr p s1 = (None, s')"
    by (auto simp: writeFrame_def frame_ok_def split: if_splits prod.splits option.splits)
  with control_writeAll_ok [OF h] control_writeAll_ok [OF b] show ?thesis
    by (simp add: frame_bytes_def)
qed

lemma framed_write_ok:
  "framed_write wr kind data len s = (n, None, c, s') \<Longrightarrow>
     n = len \<and> \<not> c \<and> (\<exists>fs. written s' = written s @ concat (map frame_bytes fs) \<and>
       concat (map snd fs) = data \<and> (\<forall>f \<in> set fs. fst f = kind \<and> frame_ok f))"
proof (induction data arbitrary: s rule: length_induct)
  case (1 data)
  show ?case
  proof (cases "data = []")
    case True
    with "1.prems" show ?thesis
      by (auto simp: framed_write.simps [of wr kind "[]" len s] intro: exI [of _ "[]"])
  next
    case False
    define chunk where "chunk = (if length data > maxFramePayload then take maxFramePayload data else data)"
    have chunk: "data = chunk @ drop (length chunk) data" "chunk \<noteq> []"
      using False by (auto simp: chunk_def maxFramePayload_def)
    note run = "1.prems" [unfolded framed_write.simps [of wr kind data len s] Let_def chunk_def [symmetric]]
    from run False obtain s1 where w: "writeFrame wr kind chunk s = (None, s1)"
      by (cases "writeFrame wr kind chunk s") (auto split: option.splits)
    with run False have "framed_write wr kind (drop (length chunk) data) len s1 = (n, None, c, s')"
      by simp
    moreover have "length (drop (length chunk) data) < length data" using chunk(2) False by simp
    ultimately obtain fs where "n = len" "\<not> c" and fs: "written s' = written s1 @ concat (map frame_bytes fs)"
      "concat (map snd fs) = drop (length chunk) data" "\<forall>f \<in> set fs. fst f = kind \<and> frame_ok f"
      using "1.IH" by blast
    with writeFrame_ok [OF w] chunk(1) show ?thesis
      by (intro conjI exI [of _ "(kind, chunk) # fs"]) auto
  qed
qed

end

subsection \<open>Properties\<close>

text \<open>C32: A frame that \<open>writeFrame\<close> wrote without an error is read back by \<open>readFrame\<close> from whatever
  follows it on the connection, leaving exactly the rest; and every frame that \<open>readFrame\<close> accepts
  is such a frame: known type, payload within the limit, and exactly its bytes consumed.\<close>

theorem frame_roundtrip:
  assumes "io_writer w written"
  shows "(writeFrame w kind p s = (None, s') \<longrightarrow>
      (\<exists>x. written s' = written s @ x \<and> (\<forall>rest e. readFrame (x @ rest, e) = Inr ((kind, p), rest, e)))) \<and>
    (readFrame (b, e) = Inr ((k, q), b', e') \<longrightarrow>
      validFrameType k \<and> length q \<le> maxFramePayload \<and> e' = e \<and>
      b = frame_header k (length q) @ q @ b')"
proof -
  have "\<exists>x. written s' = written s @ x \<and> (\<forall>rest e. readFrame (x @ rest, e) = Inr ((kind, p), rest, e))"
    if "writeFrame w kind p s = (None, s')"
    using io_writer.writeFrame_ok [OF assms that] readFrame_frame by blast
  moreover have "frame_ok (k, q) \<and> b = frame_bytes (k, q) @ b' \<and> e' = e"
    if "readFrame (b, e) = Inr ((k, q), b', e')" using readFrame_ok [OF that] .
  ultimately show ?thesis by (auto simp: frame_ok_def frame_bytes_def)
qed

lemmas frame_eval = writeFrame_def control_writeAll.simps buffer_write_def validFrameType_def
  frame_types maxFramePayload_def frame_bytes_def frame_header_def put_be32_def
  framed_write.simps framedWriter_Write_def

lemma sample_frame: "writeFrame buffer_write frameStdout ''hi'' [] =
    (None, frame_bytes (frameStdout, ''hi''))"
  by (simp add: frame_eval)

theorem frame_roundtrip_witness:
  "\<exists>x. readFrame (x @ ''more'', Sentinel IoEOF) = Inr ((frameStdout, ''hi''), ''more'', Sentinel IoEOF)"
  using frame_roundtrip [OF buffer.io_writer_axioms, of frameStdout "''hi''" "[]"
      "frame_bytes (frameStdout, ''hi'')" "[]" "Sentinel IoEOF" 1 "[]" "[]" "Sentinel IoEOF"] sample_frame
  by blast

text \<open>Whatever the executor writes to a stream is cut into frames of that stream's type with
  payloads in order, none above the limit; the client that reads the frames back and appends
  their payloads has exactly the written data, whatever follows on the connection.\<close>

theorem framed_output_roundtrip:
  assumes "io_writer w written" and "framedWriter_Write w kind data s = (n, None, c, s')"
  shows "n = length data \<and> \<not> c \<and>
    (\<exists>fs. written s' = written s @ concat (map frame_bytes fs) \<and> concat (map snd fs) = data \<and>
       (\<forall>f \<in> set fs. fst f = kind \<and> length (snd f) \<le> maxFramePayload) \<and>
       (\<forall>rest. frames.read_all (length fs) (concat (map frame_bytes fs) @ rest) = (fs, rest)))"
proof -
  from io_writer.framed_write_ok [OF assms(1) assms(2) [unfolded framedWriter_Write_def]]
  obtain fs where fs: "n = length data" "\<not> c" "written s' = written s @ concat (map frame_bytes fs)"
    "concat (map snd fs) = data" "\<forall>f \<in> set fs. fst f = kind \<and> frame_ok f" by blast
  moreover have "\<forall>rest. frames.read_all (length fs) (concat (map frame_bytes fs) @ rest) = (fs, rest)"
    using frames.read_all_stream fs(5) by blast
  ultimately show ?thesis by (auto simp: frame_ok_def)
qed

theorem framed_output_roundtrip_witness:
  "\<exists>fs. concat (map snd fs) = ''hello'' \<and>
     (\<forall>rest. frames.read_all (length fs) (concat (map frame_bytes fs) @ rest) = (fs, rest))"
proof -
  have "framedWriter_Write buffer_write frameStdout ''hello'' [] =
    (5, None, False, frame_bytes (frameStdout, ''hello''))" by (simp add: frame_eval)
  from framed_output_roundtrip [OF buffer.io_writer_axioms this] show ?thesis by blast
qed

end
