(* ===== verification/Control_Types.thy ===== *)
theory Control_Types
  imports Frames Utf8
begin

text \<open>
  The values of the local control protocol (\<open>internal/control/protocol.go\<close>): categories, results,
  calls and their validation, and the map from errors to categories (\<open>server.go\<close>).
\<close>

definition CategoryNotStarted :: bytes where "CategoryNotStarted = ''not-started''"
definition CategoryIdentityMismatch :: bytes where "CategoryIdentityMismatch = ''identity-mismatch''"
definition CategoryPersistMismatch :: bytes where "CategoryPersistMismatch = ''persist-mismatch''"
definition CategoryQueueFull :: bytes where "CategoryQueueFull = ''queue-full''"
definition CategoryTimeout :: bytes where "CategoryTimeout = ''timeout''"
definition CategoryCanceled :: bytes where "CategoryCanceled = ''canceled''"
definition CategoryCleanupFailed :: bytes where "CategoryCleanupFailed = ''cleanup-failed''"
definition CategoryRemoteStateUnknown :: bytes where
  "CategoryRemoteStateUnknown = ''remote-state-unknown''"
definition CategoryUnavailable :: bytes where "CategoryUnavailable = ''unavailable''"

lemmas categories = CategoryNotStarted_def CategoryIdentityMismatch_def CategoryPersistMismatch_def
  CategoryQueueFull_def CategoryTimeout_def CategoryCanceled_def CategoryCleanupFailed_def
  CategoryRemoteStateUnknown_def CategoryUnavailable_def

definition validCategory :: "bytes \<Rightarrow> bool" where
  "validCategory category \<longleftrightarrow> category \<in> {CategoryNotStarted, CategoryIdentityMismatch,
     CategoryPersistMismatch, CategoryQueueFull, CategoryTimeout, CategoryCanceled,
     CategoryCleanupFailed, CategoryRemoteStateUnknown, CategoryUnavailable}"

text \<open>\<open>Result\<close>; the empty category is success.\<close>

record control_result =
  ExitCode :: int
  Category :: bytes

definition failed :: "bytes \<Rightarrow> control_result" where
  "failed c = \<lparr>ExitCode = 0, Category = c\<rparr>"

text \<open>\<open>Identity\<close> and \<open>Call\<close>.  Times are nanoseconds; the zero time is \<open>None\<close>.\<close>

record identity =
  id_endpoint :: bytes
  id_user :: bytes
  id_host :: bytes
  id_trust :: bytes

record call =
  call_identity :: identity
  call_command :: bytes
  call_powershell :: bool
  call_codepage :: bytes
  call_deadline :: "int option"
  call_persist :: int

definition validateCall :: "call \<Rightarrow> goerr option" where
  "validateCall c =
     (if call_command c = [] \<or> length (call_command c) > 32768 \<or> \<not> valid_utf8 (call_command c) \<or>
         CHR 0x00 \<in> set (call_command c) then Some (Sentinel ErrProtocol)
      else if call_deadline c = None then Some (Sentinel ErrProtocol)
      else None)"

definition categoryFromError :: "goerr option \<Rightarrow> bytes" where
  "categoryFromError err =
     (case err of
        None \<Rightarrow> CategoryUnavailable
      | Some e \<Rightarrow>
          if errors_is e ErrRemoteStateUnknown then CategoryRemoteStateUnknown
          else if errors_is e ErrNotStarted then CategoryNotStarted
          else if errors_is e ErrCleanupFailed then CategoryCleanupFailed
          else if errors_is e CtxDeadlineExceeded then CategoryTimeout
          else if errors_is e CtxCanceled then CategoryCanceled
          else CategoryUnavailable)"

text \<open>The category of a context that ended (\<open>categoryFromError(ctx.Err())\<close>).\<close>

definition ctx_category :: "ctx_err option \<Rightarrow> bytes" where
  "ctx_category c = categoryFromError (map_option ctx_goerr c)"

lemma categoryFromError_valid: "validCategory (categoryFromError e)"
  by (auto simp: categoryFromError_def validCategory_def split: option.splits)

lemma validCategory_nonempty: "validCategory c \<Longrightarrow> c \<noteq> []"
  by (auto simp: validCategory_def categories)

lemma categoryFromError_nonempty [simp]: "categoryFromError e \<noteq> []"
  using categoryFromError_valid validCategory_nonempty by blast

lemma ctx_category_simps [simp]:
  "ctx_category (Some Canceled) = CategoryCanceled"
  "ctx_category (Some Deadline) = CategoryTimeout"
  "ctx_category None = CategoryUnavailable"
  by (simp_all add: ctx_category_def categoryFromError_def)

lemma ctx_category_nonempty [simp]: "ctx_category c \<noteq> []"
  by (simp add: ctx_category_def)

end
