(* ===== verification/Transitions.thy ===== *)
theory Transitions
  imports Main
begin

text \<open>
  Step relations: reachable states and the induction that carries an invariant to all of them.
  The command master interprets \<open>invariant_system\<close>, and \<open>monotone_steps\<close> for the facts that only
  ever change in one direction.
\<close>

inductive reachable :: "('s \<Rightarrow> bool) \<Rightarrow> ('s \<Rightarrow> 's \<Rightarrow> bool) \<Rightarrow> 's \<Rightarrow> bool"
  for init :: "'s \<Rightarrow> bool" and step :: "'s \<Rightarrow> 's \<Rightarrow> bool" where
  start: "init s \<Longrightarrow> reachable init step s"
| extend: "reachable init step s \<Longrightarrow> step s s' \<Longrightarrow> reachable init step s'"

inductive steps :: "('s \<Rightarrow> 's \<Rightarrow> bool) \<Rightarrow> 's \<Rightarrow> 's \<Rightarrow> bool" for step :: "'s \<Rightarrow> 's \<Rightarrow> bool" where
  stay: "steps step s s"
| more: "steps step s t \<Longrightarrow> step t u \<Longrightarrow> steps step s u"

locale invariant_system =
  fixes init :: "'s \<Rightarrow> bool" and step :: "'s \<Rightarrow> 's \<Rightarrow> bool" and inv :: "'s \<Rightarrow> bool"
  assumes inv_init: "init s \<Longrightarrow> inv s"
    and inv_step: "inv s \<Longrightarrow> step s s' \<Longrightarrow> inv s'"
begin

lemma reachable_inv: "reachable init step s \<Longrightarrow> inv s"
  by (induction rule: reachable.induct) (auto intro: inv_init inv_step)

lemma reachable_steps: "steps step s t \<Longrightarrow> reachable init step s \<Longrightarrow> reachable init step t"
  by (induction rule: steps.induct) (auto intro: reachable.intros)

lemma steps_inv: "steps step s t \<Longrightarrow> inv s \<Longrightarrow> inv t"
  by (induction rule: steps.induct) (auto intro: inv_step)

end

text \<open>A property \<open>P\<close> that steps keep, and a value \<open>f\<close> that stands still once it holds.\<close>

locale monotone_steps = invariant_system init step inv
  for init :: "'s \<Rightarrow> bool" and step :: "'s \<Rightarrow> 's \<Rightarrow> bool" and inv :: "'s \<Rightarrow> bool" +
  fixes P :: "'s \<Rightarrow> bool" and f :: "'s \<Rightarrow> 'a"
  assumes P_step: "inv s \<Longrightarrow> P s \<Longrightarrow> step s s' \<Longrightarrow> P s' \<and> f s' = f s"
begin

lemma P_forever: "steps step s t \<Longrightarrow> inv s \<Longrightarrow> P s \<Longrightarrow> P t \<and> f t = f s"
proof (induction rule: steps.induct)
  case (more s t u)
  then show ?case using P_step [of t u] steps_inv [of s t] by auto
qed simp

end

text \<open>Forward simulation: every step of the program is matched by a step of its specification or by none,
  and so every reachable state has a reachable state of the specification beside it.\<close>

locale simulation =
  fixes init :: "'s \<Rightarrow> bool" and step :: "'s \<Rightarrow> 's \<Rightarrow> bool"
    and spec_init :: "'a \<Rightarrow> bool" and spec_step :: "'a \<Rightarrow> 'a \<Rightarrow> bool" and rel :: "'a \<Rightarrow> 's \<Rightarrow> bool"
  assumes sim_init: "init s \<Longrightarrow> \<exists>a. spec_init a \<and> rel a s"
    and sim_step: "rel a s \<Longrightarrow> step s s' \<Longrightarrow> \<exists>a'. (a' = a \<or> spec_step a a') \<and> rel a' s'"
begin

lemma simulated: "reachable init step s \<Longrightarrow> \<exists>a. reachable spec_init spec_step a \<and> rel a s"
proof (induction rule: reachable.induct)
  case (start s)
  with sim_init show ?case by (blast intro: reachable.start)
next
  case (extend s s')
  then obtain a where a: "reachable spec_init spec_step a" "rel a s" by blast
  from sim_step [OF a(2) extend.hyps(2)] a(1) show ?case by (metis reachable.extend)
qed

lemma steps_simulated: "steps step s t \<Longrightarrow> rel a s \<Longrightarrow> \<exists>b. steps spec_step a b \<and> rel b t"
proof (induction rule: steps.induct)
  case (stay s)
  then show ?case by (blast intro: steps.stay)
next
  case (more s t u)
  then obtain b where b: "steps spec_step a b" "rel b t" by blast
  from sim_step [OF b(2) more.hyps(2)] b(1) show ?case by (metis steps.more)
qed

end

end
