(* ===== verification/Server.thy ===== *)
theory Server
  imports Control_Types Transitions "HOL-Library.Sublist"
begin

text \<open>
  The command master of \<open>internal/control/server.go\<close>: one active command, a queue of at most
  sixteen, an idle timer and the ways the master stops.  Every section that the source runs under
  \<open>s.mu\<close> is one operation on the record \<open>server\<close>; connection handlers, workers, the timer and the
  heartbeat interleave freely, so the step relation may fire any of them in any order.  Closing a
  closed channel panics in Go; the operations record that in \<open>panicked\<close>.
\<close>

type_synonym job = nat

text \<open>
  \<open>active\<close> to \<open>idle_armed\<close> are the fields of \<open>masterServer\<close>; \<open>pending\<close> counts expired timers whose
  \<open>stopIfIdle\<close> still waits for the mutex; \<open>jobs_done\<close> and \<open>job_result\<close> are the jobs' \<open>done\<close> channels
  and results, \<open>workers\<close> the goroutines inside \<open>run\<close>.  The last fields record the history: jobs handed
  to \<open>enqueue\<close>, jobs admitted and jobs started in order, and jobs whose execution ended without an error.
\<close>

record server =
  active :: "job option"
  queue :: "job list"
  exiting :: bool
  stopped :: bool
  listening :: bool
  idle_armed :: bool
  pending :: nat
  jobs_done :: "job set"
  job_result :: "job \<Rightarrow> control_result"
  workers :: "job set"
  panicked :: bool
  submitted :: "job set"
  admitted :: "job list"
  started :: "job list"
  executed :: "job set"

definition newMasterServer :: server where
  "newMasterServer = \<lparr>active = None, queue = [], exiting = False, stopped = False,
     listening = True, idle_armed = True, pending = 0, jobs_done = {},
     job_result = (\<lambda>_. failed []), workers = {}, panicked = False,
     submitted = {}, admitted = [], started = [], executed = {}\<rparr>"

subsection \<open>Channels\<close>

definition close_done :: "job \<Rightarrow> server \<Rightarrow> server" where
  "close_done j s = (if j \<in> jobs_done s then s\<lparr>panicked := True\<rparr>
     else s\<lparr>jobs_done := insert j (jobs_done s)\<rparr>)"

definition close_stopped :: "server \<Rightarrow> server" where
  "close_stopped s = (if stopped s then s\<lparr>panicked := True\<rparr> else s\<lparr>stopped := True\<rparr>)"

text \<open>\<open>job.result = r; close(job.done)\<close>.\<close>

definition answer :: "job \<Rightarrow> control_result \<Rightarrow> server \<Rightarrow> server" where
  "answer j r s = close_done j (s\<lparr>job_result := (job_result s)(j := r)\<rparr>)"

subsection \<open>Operations under the mutex\<close>

definition shutdownLocked :: "server \<Rightarrow> server" where
  "shutdownLocked s =
     (if exiting s \<and> stopped s then s
      else close_stopped (s\<lparr>exiting := True, idle_armed := False, listening := False\<rparr>))"

definition rejectQueueLocked :: "server \<Rightarrow> server" where
  "rejectQueueLocked s =
     (fold (\<lambda>j. answer j (failed CategoryNotStarted)) (queue s) s)\<lparr>queue := []\<rparr>"

definition stopIfIdle :: "server \<Rightarrow> server" where
  "stopIfIdle s = (if active s = None \<and> length (queue s) = 0 then shutdownLocked s else s)"

text \<open>The context of \<open>serve\<close> ends, or \<open>Accept\<close> fails.\<close>

definition stop_serving :: "server \<Rightarrow> server" where
  "stop_serving s = shutdownLocked (rejectQueueLocked s)"

text \<open>A failed heartbeat, and the handler of \<open>frameExit\<close>.\<close>

definition begin_exit :: "server \<Rightarrow> server" where
  "begin_exit s =
     (let s' = rejectQueueLocked (s\<lparr>exiting := True\<rparr>)
      in if active s' = None then shutdownLocked s' else s')"

text \<open>One tick of \<open>keepAlive\<close>: whether its context has ended, and the result of the heartbeat.\<close>

definition keepAlive_tick :: "bool \<Rightarrow> goerr option \<Rightarrow> server \<Rightarrow> server" where
  "keepAlive_tick ended heartbeat s = (if ended \<or> heartbeat = None then s else begin_exit s)"

text \<open>\<open>s.active = job; s.workers.Add(1); go s.run(job)\<close>.\<close>

definition start_job :: "job \<Rightarrow> server \<Rightarrow> server" where
  "start_job j s = s\<lparr>active := Some j, workers := insert j (workers s), started := started s @ [j]\<rparr>"

definition enqueue :: "(job \<Rightarrow> ctx_err option) \<Rightarrow> job \<Rightarrow> server \<Rightarrow> bytes \<times> server" where
  "enqueue ctx j s =
     (if exiting s then (CategoryNotStarted, s)
      else case ctx j of
        Some e \<Rightarrow> (ctx_category (Some e), s)
      | None \<Rightarrow>
          let s = s\<lparr>idle_armed := False\<rparr> in
          if active s = None then ([], start_job j (s\<lparr>admitted := admitted s @ [j]\<rparr>))
          else if length (queue s) \<ge> 16 then (CategoryQueueFull, s)
          else ([], s\<lparr>queue := queue s @ [j], admitted := admitted s @ [j]\<rparr>))"

definition cancelQueued :: "(job \<Rightarrow> ctx_err option) \<Rightarrow> job \<Rightarrow> server \<Rightarrow> server" where
  "cancelQueued ctx j s =
     (if j \<in> set (queue s) then
        let s' = answer j (failed (ctx_category (ctx j))) (s\<lparr>queue := remove1 j (queue s)\<rparr>)
        in if active s' = None \<and> length (queue s') = 0 \<and> \<not> exiting s'
           then s'\<lparr>idle_armed := True\<rparr> else s'
      else s)"

subsection \<open>The worker\<close>

text \<open>What the environment contributes to one \<open>run\<close>: the context at its start, whether the job's
  identity is the master's, and what \<open>execute\<close> returned.\<close>

record run_env =
  run_ctx :: "ctx_err option"
  run_same :: bool
  run_rc :: int
  run_err :: "goerr option"

text \<open>The part of \<open>run\<close> before the mutex: the result, \<open>terminal\<close>, and whether the command was
  executed without an error.\<close>

definition run_outcome :: "run_env \<Rightarrow> control_result \<times> bool \<times> bool" where
  "run_outcome env =
     (case run_ctx env of
        Some e \<Rightarrow> (failed (ctx_category (Some e)), False, False)
      | None \<Rightarrow>
          if \<not> run_same env then (failed CategoryIdentityMismatch, False, False)
          else case run_err env of
            None \<Rightarrow> (\<lparr>ExitCode = run_rc env, Category = []\<rparr>, False, True)
          | Some e \<Rightarrow>
              (\<lparr>ExitCode = run_rc env, Category = categoryFromError (Some e)\<rparr>, True, False))"

text \<open>The loop that promotes the next queued job whose context is still alive.\<close>

fun promote :: "(job \<Rightarrow> ctx_err option) \<Rightarrow> job list \<Rightarrow> server \<Rightarrow> server" where
  "promote ctx [] s = s\<lparr>queue := []\<rparr>"
| "promote ctx (j # js) s =
     (case ctx j of
        Some e \<Rightarrow> promote ctx js (answer j (failed (ctx_category (Some e))) s)
      | None \<Rightarrow> start_job j (s\<lparr>queue := js\<rparr>))"

definition run_finish :: "(job \<Rightarrow> ctx_err option) \<Rightarrow> run_env \<Rightarrow> job \<Rightarrow> server \<Rightarrow> server" where
  "run_finish ctx env j s =
     (case run_outcome env of (result, terminal, ok) \<Rightarrow>
        let s = (answer j result s)
              \<lparr>active := None, workers := workers s - {j},
               executed := (if ok then insert j (executed s) else executed s)\<rparr>;
            s = (if terminal then s\<lparr>exiting := True\<rparr> else s)
        in if exiting s then shutdownLocked (rejectQueueLocked s)
           else let s' = promote ctx (queue s) s
                in if active s' = None then s'\<lparr>idle_armed := True\<rparr> else s')"

subsection \<open>Interleaving\<close>

text \<open>Every connection hands its own job to \<open>enqueue\<close> once; its handler calls \<open>cancelQueued\<close> only
  after the job was admitted and its context has ended.\<close>

inductive server_step :: "server \<Rightarrow> server \<Rightarrow> bool" where
  Expire: "idle_armed s \<Longrightarrow> server_step s (s\<lparr>idle_armed := False, pending := pending s + 1\<rparr>)"
| Idle: "0 < pending s \<Longrightarrow> server_step s (stopIfIdle (s\<lparr>pending := pending s - 1\<rparr>))"
| Enqueue: "j \<notin> submitted s \<Longrightarrow> enqueue ctx j (s\<lparr>submitted := insert j (submitted s)\<rparr>) = (c, s') \<Longrightarrow>
     server_step s s'"
| Cancel: "j \<in> set (admitted s) \<Longrightarrow> ctx j \<noteq> None \<Longrightarrow> server_step s (cancelQueued ctx j s)"
| Finish: "j \<in> workers s \<Longrightarrow> server_step s (run_finish ctx env j s)"
| Stop: "server_step s (stop_serving s)"
| Begin_exit: "server_step s (begin_exit s)"
| Heartbeat: "server_step s (keepAlive_tick ended heartbeat s)"

inductive_cases server_stepE: "server_step s s'"

subsection \<open>Closed forms\<close>

text \<open>Several distinct jobs answered at once.\<close>

definition answered :: "(job \<Rightarrow> control_result) \<Rightarrow> job list \<Rightarrow> server \<Rightarrow> server" where
  "answered r js s = s\<lparr>job_result := (\<lambda>i. if i \<in> set js then r i else job_result s i),
     jobs_done := jobs_done s \<union> set js\<rparr>"

lemma answer_eq: "j \<notin> jobs_done s \<Longrightarrow> answer j (r j) s = answered r [j] s"
  by (auto simp: answer_def close_done_def answered_def fun_eq_iff)

lemma answered_Nil [simp]: "answered r [] s = s"
  by (simp add: answered_def)

lemma answered_Cons: "j \<notin> set js \<Longrightarrow> answered r js (answered r [j] s) = answered r (j # js) s"
  by (auto simp: answered_def fun_eq_iff)

lemma answered_sel [simp]:
  "active (answered r js s) = active s" "queue (answered r js s) = queue s"
  "exiting (answered r js s) = exiting s" "stopped (answered r js s) = stopped s"
  "listening (answered r js s) = listening s" "idle_armed (answered r js s) = idle_armed s"
  "pending (answered r js s) = pending s" "workers (answered r js s) = workers s"
  "panicked (answered r js s) = panicked s" "submitted (answered r js s) = submitted s"
  "admitted (answered r js s) = admitted s" "started (answered r js s) = started s"
  "executed (answered r js s) = executed s"
  "jobs_done (answered r js s) = jobs_done s \<union> set js"
  "job_result (answered r js s) = (\<lambda>i. if i \<in> set js then r i else job_result s i)"
  by (simp_all add: answered_def)

lemma fold_answer:
  assumes "distinct js" and "set js \<inter> jobs_done s = {}"
  shows "fold (\<lambda>j. answer j (failed c)) js s = answered (\<lambda>_. failed c) js s"
  using assms
proof (induction js arbitrary: s)
  case (Cons j js)
  have "answer j (failed c) s = answered (\<lambda>_. failed c) [j] s"
    using Cons.prems answer_eq [of j s "\<lambda>_. failed c"] by simp
  moreover have "fold (\<lambda>j. answer j (failed c)) js (answered (\<lambda>_. failed c) [j] s) =
      answered (\<lambda>_. failed c) js (answered (\<lambda>_. failed c) [j] s)"
    using Cons.prems by (intro Cons.IH) auto
  ultimately show ?case using Cons.prems by (simp add: answered_Cons)
qed simp

lemma rejectQueue_eq:
  assumes "distinct (queue s)" and "set (queue s) \<inter> jobs_done s = {}"
  shows "rejectQueueLocked s =
    (answered (\<lambda>_. failed CategoryNotStarted) (queue s) s)\<lparr>queue := []\<rparr>"
  by (simp add: rejectQueueLocked_def fold_answer [OF assms])

text \<open>\<open>promote\<close> answers the dead jobs in front and starts the first live one.\<close>

lemma promote_eq:
  assumes "distinct js" and "set js \<inter> jobs_done s = {}"
  shows "promote ctx js s =
    (let dead = takeWhile (\<lambda>j. ctx j \<noteq> None) js;
         s' = answered (\<lambda>j. failed (ctx_category (ctx j))) dead s
     in case drop (length dead) js of
          [] \<Rightarrow> s'\<lparr>queue := []\<rparr>
        | j # rest \<Rightarrow> start_job j (s'\<lparr>queue := rest\<rparr>))"
  using assms
proof (induction js arbitrary: s)
  case (Cons j js)
  show ?case
  proof (cases "ctx j")
    case (Some e)
    let ?r = "\<lambda>j. failed (ctx_category (ctx j))"
    have a: "answer j (failed (ctx_category (Some e))) s = answered ?r [j] s"
      using Cons.prems answer_eq [of j s ?r] Some by simp
    have "promote ctx js (answered ?r [j] s) =
      (let dead = takeWhile (\<lambda>j. ctx j \<noteq> None) js;
           s' = answered ?r dead (answered ?r [j] s)
       in case drop (length dead) js of
            [] \<Rightarrow> s'\<lparr>queue := []\<rparr>
          | j # rest \<Rightarrow> start_job j (s'\<lparr>queue := rest\<rparr>))"
      using Cons.prems by (intro Cons.IH) auto
    moreover have "j \<notin> set (takeWhile (\<lambda>j. ctx j \<noteq> None) js)"
      using Cons.prems(1) by (auto dest: set_takeWhileD)
    ultimately show ?thesis using Some
      by (simp add: a Let_def answered_Cons split: list.split)
  qed simp
qed simp

subsection \<open>The invariant\<close>

text \<open>Every admitted job is in exactly one place: queued, active with a worker, or answered.\<close>

definition jobs_inv :: "server \<Rightarrow> bool" where
  "jobs_inv s \<longleftrightarrow> \<not> panicked s \<and> length (queue s) \<le> 16 \<and> distinct (queue s) \<and>
     workers s = set_option (active s) \<and> set (queue s) \<inter> jobs_done s = {} \<and>
     set_option (active s) \<inter> (set (queue s) \<union> jobs_done s) = {} \<and>
     set (admitted s) = set (queue s) \<union> set_option (active s) \<union> jobs_done s \<and>
     distinct (admitted s) \<and> set (admitted s) \<subseteq> submitted s"

text \<open>The life of the master.\<close>

definition life_inv :: "server \<Rightarrow> bool" where
  "life_inv s \<longleftrightarrow> (exiting s \<longrightarrow> queue s = []) \<and> (active s = None \<longrightarrow> queue s = []) \<and>
     (stopped s \<longrightarrow> exiting s) \<and> (listening s \<longleftrightarrow> \<not> stopped s) \<and>
     (exiting s \<and> active s = None \<longrightarrow> stopped s) \<and>
     (\<not> exiting s \<and> active s = None \<longrightarrow> idle_armed s \<or> 0 < pending s)"

text \<open>Order and results.\<close>

definition log_inv :: "server \<Rightarrow> bool" where
  "log_inv s \<longleftrightarrow> subseq (started s @ queue s) (admitted s) \<and>
     executed s \<subseteq> jobs_done s \<inter> set (started s) \<and> set_option (active s) \<subseteq> set (started s) \<and>
     (\<forall>j \<in> jobs_done s. Category (job_result s j) = [] \<longrightarrow> j \<in> executed s)"

definition server_inv :: "server \<Rightarrow> bool" where
  "server_inv s \<longleftrightarrow> jobs_inv s \<and> life_inv s \<and> log_inv s"

lemmas inv_defs = jobs_inv_def life_inv_def log_inv_def

lemma server_inv_init: "server_inv newMasterServer"
  by (simp add: server_inv_def inv_defs newMasterServer_def)

lemma failed_category [simp]: "Category (failed c) = c"
  by (simp add: failed_def)

lemma category_nonempty [simp]: "CategoryNotStarted \<noteq> []" "CategoryIdentityMismatch \<noteq> []"
  by (simp_all add: categories)

text \<open>Emptying the queue keeps the log.\<close>

lemma subseq_part:
  assumes "subseq (xs @ ys) zs" and "subseq ys' ys"
  shows "subseq (xs @ ys') zs"
proof -
  have "subseq (xs @ ys') (xs @ ys)" using assms(2) by (simp only: subseq_append')
  then show ?thesis using assms(1) by (rule subseq_order.order_trans)
qed

lemma subseq_dropped: "subseq (xs @ ys) zs \<Longrightarrow> subseq xs zs"
  using subseq_part [of xs ys zs "[]"] by simp

lemma reject_inv:
  assumes "jobs_inv s" and "log_inv s"
  shows "jobs_inv (rejectQueueLocked s)" and "log_inv (rejectQueueLocked s)"
    and "queue (rejectQueueLocked s) = []" and "active (rejectQueueLocked s) = active s"
    and "exiting (rejectQueueLocked s) = exiting s" and "stopped (rejectQueueLocked s) = stopped s"
    and "listening (rejectQueueLocked s) = listening s"
    and "started (rejectQueueLocked s) = started s"
    and "admitted (rejectQueueLocked s) = admitted s"
proof -
  have eq: "rejectQueueLocked s =
      (answered (\<lambda>_. failed CategoryNotStarted) (queue s) s)\<lparr>queue := []\<rparr>"
    using assms(1) by (simp add: rejectQueue_eq jobs_inv_def)
  show "jobs_inv (rejectQueueLocked s)" using assms(1) by (auto simp: eq jobs_inv_def)
  show "log_inv (rejectQueueLocked s)"
    using assms(2) subseq_dropped by (auto simp: eq log_inv_def)
qed (use assms(1) in \<open>simp_all add: rejectQueue_eq jobs_inv_def\<close>)

text \<open>Shutting down when there is nothing queued.\<close>

lemma shutdown_inv:
  assumes "jobs_inv s" and "log_inv s" and "queue s = []" and "stopped s \<longrightarrow> exiting s"
    and "listening s \<longleftrightarrow> \<not> stopped s"
  shows "server_inv (shutdownLocked s)"
  using assms by (auto simp: server_inv_def inv_defs shutdownLocked_def close_stopped_def)

lemma begin_exit_inv:
  assumes "server_inv s"
  shows "server_inv (begin_exit s)"
proof -
  let ?s = "s\<lparr>exiting := True\<rparr>"
  have i: "jobs_inv ?s" "log_inv ?s" using assms by (auto simp: server_inv_def inv_defs)
  note r = reject_inv [OF i]
  have life: "listening s \<longleftrightarrow> \<not> stopped s" using assms by (simp add: server_inv_def life_inv_def)
  show ?thesis
  proof (cases "active s = None")
    case True
    then have "begin_exit s = shutdownLocked (rejectQueueLocked ?s)"
      using r by (simp add: begin_exit_def Let_def)
    with shutdown_inv [OF r(1,2,3)] r life show ?thesis by simp
  next
    case False
    then have "begin_exit s = rejectQueueLocked ?s" using r by (auto simp: begin_exit_def Let_def)
    with False r life show ?thesis by (auto simp: server_inv_def life_inv_def)
  qed
qed

lemma stop_serving_inv:
  assumes "server_inv s"
  shows "server_inv (stop_serving s)"
proof -
  have "jobs_inv s" "log_inv s" using assms by (auto simp: server_inv_def)
  note r = reject_inv [OF this]
  show ?thesis unfolding stop_serving_def
    using assms r by (intro shutdown_inv) (auto simp: server_inv_def life_inv_def)
qed

lemma idle_inv:
  assumes "server_inv s" and "0 < pending s"
  shows "server_inv (stopIfIdle (s\<lparr>pending := pending s - 1\<rparr>))"
proof (cases "active s = None \<and> queue s = []")
  case True
  then have "stopIfIdle (s\<lparr>pending := pending s - 1\<rparr>) = shutdownLocked (s\<lparr>pending := pending s - 1\<rparr>)"
    by (simp add: stopIfIdle_def)
  moreover have "server_inv \<dots>"
    using assms True by (intro shutdown_inv) (auto simp: server_inv_def inv_defs)
  ultimately show ?thesis by simp
next
  case False
  then have "stopIfIdle (s\<lparr>pending := pending s - 1\<rparr>) = s\<lparr>pending := pending s - 1\<rparr>"
    by (auto simp: stopIfIdle_def)
  with assms False show ?thesis by (auto simp: server_inv_def inv_defs)
qed

lemma subseq_snoc: "subseq (xs @ ys) zs \<Longrightarrow> subseq (xs @ ys @ [j]) (zs @ [j])"
  by (metis append_assoc subseq_append)

text \<open>What \<open>enqueue\<close> does, in three cases.\<close>

lemma enqueue_cases:
  assumes "enqueue ctx j s = (c, s')"
  obtains (refused) "c \<noteq> []" and "s' = s \<or> active s \<noteq> None \<and> s' = s\<lparr>idle_armed := False\<rparr>"
  | (run) "c = []" and "\<not> exiting s" and "active s = None"
      and "s' = start_job j (s\<lparr>idle_armed := False, admitted := admitted s @ [j]\<rparr>)"
  | (queued) "c = []" and "\<not> exiting s" and "active s \<noteq> None" and "length (queue s) < 16"
      and "s' = s\<lparr>idle_armed := False, queue := queue s @ [j], admitted := admitted s @ [j]\<rparr>"
proof (cases "exiting s \<or> ctx j \<noteq> None")
  case True
  with assms have "c \<noteq> [] \<and> s' = s" by (auto simp: enqueue_def split: if_splits option.splits)
  with refused show ?thesis by simp
next
  case False
  then have eq: "(c, s') = (let s = s\<lparr>idle_armed := False\<rparr> in
          if active s = None then ([], start_job j (s\<lparr>admitted := admitted s @ [j]\<rparr>))
          else if length (queue s) \<ge> 16 then (CategoryQueueFull, s)
          else ([], s\<lparr>queue := queue s @ [j], admitted := admitted s @ [j]\<rparr>))"
    using assms by (simp add: enqueue_def)
  have ne: "CategoryQueueFull \<noteq> []" by (simp add: categories)
  consider "active s = None" | "active s \<noteq> None" "16 \<le> length (queue s)"
    | "active s \<noteq> None" "length (queue s) < 16" by linarith
  then show ?thesis
  proof cases
    case 1
    with eq False show ?thesis by (intro run) (simp_all add: Let_def)
  next
    case 2
    with eq ne show ?thesis by (intro refused) (simp_all add: Let_def)
  next
    case 3
    with eq False show ?thesis by (intro queued) (simp_all add: Let_def)
  qed
qed

lemma enqueue_inv:
  assumes "server_inv s" and "j \<notin> submitted s"
    and "enqueue ctx j (s\<lparr>submitted := insert j (submitted s)\<rparr>) = (c, s')"
  shows "server_inv s'"
  using assms(3)
proof (cases rule: enqueue_cases)
  case refused
  from refused(2) show ?thesis
  proof
    assume "s' = s\<lparr>submitted := insert j (submitted s)\<rparr>"
    with assms(1) show ?thesis by (simp add: server_inv_def inv_defs) blast
  next
    assume "active (s\<lparr>submitted := insert j (submitted s)\<rparr>) \<noteq> None \<and>
      s' = s\<lparr>submitted := insert j (submitted s)\<rparr>\<lparr>idle_armed := False\<rparr>"
    then have s': "active s \<noteq> None" "s' = s\<lparr>submitted := insert j (submitted s), idle_armed := False\<rparr>"
      by simp_all
    have "jobs_inv s'" using s' assms(1) by (simp add: server_inv_def jobs_inv_def) blast
    moreover have "life_inv s'" using s' assms(1) by (auto simp: server_inv_def life_inv_def)
    moreover have "log_inv s'" using s' assms(1) by (simp add: server_inv_def log_inv_def)
    ultimately show ?thesis by (simp add: server_inv_def)
  qed
next
  case run
  have new: "j \<notin> set (admitted s)" using assms(1,2) by (auto simp: server_inv_def jobs_inv_def)
  have "queue s = []" using assms(1) run by (simp add: server_inv_def life_inv_def)
  note run = run(2,3) run(4) [unfolded start_job_def] this
  have "jobs_inv s'" using run assms(1) new by (simp add: server_inv_def jobs_inv_def) blast
  moreover have "life_inv s'" using run assms(1) by (simp add: server_inv_def life_inv_def)
  moreover have "log_inv s'" using run assms(1) by (auto simp: server_inv_def log_inv_def)
  ultimately show ?thesis by (simp add: server_inv_def)
next
  case queued
  have new: "j \<notin> set (admitted s)" using assms(1,2) by (auto simp: server_inv_def jobs_inv_def)
  have "jobs_inv s'" using queued assms(1) new by (auto simp: server_inv_def jobs_inv_def)
  moreover have "life_inv s'" using queued assms(1) by (auto simp: server_inv_def life_inv_def)
  moreover have "log_inv s'"
    using queued assms(1) by (auto simp: server_inv_def log_inv_def subseq_snoc)
  ultimately show ?thesis by (simp add: server_inv_def)
qed

lemma cancel_inv:
  assumes "server_inv s"
  shows "server_inv (cancelQueued ctx j s)"
proof (cases "j \<in> set (queue s)")
  case False
  with assms show ?thesis by (simp add: cancelQueued_def)
next
  case True
  let ?r = "\<lambda>j. failed (ctx_category (ctx j))"
  let ?s = "answered ?r [j] (s\<lparr>queue := remove1 j (queue s)\<rparr>)"
  have inv: "jobs_inv s" "life_inv s" "log_inv s" using assms by (auto simp: server_inv_def)
  have notdone: "j \<notin> jobs_done s" using True inv(1) by (auto simp: jobs_inv_def)
  have busy: "active s \<noteq> None" using True inv(2) by (auto simp: life_inv_def)
  have eq: "cancelQueued ctx j s = ?s"
    using True busy notdone answer_eq [of j "s\<lparr>queue := remove1 j (queue s)\<rparr>" ?r]
    by (auto simp: cancelQueued_def Let_def)
  have "subseq (remove1 j (queue s)) (queue s)"
    using inv(1) by (simp add: jobs_inv_def distinct_remove1_removeAll removeAll_filter_not_eq)
  then have "log_inv ?s" using inv(3) subseq_part by (auto simp: log_inv_def)
  moreover have "jobs_inv ?s" using inv(1) True notdone by (auto simp: jobs_inv_def length_remove1)
  moreover have "life_inv ?s" using inv(2) busy by (auto simp: life_inv_def)
  ultimately show ?thesis by (simp add: eq server_inv_def)
qed

text \<open>The worker's last section, before the queue is looked at.\<close>

definition worker_left :: "run_env \<Rightarrow> job \<Rightarrow> server \<Rightarrow> server" where
  "worker_left env j s =
     (case run_outcome env of (result, terminal, ok) \<Rightarrow>
        let s = (answered (\<lambda>_. result) [j] s)
              \<lparr>active := None, workers := workers s - {j},
               executed := (if ok then insert j (executed s) else executed s)\<rparr>
        in if terminal then s\<lparr>exiting := True\<rparr> else s)"

lemma run_finish_eq:
  assumes "j \<notin> jobs_done s"
  shows "run_finish ctx env j s =
    (let s = worker_left env j s in
     if exiting s then shutdownLocked (rejectQueueLocked s)
     else let s' = promote ctx (queue s) s in if active s' = None then s'\<lparr>idle_armed := True\<rparr> else s')"
proof -
  obtain r t ok where o: "run_outcome env = (r, t, ok)" by (metis prod_cases3)
  show ?thesis
    using answer_eq [OF assms, of "\<lambda>_. r"]
    unfolding run_finish_def worker_left_def o by (simp only: prod.case Let_def)
qed

lemma run_outcome_success: "run_outcome env = (r, t, ok) \<Longrightarrow> Category r = [] \<longleftrightarrow> ok"
  by (auto simp: run_outcome_def split: option.splits if_splits)

lemma worker_left_sel [simp]:
  "active (worker_left env j s) = None" "queue (worker_left env j s) = queue s"
  "stopped (worker_left env j s) = stopped s" "listening (worker_left env j s) = listening s"
  "admitted (worker_left env j s) = admitted s" "started (worker_left env j s) = started s"
  "jobs_done (worker_left env j s) = insert j (jobs_done s)"
  "exiting s \<Longrightarrow> exiting (worker_left env j s)"
  by (simp_all add: worker_left_def Let_def split: prod.splits)

lemma worker_left_inv:
  assumes "server_inv s" and "j \<in> workers s"
  shows "jobs_inv (worker_left env j s)" and "log_inv (worker_left env j s)"
proof -
  obtain r t ok where o: "run_outcome env = (r, t, ok)" by (metis prod_cases3)
  have a: "active s = Some j" using assms by (auto simp: server_inv_def jobs_inv_def)
  show "jobs_inv (worker_left env j s)"
    using assms(1) a by (auto simp: worker_left_def o Let_def server_inv_def jobs_inv_def)
  show "log_inv (worker_left env j s)"
    using assms(1) a run_outcome_success [OF o]
    by (auto simp: worker_left_def o Let_def server_inv_def log_inv_def jobs_inv_def)
qed

text \<open>\<open>promote\<close> on a server whose active job has left.\<close>

lemma promote_inv:
  fixes ctx :: "job \<Rightarrow> ctx_err option"
  assumes "jobs_inv s" and "log_inv s" and "active s = None" and "\<not> exiting s" and "\<not> stopped s"
    and "listening s"
  defines "s' \<equiv> promote ctx (queue s) s"
  shows "server_inv (if active s' = None then s'\<lparr>idle_armed := True\<rparr> else s')"
proof -
  define dead where "dead = takeWhile (\<lambda>j. ctx j \<noteq> None) (queue s)"
  let ?r = "\<lambda>j. failed (ctx_category (ctx j))"
  let ?a = "answered ?r dead s"
  define rest where "rest = drop (length dead) (queue s)"
  have q: "queue s = dead @ rest" by (simp add: dead_def rest_def flip: dropWhile_eq_drop)
  have d: "distinct (queue s)" "set (queue s) \<inter> jobs_done s = {}" using assms(1) by (auto simp: jobs_inv_def)
  have eq: "s' = (case rest of [] \<Rightarrow> ?a\<lparr>queue := []\<rparr> | j # js \<Rightarrow> start_job j (?a\<lparr>queue := js\<rparr>))"
    unfolding s'_def promote_eq [OF d] Let_def dead_def rest_def ..
  have sub: "subseq (started s @ rest) (admitted s)"
    using assms(2) subseq_part [of "started s" "queue s" "admitted s" rest] q
    by (auto simp: log_inv_def)
  show ?thesis
  proof (cases rest)
    case Nil
    then have s': "s' = ?a\<lparr>queue := []\<rparr>" by (simp add: eq)
    have "jobs_inv (s'\<lparr>idle_armed := True\<rparr>)"
      using assms(1,3) q Nil by (auto simp: s' jobs_inv_def)
    moreover have "log_inv (s'\<lparr>idle_armed := True\<rparr>)"
      using assms(2) sub Nil by (auto simp: s' log_inv_def)
    moreover have "life_inv (s'\<lparr>idle_armed := True\<rparr>)"
      using assms(3-6) by (auto simp: s' life_inv_def)
    ultimately show ?thesis using assms(3) by (simp add: s' server_inv_def)
  next
    case (Cons j js)
    then have s': "s' = start_job j (?a\<lparr>queue := js\<rparr>)" by (simp add: eq)
    have "jobs_inv s'"
      using assms(1,3) q Cons by (auto simp: s' start_job_def jobs_inv_def)
    moreover have "log_inv s'"
      using assms(2,3) sub Cons by (auto simp: s' start_job_def log_inv_def)
    moreover have "life_inv s'" using assms(4-6) by (simp add: s' start_job_def life_inv_def)
    ultimately show ?thesis by (simp add: s' start_job_def server_inv_def)
  qed
qed

lemma finish_inv:
  assumes "server_inv s" and "j \<in> workers s"
  shows "server_inv (run_finish ctx env j s)"
proof -
  let ?w = "worker_left env j s"
  have "active s = Some j" "j \<notin> jobs_done s"
    using assms by (auto simp: server_inv_def jobs_inv_def)
  note eq = run_finish_eq [OF this(2), of ctx env]
  note w = worker_left_inv [OF assms, of env]
  have life: "stopped s \<longrightarrow> exiting s" "listening s \<longleftrightarrow> \<not> stopped s"
    using assms(1) by (auto simp: server_inv_def life_inv_def)
  show ?thesis
  proof (cases "exiting ?w")
    case True
    note r = reject_inv [OF w]
    have "server_inv (shutdownLocked (rejectQueueLocked ?w))"
      using r True life by (intro shutdown_inv) simp_all
    with True show ?thesis by (simp add: eq Let_def)
  next
    case False
    then have "\<not> stopped s" using life by auto
    have "server_inv (let s' = promote ctx (queue ?w) ?w in
        if active s' = None then s'\<lparr>idle_armed := True\<rparr> else s')"
      unfolding Let_def using promote_inv [OF w _ False, of ctx] \<open>\<not> stopped s\<close> life by simp
    with False show ?thesis unfolding eq by (simp only: Let_def if_False)
  qed
qed

lemma server_inv_step:
  assumes "server_inv s" and "server_step s s'"
  shows "server_inv s'"
  using assms(2)
proof (cases rule: server_step.cases)
  case Expire
  with assms(1) show ?thesis by (auto simp: server_inv_def inv_defs)
next
  case Idle
  then show ?thesis using idle_inv [OF assms(1)] by simp
qed (use assms(1) in \<open>auto intro: enqueue_inv cancel_inv finish_inv stop_serving_inv
    begin_exit_inv simp: keepAlive_tick_def\<close>)

interpretation server: invariant_system "\<lambda>s. s = newMasterServer" server_step server_inv
  by unfold_locales (auto intro: server_inv_init server_inv_step)

subsection \<open>Nothing starts once the master is exiting\<close>

lemma shutdown_sel [simp]:
  "started (shutdownLocked s) = started s" "exiting (shutdownLocked s)"
  "admitted (shutdownLocked s) = admitted s"
  by (auto simp: shutdownLocked_def close_stopped_def)

lemma begin_exit_starts_nothing:
  assumes "server_inv s"
  shows "exiting (begin_exit s) \<and> started (begin_exit s) = started s \<and> admitted (begin_exit s) = admitted s"
proof -
  have "jobs_inv (s\<lparr>exiting := True\<rparr>)" "log_inv (s\<lparr>exiting := True\<rparr>)"
    using assms by (auto simp: server_inv_def inv_defs)
  from reject_inv [OF this] show ?thesis by (simp add: begin_exit_def Let_def)
qed

lemma exiting_step:
  assumes "server_inv s" and "exiting s" and "server_step s s'"
  shows "exiting s' \<and> (started s', admitted s') = (started s, admitted s)"
  using assms(3)
proof (cases rule: server_step.cases)
  case Idle
  with assms(2) show ?thesis by (simp add: stopIfIdle_def)
next
  case (Enqueue j ctx c)
  with assms(2) show ?thesis by (auto simp: enqueue_def)
next
  case (Cancel j ctx)
  with assms(1,2) show ?thesis by (auto simp: cancelQueued_def server_inv_def life_inv_def)
next
  case (Finish j ctx env)
  have "j \<notin> jobs_done s" using assms(1) Finish by (auto simp: server_inv_def jobs_inv_def)
  note w = worker_left_inv [OF assms(1) Finish(2), of env]
  show ?thesis using assms(2) Finish reject_inv [OF w]
    by (simp add: run_finish_eq [OF \<open>j \<notin> jobs_done s\<close>] Let_def)
next
  case Stop
  have "jobs_inv s" "log_inv s" using assms(1) by (auto simp: server_inv_def)
  with Stop reject_inv [OF this] show ?thesis by (simp add: stop_serving_def)
next
  case Begin_exit
  with begin_exit_starts_nothing [OF assms(1)] show ?thesis by simp
next
  case Heartbeat
  with assms(2) begin_exit_starts_nothing [OF assms(1)] show ?thesis by (simp add: keepAlive_tick_def)
qed (use assms(2) in simp)

interpretation exiting_server:
  monotone_steps "\<lambda>s. s = newMasterServer" server_step server_inv exiting "\<lambda>s. (started s, admitted s)"
  by unfold_locales (rule exiting_step)

subsection \<open>Properties\<close>

abbreviation server_reachable :: "server \<Rightarrow> bool" where
  "server_reachable \<equiv> reachable (\<lambda>s. s = newMasterServer) server_step"

text \<open>C2: In every interleaving of connections, worker, timer, heartbeat, exit requests and shutdown,
  no channel is closed twice, at most sixteen jobs wait and at most one worker runs, and every
  admitted job is in exactly one place: waiting, active with its worker, or answered once.\<close>

theorem master_one_place:
  assumes "server_reachable s"
  shows "\<not> panicked s \<and> length (queue s) \<le> 16 \<and> workers s = set_option (active s) \<and>
    set (admitted s) = set (queue s) \<union> set_option (active s) \<union> jobs_done s \<and>
    distinct (queue s) \<and> set (queue s) \<inter> jobs_done s = {} \<and>
    set_option (active s) \<inter> (set (queue s) \<union> jobs_done s) = {}"
  using server.reachable_inv [OF assms] by (auto simp: server_inv_def jobs_inv_def)

text \<open>A master with one active job.\<close>

lemma busy_reachable:
  "server_reachable (snd (enqueue (\<lambda>_. None) 7 (newMasterServer\<lparr>submitted := {7}\<rparr>)))"
proof -
  have "server_step newMasterServer (snd (enqueue (\<lambda>_. None) 7 (newMasterServer\<lparr>submitted := {7}\<rparr>)))"
    by (rule server_step.Enqueue [of 7 _ "\<lambda>_. None" "[]"])
      (simp_all add: newMasterServer_def enqueue_def)
  with reachable.start [of "\<lambda>s. s = newMasterServer" newMasterServer server_step] show ?thesis
    by (auto intro: reachable.extend)
qed

theorem master_one_place_witness:
  "workers (snd (enqueue (\<lambda>_. None) 7 (newMasterServer\<lparr>submitted := {7}\<rparr>))) = {7}"
  using master_one_place [OF busy_reachable] by (simp add: enqueue_def newMasterServer_def start_job_def)

text \<open>C33: Jobs start in the order of their admission: the started jobs followed by the waiting ones are
  a subsequence of the admitted ones (a job may leave the queue when its context ends), and no job
  starts twice.\<close>

theorem master_fifo:
  assumes "server_reachable s"
  shows "subseq (started s @ queue s) (admitted s) \<and> distinct (started s @ queue s)"
proof -
  have "subseq (started s @ queue s) (admitted s)" "distinct (admitted s)"
    using server.reachable_inv [OF assms] by (auto simp: server_inv_def log_inv_def jobs_inv_def)
  then show ?thesis by (metis subseqs_distinctD in_set_subseqs)
qed

theorem master_fifo_witness:
  "distinct (started (snd (enqueue (\<lambda>_. None) 7 (newMasterServer\<lparr>submitted := {7}\<rparr>))))"
  using master_fifo [OF busy_reachable] by simp

text \<open>A job is answered with success (the empty category) only if its command was executed and
  the executor returned no error; a job that never started is answered with a failure category.\<close>

theorem master_success_executed:
  assumes "server_reachable s" and "j \<in> jobs_done s" and "Category (job_result s j) = []"
  shows "j \<in> executed s \<and> j \<in> set (started s)"
  using server.reachable_inv [OF assms(1)] assms(2,3) by (auto simp: server_inv_def log_inv_def)

text \<open>The master of the example after its job's worker ended.\<close>

definition sample_env :: run_env where
  "sample_env = \<lparr>run_ctx = None, run_same = True, run_rc = 3, run_err = None\<rparr>"

definition sample_done :: server where
  "sample_done = run_finish (\<lambda>_. None) sample_env 7
     (snd (enqueue (\<lambda>_. None) 7 (newMasterServer\<lparr>submitted := {7}\<rparr>)))"

lemma sample_done_reachable: "server_reachable sample_done"
proof -
  let ?s = "snd (enqueue (\<lambda>_. None) 7 (newMasterServer\<lparr>submitted := {7}\<rparr>))"
  have "7 \<in> workers ?s" by (simp add: enqueue_def newMasterServer_def start_job_def)
  then have "server_step ?s sample_done" unfolding sample_done_def by (rule server_step.Finish)
  with busy_reachable show ?thesis by (rule reachable.extend)
qed

theorem master_success_executed_witness: "7 \<in> executed sample_done"
  by (rule master_success_executed [OF sample_done_reachable, THEN conjunct1])
    (simp_all add: sample_done_def run_finish_def enqueue_def newMasterServer_def start_job_def
      run_outcome_def sample_env_def answer_def close_done_def Let_def)

text \<open>C34: Once the master is exiting (an exit request, a failed heartbeat, a failed command, a closed
  listener) it admits and starts no further job in any continuation, and as soon as no job is
  active it has stopped.\<close>

theorem master_exit_final:
  assumes "server_reachable s" and "exiting s" and "steps server_step s t"
  shows "exiting t \<and> started t = started s \<and> admitted t = admitted s \<and> queue t = [] \<and>
    (active t = None \<longrightarrow> stopped t \<and> \<not> listening t)"
proof -
  have inv: "server_inv s" by (rule server.reachable_inv [OF assms(1)])
  have "server_inv t" by (rule server.steps_inv [OF assms(3) inv])
  then show ?thesis
    using exiting_server.P_forever [OF assms(3) inv assms(2)]
    by (auto simp: server_inv_def life_inv_def)
qed

theorem master_exit_final_witness:
  "stopped (begin_exit sample_done)"
proof -
  have r: "server_reachable (begin_exit sample_done)"
    by (rule reachable.extend [OF sample_done_reachable server_step.Begin_exit])
  show ?thesis
    using master_exit_final [OF r _ steps.stay]
    by (simp add: sample_done_def run_finish_def enqueue_def newMasterServer_def start_job_def
      run_outcome_def sample_env_def answer_def close_done_def Let_def begin_exit_def
      rejectQueueLocked_def shutdownLocked_def close_stopped_def)
qed

text \<open>The steps of the idle timer alone: it expires, and its callback runs.\<close>

inductive timer_step :: "server \<Rightarrow> server \<Rightarrow> bool" where
  Expires: "idle_armed s \<Longrightarrow> timer_step s (s\<lparr>idle_armed := False, pending := pending s + 1\<rparr>)"
| Callback: "0 < pending s \<Longrightarrow> timer_step s (stopIfIdle (s\<lparr>pending := pending s - 1\<rparr>))"

inductive_cases timer_stepE: "timer_step s s'"

lemma timer_step_server: "timer_step s t \<Longrightarrow> server_step s t"
  by (induction rule: timer_step.induct) (erule server_step.Expire server_step.Idle)+

lemma callback_stops:
  assumes "server_inv s" "active s = None" "0 < pending s"
  shows "stopped (stopIfIdle (s\<lparr>pending := pending s - 1\<rparr>)) \<and> active (stopIfIdle (s\<lparr>pending := pending s - 1\<rparr>)) = None"
  using assms by (auto simp: stopIfIdle_def shutdownLocked_def close_stopped_def server_inv_def life_inv_def)

lemma timer_stops:
  assumes inv: "server_inv s" and idle: "active s = None" and t: "timer_step s t"
  shows "active t = None" and "stopped t \<or> 0 < pending t \<and> \<not> idle_armed t" and "stopped s \<Longrightarrow> stopped t"
  using t callback_stops [OF inv idle] idle by (auto elim!: timer_stepE)

text \<open>C35: A master without work is never left running for ever: with no active job and no exit under
  way its idle timer is armed or has already expired.  The timer alone then stops it: a step of the timer is
  possible, at most one more is needed, and any two steps of the timer leave the master stopped, exiting and with its
  listener closed.\<close>

theorem master_idle_stops:
  assumes "server_reachable s" and "active s = None" and "\<not> exiting s"
  shows "(idle_armed s \<or> 0 < pending s) \<and>
    (\<exists>t. timer_step s t \<and> (stopped t \<or> (\<exists>u. timer_step t u \<and> stopped u))) \<and>
    (\<forall>t u. timer_step s t \<and> timer_step t u \<longrightarrow> stopped u \<and> exiting u \<and> \<not> listening u)"
proof (intro conjI allI impI)
  have inv: "server_inv s" by (rule server.reachable_inv [OF assms(1)])
  then show armed: "idle_armed s \<or> 0 < pending s" using assms(2,3) by (auto simp: server_inv_def life_inv_def)
  have after: "stopped u \<and> server_inv u" if "timer_step s t" "timer_step t u" for t u
  proof -
    have i: "server_inv t" by (rule server.inv_step [OF inv timer_step_server [OF that(1)]])
    note a = timer_stops(1,2) [OF inv assms(2) that(1)] and b = timer_stops(2,3) [OF i _ that(2)]
    have "stopped u" using that(2) a b callback_stops [OF i] by (auto elim!: timer_stepE)
    then show ?thesis using server.inv_step [OF i timer_step_server [OF that(2)]] by simp
  qed
  from armed obtain t where t: "timer_step s t" by (auto intro: timer_step.intros)
  show "\<exists>t. timer_step s t \<and> (stopped t \<or> (\<exists>u. timer_step t u \<and> stopped u))"
  proof (cases "stopped t")
    case False
    with timer_stops(2) [OF inv assms(2) t] obtain u where u: "timer_step t u" by (auto intro: timer_step.intros)
    with after [OF t u] t show ?thesis by blast
  qed (use t in blast)
  fix t u assume "timer_step s t \<and> timer_step t u"
  then have "stopped u \<and> server_inv u" using after by blast
  then show "stopped u" "exiting u" "\<not> listening u" by (auto simp: server_inv_def life_inv_def)
qed

theorem master_idle_stops_witness:
  "\<exists>t. timer_step newMasterServer t \<and> (stopped t \<or> (\<exists>u. timer_step t u \<and> stopped u))"
  using master_idle_stops [OF reachable.start
      [of "\<lambda>s. s = newMasterServer" newMasterServer server_step, OF refl]] by (simp add: newMasterServer_def)

end
