(* ===== verification/Client.thy ===== *)
theory Client
  imports Server
begin

text \<open>
  The two ends of one control connection: the decision \<open>handle\<close> takes on the first frame
  (\<open>internal/control/server.go\<close>), with \<open>sameTarget\<close> and \<open>checkTarget\<close>, and the client's
  \<open>invokeConn\<close> (\<open>internal/control/client.go\<close>).  JSON encoding and decoding, endpoint
  normalisation and lower-casing are library routines and enter as parameters.
\<close>

subsection \<open>Targets\<close>

text \<open>\<open>Identity.canonical\<close>: \<open>norm\<close> normalises the endpoint, \<open>lower\<close> is \<open>strings.ToLower\<close>.\<close>

record naming =
  norm :: "bytes \<Rightarrow> bytes"
  lower :: "bytes \<Rightarrow> bytes"

definition canonical :: "naming \<Rightarrow> identity \<Rightarrow> identity" where
  "canonical n i = i\<lparr>id_endpoint := norm n (id_endpoint i), id_host := lower n (id_host i)\<rparr>"

definition sameTarget :: "naming \<Rightarrow> identity \<Rightarrow> identity \<Rightarrow> bool" where
  "sameTarget n i j \<longleftrightarrow> canonical n i = canonical n j"

definition checkTarget :: "naming \<Rightarrow> identity \<Rightarrow> int \<Rightarrow> server \<Rightarrow> identity \<times> int \<Rightarrow> control_result" where
  "checkTarget n own persist s target =
     (if exiting s then failed CategoryUnavailable
      else if \<not> sameTarget n own (fst target) then failed CategoryIdentityMismatch
      else if persist \<noteq> snd target then failed CategoryPersistMismatch
      else failed [])"

subsection \<open>The first frame\<close>

text \<open>What \<open>handle\<close> does next: close silently, write one frame, begin the exit and answer after it, or
  submit a job.\<close>

datatype reaction = Hang_up | Write_error bytes | Write_result control_result | Exit_then_result | Submit call

record codec =
  decode_target :: "bytes \<Rightarrow> (identity \<times> int) option"
  decode_call :: "bytes \<Rightarrow> call option"
  decode_result :: "bytes \<Rightarrow> control_result option"

definition handle ::
  "codec \<Rightarrow> naming \<Rightarrow> identity \<Rightarrow> int \<Rightarrow> int \<Rightarrow> server \<Rightarrow> goerr + frame \<Rightarrow> reaction" where
  "handle js n own persist now s inp =
     (case inp of
        Inl e \<Rightarrow> Hang_up
      | Inr (kind, payload) \<Rightarrow>
          if kind = frameCheck \<or> kind = frameExit then
            (case decode_target js payload of
               None \<Rightarrow> Write_error CategoryNotStarted
             | Some target \<Rightarrow>
                 let result = checkTarget n own persist s target in
                 if Category result \<noteq> [] \<or> kind = frameCheck then Write_result result
                 else Exit_then_result)
          else if kind = frameRequest then
            (case decode_call js payload of
               None \<Rightarrow> Write_error CategoryNotStarted
             | Some c \<Rightarrow>
                 if validateCall c \<noteq> None then Write_error CategoryNotStarted
                 else
                   let result = checkTarget n own persist s (call_identity c, call_persist c) in
                   if Category result \<noteq> [] then Write_result result
                   else if \<not> (case call_deadline c of None \<Rightarrow> False | Some d \<Rightarrow> now < d)
                   then Write_result (failed CategoryTimeout)
                   else Submit c)
          else Write_error CategoryNotStarted)"

text \<open>A job is submitted only for a request frame whose call decodes and is valid (a non-empty
  UTF-8 command without NUL and a deadline), while the master is not exiting, for the same target
  and lifetime, and before the deadline; every such frame is submitted.\<close>

theorem handle_submits:
  "handle js n own persist now s inp = Submit c \<longleftrightarrow>
     (\<exists>payload d. inp = Inr (frameRequest, payload) \<and> decode_call js payload = Some c \<and>
        call_command c \<noteq> [] \<and> length (call_command c) \<le> 32768 \<and> valid_utf8 (call_command c) \<and>
        CHR 0x00 \<notin> set (call_command c) \<and> call_deadline c = Some d \<and> now < d \<and> \<not> exiting s \<and>
        canonical n own = canonical n (call_identity c) \<and> persist = call_persist c)"
proof -
  have valid: "validateCall c = None \<longleftrightarrow> call_command c \<noteq> [] \<and> length (call_command c) \<le> 32768 \<and>
      valid_utf8 (call_command c) \<and> CHR 0x00 \<notin> set (call_command c) \<and> call_deadline c \<noteq> None" for c
    by (auto simp: validateCall_def)
  have target: "Category (checkTarget n own persist s (call_identity c, call_persist c)) = [] \<longleftrightarrow>
      \<not> exiting s \<and> canonical n own = canonical n (call_identity c) \<and> persist = call_persist c" for c
    by (auto simp: checkTarget_def sameTarget_def categories)
  have kinds: "frameRequest \<noteq> frameCheck" "frameRequest \<noteq> frameExit" by (simp_all add: frame_types)
  show ?thesis
  proof (cases inp)
    case (Inr f)
    obtain kind payload where f: "f = (kind, payload)" by (cases f)
    show ?thesis
    proof (cases "kind = frameRequest")
      case True
      show ?thesis
      proof (cases "decode_call js payload")
        case (Some c')
        have "handle js n own persist now s inp = Submit c \<longleftrightarrow> c' = c \<and> validateCall c' = None \<and>
          Category (checkTarget n own persist s (call_identity c', call_persist c')) = [] \<and>
          (case call_deadline c' of None \<Rightarrow> False | Some d \<Rightarrow> now < d)"
          using kinds by (auto simp: handle_def Inr f True Some Let_def)
        then show ?thesis unfolding valid target by (auto simp: Inr f True Some split: option.splits)
      qed (simp add: handle_def Inr f True kinds)
    next
      case False
      then show ?thesis by (simp add: handle_def Inr f Let_def split: option.split)
    qed
  qed (simp add: handle_def)
qed

subsection \<open>invokeConn\<close>

text \<open>
  \<open>uncertainCommandError\<close> and the helpers under it: \<open>ended\<close> is the command context's error at that
  moment, \<open>overdue\<close> says whether the deadline has passed.
\<close>

definition transportError :: "ctx_err option \<Rightarrow> goerr \<Rightarrow> goerr" where
  "transportError ended err =
     (case ended of
        Some e \<Rightarrow> ctx_goerr e
      | None \<Rightarrow> if as_net_timeout err = Some True then Sentinel CtxDeadlineExceeded else err)"

definition transportCommandError :: "ctx_err option \<Rightarrow> bool \<Rightarrow> goerr \<Rightarrow> goerr" where
  "transportCommandError ended overdue err =
     (if overdue then Sentinel CtxDeadlineExceeded else transportError ended err)"

definition uncertainCommandError :: "ctx_err option \<Rightarrow> bool \<Rightarrow> goerr \<Rightarrow> goerr" where
  "uncertainCommandError ended overdue err =
     (let failure = transportCommandError ended overdue err in
      if errors_is failure CtxCanceled \<or> errors_is failure CtxDeadlineExceeded
      then Joined [failure, CategoryErr CategoryRemoteStateUnknown]
      else CategoryErr CategoryRemoteStateUnknown)"

text \<open>
  What the environment decides in one turn of the loop: the context's error when the turn checks it,
  whether the deadline has passed, the caller's writer (bytes accepted and error), and whether the
  context ended before the write returned.
\<close>

record turn =
  turn_ctx :: "ctx_err option"
  turn_overdue :: bool
  turn_write :: "bytes \<Rightarrow> nat \<times> goerr option"
  turn_abandoned :: "ctx_err option"

lemma readFrame_shrinks: "readFrame (b, e) = Inr (f, b', e') \<Longrightarrow> length b' < length b"
  using readFrame_ok [of b e f b' e'] by (auto simp: frame_bytes_def)

text \<open>The turns are numbered; \<open>out\<close> collects what was handed to the two writers.\<close>

function client_loop ::
  "codec \<Rightarrow> (nat \<Rightarrow> turn) \<Rightarrow> nat \<Rightarrow> reader \<Rightarrow> bytes \<Rightarrow> bytes \<Rightarrow> (goerr + control_result) \<times> bytes \<times> bytes" where
  "client_loop js env k r out err =
     (case readFrame r of
        Inl e \<Rightarrow> (Inl (uncertainCommandError (turn_ctx (env k)) (turn_overdue (env k)) e), out, err)
      | Inr ((kind, payload), r') \<Rightarrow>
          if kind = frameStdout \<or> kind = frameStderr then
            (if turn_ctx (env k) \<noteq> None then client_loop js env (k + 1) r' out err
             else case turn_abandoned (env k) of
               Some e \<Rightarrow>
                 (Inl (Joined [ctx_goerr e, CategoryErr CategoryRemoteStateUnknown]), out, err)
             | None \<Rightarrow>
                 (case turn_write (env k) payload of (n, we) \<Rightarrow>
                   let out' = (if kind = frameStdout then out @ payload else out);
                       err' = (if kind = frameStderr then err @ payload else err) in
                   (case we of
                      Some e \<Rightarrow> (Inl (Joined [e, CategoryErr CategoryRemoteStateUnknown]), out', err')
                    | None \<Rightarrow>
                        if n \<noteq> length payload
                        then (Inl (Joined [Sentinel IoShortWrite, CategoryErr CategoryRemoteStateUnknown]), out', err')
                        else client_loop js env (k + 1) r' out' err')))
          else if kind = frameResult then
            (case decode_result js payload of
               None \<Rightarrow> (Inl (Sentinel ErrProtocol), out, err)
             | Some result \<Rightarrow>
                 if ExitCode result < 0 \<or> ExitCode result > 2 ^ 32 - 1 \<or>
                    Category result \<noteq> [] \<and> \<not> validCategory (Category result)
                 then (Inl (Sentinel ErrProtocol), out, err)
                 else (case turn_ctx (env k) of
                     Some e \<Rightarrow> if Category result = [] then (Inl (ctx_goerr e), out, err)
                               else (Inr result, out, err)
                   | None \<Rightarrow> (Inr result, out, err)))
          else if kind = frameError then
            (if validCategory payload then (Inl (CategoryErr payload), out, err)
             else (Inl (Sentinel ErrProtocol), out, err))
          else (Inl (Sentinel ErrProtocol), out, err))"
  by pat_completeness auto
termination
  apply (relation "measure (\<lambda>(js, env, k, r, out, err). length (fst r))")
  apply (auto dest: readFrame_shrinks)
  done

declare client_loop.simps [simp del]

definition invokeConn ::
  "codec \<Rightarrow> (nat \<Rightarrow> turn) \<Rightarrow> call \<Rightarrow> bool \<Rightarrow> goerr option \<Rightarrow> goerr option \<Rightarrow> reader \<Rightarrow>
   (goerr + control_result) \<times> bytes \<times> bytes" where
  "invokeConn js env c writers deadline_err request_err r =
     (case validateCall c of
        Some e \<Rightarrow> (Inl e, [], [])
      | None \<Rightarrow>
          if \<not> writers then (Inl (Sentinel ErrProtocol), [], [])
          else (case deadline_err of
              Some e \<Rightarrow> (Inl e, [], [])
            | None \<Rightarrow>
                (case request_err of
                   Some e \<Rightarrow>
                     (Inl (uncertainCommandError (turn_ctx (env 0)) (turn_overdue (env 0)) e), [], [])
                 | None \<Rightarrow> client_loop js env 0 r [] [])))"

text \<open>\<open>Invoke\<close>: an invalid or overdue call is not sent; \<open>dialled\<close> is the answer of \<open>DialContext\<close>.\<close>

definition Invoke ::
  "codec \<Rightarrow> (nat \<Rightarrow> turn) \<Rightarrow> int \<Rightarrow> goerr + reader \<Rightarrow> call \<Rightarrow> bool \<Rightarrow> goerr option \<Rightarrow> goerr option \<Rightarrow>
   (goerr + control_result) \<times> bytes \<times> bytes" where
  "Invoke js env now dialled c writers deadline_err request_err =
     (case validateCall c of
        Some e \<Rightarrow> (Inl e, [], [])
      | None \<Rightarrow>
          if \<not> (case call_deadline c of None \<Rightarrow> False | Some d \<Rightarrow> now < d)
          then (Inl (Sentinel CtxDeadlineExceeded), [], [])
          else (case dialled of
              Inl e \<Rightarrow> (Inl e, [], [])
            | Inr r \<Rightarrow> invokeConn js env c writers deadline_err request_err r))"

subsection \<open>What the client's answer means\<close>

definition stream_of :: "frame_type \<Rightarrow> frame list \<Rightarrow> bytes" where
  "stream_of kind fs = concat (map snd (filter (\<lambda>f. fst f = kind) fs))"

lemma stream_of_simps [simp]:
  "stream_of kind [] = []"
  "stream_of kind (f # fs) = (if fst f = kind then snd f @ stream_of kind fs else stream_of kind fs)"
  by (simp_all add: stream_of_def)

text \<open>A context that has ended stays ended.\<close>

definition ctx_monotone :: "(nat \<Rightarrow> turn) \<Rightarrow> bool" where
  "ctx_monotone env \<longleftrightarrow> (\<forall>k m. k \<le> m \<longrightarrow> turn_ctx (env k) \<noteq> None \<longrightarrow> turn_ctx (env m) \<noteq> None)"

text \<open>One turn of a run that ends with a result.\<close>

lemma client_loop_turn:
  assumes "client_loop js env k r out err = (Inr res, out', err')"
  obtains (delivered) kind p r' where "readFrame r = Inr ((kind, p), r')"
      and "kind \<in> {frameStdout, frameStderr}"
      and "turn_ctx (env k) = None"
      and "client_loop js env (k + 1) r' (if kind = frameStdout then out @ p else out)
         (if kind = frameStderr then err @ p else err) = (Inr res, out', err')"
  | (dropped) f r' where "readFrame r = Inr (f, r')"
      and "turn_ctx (env k) \<noteq> None"
      and "client_loop js env (k + 1) r' out err = (Inr res, out', err')"
  | (final) p r' where "readFrame r = Inr ((frameResult, p), r')"
      and "decode_result js p = Some res"
      and "0 \<le> ExitCode res"
      and "ExitCode res \<le> 2 ^ 32 - 1"
      and "Category res = [] \<or> validCategory (Category res)"
      and "turn_ctx (env k) = None \<or> Category res \<noteq> []"
      and "out' = out"
      and "err' = err"
proof (cases "readFrame r")
  case (Inl e)
  with assms show ?thesis by (simp add: client_loop.simps [of js env k r out err])
next
  case (Inr a)
  obtain kind p r' where a: "readFrame r = Inr ((kind, p), r')" using Inr by (metis surj_pair)
  note run = assms [unfolded client_loop.simps [of js env k r out err], unfolded a, simplified]
  consider "kind = frameStdout \<or> kind = frameStderr" "turn_ctx (env k) \<noteq> None"
    | "kind = frameStdout \<or> kind = frameStderr" "turn_ctx (env k) = None"
    | "kind = frameResult" | "kind \<noteq> frameResult" "\<not> (kind = frameStdout \<or> kind = frameStderr)"
    by blast
  then show ?thesis
  proof cases
    case 1
    with run have "client_loop js env (Suc k) r' out err = (Inr res, out', err')" by auto
    with 1 a show ?thesis by (intro dropped) auto
  next
    case 2
    with run have "client_loop js env (k + 1) r' (if kind = frameStdout then out @ p else out)
         (if kind = frameStderr then err @ p else err) = (Inr res, out', err')"
      by (auto simp: Let_def split: option.splits prod.splits if_splits)
    with 2 a show ?thesis by (intro delivered) auto
  next
    case 3
    have "frameResult \<noteq> frameStdout" "frameResult \<noteq> frameStderr" by (simp_all add: frame_types)
    with 3 run have "decode_result js p = Some res" "0 \<le> ExitCode res" "ExitCode res \<le> 2 ^ 32 - 1"
      "Category res = [] \<or> validCategory (Category res)"
      "turn_ctx (env k) = None \<or> Category res \<noteq> []" "out' = out" "err' = err"
      by (auto split: option.splits if_splits)
    with 3 a show ?thesis by (intro final) auto
  next
    case 4
    with run show ?thesis by (auto split: if_splits)
  qed
qed

lemma readFrame_bytes: "readFrame r = Inr (f, r') \<Longrightarrow> fst r = frame_bytes f @ fst r'"
  using readFrame_ok [of "fst r" "snd r" f "fst r'" "snd r'"] by simp

lemma client_loop_success:
  "client_loop js env k r out err = (Inr res, out', err') \<Longrightarrow> Category res = [] \<Longrightarrow> ctx_monotone env \<Longrightarrow>
   turn_ctx (env k) = None \<and>
   (\<exists>fs payload rest. fst r = concat (map frame_bytes fs) @ frame_bytes (frameResult, payload) @ rest \<and>
      (\<forall>f \<in> set fs. fst f \<in> {frameStdout, frameStderr}) \<and> decode_result js payload = Some res \<and>
      0 \<le> ExitCode res \<and> ExitCode res \<le> 2 ^ 32 - 1 \<and>
      out' = out @ stream_of frameStdout fs \<and> err' = err @ stream_of frameStderr fs)"
proof (induction "length (fst r)" arbitrary: k r out err rule: less_induct)
  case less
  from less.prems(1) show ?case
  proof (cases rule: client_loop_turn)
    case (delivered kind p r')
    have short: "length (fst r') < length (fst r)"
      using delivered(1) readFrame_shrinks by (metis prod.collapse)
    have ne: "frameStdout \<noteq> frameStderr" by (simp add: frame_types)
    from less.hyps [OF short delivered(4) less.prems(2,3)] obtain fs payload rest where
      ih: "fst r' = concat (map frame_bytes fs) @ frame_bytes (frameResult, payload) @ rest"
        "\<forall>f \<in> set fs. fst f \<in> {frameStdout, frameStderr}" "decode_result js payload = Some res"
        "0 \<le> ExitCode res" "ExitCode res \<le> 2 ^ 32 - 1"
        "out' = (if kind = frameStdout then out @ p else out) @ stream_of frameStdout fs"
        "err' = (if kind = frameStderr then err @ p else err) @ stream_of frameStderr fs" by blast
    then show ?thesis
      using delivered(1-3) ne
      by (intro conjI exI [of _ "(kind, p) # fs"] exI [of _ payload] exI [of _ rest])
        (auto simp: readFrame_bytes)
  next
    case (dropped f r')
    have short: "length (fst r') < length (fst r)"
      using dropped(1) readFrame_shrinks by (metis prod.collapse)
    have "turn_ctx (env (k + 1)) \<noteq> None"
      using less.prems(3) dropped(2) unfolding ctx_monotone_def by (metis le_add1)
    with less.hyps [OF short dropped(3) less.prems(2,3)] show ?thesis by blast
  next
    case (final p r')
    then show ?thesis using less.prems(2)
      by (intro conjI exI [of _ "[]"] exI [of _ p] exI [of _ "fst r'"]) (auto simp: readFrame_bytes)
  qed
qed

text \<open>C36: The client reports success only when it read, on this connection, a sequence of output frames
  followed by a result frame with the empty category and an exit code of 32 bits; and then its two
  writers received exactly the payloads of the two streams, in order.  Output dropped after a
  cancellation never ends in success.\<close>

theorem invokeConn_success:
  assumes "invokeConn js env c writers deadline_err request_err r = (Inr res, out, err)"
    and "Category res = []" and "ctx_monotone env"
  shows "validateCall c = None \<and>
    (\<exists>fs payload rest. fst r = concat (map frame_bytes fs) @ frame_bytes (frameResult, payload) @ rest \<and>
      (\<forall>f \<in> set fs. fst f \<in> {frameStdout, frameStderr}) \<and> decode_result js payload = Some res \<and>
      0 \<le> ExitCode res \<and> ExitCode res \<le> 2 ^ 32 - 1 \<and>
      out = stream_of frameStdout fs \<and> err = stream_of frameStderr fs)"
proof -
  from assms(1) have "validateCall c = None" "client_loop js env 0 r [] [] = (Inr res, out, err)"
    by (auto simp: invokeConn_def split: option.splits if_splits)
  with client_loop_success [OF this(2) assms(2,3)] show ?thesis by simp
qed

text \<open>A session: one output frame, then the result.\<close>

definition sample_codec :: codec where
  "sample_codec = \<lparr>decode_target = (\<lambda>_. None), decode_call = (\<lambda>_. None),
     decode_result = (\<lambda>p. if p = ''{}'' then Some (failed []) else None)\<rparr>"

definition sample_turn :: turn where
  "sample_turn = \<lparr>turn_ctx = None, turn_overdue = False, turn_write = (\<lambda>p. (length p, None)),
     turn_abandoned = None\<rparr>"

definition sample_call :: call where
  "sample_call = \<lparr>call_identity = \<lparr>id_endpoint = [], id_user = [], id_host = [], id_trust = []\<rparr>,
     call_command = ''hostname'', call_powershell = False, call_codepage = [],
     call_deadline = Some 100, call_persist = 0\<rparr>"

definition sample_reader :: reader where
  "sample_reader = (frame_bytes (frameStdout, ''hi'') @ frame_bytes (frameResult, ''{}''), Sentinel IoEOF)"

lemma sample_invoke:
  "invokeConn sample_codec (\<lambda>_. sample_turn) sample_call True None None sample_reader =
    (Inr (failed []), ''hi'', [])"
proof -
  have ok: "frame_ok (frameStdout, ''hi'')" "frame_ok (frameResult, ''{}'')"
    by (simp_all add: frame_ok_def validFrameType_def frame_types maxFramePayload_def)
  have "readFrame sample_reader =
      Inr ((frameStdout, ''hi''), frame_bytes (frameResult, ''{}''), Sentinel IoEOF)"
    unfolding sample_reader_def by (rule readFrame_frame [OF ok(1)])
  moreover have "readFrame (frame_bytes (frameResult, ''{}''), Sentinel IoEOF) =
      Inr ((frameResult, ''{}''), [], Sentinel IoEOF)"
    using readFrame_frame [OF ok(2), of "[]"] by simp
  moreover have "frameStdout \<noteq> frameStderr" "frameResult \<noteq> frameStdout" "frameResult \<noteq> frameStderr"
    by (simp_all add: frame_types)
  ultimately have "client_loop sample_codec (\<lambda>_. sample_turn) 0 sample_reader [] [] =
      (Inr (failed []), ''hi'', [])"
    by (simp add: client_loop.simps sample_turn_def sample_codec_def failed_def)
  moreover have "validateCall sample_call = None"
    by (simp add: validateCall_def sample_call_def ascii_utf8)
  ultimately show ?thesis by (simp add: invokeConn_def)
qed

theorem invokeConn_success_witness:
  "\<exists>fs payload. ''hi'' = stream_of frameStdout fs \<and> decode_result sample_codec payload = Some (failed [])"
  using invokeConn_success [OF sample_invoke] by (auto simp: ctx_monotone_def sample_turn_def)

text \<open>Why a client fails after its request was written, by what it has read: some output frames, one turn each, and then
  the \<open>tail\<close>, whose turn is the next one.\<close>

definition output_frame :: "frame \<Rightarrow> bool" where
  "output_frame f \<longleftrightarrow> fst f \<in> {frameStdout, frameStderr} \<and> frame_ok f"

definition valid_result :: "control_result \<Rightarrow> bool" where
  "valid_result res \<longleftrightarrow> 0 \<le> ExitCode res \<and> ExitCode res \<le> 2 ^ 32 - 1 \<and>
     (Category res \<noteq> [] \<longrightarrow> validCategory (Category res))"

definition marked_unknown :: "goerr \<Rightarrow> bool" where
  "marked_unknown e \<longleftrightarrow> CategoryErr CategoryRemoteStateUnknown \<in> set (err_nodes e)"

definition failed_at :: "codec \<Rightarrow> turn \<Rightarrow> bytes \<Rightarrow> goerr \<Rightarrow> bool" where
  "failed_at js t tail e \<longleftrightarrow>
     (\<exists>category rest. tail = frame_bytes (frameError, category) @ rest \<and> frame_ok (frameError, category) \<and>
        validCategory category \<and> e = CategoryErr category) \<or>
     (\<exists>kind p rest. tail = frame_bytes (kind, p) @ rest \<and> frame_ok (kind, p) \<and> \<not> output_frame (kind, p) \<and>
        (kind = frameError \<longrightarrow> \<not> validCategory p) \<and>
        (kind = frameResult \<longrightarrow> (\<forall>res. decode_result js p = Some res \<longrightarrow> \<not> valid_result res)) \<and> e = Sentinel ErrProtocol) \<or>
     (\<exists>p res rest x. tail = frame_bytes (frameResult, p) @ rest \<and> frame_ok (frameResult, p) \<and>
        decode_result js p = Some res \<and> valid_result res \<and>
        Category res = [] \<and> turn_ctx t = Some x \<and> e = ctx_goerr x) \<or>
     (\<nexists>f rest. frame_ok f \<and> tail = frame_bytes f @ rest) \<and> marked_unknown e \<or>
     (\<exists>f rest. output_frame f \<and> tail = frame_bytes f @ rest \<and> turn_ctx t = None \<and>
        (turn_abandoned t \<noteq> None \<or> turn_write t (snd f) \<noteq> (length (snd f), None)) \<and> marked_unknown e)"

definition client_failure :: "codec \<Rightarrow> (nat \<Rightarrow> turn) \<Rightarrow> bytes \<Rightarrow> goerr \<Rightarrow> bool" where
  "client_failure js env input e \<longleftrightarrow> (\<exists>fs tail. input = concat (map frame_bytes fs) @ tail \<and>
     (\<forall>f \<in> set fs. output_frame f) \<and> failed_at js (env (length fs)) tail e)"

lemma uncertain_marked: "marked_unknown (uncertainCommandError ended overdue x)"
  by (simp add: marked_unknown_def uncertainCommandError_def Let_def)

lemma client_failure_now: "failed_at js (env 0) input e \<Longrightarrow> client_failure js env input e"
  unfolding client_failure_def by (intro exI [of _ "[]"] exI [of _ input]) simp

lemma client_failure_later:
  assumes "output_frame f" and "client_failure js (\<lambda>i. env (Suc i)) input e"
  shows "client_failure js env (frame_bytes f @ input) e"
proof -
  from assms(2) obtain fs tail where "input = concat (map frame_bytes fs) @ tail" "\<forall>f \<in> set fs. output_frame f"
    "failed_at js (env (Suc (length fs))) tail e" by (auto simp: client_failure_def)
  then show ?thesis using assms(1)
    unfolding client_failure_def by (intro exI [of _ "f # fs"] exI [of _ tail]) simp
qed

text \<open>The last frame of a run that fails.\<close>

lemma failed_final:
  assumes "readFrame r = Inr ((kind, p), r')" and "\<not> (kind = frameStdout \<or> kind = frameStderr)"
    and "client_loop js env k r out err = (Inl e, out', err')"
  shows "failed_at js (env k) (fst r) e"
proof -
  have f: "frame_ok (kind, p)" "fst r = frame_bytes (kind, p) @ fst r'"
    using readFrame_ok [of "fst r" "snd r" "(kind, p)" "fst r'" "snd r'"] assms(1) by simp_all
  have o: "\<not> output_frame (kind, p)" using assms(2) by (simp add: output_frame_def)
  note run = assms(3) [unfolded client_loop.simps [of js env k r out err], unfolded assms(1), simplified]
  have ne: "frameResult \<noteq> frameError" by (simp add: frame_types)
  consider (result) res where "kind = frameResult" "decode_result js p = Some res" "valid_result res"
    | (category) "kind = frameError" "validCategory p"
    | (protocol) "kind = frameError \<longrightarrow> \<not> validCategory p"
        "kind = frameResult \<longrightarrow> (\<forall>res. decode_result js p = Some res \<longrightarrow> \<not> valid_result res)" by blast
  then show ?thesis
  proof cases
    case result
    with run assms(2) obtain x where "Category res = []" "turn_ctx (env k) = Some x" "e = ctx_goerr x"
      by (auto simp: valid_result_def split: option.splits if_splits)
    with result f show ?thesis unfolding failed_at_def by blast
  next
    case category
    with run assms(2) ne have "e = CategoryErr p" by auto
    with category f show ?thesis unfolding failed_at_def by blast
  next
    case protocol
    with run assms(2) ne have "e = Sentinel ErrProtocol"
      by (auto simp: valid_result_def split: option.splits if_splits)
    with protocol f o show ?thesis unfolding failed_at_def by blast
  qed
qed

lemma client_loop_failure:
  "client_loop js env k r out err = (Inl e, out', err') \<Longrightarrow> client_failure js (\<lambda>i. env (k + i)) (fst r) e"
proof (induction "length (fst r)" arbitrary: k r out err rule: less_induct)
  case less
  show ?case
  proof (cases "readFrame r")
    case (Inl x)
    with less.prems have e: "e = uncertainCommandError (turn_ctx (env k)) (turn_overdue (env k)) x"
      by (simp add: client_loop.simps [of js env k r out err])
    have "\<nexists>f rest. frame_ok f \<and> fst r = frame_bytes f @ rest"
    proof (intro notI, elim exE conjE)
      fix f rest assume "frame_ok f" "fst r = frame_bytes f @ rest"
      with readFrame_frame [of f rest "snd r"] Inl show False by (metis prod.collapse sum.distinct(1))
    qed
    then have "failed_at js (env (k + 0)) (fst r) e"
      using uncertain_marked e unfolding failed_at_def by blast
    then show ?thesis by (rule client_failure_now)
  next
    case (Inr a)
    obtain kind p r' where a: "readFrame r = Inr ((kind, p), r')" using Inr by (metis surj_pair)
    have "length (fst r') < length (fst r)" using a readFrame_shrinks by (metis prod.collapse)
    note IH = less.hyps [OF this]
    show ?thesis
    proof (cases "kind = frameStdout \<or> kind = frameStderr")
      case False
      from failed_final [OF a False less.prems] show ?thesis by (intro client_failure_now) simp
    next
      case True
      have o: "output_frame (kind, p)" and b: "fst r = frame_bytes (kind, p) @ fst r'"
        using readFrame_ok [of "fst r" "snd r" "(kind, p)" "fst r'" "snd r'"] a True by (simp_all add: output_frame_def)
      note run = less.prems [unfolded client_loop.simps [of js env k r out err], unfolded a, simplified]
      obtain out2 err2 where "client_loop js env (k + 1) r' out2 err2 = (Inl e, out', err') \<or>
        turn_ctx (env k) = None \<and> (turn_abandoned (env k) \<noteq> None \<or> turn_write (env k) p \<noteq> (length p, None)) \<and> marked_unknown e"
        using run True by (auto simp: marked_unknown_def Let_def split: option.splits prod.splits if_splits)
      then show ?thesis
      proof
        assume "client_loop js env (k + 1) r' out2 err2 = (Inl e, out', err')"
        from IH [OF this] have "client_failure js (\<lambda>i. env (k + Suc i)) (fst r') e" by simp
        with o show ?thesis unfolding b by (rule client_failure_later)
      next
        assume "turn_ctx (env k) = None \<and> (turn_abandoned (env k) \<noteq> None \<or> turn_write (env k) p \<noteq> (length p, None)) \<and> marked_unknown e"
        then have "failed_at js (env (k + 0)) (fst r) e"
          using o b unfolding failed_at_def by (metis add_0_right snd_conv)
        then show ?thesis by (rule client_failure_now)
      qed
    qed
  qed
qed

text \<open>C37: Once the connection is used, a failure is reported as what it is.  An error in writing the request carries
  remote-state-unknown.  Otherwise the client has read some complete output frames, and then: an error frame with a
  valid category, which is the error; a complete frame that the protocol forbids here, reported as a protocol
  violation; a valid result frame with the empty category when its own context had already ended, and only then the bare
  error of that context; no complete valid frame, or an output frame that the caller's writer or context did not
  let through, and then the error carries remote-state-unknown.\<close>

theorem invokeConn_failure:
  assumes "invokeConn js env c True None request_err r = (Inl e, out, err)" and "validateCall c = None"
  shows "if request_err \<noteq> None then marked_unknown e else client_failure js env (fst r) e"
proof (cases request_err)
  case None
  with assms have "client_loop js env 0 r [] [] = (Inl e, out, err)" by (simp add: invokeConn_def)
  from client_loop_failure [OF this] None show ?thesis by simp
next
  case (Some x)
  with assms show ?thesis using uncertain_marked by (auto simp: invokeConn_def)
qed

text \<open>A session that is cut off after one output frame.\<close>

lemma cut_invoke:
  "invokeConn sample_codec (\<lambda>_. sample_turn) sample_call True None None (frame_bytes (frameStdout, ''hi''), Sentinel ConnReset) =
    (Inl (CategoryErr CategoryRemoteStateUnknown), ''hi'', [])"
proof -
  have ok: "frame_ok (frameStdout, ''hi'')"
    by (simp_all add: frame_ok_def validFrameType_def frame_types maxFramePayload_def)
  have "readFrame (frame_bytes (frameStdout, ''hi''), Sentinel ConnReset) = Inr ((frameStdout, ''hi''), [], Sentinel ConnReset)"
    using readFrame_frame [OF ok, of "[]"] by simp
  moreover have "readFrame ([], Sentinel ConnReset) = Inl (Sentinel ConnReset)"
    by (simp add: readFrame_def readFull_def)
  moreover have "frameStdout \<noteq> frameStderr" by (simp add: frame_types)
  ultimately have "client_loop sample_codec (\<lambda>_. sample_turn) 0 (frame_bytes (frameStdout, ''hi''), Sentinel ConnReset) [] [] =
      (Inl (CategoryErr CategoryRemoteStateUnknown), ''hi'', [])"
    by (simp add: client_loop.simps sample_turn_def uncertainCommandError_def transportCommandError_def transportError_def
        as_net_timeout_def Let_def)
  moreover have "validateCall sample_call = None"
    by (simp add: validateCall_def sample_call_def ascii_utf8)
  ultimately show ?thesis by (simp add: invokeConn_def)
qed

theorem invokeConn_failure_witness:
  "client_failure sample_codec (\<lambda>_. sample_turn) (frame_bytes (frameStdout, ''hi'')) (CategoryErr CategoryRemoteStateUnknown)"
proof -
  have c: "validateCall sample_call = None"
    by (simp add: validateCall_def sample_call_def ascii_utf8)
  from invokeConn_failure [OF cut_invoke c] show ?thesis by simp
qed

end
