(* ===== verification/Socket_File.thy ===== *)
theory Socket_File
  imports Client Local_File Go_Text
begin

text \<open>
  The files of a control master and the probe of its socket (\<open>internal/control/socket_unix.go\<close>).  What
  \<open>Lstat\<close>, \<open>Mkdir\<close>, the dialer and the peer answer are arguments; the decisions on them are the code's.
\<close>

subsection \<open>Files\<close>

datatype file_kind = Socket_kind | Regular_kind | Dir_kind | Other_kind

record file_info =
  info_kind :: file_kind
  info_mode :: nat
  info_owner :: nat

datatype lstat = Lstat_missing | Lstat_failed goerr | Found file_info

definition private_file :: "nat \<Rightarrow> file_kind \<Rightarrow> nat \<Rightarrow> file_info \<Rightarrow> bool" where
  "private_file uid kind mode i \<longleftrightarrow> info_kind i = kind \<and> info_mode i = mode \<and> info_owner i = uid"

text \<open>\<open>filepath.IsAbs(p) && filepath.Clean(p) == p\<close>.\<close>

definition clean_abs :: "bytes \<Rightarrow> bool" where
  "clean_abs p \<longleftrightarrow> has_prefix p ''/'' \<and>
     (p = ''/'' \<or> list_all (\<lambda>part. part \<notin> {[], ''.'', ''..''}) (str_split (tl p) ''/''))"

text \<open>Modes \<open>0700\<close> and \<open>0600\<close>.\<close>

definition dir_mode :: nat where "dir_mode = 448"
definition socket_mode :: nat where "socket_mode = 384"

definition socketState :: "nat \<Rightarrow> lstat \<Rightarrow> bool \<times> bool \<times> goerr option" where
  "socketState uid st =
     (case st of
        Lstat_missing \<Rightarrow> (False, False, None)
      | Lstat_failed e \<Rightarrow> (False, False, Some (Msg ''cannot inspect control socket''))
      | Found i \<Rightarrow>
          if \<not> private_file uid Socket_kind socket_mode i
          then (True, False, Some (Msg ''control socket has unsafe owner, type or permissions''))
          else (True, True, None))"

definition unsafe_directory :: goerr where
  "unsafe_directory = Msg ''control runtime directory must be user-owned mode 0700''"

definition checkSocketDirectory :: "nat \<Rightarrow> bytes \<Rightarrow> lstat \<Rightarrow> bool \<times> goerr option" where
  "checkSocketDirectory uid path dir =
     (if \<not> clean_abs path \<or> length path \<ge> 104 then (False, Some (Msg ''invalid control socket path''))
      else case dir of
        Lstat_missing \<Rightarrow> (False, None)
      | Lstat_failed e \<Rightarrow> (False, Some unsafe_directory)
      | Found i \<Rightarrow>
          if \<not> private_file uid Dir_kind dir_mode i then (False, Some unsafe_directory) else (True, None))"

text \<open>\<open>mkdir\<close>: an error other than an existing name; \<open>dir\<close> is what is there afterwards.\<close>

definition prepareSocketPath :: "nat \<Rightarrow> bytes \<Rightarrow> goerr option \<Rightarrow> lstat \<Rightarrow> goerr option" where
  "prepareSocketPath uid path mkdir dir =
     (if length path \<ge> 104 then Some (Msg ''control socket path is too long'')
      else if mkdir \<noteq> None then Some (Msg ''cannot create control runtime directory'')
      else case dir of
        Found i \<Rightarrow> if private_file uid Dir_kind dir_mode i then None else Some unsafe_directory
      | _ \<Rightarrow> Some unsafe_directory)"

text \<open>\<open>openLock\<close>: what \<open>open\<close> and \<open>fstat\<close> say of the lock file.\<close>

definition openLock :: "nat \<Rightarrow> goerr + lstat \<Rightarrow> goerr option" where
  "openLock uid opened =
     (case opened of
        Inl e \<Rightarrow> Some (Msg ''cannot open control lock'')
      | Inr (Found i) \<Rightarrow>
          if private_file uid Regular_kind socket_mode i then None
          else Some (Msg ''control lock has unsafe owner, type or permissions'')
      | Inr _ \<Rightarrow> Some (Msg ''control lock has unsafe owner, type or permissions''))"

text \<open>\<open>tryLock\<close> on what \<open>flock\<close> says: acquired, held by another, or an error.\<close>

datatype flock = Acquired | Would_block | Flock_failed

definition tryLock :: "flock \<Rightarrow> goerr + bool" where
  "tryLock f =
     (case f of
        Acquired \<Rightarrow> Inr True
      | Would_block \<Rightarrow> Inr False
      | Flock_failed \<Rightarrow> Inl (Msg ''cannot lock control socket''))"

subsection \<open>The probe\<close>

text \<open>What the dialer says: nobody listens (\<open>ENOENT\<close>, \<open>ECONNREFUSED\<close>), another error, a connection.\<close>

datatype dialed = Refused | Dial_failed goerr | Connected

text \<open>Whether a matching master answered, whether it was connected at all, and an error.\<close>

definition probeMaster :: "codec \<Rightarrow> dialed \<Rightarrow> bool \<Rightarrow> goerr + frame \<Rightarrow> bool \<times> bool \<times> goerr option" where
  "probeMaster js d written reply =
     (let unresponsive = (False, True, Some (Sentinel ErrMasterUnresponsive)) in
      case d of
        Refused \<Rightarrow> (False, False, None)
      | Dial_failed e \<Rightarrow> (False, False, Some e)
      | Connected \<Rightarrow>
          if \<not> written then unresponsive
          else case reply of
            Inl e \<Rightarrow> unresponsive
          | Inr (kind, payload) \<Rightarrow>
              if kind \<noteq> frameResult then unresponsive
              else case decode_result js payload of
                None \<Rightarrow> unresponsive
              | Some r \<Rightarrow>
                  if Category r \<noteq> [] then
                    if \<not> validCategory (Category r) then unresponsive
                    else (False, True, Some (CategoryErr (Category r)))
                  else (True, True, None))"

lemma probe_connected: "probeMaster js d written reply = (live, connected, err) \<Longrightarrow> connected \<longleftrightarrow> d = Connected"
  by (auto simp: probeMaster_def Let_def split: dialed.splits sum.splits prod.splits option.splits if_splits)

lemma probe_live:
  "probeMaster js d written reply = (True, connected, err) \<longleftrightarrow> connected \<and> err = None \<and> d = Connected \<and> written \<and>
     (\<exists>payload r. reply = Inr (frameResult, payload) \<and> decode_result js payload = Some r \<and> Category r = [])"
  by (auto simp: probeMaster_def Let_def split: dialed.splits sum.splits prod.splits option.splits if_splits)

lemma probe_error:
  "probeMaster js d written reply = (live, connected, err) \<Longrightarrow> err = None \<longleftrightarrow> live \<or> d = Refused"
  by (auto simp: probeMaster_def Let_def split: dialed.splits sum.splits prod.splits option.splits if_splits)

subsection \<open>Check and Exit\<close>

text \<open>\<open>Check\<close> never starts a master.\<close>

definition Check ::
  "codec \<Rightarrow> nat \<Rightarrow> bytes \<Rightarrow> lstat \<Rightarrow> lstat \<Rightarrow> dialed \<Rightarrow> bool \<Rightarrow> goerr + frame \<Rightarrow> bool \<times> goerr option" where
  "Check js uid path dir st d written reply =
     (case checkSocketDirectory uid path dir of (dirExists, err) \<Rightarrow>
        if err \<noteq> None \<or> \<not> dirExists then (False, err)
        else case socketState uid st of (found, _, err) \<Rightarrow>
          if err \<noteq> None \<or> \<not> found then (False, err)
          else case probeMaster js d written reply of (live, _, err) \<Rightarrow> (live, err))"

text \<open>\<open>Exit\<close>; \<open>write_err\<close> is the error of writing the frame, \<open>ended\<close> the context's.\<close>

definition Exit ::
  "codec \<Rightarrow> nat \<Rightarrow> bytes \<Rightarrow> lstat \<Rightarrow> lstat \<Rightarrow> goerr option \<Rightarrow> ctx_err option \<Rightarrow> goerr option \<Rightarrow> goerr + frame \<Rightarrow>
   goerr option" where
  "Exit js uid path dir st dial ended write_err reply =
     (case checkSocketDirectory uid path dir of
        (_, Some e) \<Rightarrow> Some e
      | (False, None) \<Rightarrow> Some (CategoryErr CategoryUnavailable)
      | (True, None) \<Rightarrow>
          (case socketState uid st of
             (_, _, Some e) \<Rightarrow> Some e
           | (False, _, None) \<Rightarrow> Some (CategoryErr CategoryUnavailable)
           | (True, _, None) \<Rightarrow>
               (case dial of
                  Some e \<Rightarrow> Some e
                | None \<Rightarrow>
                    (case write_err of
                       Some e \<Rightarrow> Some (transportError ended e)
                     | None \<Rightarrow>
                         (case reply of
                            Inl e \<Rightarrow> Some (transportError ended e)
                          | Inr (kind, payload) \<Rightarrow>
                              if kind \<noteq> frameResult then Some (Sentinel ErrProtocol)
                              else case decode_result js payload of
                                None \<Rightarrow> Some (Sentinel ErrProtocol)
                              | Some r \<Rightarrow>
                                  if Category r = [] then None
                                  else if \<not> validCategory (Category r) then Some (Sentinel ErrProtocol)
                                  else Some (CategoryErr (Category r)))))))"

text \<open>Both trust only private files of the user, and report success only on a master's own word.\<close>

lemma Check_live:
  assumes "Check js uid path dir st d written reply = (True, err)"
  shows "err = None \<and> clean_abs path \<and> length path < 104 \<and>
    (\<exists>i. dir = Found i \<and> private_file uid Dir_kind dir_mode i) \<and>
    (\<exists>i. st = Found i \<and> private_file uid Socket_kind socket_mode i) \<and> d = Connected \<and>
    (\<exists>payload r. reply = Inr (frameResult, payload) \<and> decode_result js payload = Some r \<and> Category r = [])"
proof -
  obtain connected where p: "probeMaster js d written reply = (True, connected, err)"
    using assms by (auto simp: Check_def split: prod.splits if_splits)
  have "(\<exists>i. dir = Found i \<and> private_file uid Dir_kind dir_mode i) \<and> clean_abs path \<and> length path < 104"
    using assms by (auto simp: Check_def checkSocketDirectory_def split: prod.splits if_splits lstat.splits)
  moreover have "\<exists>i. st = Found i \<and> private_file uid Socket_kind socket_mode i"
    using assms by (auto simp: Check_def socketState_def split: prod.splits if_splits lstat.splits)
  ultimately show ?thesis using p by (auto simp: probe_live)
qed

lemma Exit_stopped:
  assumes "Exit js uid path dir st dial ended write_err reply = None"
  shows "clean_abs path \<and> (\<exists>i. dir = Found i \<and> private_file uid Dir_kind dir_mode i) \<and>
    (\<exists>i. st = Found i \<and> private_file uid Socket_kind socket_mode i) \<and> dial = None \<and>
    (\<exists>payload r. reply = Inr (frameResult, payload) \<and> decode_result js payload = Some r \<and> Category r = [])"
  using assms
  by (auto simp: Exit_def checkSocketDirectory_def socketState_def
      split: prod.splits if_splits lstat.splits option.splits sum.splits bool.splits)

end
