(* ===== verification/Identity_Key.thy ===== *)
theory Identity_Key
  imports Client Local_File Go_Text "HOL-Library.AList" "HOL-Library.List_Lexorder" "HOL-Library.Multiset"
begin

text \<open>
  \<open>Identity.Key\<close> and \<open>TrustKey\<close> of \<open>internal/control/identity.go\<close>: the names under which masters are
  found.  \<open>json.Marshal\<close> of a list of strings and SHA-256 are parameters, as is \<open>filepath.Abs\<close> (\<open>cwd\<close>).
\<close>

record digests =
  marshal :: "bytes list \<Rightarrow> bytes"
  sha256 :: "bytes \<Rightarrow> bytes"

subsection \<open>Key\<close>

text \<open>The five strings that are hashed.\<close>

definition key_fields :: "naming \<Rightarrow> identity \<Rightarrow> bytes list" where
  "key_fields n i =
     (let c = canonical n i in [id_endpoint c, id_user c, id_host c, id_trust c, ''ntlm''])"

definition Key :: "digests \<Rightarrow> naming \<Rightarrow> identity \<Rightarrow> bytes" where
  "Key d n i = ''winsh-'' @ hex_encode (take 16 (sha256 d (marshal d (key_fields n i))))"

lemma hex_digit_inj: "m < 16 \<Longrightarrow> n < 16 \<Longrightarrow> hex_digit m = hex_digit n \<Longrightarrow> m = n"
  by (auto simp: hex_digit_def dest!: arg_cong [of _ _ byte_val] split: if_splits)

lemma hex_pair_inj:
  assumes "hex_digit (byte_val c div 16) = hex_digit (byte_val d div 16)"
    and "hex_digit (byte_val c mod 16) = hex_digit (byte_val d mod 16)"
  shows "c = d"
proof -
  have b: "byte_val x div 16 < 16" "byte_val x mod 16 < 16" for x :: char
    using byte_val_lt [of x] by (simp_all add: less_mult_imp_div_less)
  have "byte_val c div 16 = byte_val d div 16" "byte_val c mod 16 = byte_val d mod 16"
    using hex_digit_inj [OF b(1) b(1) assms(1)] hex_digit_inj [OF b(2) b(2) assms(2)] by simp_all
  then have "byte_val c = byte_val d" by (metis div_mult_mod_eq)
  then show ?thesis by (metis char_of_byte_val)
qed

lemma hex_encode_simps [simp]:
  "hex_encode [] = []"
  "hex_encode (c # s) = hex_digit (byte_val c div 16) # hex_digit (byte_val c mod 16) # hex_encode s"
  by (simp_all add: hex_encode_def)

lemma hex_encode_inj: "hex_encode s = hex_encode t \<Longrightarrow> s = t"
proof (induction s arbitrary: t)
  case Nil
  then show ?case by (cases t) auto
next
  case (Cons c s)
  then show ?case by (cases t) (auto dest: hex_pair_inj)
qed

lemma key_fields_eq: "key_fields n i = key_fields n j \<longleftrightarrow> sameTarget n i j"
proof -
  have "canonical n i = canonical n j \<longleftrightarrow> id_endpoint (canonical n i) = id_endpoint (canonical n j) \<and>
      id_user (canonical n i) = id_user (canonical n j) \<and> id_host (canonical n i) = id_host (canonical n j) \<and>
      id_trust (canonical n i) = id_trust (canonical n j)"
    by (cases "canonical n i"; cases "canonical n j") auto
  then show ?thesis by (auto simp: key_fields_def sameTarget_def Let_def)
qed

lemma Key_collision: "Key d n i = Key d n j \<longleftrightarrow>
    take 16 (sha256 d (marshal d (key_fields n i))) = take 16 (sha256 d (marshal d (key_fields n j)))"
  using hex_encode_inj by (auto simp: Key_def)

subsection \<open>TrustKey\<close>

text \<open>The x509 settings of \<open>GODEBUG\<close>: a later setting of the same name replaces an earlier one.\<close>

definition add_setting :: "bytes \<Rightarrow> (bytes \<times> bytes) list \<Rightarrow> (bytes \<times> bytes) list" where
  "add_setting item values =
     (case str_cut (trim_space item) ''='' of (name, value, ok) \<Rightarrow>
        if ok \<and> has_prefix name ''x509'' then AList.update name value values else values)"

definition x509_settings :: "bytes \<Rightarrow> (bytes \<times> bytes) list" where
  "x509_settings godebug = fold add_setting (str_split godebug '','') []"

definition setting_texts :: "(bytes \<times> bytes) list \<Rightarrow> bytes list" where
  "setting_texts values = sort (map (\<lambda>(name, value). name @ ''='' @ value) values)"

definition effectiveCAFile :: "(bytes \<Rightarrow> bytes option) \<Rightarrow> bytes \<Rightarrow> bytes" where
  "effectiveCAFile cwd path =
     (if path = [] \<or> has_prefix path ''/'' then path
      else case cwd path of None \<Rightarrow> path | Some full \<Rightarrow> full)"

definition effectiveCADirs :: "(bytes \<Rightarrow> bytes option) \<Rightarrow> bytes \<Rightarrow> bytes" where
  "effectiveCADirs cwd paths =
     (if paths = [] then [] else str_join (map (effectiveCAFile cwd) (str_split paths '':'')) '':'')"

definition TrustKey :: "digests \<Rightarrow> (bytes \<Rightarrow> bytes option) \<Rightarrow> (bytes \<Rightarrow> bytes) \<Rightarrow> bytes" where
  "TrustKey d cwd getenv =
     hex_encode (sha256 d (marshal d
       [effectiveCAFile cwd (getenv ''SSL_CERT_FILE''), effectiveCADirs cwd (getenv ''SSL_CERT_DIR''),
        str_join (setting_texts (x509_settings (getenv ''GODEBUG''))) '','']))"

text \<open>The order of the map does not matter.\<close>

lemma settings_distinct: "distinct (map fst (x509_settings g))"
proof -
  have "distinct (map fst (fold add_setting items vs))" if "distinct (map fst vs)" for items vs
    using that
  proof (induction items arbitrary: vs)
    case (Cons item items)
    then show ?case by (auto simp: add_setting_def distinct_update split: prod.splits)
  qed simp
  then show ?thesis by (simp add: x509_settings_def)
qed

lemma setting_texts_map:
  assumes "distinct (map fst xs)" "distinct (map fst ys)" "map_of xs = map_of ys"
  shows "setting_texts xs = setting_texts ys"
proof -
  have "distinct xs" "distinct ys" using assms(1,2) by (auto simp: distinct_map)
  moreover have "set xs = set ys" using assms map_of_inject_set by blast
  ultimately have "mset xs = mset ys" using set_eq_iff_mset_eq_distinct by blast
  then have "mset (map (\<lambda>(n, v). n @ ''='' @ v) xs) = mset (map (\<lambda>(n, v). n @ ''='' @ v) ys)" by simp
  then show ?thesis unfolding setting_texts_def by (intro properties_for_sort) simp_all
qed

lemma TrustKey_depends:
  assumes "effectiveCAFile cwd (g ''SSL_CERT_FILE'') = effectiveCAFile cwd (h ''SSL_CERT_FILE'')"
    and "effectiveCADirs cwd (g ''SSL_CERT_DIR'') = effectiveCADirs cwd (h ''SSL_CERT_DIR'')"
    and "map_of (x509_settings (g ''GODEBUG'')) = map_of (x509_settings (h ''GODEBUG''))"
  shows "TrustKey d cwd g = TrustKey d cwd h"
  using assms setting_texts_map [OF settings_distinct settings_distinct assms(3)] by (simp add: TrustKey_def)

text \<open>Two identities get the same key, hence the same socket and lock, exactly if they are the same
  target after normalisation, provided that the JSON text of the two field lists and the first sixteen bytes
  of SHA-256 do not collide on them.  Settings of \<open>GODEBUG\<close> that are not about certificates, their order
  and repetitions do not change the trust part of an identity.\<close>

lemma Key_iff_sameTarget:
  assumes "take 16 (sha256 d (marshal d (key_fields n i))) = take 16 (sha256 d (marshal d (key_fields n j))) \<longrightarrow>
      marshal d (key_fields n i) = marshal d (key_fields n j)"
    and "marshal d (key_fields n i) = marshal d (key_fields n j) \<longrightarrow> key_fields n i = key_fields n j"
  shows "(Key d n i = Key d n j \<longleftrightarrow> sameTarget n i j) \<and>
    (map_of (x509_settings (g ''GODEBUG'')) = map_of (x509_settings (h ''GODEBUG'')) \<longrightarrow>
     g ''SSL_CERT_FILE'' = h ''SSL_CERT_FILE'' \<longrightarrow> g ''SSL_CERT_DIR'' = h ''SSL_CERT_DIR'' \<longrightarrow>
     TrustKey d cwd g = TrustKey d cwd h)"
  using assms TrustKey_depends [of cwd g h d] key_fields_eq [of n i j]
  unfolding Key_collision by (metis (no_types))

end
