(* ===== verification/Master_Start.thy ===== *)
theory Master_Start
  imports Socket_File Identity_Key
begin

text \<open>
  How a command master comes into being (\<open>internal/control/master_unix.go\<close>, \<open>socketPath\<close> of
  \<open>socket_unix.go\<close>).  Any number of processes run \<open>StartOrConnect\<close> for one socket path and a child that
  one of them launches runs \<open>Serve\<close>.  Every system call is one step on the shared \<open>site\<close>: the socket
  file, the lock and the processes.  The answers of the system and of peers are arguments of a step, except
  those that the site determines: a connection is accepted by a listening master and refused otherwise, and
  a lock is granted when no process holds it.  Files are changed by these processes only.
\<close>

subsection \<open>Settings\<close>

record settings =
  set_mode :: bytes
  set_path :: bytes
  set_persist :: int

definition hour :: int where "hour = 3600 * 10 ^ 9"
definition MinPersist :: int where "MinPersist = 10 ^ 9"

record bootstrap =
  boot_endpoint :: bytes
  boot_user :: bytes
  boot_password :: bytes
  boot_host :: bytes
  boot_timeout :: int
  boot_identity :: identity
  boot_socket :: bytes
  boot_persist :: int

definition socketPath :: "digests \<Rightarrow> naming \<Rightarrow> bytes option \<Rightarrow> identity \<Rightarrow> settings \<Rightarrow> goerr + bytes" where
  "socketPath d n home i st =
     (if set_path st \<noteq> [] then
        check (\<not> clean_abs (set_path st)) (Msg ''control path must be absolute and clean'') (Inr (set_path st))
      else case home of
        None \<Rightarrow> Inl (Msg ''cannot locate control runtime directory'')
      | Some h \<Rightarrow> Inr (path_join (path_join h ''.winsh'') (Key d n i @ ''.sock'')))"

subsection \<open>Processes\<close>

text \<open>The program points of \<open>StartOrConnect\<close> and \<open>launchMaster\<close>, and those of \<open>Serve\<close> in their order.\<close>

datatype starter =
    Look | Probe | Take_lock | Wait
  | Look_locked | Probe_locked | Unlink | Resolve | Resolving | Launch bootstrap | Await nat

datatype stage = Boot | Bind | Listen | Announce | Serving | Closing | Exiting

datatype proc = Idle | Starter starter | Returned "goerr + bytes" | Master stage | Dead

datatype sock_file = Absent | Unsafe | Stale | Bound nat | Listening nat

text \<open>\<open>lock\<close> is the set of processes with a descriptor of the locked file, \<open>outbox\<close> the frame that a child
  has written to its bootstrap pipe, \<open>boots\<close> what was sent to it.\<close>

record site =
  sock :: sock_file
  lock :: "nat set"
  procs :: "nat \<Rightarrow> proc"
  outbox :: "nat \<Rightarrow> control_result option"
  boots :: "nat \<Rightarrow> bootstrap option"

definition set_proc :: "nat \<Rightarrow> proc \<Rightarrow> site \<Rightarrow> site" where
  "set_proc p x s = s\<lparr>procs := (procs s)(p := x)\<rparr>"

text \<open>Leaving the function closes the lock's descriptor, if there is one.\<close>

definition leave :: "nat \<Rightarrow> proc \<Rightarrow> site \<Rightarrow> site" where
  "leave p x s = set_proc p x (s\<lparr>lock := lock s - {p}\<rparr>)"

text \<open>When a process dies its descriptors are closed; its socket file stays and refuses connections.\<close>

definition crash :: "nat \<Rightarrow> site \<Rightarrow> site" where
  "crash p s = leave p Dead (if sock s \<in> {Bound p, Listening p} then s\<lparr>sock := Stale\<rparr> else s)"

subsection \<open>StartOrConnect\<close>

record start_env =
  st_codec :: codec
  st_uid :: nat
  st_identity :: identity
  st_settings :: settings
  st_path :: "goerr + bytes"
  st_prepare :: "goerr option"

text \<open>What a step is told: an error of \<open>Lstat\<close>, of dialing, the exchange of a probe, errors of opening and
  locking the lock file, of unlinking, the start-up context, the resolver's result, errors of spawning and
  of the bootstrap exchange, and the new process.\<close>

record answers =
  a_lstat :: "goerr option"
  a_dial :: "goerr option"
  a_written :: bool
  a_reply :: "goerr + frame"
  a_open :: "goerr option"
  a_flock :: bool
  a_unlink :: bool
  a_ctx :: "ctx_err option"
  a_boot :: "goerr + bootstrap"
  a_spawn :: "goerr option"
  a_child :: nat
  a_await :: "goerr option"

definition lstat_of :: "nat \<Rightarrow> answers \<Rightarrow> site \<Rightarrow> lstat" where
  "lstat_of uid a s =
     (case a_lstat a of
        Some e \<Rightarrow> Lstat_failed e
      | None \<Rightarrow>
          (case sock s of
             Absent \<Rightarrow> Lstat_missing
           | Unsafe \<Rightarrow> Found \<lparr>info_kind = Other_kind, info_mode = 0, info_owner = uid\<rparr>
           | _ \<Rightarrow> Found \<lparr>info_kind = Socket_kind, info_mode = socket_mode, info_owner = uid\<rparr>))"

definition dial_of :: "answers \<Rightarrow> site \<Rightarrow> dialed" where
  "dial_of a s =
     (case a_dial a of
        Some e \<Rightarrow> Dial_failed e
      | None \<Rightarrow> (case sock s of Listening m \<Rightarrow> Connected | _ \<Rightarrow> Refused))"

definition probe_of :: "start_env \<Rightarrow> answers \<Rightarrow> site \<Rightarrow> bool \<times> bool \<times> goerr option" where
  "probe_of env a s = probeMaster (st_codec env) (dial_of a s) (a_written a) (a_reply a)"

definition flock_of :: "answers \<Rightarrow> site \<Rightarrow> flock" where
  "flock_of a s = (if a_flock a then Flock_failed else if lock s = {} then Acquired else Would_block)"

text \<open>The checks in front of the loop; the path is then the one of \<open>st_path\<close>.\<close>

definition start_checks :: "start_env \<Rightarrow> goerr + bytes" where
  "start_checks env =
     check (set_mode (st_settings env) \<noteq> ''auto'' \<or> set_persist (st_settings env) \<le> 0 \<or>
            set_persist (st_settings env) > hour) (Msg ''invalid control settings'')
       (and_then (st_path env) (\<lambda>path.
          case st_prepare env of Some e \<Rightarrow> Inl e | None \<Rightarrow> Inr path))"

definition path_of :: "start_env \<Rightarrow> bytes" where
  "path_of env = (case st_path env of Inr path \<Rightarrow> path | Inl e \<Rightarrow> [])"

definition boot_mismatch :: "identity \<Rightarrow> bootstrap \<Rightarrow> bool" where
  "boot_mismatch i b \<longleftrightarrow>
     boot_endpoint b \<noteq> id_endpoint i \<or> boot_user b \<noteq> id_user i \<or> boot_host b \<noteq> id_host i"

definition fill_boot :: "start_env \<Rightarrow> bootstrap \<Rightarrow> bootstrap" where
  "fill_boot env b = b\<lparr>boot_identity := st_identity env, boot_socket := path_of env,
     boot_persist := set_persist (st_settings env)\<rparr>"

fun starter_step :: "start_env \<Rightarrow> answers \<Rightarrow> nat \<Rightarrow> starter \<Rightarrow> site \<Rightarrow> site" where
  "starter_step env a p Look s =
     (case socketState (st_uid env) (lstat_of (st_uid env) a s) of
        (_, _, Some e) \<Rightarrow> leave p (Returned (Inl e)) s
      | (found, _, None) \<Rightarrow> set_proc p (Starter (if found then Probe else Take_lock)) s)"
| "starter_step env a p Probe s =
     (case probe_of env a s of (live, connected, err) \<Rightarrow>
        if live then leave p (Returned (Inr (path_of env))) s
        else case err of
          None \<Rightarrow> set_proc p (Starter Take_lock) s
        | Some e \<Rightarrow>
            if \<not> errors_is e ErrMasterUnresponsive \<or> \<not> connected then leave p (Returned (Inl e)) s
            else set_proc p (Starter Take_lock) s)"
| "starter_step env a p Take_lock s =
     (case a_open a of
        Some e \<Rightarrow> leave p (Returned (Inl e)) s
      | None \<Rightarrow>
          (case tryLock (flock_of a s) of
             Inl e \<Rightarrow> leave p (Returned (Inl e)) s
           | Inr True \<Rightarrow> set_proc p (Starter Look_locked) (s\<lparr>lock := {p}\<rparr>)
           | Inr False \<Rightarrow> set_proc p (Starter Wait) s))"
| "starter_step env a p Wait s =
     (case a_ctx a of
        Some e \<Rightarrow> leave p (Returned (Inl (ctx_goerr e))) s
      | None \<Rightarrow> set_proc p (Starter Look) s)"
| "starter_step env a p Look_locked s =
     (case socketState (st_uid env) (lstat_of (st_uid env) a s) of
        (_, _, Some e) \<Rightarrow> leave p (Returned (Inl e)) s
      | (found, _, None) \<Rightarrow> set_proc p (Starter (if found then Probe_locked else Resolve)) s)"
| "starter_step env a p Probe_locked s =
     (case probe_of env a s of (live, connected, err) \<Rightarrow>
        if live then leave p (Returned (Inr (path_of env))) s
        else if connected
        then leave p (Returned (Inl (case err of Some e \<Rightarrow> e | None \<Rightarrow> Sentinel ErrMasterUnresponsive))) s
        else set_proc p (Starter Unlink) s)"
| "starter_step env a p Unlink s =
     (if a_unlink a then leave p (Returned (Inl (Msg ''cannot remove stale control socket''))) s
      else set_proc p (Starter Resolve) (s\<lparr>sock := Absent\<rparr>))"
| "starter_step env a p Resolve s =
     (case a_ctx a of
        Some e \<Rightarrow> leave p (Returned (Inl (ctx_goerr e))) s
      | None \<Rightarrow> set_proc p (Starter Resolving) s)"
| "starter_step env a p Resolving s =
     (case a_boot a of
        Inl e \<Rightarrow> leave p (Returned (Inl e)) s
      | Inr b \<Rightarrow>
          if boot_mismatch (st_identity env) b
          then leave p (Returned (Inl (Msg ''control bootstrap target mismatch''))) s
          else case a_ctx a of
            Some e \<Rightarrow> leave p (Returned (Inl (ctx_goerr e))) s
          | None \<Rightarrow> set_proc p (Starter (Launch (fill_boot env b))) s)"
| "starter_step env a p (Launch b) s =
     (case a_spawn a of
        Some e \<Rightarrow> leave p (Returned (Inl e)) s
      | None \<Rightarrow>
          let c = a_child a in
          set_proc p (Starter (Await c)) (set_proc c (Master Boot)
            (s\<lparr>lock := insert c (lock s), boots := (boots s)(c \<mapsto> b)\<rparr>)))"
| "starter_step env a p (Await c) s =
     (case a_await a of
        Some e \<Rightarrow>
          leave p (Returned (Inl (case a_ctx a of Some x \<Rightarrow> ctx_goerr x | None \<Rightarrow> e))) (crash c s)
      | None \<Rightarrow>
          (case outbox s c of
             None \<Rightarrow> s
           | Some r \<Rightarrow>
               if Category r \<noteq> []
               then leave p (Returned (Inl (Msg ''control master authentication failed''))) (crash c s)
               else leave p (Returned (Inr (path_of env))) s))"

subsection \<open>Serve\<close>

definition boot_valid :: "bootstrap \<Rightarrow> bool" where
  "boot_valid b \<longleftrightarrow> boot_socket b \<noteq> [] \<and> MinPersist \<le> boot_persist b \<and> boot_persist b \<le> hour \<and>
     \<not> boot_mismatch (boot_identity b) b"

text \<open>Whether the inherited descriptors and the bootstrap can be read, whether authentication succeeds, and
  errors of preparing the directory, binding, changing the mode and writing to the pipe.\<close>

record master_answers =
  m_boot :: bool
  m_auth :: bool
  m_prepare :: "goerr option"
  m_bind :: bool
  m_chmod :: bool
  m_write :: bool

definition boot_read :: "master_answers \<Rightarrow> nat \<Rightarrow> site \<Rightarrow> bool" where
  "boot_read a m s \<longleftrightarrow> m_boot a \<and> (case boots s m of None \<Rightarrow> False | Some b \<Rightarrow> boot_valid b)"

fun master_step :: "master_answers \<Rightarrow> nat \<Rightarrow> stage \<Rightarrow> site \<Rightarrow> site" where
  "master_step a m Boot s =
     (if \<not> boot_read a m s then leave m Dead s
      else if \<not> m_auth a then
        leave m Dead (if m_write a then s else s\<lparr>outbox := (outbox s)(m \<mapsto> failed CategoryUnavailable)\<rparr>)
      else if m_prepare a \<noteq> None then leave m Dead s
      else set_proc m (Master Bind) s)"
| "master_step a m Bind s =
     (if m_bind a \<or> sock s \<noteq> Absent then leave m Dead s
      else set_proc m (Master Listen) (s\<lparr>sock := Bound m\<rparr>))"
| "master_step a m Listen s =
     set_proc m (Master Announce) (if sock s = Bound m then s\<lparr>sock := Listening m\<rparr> else s)"
| "master_step a m Announce s =
     (if m_chmod a \<or> m_write a then set_proc m (Master Closing) s
      else set_proc m (Master Serving) (s\<lparr>outbox := (outbox s)(m \<mapsto> failed [])\<rparr>))"
| "master_step a m Serving s = set_proc m (Master Closing) s"
| "master_step a m Closing s = set_proc m (Master Exiting) (s\<lparr>sock := Absent\<rparr>)"
| "master_step a m Exiting s = leave m Dead s"

subsection \<open>All processes\<close>

inductive site_step :: "(nat \<Rightarrow> start_env) \<Rightarrow> site \<Rightarrow> site \<Rightarrow> bool" for env where
  call: "procs s p = Idle \<Longrightarrow>
    site_step env s (set_proc p (case start_checks (env p) of
      Inl e \<Rightarrow> Returned (Inl e) | Inr path \<Rightarrow> Starter Look) s)"
| run: "procs s p = Starter pc \<Longrightarrow> procs s (a_child a) = Idle \<Longrightarrow> site_step env s (starter_step (env p) a p pc s)"
| serve: "procs s m = Master st \<Longrightarrow> site_step env s (master_step a m st s)"
| die: "procs s p \<notin> {Idle, Dead} \<Longrightarrow> site_step env s (crash p s)"

definition site_init :: "site \<Rightarrow> bool" where
  "site_init s \<longleftrightarrow> sock s \<in> {Absent, Unsafe, Stale} \<and> lock s = {} \<and> procs s = (\<lambda>_. Idle) \<and>
     outbox s = (\<lambda>_. None) \<and> boots s = (\<lambda>_. None)"

abbreviation reachable_site :: "(nat \<Rightarrow> start_env) \<Rightarrow> site \<Rightarrow> bool" where
  "reachable_site env \<equiv> reachable site_init (site_step env)"

end
