(* ===== verification/Master_Spec.thy ===== *)
theory Master_Spec
  imports Master_Start
begin

text \<open>
  What the lock of \<open>Master_Start\<close> achieves.  The abstract registry has one slot: free, held by a starter,
  by a starter and the master it launched, or by a master.  Every step of the processes is a step of the
  registry or none, and the socket file belongs to the master in the slot.
\<close>

subsection \<open>Stages of a master\<close>

instantiation stage :: linorder
begin

fun stage_rank :: "stage \<Rightarrow> nat" where
  "stage_rank Boot = 0"
| "stage_rank Bind = 1"
| "stage_rank Listen = 2"
| "stage_rank Announce = 3"
| "stage_rank Serving = 4"
| "stage_rank Closing = 5"
| "stage_rank Exiting = 6"

definition less_eq_stage :: "stage \<Rightarrow> stage \<Rightarrow> bool" where
  "less_eq_stage x y \<longleftrightarrow> stage_rank x \<le> stage_rank y"

definition less_stage :: "stage \<Rightarrow> stage \<Rightarrow> bool" where
  "less_stage x y \<longleftrightarrow> stage_rank x < stage_rank y"

instance
proof
  fix x y :: stage
  assume "x \<le> y" "y \<le> x"
  then show "x = y" by (cases x; cases y) (simp_all add: less_eq_stage_def)
qed (auto simp: less_eq_stage_def less_stage_def)

end

subsection \<open>The registry\<close>

datatype registry = Free | Electing nat | Starting nat nat | Running nat

inductive registry_step :: "registry \<Rightarrow> registry \<Rightarrow> bool" where
  elect: "registry_step Free (Electing p)"
| resign: "registry_step (Electing p) Free"
| launch: "registry_step (Electing p) (Starting p m)"
| fail: "registry_step (Starting p m) (Electing p)"
| hand_over: "registry_step (Starting p m) (Running m)"
| abandon: "registry_step (Starting p m) Free"
| stop: "registry_step (Running m) Free"

inductive_simps registry_step_simps:
  "registry_step Free a" "registry_step (Electing p) a" "registry_step (Starting p m) a" "registry_step (Running m) a"

text \<open>Program points at which the lock is held.\<close>

fun locked_point :: "starter \<Rightarrow> bool" where
  "locked_point Look = False"
| "locked_point Probe = False"
| "locked_point Take_lock = False"
| "locked_point Wait = False"
| "locked_point _ = True"

fun holding :: "proc \<Rightarrow> bool" where
  "holding (Starter pc) \<longleftrightarrow> locked_point pc"
| "holding (Master st) \<longleftrightarrow> True"
| "holding _ \<longleftrightarrow> False"

text \<open>No master's socket is at the path.\<close>

definition unbound :: "sock_file \<Rightarrow> bool" where
  "unbound k \<longleftrightarrow> k \<in> {Absent, Unsafe, Stale}"

text \<open>The socket file of a master at a stage.\<close>

fun own_sock :: "nat \<Rightarrow> stage \<Rightarrow> sock_file \<Rightarrow> bool" where
  "own_sock m Boot k = unbound k"
| "own_sock m Bind k = unbound k"
| "own_sock m Listen k = (k = Bound m)"
| "own_sock m Exiting k = unbound k"
| "own_sock m _ k = (k = Listening m)"

definition serves :: "nat \<Rightarrow> site \<Rightarrow> bool" where
  "serves m s \<longleftrightarrow> (\<exists>st. procs s m = Master st \<and> own_sock m st (sock s))"

definition idle_but :: "nat set \<Rightarrow> site \<Rightarrow> bool" where
  "idle_but A s \<longleftrightarrow> (\<forall>q. q \<notin> A \<longrightarrow> \<not> holding (procs s q))"

text \<open>The slot describes the site: who holds the lock, that nobody else is past taking it, whose the
  socket file is.\<close>

fun represents :: "registry \<Rightarrow> site \<Rightarrow> bool" where
  "represents Free s \<longleftrightarrow> lock s = {} \<and> idle_but {} s \<and> unbound (sock s)"
| "represents (Electing p) s \<longleftrightarrow> lock s = {p} \<and> idle_but {p} s \<and> unbound (sock s) \<and>
     (\<exists>pc. procs s p = Starter pc \<and> locked_point pc \<and> (\<forall>c. pc = Await c \<longrightarrow> procs s c = Dead))"
| "represents (Starting p m) s \<longleftrightarrow> p \<noteq> m \<and> lock s = {p, m} \<and> idle_but {p, m} s \<and>
     procs s p = Starter (Await m) \<and> serves m s"
| "represents (Running m) s \<longleftrightarrow> lock s = {m} \<and> idle_but {m} s \<and> serves m s"

lemma site_simps [simp]:
  "sock (set_proc p x s) = sock s" "lock (set_proc p x s) = lock s" "outbox (set_proc p x s) = outbox s"
  "procs (set_proc p x s) = (procs s)(p := x)"
  "sock (leave p x s) = sock s" "lock (leave p x s) = lock s - {p}" "outbox (leave p x s) = outbox s"
  "procs (leave p x s) = (procs s)(p := x)"
  "procs (crash p s) = (procs s)(p := Dead)" "lock (crash p s) = lock s - {p}" "outbox (crash p s) = outbox s"
  "sock (crash p s) = (if sock s \<in> {Bound p, Listening p} then Stale else sock s)"
  by (simp_all add: set_proc_def leave_def crash_def)

lemma unbound_simps [simp]: "unbound Absent" "unbound Unsafe" "unbound Stale" "\<not> unbound (Bound m)"
  "\<not> unbound (Listening m)"
  by (simp_all add: unbound_def)

lemma unbound_other [simp]: "unbound k \<Longrightarrow> k \<noteq> Bound p" "unbound k \<Longrightarrow> k \<noteq> Listening p"
  by auto

lemma serves_cong: "procs t m = procs s m \<Longrightarrow> sock t = sock s \<Longrightarrow> serves m t \<longleftrightarrow> serves m s"
  by (simp add: serves_def)

lemma idle_but_upd:
  "idle_but A s \<Longrightarrow> procs t = (procs s)(p := x) \<Longrightarrow> \<not> holding x \<or> p \<in> B \<Longrightarrow> A - {p} \<subseteq> B \<Longrightarrow> idle_but B t"
  by (auto simp: idle_but_def)

lemma own_sock_after_crash: "own_sock m st k \<Longrightarrow> unbound (if k \<in> {Bound m, Listening m} then Stale else k)"
  by (cases st) auto

lemma own_sock_simps [simp]:
  "own_sock m st (Bound p) \<longleftrightarrow> st = Listen \<and> p = m"
  "own_sock m st (Listening p) \<longleftrightarrow> st \<in> {Announce, Serving, Closing} \<and> p = m"
  by (cases st; auto)+

lemma idle_butD: "idle_but A s \<Longrightarrow> holding (procs s q) \<Longrightarrow> q \<in> A"
  by (auto simp: idle_but_def)

lemma own_sock_other: "own_sock m st k \<Longrightarrow> p \<noteq> m \<Longrightarrow> k \<noteq> Bound p \<and> k \<noteq> Listening p"
  by (cases st) auto

subsection \<open>Moves\<close>

text \<open>A process outside the lock moves.\<close>

lemma outside_move:
  assumes "represents a s" "\<not> holding (procs s p)" "procs s p \<noteq> Dead" "\<not> holding x"
  shows "represents a (set_proc p x s)" and "represents a (leave p x s)"
proof -
  show r: "represents a (set_proc p x s)"
    using assms by (cases a) (auto simp: serves_def idle_but_def)
  have "p \<notin> lock s" using assms by (cases a) (auto simp: serves_def)
  then have "leave p x s = set_proc p x s" by (simp add: leave_def set_proc_def)
  with r show "represents a (leave p x s)" by simp
qed

text \<open>The holder of the lock is the one of the slot.\<close>

lemma holder_starter:
  assumes "represents a s" "procs s p = Starter pc" "locked_point pc"
  shows "a = Electing p \<or> (\<exists>m. a = Starting p m \<and> pc = Await m)"
proof (cases a)
  case Free
  with assms show ?thesis by (auto dest: idle_butD [of _ s p])
next
  case (Electing q)
  with assms have "q = p" by (cases "q = p") (auto simp: idle_but_def)
  with Electing show ?thesis by simp
next
  case (Starting q m)
  with assms have "q = p \<or> m = p" by (cases "q = p"; cases "m = p") (auto simp: idle_but_def)
  with Starting assms show ?thesis by (auto simp: serves_def)
next
  case (Running m)
  with assms have "m = p" by (cases "m = p") (auto simp: idle_but_def)
  with Running assms show ?thesis by (auto simp: serves_def)
qed

lemma holder_master:
  assumes "represents a s" "procs s m = Master st"
  shows "(a = Running m \<or> (\<exists>p. a = Starting p m)) \<and> own_sock m st (sock s)"
proof (cases a)
  case (Electing p)
  with assms show ?thesis by (cases "p = m") (auto simp: idle_but_def)
next
  case (Starting p q)
  with assms have "q = m \<or> p = m" by (cases "q = m"; cases "p = m") (auto simp: idle_but_def)
  with Starting assms show ?thesis by (auto simp: serves_def)
next
  case (Running q)
  with assms have "q = m" by (cases "q = m") (auto simp: idle_but_def)
  with Running assms show ?thesis by (auto simp: serves_def)
qed (use assms in \<open>auto dest: idle_butD [of _ s m]\<close>)

lemma elector_moves:
  assumes "represents (Electing p) s" "locked_point pc" "\<forall>c. pc \<noteq> Await c"
  shows "represents (Electing p) (set_proc p (Starter pc) s)"
    and "represents (Electing p) (set_proc p (Starter pc) (s\<lparr>sock := Absent\<rparr>))"
  using assms by (auto simp: idle_but_def)

lemma elector_leaves:
  assumes "represents (Electing p) s" "\<not> holding x"
  shows "represents Free (leave p x s)"
  using assms by (auto simp: idle_but_def)

lemma starter_leaves:
  assumes "represents (Starting p m) s" "\<not> holding x"
  shows "represents (Running m) (leave p x s)"
  using assms by (auto simp: idle_but_def serves_def)

lemma slot_crash:
  assumes "represents a s" "procs s p \<notin> {Idle, Dead}"
  shows "\<exists>a'. (a' = a \<or> registry_step a a') \<and> represents a' (crash p s)"
proof (cases "holding (procs s p)")
  case False
  have "crash p s = leave p Dead s"
  proof -
    have "sock s \<noteq> Bound p \<and> sock s \<noteq> Listening p"
      using assms False by (cases a) (auto simp: serves_def)
    then show ?thesis by (simp add: crash_def)
  qed
  with outside_move(2) [OF assms(1) False, of Dead] assms(2) show ?thesis by auto
next
  case True
  show ?thesis
  proof (cases "procs s p")
    case (Starter pc)
    with holder_starter [OF assms(1)] True consider "a = Electing p" | m where "a = Starting p m" by auto
    then show ?thesis
    proof cases
      case 1
      with assms(1) have "represents Free (crash p s)" by (auto simp: idle_but_def)
      with 1 show ?thesis using registry_step.resign by blast
    next
      case 2
      with assms(1) have "represents (Running m) (crash p s)"
        using own_sock_other by (auto simp: idle_but_def serves_def)
      with 2 show ?thesis using registry_step.hand_over by blast
    qed
  next
    case (Master st)
    from holder_master [OF assms(1) this] have k: "own_sock p st (sock s)"
      and "a = Running p \<or> (\<exists>q. a = Starting q p)" by auto
    then consider "a = Running p" | q where "a = Starting q p" by blast
    then show ?thesis
    proof cases
      case 1
      with assms(1) own_sock_after_crash [OF k] have "represents Free (crash p s)" by (auto simp: idle_but_def)
      with 1 show ?thesis using registry_step.stop by blast
    next
      case 2
      with assms(1) own_sock_after_crash [OF k] have "represents (Electing q) (crash p s)" by (auto simp: idle_but_def)
      with 2 show ?thesis using registry_step.fail by blast
    qed
  qed (use True in auto)
qed

subsection \<open>Every step is a step of the registry\<close>

definition follows :: "registry \<Rightarrow> site \<Rightarrow> bool" where
  "follows a t \<longleftrightarrow> (\<exists>a'. (a' = a \<or> registry_step a a') \<and> represents a' t)"

lemma followsI: "represents a t \<Longrightarrow> follows a t" "registry_step a a' \<Longrightarrow> represents a' t \<Longrightarrow> follows a t"
  by (auto simp: follows_def)

lemma waiting_follows:
  assumes "represents a s" "procs s p = Starter pc" "\<not> locked_point pc" "\<not> holding x"
  shows "follows a (set_proc p x s)" "follows a (leave p x s)"
  using outside_move [OF assms(1), of p x] assms(2-4) by (auto intro: followsI)

lemma lock_taken:
  assumes "represents a s" "procs s p = Starter pc" "\<not> locked_point pc" "lock s = {}"
  shows "follows a (set_proc p (Starter Look_locked) (s\<lparr>lock := {p}\<rparr>))"
proof -
  from assms(1,4) have "a = Free" by (cases a) auto
  moreover from this assms(1) have "represents (Electing p) (set_proc p (Starter Look_locked) (s\<lparr>lock := {p}\<rparr>))"
    by (auto simp: idle_but_def)
  ultimately show ?thesis using registry_step.elect by (blast intro: followsI)
qed

lemma starter_unlocked:
  assumes "represents a s" "procs s p = Starter pc" "\<not> locked_point pc"
  shows "follows a (starter_step env x p pc s)"
proof -
  note w = waiting_follows [OF assms]
  show ?thesis
  proof (cases pc)
    case Take_lock
    with w lock_taken [OF assms] show ?thesis
      by (simp add: flock_of_def tryLock_def split: option.split)
  qed (use w assms(3) in \<open>auto split: option.split prod.split\<close>)
qed

lemma holder_follows:
  assumes "represents (Electing p) s" "locked_point pc" "\<forall>c. pc \<noteq> Await c"
  shows "follows (Electing p) (set_proc p (Starter pc) s)"
    and "follows (Electing p) (set_proc p (Starter pc) (s\<lparr>sock := Absent\<rparr>))"
  using elector_moves [OF assms] by (auto intro: followsI)

lemma holder_leaves:
  assumes "represents (Electing p) s" "\<not> holding x"
  shows "follows (Electing p) (leave p x s)"
  using elector_leaves [OF assms] registry_step.resign by (blast intro: followsI)

lemma launched_follows:
  assumes "represents (Electing p) s" "procs s c = Idle"
  shows "follows (Electing p) (set_proc p (Starter (Await c)) (set_proc c (Master Boot)
    (s\<lparr>lock := insert c (lock s), boots := bs\<rparr>)))"
proof -
  have "represents (Starting p c) (set_proc p (Starter (Await c)) (set_proc c (Master Boot)
      (s\<lparr>lock := insert c (lock s), boots := bs\<rparr>)))"
    using assms by (auto simp: idle_but_def serves_def)
  then show ?thesis using registry_step.launch by (blast intro: followsI)
qed

text \<open>The parent kills its child and leaves.\<close>

lemma kill_follows:
  assumes "represents a s" "procs s p = Starter (Await c)" "\<not> holding x"
  shows "follows a (leave p x (crash c s))"
proof -
  have "a = Electing p \<or> a = Starting p c" using holder_starter [OF assms(1,2)] by auto
  then show ?thesis
  proof
    assume a: "a = Electing p"
    with assms(1,2) have "c \<noteq> p" "procs s c = Dead" by auto
    with a assms have "represents Free (leave p x (crash c s))" by (auto simp: idle_but_def)
    then show ?thesis using a registry_step.resign by (blast intro: followsI)
  next
    assume a: "a = Starting p c"
    with assms(1) own_sock_after_crash have "represents Free (leave p x (crash c s))"
      using assms(3) by (auto simp: idle_but_def serves_def dest: own_sock_after_crash)
    then show ?thesis using a registry_step.abandon by (blast intro: followsI)
  qed
qed

lemma starter_locked:
  assumes "represents a s" "procs s p = Starter pc" "locked_point pc" "procs s (a_child x) = Idle"
  shows "follows a (starter_step env x p pc s)"
proof (cases "\<exists>c. pc = Await c")
  case True
  then obtain c where c: "pc = Await c" by blast
  note kill = kill_follows [OF assms(1) assms(2) [unfolded c]]
  have quits: "follows a (leave p (Returned r) s)" for r
  proof -
    from holder_starter [OF assms(1-3)] c consider "a = Electing p" | "a = Starting p c" by auto
    then show ?thesis
    proof cases
      case 1
      with holder_leaves assms(1) show ?thesis by simp
    next
      case 2
      with starter_leaves [of p c s] assms(1) registry_step.hand_over show ?thesis
        by (intro followsI(2) [of a "Running c"]) auto
    qed
  qed
  show ?thesis using kill quits followsI(1) [OF assms(1)] by (auto simp: c split: option.split)
next
  case False
  with holder_starter [OF assms(1-3)] have a: "a = Electing p" by blast
  note r = assms(1) [unfolded a]
  note moves = holder_follows [OF r] holder_leaves [OF r] launched_follows [OF r assms(4)]
  show ?thesis
    using False assms(3) unfolding a
    by (cases pc) (auto simp: Let_def intro!: moves split: option.split prod.split sum.split)
qed

lemma master_moves:
  assumes "represents a s" "procs s m = Master st" "own_sock m st' k"
  shows "represents a (set_proc m (Master st') (s\<lparr>sock := k\<rparr>))"
proof -
  from holder_master [OF assms(1,2)] consider "a = Running m" | p where "a = Starting p m" by blast
  then show ?thesis
    using assms by cases (auto simp: idle_but_def serves_def)
qed

lemma master_leaves:
  assumes "represents a s" "procs s m = Master st" "unbound (sock s)" "procs t = procs s" "lock t = lock s" "sock t = sock s"
  shows "follows a (leave m Dead t)"
proof -
  from holder_master [OF assms(1,2)] consider "a = Running m" | p where "a = Starting p m" by blast
  then show ?thesis
  proof cases
    case 1
    with assms have "represents Free (leave m Dead t)" by (auto simp: idle_but_def)
    with 1 show ?thesis using registry_step.stop by (blast intro: followsI)
  next
    case 2
    with assms have "represents (Electing p) (leave m Dead t)" by (auto simp: idle_but_def)
    with 2 show ?thesis using registry_step.fail by (blast intro: followsI)
  qed
qed

lemma represents_outbox [simp]: "represents a (s\<lparr>outbox := f\<rparr>) = represents a s"
  by (cases a) (auto simp: idle_but_def serves_def)

lemma set_proc_outbox: "set_proc p x (s\<lparr>outbox := f\<rparr>) = (set_proc p x s)\<lparr>outbox := f\<rparr>"
  by (simp add: set_proc_def)

lemma master_follows:
  assumes "represents a s" "procs s m = Master st"
  shows "follows a (master_step x m st s)"
proof -
  from holder_master [OF assms] have k: "own_sock m st (sock s)" by blast
  note quit = master_leaves [OF assms]
  have same: "follows a (set_proc m (Master st') s)" if "own_sock m st' (sock s)" for st'
    using master_moves [OF assms that] by (auto intro: followsI)
  have move: "follows a (set_proc m (Master st') (s\<lparr>sock := k'\<rparr>))" if "own_sock m st' k'" for st' k'
    using master_moves [OF assms that] by (auto intro: followsI)
  show ?thesis
  proof (cases st)
    case Announce
    with k same [of Closing] same [of Serving] show ?thesis
      by (auto simp: set_proc_outbox follows_def)
  qed (use k in \<open>auto intro!: quit same move\<close>)
qed

lemma step_follows:
  assumes "represents a s" "site_step env s t"
  shows "follows a t"
  using assms(2)
proof cases
  case (call p)
  then show ?thesis using outside_move(1) [OF assms(1), of p]
    by (auto intro!: followsI split: sum.split)
next
  case (run p pc x)
  then show ?thesis using starter_locked [OF assms(1)] starter_unlocked [OF assms(1)] by blast
next
  case (serve m st x)
  then show ?thesis using master_follows [OF assms(1)] by blast
next
  case (die p)
  with slot_crash [OF assms(1)] show ?thesis by (auto simp: follows_def)
qed

lemma init_free: "site_init s \<Longrightarrow> represents Free s"
  by (auto simp: site_init_def idle_but_def unbound_def)

interpretation registry: simulation site_init "site_step env" "\<lambda>a. a = Free" registry_step represents for env
proof
  show "\<exists>a. a = Free \<and> represents a s" if "site_init s" for s using init_free [OF that] by simp
  show "\<exists>a'. (a' = a \<or> registry_step a a') \<and> represents a' t" if "represents a s" "site_step env s t" for a s t
    using step_follows [OF that] by (simp add: follows_def)
qed

text \<open>What a child has reported: success comes after its socket accepts connections.\<close>

definition reported :: "site \<Rightarrow> bool" where
  "reported s \<longleftrightarrow> (\<forall>c r. outbox s c = Some r \<longrightarrow> Category r = [] \<longrightarrow>
     procs s c = Dead \<or> (\<exists>st. procs s c = Master st \<and> Serving \<le> st))"

lemma reported_move:
  assumes "reported s" "outbox t = outbox s" "\<forall>c. procs t c = procs s c \<or> procs t c = Dead \<or>
    (\<exists>x. procs s c = Starter x) \<or> procs s c = Idle \<or>
    (\<exists>st st'. procs s c = Master st \<and> procs t c = Master st' \<and> st \<le> st')"
  shows "reported t"
  unfolding reported_def
proof (intro allI impI)
  fix c r
  assume "outbox t c = Some r" "Category r = []"
  with assms(1,2) have "procs s c = Dead \<or> (\<exists>st. procs s c = Master st \<and> Serving \<le> st)"
    by (auto simp: reported_def)
  then show "procs t c = Dead \<or> (\<exists>st. procs t c = Master st \<and> Serving \<le> st)"
    using assms(3) [rule_format, of c] by (auto dest: order_trans)
qed

lemma starter_others:
  assumes "procs s (a_child x) = Idle" "procs s p = Starter pc"
  shows "outbox (starter_step env x p pc s) = outbox s"
    and "q \<noteq> p \<Longrightarrow> procs (starter_step env x p pc s) q = procs s q \<or> procs (starter_step env x p pc s) q = Dead \<or>
      procs s q = Idle \<and> procs (starter_step env x p pc s) q = Master Boot"
  using assms by (cases pc; auto simp: Let_def split: option.split prod.split sum.split bool.split)+

lemma master_others: "q \<noteq> m \<Longrightarrow> procs (master_step x m st s) q = procs s q"
  by (cases st) auto

lemma master_forward:
  "procs (master_step x m st s) m = Dead \<or> (\<exists>st'. procs (master_step x m st s) m = Master st' \<and> st < st')"
  by (cases st) (auto simp: less_stage_def)

lemma master_reports:
  "outbox (master_step x m st s) = outbox s \<or>
   outbox (master_step x m st s) = (outbox s)(m \<mapsto> failed CategoryUnavailable) \<or>
   (outbox (master_step x m st s) = (outbox s)(m \<mapsto> failed []) \<and> procs (master_step x m st s) m = Master Serving)"
  by (cases st) auto

interpretation children: invariant_system site_init "site_step env" reported for env
proof
  show "reported s" if "site_init s" for s using that by (simp add: site_init_def reported_def)
  show "reported t" if "reported s" "site_step env s t" for s t
    using that(2)
  proof cases
    case (run p pc x)
    have "\<forall>c. procs t c = procs s c \<or> procs t c = Dead \<or> (\<exists>x. procs s c = Starter x) \<or> procs s c = Idle"
      using starter_others(2) [OF run(3,2)] run(1,2) by metis
    with starter_others(1) [OF run(3,2)] run(1) show ?thesis
      by (intro reported_move [OF that(1)]) blast+
  next
    case (serve m st x)
    have "\<forall>c. procs t c = procs s c \<or> procs t c = Dead \<or>
        (\<exists>st st'. procs s c = Master st \<and> procs t c = Master st' \<and> st \<le> st')"
      using master_others [of _ m x st s] master_forward [of x m st s] serve less_imp_le by metis
    then have "reported (t\<lparr>outbox := outbox s\<rparr>)" by (intro reported_move [OF that(1)]) auto
    then have r: "outbox s c = Some r \<Longrightarrow> Category r = [] \<Longrightarrow>
        procs t c = Dead \<or> (\<exists>st. procs t c = Master st \<and> Serving \<le> st)" for c r
      by (auto simp: reported_def)
    from master_reports [of x m st s] show ?thesis
      unfolding reported_def serve(1) [symmetric]
    proof (elim disjE conjE, goal_cases)
      case 1
      with r show ?case by simp
    next
      case 2
      with r show ?case by (simp add: failed_def categories)
    next
      case 3
      with r show ?case by simp
    qed
  next
    case (call p)
    then show ?thesis by (intro reported_move [OF that(1)]) auto
  next
    case (die p)
    then show ?thesis by (intro reported_move [OF that(1)]) auto
  qed
qed

subsection \<open>Properties\<close>

lemma reachable_slot: "reachable_site env s \<Longrightarrow> \<exists>a. represents a s"
  using registry.simulated by blast

text \<open>C3: The processes refine the registry: at every moment of every interleaving of starters, masters and
  deaths the site is described by a state of the registry that the registry's own steps reach, and whatever
  the processes do from there the registry can do with them.\<close>

theorem start_refines_registry:
  assumes "reachable_site env s" and "steps (site_step env) s t"
  shows "\<exists>a b. reachable (\<lambda>a. a = Free) registry_step a \<and> represents a s \<and>
    steps registry_step a b \<and> represents b t"
  using registry.simulated [OF assms(1)] registry.steps_simulated [OF assms(2)] by metis

lemma slot_masters:
  assumes "represents a s" "procs s m = Master st" "procs s n = Master st'"
  shows "m = n"
  using holder_master [OF assms(1,2)] holder_master [OF assms(1,3)] by auto

lemma slot_starters:
  assumes "represents a s" "procs s p = Starter pc" "locked_point pc" "procs s q = Starter qc" "locked_point qc"
  shows "p = q"
  using holder_starter [OF assms(1-3)] holder_starter [OF assms(1,4,5)] by auto

lemma slot_both:
  assumes "represents a s" "procs s p = Starter pc" "locked_point pc" "procs s m = Master st"
  shows "pc = Await m"
  using holder_starter [OF assms(1-3)] holder_master [OF assms(1,4)] by auto

text \<open>C4: At most one master of a socket path is alive, at most one starter is past the lock, and while
  that starter looks for a socket, removes it or asks for the password, no master is alive.  The socket file
  belongs to the live master from the moment it is bound until the master closes it, so a path that accepts
  connections leads to that master.\<close>

theorem one_master:
  assumes "reachable_site env s"
  shows "(procs s m = Master st \<and> procs s n = Master st' \<longrightarrow> m = n) \<and>
    (procs s p = Starter pc \<and> locked_point pc \<and> procs s q = Starter qc \<and> locked_point qc \<longrightarrow> p = q) \<and>
    (procs s p = Starter pc \<and> locked_point pc \<and> procs s m = Master st \<longrightarrow> pc = Await m) \<and>
    (procs s m = Master st \<longrightarrow> own_sock m st (sock s)) \<and>
    (sock s = Listening m \<longrightarrow> (\<exists>st. procs s m = Master st))"
proof -
  obtain a where a: "represents a s" using reachable_slot [OF assms] by blast
  have "\<exists>st. procs s m = Master st" if "sock s = Listening m"
    using a that by (cases a) (auto simp: serves_def)
  with slot_masters [OF a] slot_starters [OF a] slot_both [OF a] holder_master [OF a] show ?thesis by metis
qed

text \<open>C17: No starter ever removes the socket of a live master.  When a path stops accepting connections,
  the master has closed its own socket or has died, also where the probe under the lock failed for another
  reason than a refused connection.\<close>

theorem socket_kept:
  assumes "reachable_site env s" and "site_step env s t" and "sock s = Listening m" and "sock t \<noteq> Listening m"
  shows "(procs s m = Master Closing \<and> procs t m = Master Exiting \<and> sock t = Absent) \<or>
    (procs t m = Dead \<and> sock t = Stale)"
proof -
  obtain a where a: "represents a s" using reachable_slot [OF assms(1)] by blast
  obtain st where m: "procs s m = Master st" "st \<in> {Announce, Serving, Closing}"
    using a assms(3) by (cases a) (auto simp: serves_def)
  from assms(2) show ?thesis
  proof cases
    case (call p)
    with assms(3,4) show ?thesis by simp
  next
    case (run p pc x)
    have "pc = Await m" if "locked_point pc" using slot_both [OF a run(2) that m(1)] .
    moreover have "p \<noteq> m" using run(2) m(1) by auto
    ultimately show ?thesis using run assms(3,4)
      by (cases pc) (auto split: option.splits prod.splits sum.splits bool.splits if_splits)
  next
    case (serve n st' x)
    have "n = m" using slot_masters [OF a serve(2) m(1)] .
    with serve m assms(3,4) show ?thesis by (cases st') (auto split: if_splits)
  next
    case (die p)
    with assms(3,4) show ?thesis by (auto split: if_splits)
  qed
qed

text \<open>Under the lock the code takes any failure to connect for a refusal.\<close>

lemma failed_dial_unlinks:
  "a_dial a = Some e \<Longrightarrow> starter_step env a p Probe_locked s = set_proc p (Starter Unlink) s"
  by (simp add: probe_of_def dial_of_def probeMaster_def)

text \<open>Why a step of \<open>StartOrConnect\<close> with the answers \<open>x\<close> may return the path: the check frame went to a
  listening master, and its reply is a result frame that decodes to a result without a category; or the launched
  master has written its success into the pipe.\<close>

definition probe_answered :: "start_env \<Rightarrow> answers \<Rightarrow> site \<Rightarrow> bool" where
  "probe_answered env x s \<longleftrightarrow> (\<exists>m st. sock s = Listening m \<and> procs s m = Master st) \<and> a_dial x = None \<and> a_written x \<and>
     (\<exists>payload r. a_reply x = Inr (frameResult, payload) \<and> decode_result (st_codec env) payload = Some r \<and> Category r = [])"

definition launch_answered :: "answers \<Rightarrow> nat \<Rightarrow> site \<Rightarrow> bool" where
  "launch_answered x c s \<longleftrightarrow> a_await x = None \<and> (\<exists>r. outbox s c = Some r \<and> Category r = []) \<and>
     (procs s c = Dead \<or> (\<exists>st. procs s c = Master st \<and> Serving \<le> st))"

lemma probe_live_answered:
  assumes "represents a s" and "probe_of env x s = (True, c, e)"
  shows "probe_answered env x s"
proof -
  from assms(2) have d: "dial_of x s = Connected" and w: "a_written x" and
    r: "\<exists>payload r. a_reply x = Inr (frameResult, payload) \<and> decode_result (st_codec env) payload = Some r \<and> Category r = []"
    by (auto simp: probe_of_def probe_live)
  from d assms(1) have "\<exists>m st. sock s = Listening m \<and> procs s m = Master st"
    by (cases a) (auto simp: dial_of_def serves_def split: option.splits sock_file.splits)
  moreover have "a_dial x = None" using d by (simp add: dial_of_def split: option.splits)
  ultimately show ?thesis using w r by (simp add: probe_answered_def)
qed

lemma own_return:
  assumes "represents a s" and "reported s" and "procs s p = Starter pc"
    and "procs (starter_step env x p pc s) p = Returned (Inr path)"
  shows "path = path_of env \<and> (pc \<in> {Probe, Probe_locked} \<and> probe_answered env x s \<or>
    (\<exists>c. pc = Await c \<and> launch_answered x c s))"
  using assms(2-4)
  by (cases pc) (auto simp: Let_def reported_def launch_answered_def dest: probe_live_answered [OF assms(1)]
      split: option.splits prod.splits sum.splits bool.splits if_splits)

text \<open>C18: Only a step of its own makes \<open>StartOrConnect\<close> return the socket path, and whatever the answers of that
  step are, they are one of two: the path's socket was dialled, a listening master took the check frame and its reply
  was a result frame without a category; or the master that this call launched has reported success on its pipe,
  after it bound and published its socket.\<close>

theorem start_result:
  assumes "reachable_site env s" and "site_step env s t"
    and "procs s p \<noteq> Returned (Inr path)" and "procs t p = Returned (Inr path)"
  shows "path = path_of (env p) \<and>
    (\<exists>pc. procs s p = Starter pc \<and> (\<exists>x. t = starter_step (env p) x p pc s) \<and>
      (\<forall>x. t = starter_step (env p) x p pc s \<longrightarrow>
        (pc \<in> {Probe, Probe_locked} \<and> probe_answered (env p) x s \<or> (\<exists>c. pc = Await c \<and> launch_answered x c s))))"
proof -
  obtain a where a: "represents a s" using reachable_slot [OF assms(1)] by blast
  have rep: "reported s" by (rule children.reachable_inv [OF assms(1)])
  from assms(2) show ?thesis
  proof cases
    case (run q pc x)
    have "q = p"
    proof (rule ccontr)
      assume "q \<noteq> p"
      with starter_others(2) [OF run(3,2), of p "env q"] run(1) assms(3,4) show False by auto
    qed
    then have pc: "procs s p = Starter pc" and t: "t = starter_step (env p) x p pc s" using run by simp_all
    have "path = path_of (env p) \<and> (pc \<in> {Probe, Probe_locked} \<and> probe_answered (env p) y s \<or>
        (\<exists>c. pc = Await c \<and> launch_answered y c s))" if "t = starter_step (env p) y p pc s" for y
      using own_return [OF a rep pc, of "env p" y path] assms(4) that by simp
    then show ?thesis using pc t by blast
  next
    case (serve m st x)
    then show ?thesis using master_others [of p m x st s] master_forward [of x m st s] assms(3,4)
      by (cases "p = m") auto
  next
    case (call q)
    with assms(3,4) show ?thesis by (auto split: if_splits sum.splits)
  next
    case (die q)
    with assms(3,4) show ?thesis by (auto split: if_splits)
  qed
qed

text \<open>When the start-up context has ended, \<open>StartOrConnect\<close> is near its end.  The number of its own steps
  that are left:\<close>

fun steps_left :: "starter \<Rightarrow> nat" where
  "steps_left Look = 9"
| "steps_left Probe = 8"
| "steps_left Take_lock = 7"
| "steps_left Wait = 1"
| "steps_left Look_locked = 6"
| "steps_left Probe_locked = 5"
| "steps_left Unlink = 4"
| "steps_left Resolve = 3"
| "steps_left Resolving = 3"
| "steps_left (Launch b) = 2"
| "steps_left (Await c) = 1"

lemma ended_step:
  assumes "a_ctx a \<noteq> None" "a_await a \<noteq> None"
  shows "(\<exists>r. procs (starter_step env a p pc s) p = Returned r) \<or>
    (\<exists>pc'. procs (starter_step env a p pc s) p = Starter pc' \<and> steps_left pc' < steps_left pc)"
  using assms by (cases pc) (auto simp: Let_def split: option.split prod.split sum.split bool.split)

text \<open>A starter's own steps with whatever the other processes do before each of them.\<close>

fun turns :: "start_env \<Rightarrow> nat \<Rightarrow> ((site \<Rightarrow> site) \<times> answers) list \<Rightarrow> site \<Rightarrow> site" where
  "turns env p [] s = s"
| "turns env p ((f, a) # rest) s =
     (case procs (f s) p of
        Starter pc \<Rightarrow> turns env p rest (starter_step env a p pc (f s))
      | _ \<Rightarrow> f s)"

text \<open>\<open>StartOrConnect\<close> does not outlive its start-up context: once that has ended, so that reading the
  clock gives its error and the bootstrap connection is closed, at most nine more steps of its own take it to
  its return, whatever all the other processes do to the socket and the lock between them.\<close>

theorem start_ends:
  assumes "\<forall>(f, a) \<in> set others. (\<forall>s. procs (f s) p = procs s p) \<and> a_ctx a \<noteq> None \<and> a_await a \<noteq> None"
    and "procs s p = Starter pc" and "9 \<le> length others"
  shows "\<exists>r. procs (turns env p others s) p = Returned r"
proof -
  have "\<exists>r. procs (turns env p others s) p = Returned r"
    if "\<forall>(f, a) \<in> set others. (\<forall>s. procs (f s) p = procs s p) \<and> a_ctx a \<noteq> None \<and> a_await a \<noteq> None"
      and "(\<exists>r. procs s p = Returned r) \<or> (\<exists>pc. procs s p = Starter pc \<and> steps_left pc \<le> length others)" for s others
    using that
  proof (induction others arbitrary: s)
    case Nil
    then show ?case by (auto elim: steps_left.elims)
  next
    case (Cons fa others)
    obtain f a where fa: "fa = (f, a)" by (cases fa)
    show ?case
    proof (cases "procs s p")
      case (Starter pc)
      with Cons.prems fa have f: "procs (f s) p = Starter pc" "a_ctx a \<noteq> None" "a_await a \<noteq> None"
        "steps_left pc \<le> Suc (length others)" by auto
      have "\<exists>r. procs (turns env p others (starter_step env a p pc (f s))) p = Returned r"
        using ended_step [OF f(2,3), of env p pc "f s"] f(4) Cons.prems(1)
        by (intro Cons.IH) fastforce+
      with f(1) show ?thesis by (simp add: fa)
    qed (use Cons.prems fa in auto)
  qed
  moreover have "steps_left pc \<le> 9" by (cases pc) auto
  ultimately show ?thesis using assms by (meson order_trans)
qed

subsection \<open>Concrete runs\<close>

text \<open>An interleaving as a list of events, executed one by one as far as they are enabled.\<close>

datatype event = Call nat | Run nat answers | Serve nat master_answers | Die nat

fun fire :: "(nat \<Rightarrow> start_env) \<Rightarrow> event \<Rightarrow> site \<Rightarrow> site option" where
  "fire env (Call p) s =
     (if procs s p = Idle then Some (set_proc p (case start_checks (env p) of
        Inl e \<Rightarrow> Returned (Inl e) | Inr path \<Rightarrow> Starter Look) s) else None)"
| "fire env (Run p a) s =
     (case procs s p of
        Starter pc \<Rightarrow> if procs s (a_child a) = Idle then Some (starter_step (env p) a p pc s) else None
      | _ \<Rightarrow> None)"
| "fire env (Serve m a) s = (case procs s m of Master st \<Rightarrow> Some (master_step a m st s) | _ \<Rightarrow> None)"
| "fire env (Die p) s = (if procs s p \<in> {Idle, Dead} then None else Some (crash p s))"

fun fires :: "(nat \<Rightarrow> start_env) \<Rightarrow> event list \<Rightarrow> site \<Rightarrow> site option" where
  "fires env [] s = Some s"
| "fires env (e # es) s = (case fire env e s of None \<Rightarrow> None | Some t \<Rightarrow> fires env es t)"

lemma fire_step: "fire env e s = Some t \<Longrightarrow> site_step env s t"
  by (cases e) (auto intro: site_step.intros split: if_splits proc.splits)

lemma fires_reachable: "fires env es s = Some t \<Longrightarrow> reachable_site env s \<Longrightarrow> reachable_site env t"
  by (induction es arbitrary: s) (auto dest: fire_step intro: reachable.extend split: option.splits)

lemma fires_steps: "fires env es s = Some t \<Longrightarrow> steps (site_step env) u s \<Longrightarrow> steps (site_step env) u t"
  by (induction es arbitrary: s) (auto dest: fire_step intro: steps.more split: option.splits)

definition lab_target :: identity where
  "lab_target = \<lparr>id_endpoint = ''http://srv:5985/wsman'', id_user = ''alice'', id_host = [], id_trust = []\<rparr>"

definition lab_boot :: bootstrap where
  "lab_boot = \<lparr>boot_endpoint = ''http://srv:5985/wsman'', boot_user = ''alice'', boot_password = ''pw'', boot_host = [],
     boot_timeout = 60, boot_identity = lab_target, boot_socket = [], boot_persist = 0\<rparr>"

definition lab_env :: "nat \<Rightarrow> start_env" where
  "lab_env p = \<lparr>st_codec = \<lparr>decode_target = (\<lambda>_. None), decode_call = (\<lambda>_. None), decode_result = (\<lambda>_. Some (failed []))\<rparr>,
     st_uid = 501, st_identity = lab_target,
     st_settings = \<lparr>set_mode = ''auto'', set_path = ''/h/m.sock'', set_persist = 300 * 10 ^ 9\<rparr>,
     st_path = Inr ''/h/m.sock'', st_prepare = None\<rparr>"

definition fair :: answers where
  "fair = \<lparr>a_lstat = None, a_dial = None, a_written = True, a_reply = Inr (frameResult, []), a_open = None,
     a_flock = False, a_unlink = False, a_ctx = None, a_boot = Inr lab_boot, a_spawn = None, a_child = 9,
     a_await = None\<rparr>"

definition works :: master_answers where
  "works = \<lparr>m_boot = True, m_auth = True, m_prepare = None, m_bind = False, m_chmod = False, m_write = False\<rparr>"

definition lab_site :: site where
  "lab_site = \<lparr>sock = Stale, lock = {}, procs = (\<lambda>_. Idle), outbox = (\<lambda>_. None), boots = (\<lambda>_. None)\<rparr>"

lemma lab_reachable: "reachable_site lab_env lab_site"
  by (intro reachable.start) (simp add: lab_site_def site_init_def)

text \<open>Two starters race for a path with a stale socket.  The first removes it and launches master 9; the
  second finds the lock taken.\<close>

definition race :: "event list" where
  "race = [Call 0, Call 1, Run 0 fair, Run 0 fair, Run 0 fair, Run 0 fair, Run 0 fair, Run 0 fair, Run 0 fair,
     Run 1 fair, Run 1 fair, Run 0 fair, Run 0 fair]"

definition up :: "event list" where
  "up = [Serve 9 works, Serve 9 works, Serve 9 works]"

lemmas lab_defs = lab_env_def lab_target_def lab_boot_def fair_def works_def lab_site_def start_checks_def hour_def
  set_proc_def leave_def crash_def lstat_of_def dial_of_def probe_of_def flock_of_def probeMaster_def socketState_def
  private_file_def tryLock_def boot_mismatch_def fill_boot_def path_of_def boot_read_def boot_valid_def MinPersist_def

definition launched_site :: site where
  "launched_site = the (fires lab_env race lab_site)"

lemma race_runs: "fires lab_env race lab_site = Some launched_site"
  and launched_parts: "procs launched_site 0 = Starter (Await 9)" "procs launched_site 1 = Starter Wait"
    "procs launched_site 9 = Master Boot" "lock launched_site = {0, 9}" "sock launched_site = Absent"
  by (simp_all add: launched_site_def race_def lab_defs insert_commute)

definition up_site :: site where
  "up_site = the (fires lab_env up launched_site)"

lemma launched_reachable: "reachable_site lab_env launched_site"
  using fires_reachable [OF race_runs lab_reachable] .

lemma up_runs: "fires lab_env up launched_site = Some up_site"
  and up_parts: "procs up_site 0 = Starter (Await 9)" "procs up_site 1 = Starter Wait"
    "procs up_site 9 = Master Announce" "sock up_site = Listening 9" "outbox up_site 9 = None"
  by (simp_all add: up_site_def launched_site_def race_def up_def lab_defs)

lemma up_reachable: "reachable_site lab_env up_site"
  using fires_reachable [OF up_runs launched_reachable] .

theorem start_refines_registry_witness:
  "\<exists>a b. reachable (\<lambda>a. a = Free) registry_step a \<and> represents a launched_site \<and>
    steps registry_step a b \<and> represents b up_site"
  using start_refines_registry [OF launched_reachable fires_steps [OF up_runs steps.stay]] .

theorem one_master_witness:
  "own_sock 9 Announce (sock up_site) \<and> (\<exists>st. procs up_site 9 = Master st) \<and> \<not> locked_point Wait"
proof -
  have "own_sock 9 Announce (sock up_site) \<and> (\<exists>st. procs up_site 9 = Master st)"
    using one_master [OF up_reachable, of 9 Announce 9 Announce] up_parts by blast
  moreover have "\<not> locked_point Wait"
    using one_master [OF up_reachable, of 9 Announce 9 Announce 1 Wait 0 "Await 9"] up_parts by auto
  ultimately show ?thesis by blast
qed

lemma up_closes: "\<exists>t. fires lab_env [Serve 9 works, Serve 9 works, Serve 9 works] up_site = Some t \<and> sock t = Absent"
  by (simp add: up_parts lab_defs)

theorem socket_kept_witness:
  "procs (crash 9 up_site) 9 = Dead \<and> sock (crash 9 up_site) = Stale"
  using socket_kept [OF up_reachable site_step.die [of up_site 9 lab_env], of 9] up_parts by simp

text \<open>The second starter finds the published socket and is answered.\<close>

definition probing_site :: site where
  "probing_site = the (fires lab_env [Serve 9 works, Run 1 (fair\<lparr>a_child := 5\<rparr>), Run 1 (fair\<lparr>a_child := 5\<rparr>)] up_site)"

lemma probing_runs: "fires lab_env [Serve 9 works, Run 1 (fair\<lparr>a_child := 5\<rparr>), Run 1 (fair\<lparr>a_child := 5\<rparr>)] up_site = Some probing_site"
  and probing_parts: "procs probing_site 1 = Starter Probe" "procs probing_site 5 = Idle"
  by (simp_all add: probing_site_def up_site_def launched_site_def race_def up_def lab_defs)

theorem start_result_witness:
  "\<exists>t. site_step lab_env probing_site t \<and> procs t 1 = Returned (Inr ''/h/m.sock'') \<and>
     probe_answered (lab_env 1) (fair\<lparr>a_child := 5\<rparr>) probing_site"
proof -
  let ?a = "fair\<lparr>a_child := 5\<rparr>"
  have r: "reachable_site lab_env probing_site"
    using fires_reachable [OF probing_runs up_reachable] .
  have s: "site_step lab_env probing_site (starter_step (lab_env 1) ?a 1 Probe probing_site)"
    using probing_parts by (intro site_step.run) (simp_all add: fair_def)
  have t: "procs (starter_step (lab_env 1) ?a 1 Probe probing_site) 1 = Returned (Inr ''/h/m.sock'')"
    by (simp add: probing_site_def up_site_def launched_site_def race_def up_def lab_defs failed_def)
  have n: "procs probing_site 1 \<noteq> Returned (Inr ''/h/m.sock'')" using probing_parts(1) by simp
  from start_result [OF r s n t] probing_parts(1) have "probe_answered (lab_env 1) ?a probing_site" by auto
  with s t show ?thesis by blast
qed

theorem start_ends_witness:
  "\<exists>r. procs (turns (lab_env 1) 1
     (replicate 9 (\<lambda>s. s, fair\<lparr>a_ctx := Some Deadline, a_await := Some (Msg ''closed'')\<rparr>)) up_site) 1 = Returned r"
  by (rule start_ends [OF _ up_parts(2)]) simp_all

end
