(* ===== verification/Secret.thy ===== *)
theory Secret
  imports Utf8 Go_Text Go_Errors Base64
begin

text \<open>
  Passwords (\<open>internal/secret/secret.go\<close>, \<open>resolve.go\<close>): reading one from the environment or the first
  line of standard input, and resolving a reference of the configuration.
\<close>

subsection \<open>Resolve\<close>

type_synonym lookup_env = "bytes \<Rightarrow> bytes option"

definition secret_text :: "bytes \<Rightarrow> goerr + bytes" where
  "secret_text value =
     check (value = []) (Msg ''credential value is empty'') (
     check (\<not> valid_utf8 value \<or> CHR 0x00 \<in> set value) (Msg ''credential value must be UTF-8 without NUL'')
       (Inr value))"

definition Resolve :: "bytes \<Rightarrow> lookup_env \<Rightarrow> goerr + bytes" where
  "Resolve value lookup =
     (if has_prefix value ''literal:'' then secret_text (trim_prefix value ''literal:'')
      else if has_prefix value ''env:'' then
        (let name = trim_prefix value ''env:'' in
         check (name = [] \<or> contains_any name [CHR ''='', CHR 0x00, CHR 0x0D, CHR 0x0A])
           (Msg ''invalid environment variable reference'') (
         case lookup name of
           None \<Rightarrow> Inl (Msg ''credential environment variable is not set'')
         | Some v \<Rightarrow> secret_text v))
      else if has_prefix value ''base64:'' then
        (case b64_decode True (trim_prefix value ''base64:'') of
           None \<Rightarrow> Inl (Msg ''invalid base64 credential'')
         | Some v \<Rightarrow> secret_text v)
      else secret_text value)"

text \<open>A usable secret.\<close>

definition secret_ok :: "bytes \<Rightarrow> bool" where
  "secret_ok v \<longleftrightarrow> v \<noteq> [] \<and> valid_utf8 v \<and> CHR 0x00 \<notin> set v"

lemma secret_text_iff [simp]: "secret_text v = Inr w \<longleftrightarrow> w = v \<and> secret_ok v"
  by (auto simp: secret_text_def secret_ok_def)

definition secret_errors :: "goerr set" where
  "secret_errors = {Msg ''invalid environment variable reference'', Msg ''credential environment variable is not set'',
     Msg ''invalid base64 credential'', Msg ''credential value is empty'',
     Msg ''credential value must be UTF-8 without NUL''}"

lemma trim_prefix_append [simp]: "trim_prefix (p @ v) p = v"
  by (simp add: trim_prefix_def)

lemma Resolve_forms:
  "Resolve (''literal:'' @ v) lookup = secret_text v"
  "Resolve (''base64:'' @ b64_encode v) lookup = secret_text v"
  using trim_prefix_append [of "''literal:''" v] trim_prefix_append [of "''base64:''" "b64_encode v"]
  by (simp_all add: Resolve_def has_prefix_def)

lemma Resolve_env:
  assumes "name \<noteq> []" "\<not> contains_any name [CHR ''='', CHR 0x00, CHR 0x0D, CHR 0x0A]" "lookup name = Some v"
  shows "Resolve (''env:'' @ name) lookup = secret_text v"
  using trim_prefix_append [of "''env:''" name] assms by (simp add: Resolve_def has_prefix_def)

lemma Resolve_plain:
  assumes "\<not> has_prefix v ''literal:''" "\<not> has_prefix v ''env:''" "\<not> has_prefix v ''base64:''"
  shows "Resolve v lookup = secret_text v"
  using assms by (simp add: Resolve_def)

lemma Resolve_error: "Resolve value lookup = Inl e \<Longrightarrow> e \<in> secret_errors"
  by (auto simp: Resolve_def secret_text_def check_def secret_errors_def Let_def split: if_splits option.splits)

text \<open>Every usable secret, that is every non-empty UTF-8 text without NUL, can be written as a literal, in
  base64 or, unless it starts like a reference, as it is, and resolves to itself: what is decoded or literal is
  not expanded again.  Resolving returns nothing but usable secrets, and its errors are five fixed messages
  that cannot contain the reference or its value.\<close>

theorem Resolve_roundtrip:
  assumes "secret_ok v"
  shows "Resolve (''literal:'' @ v) lookup = Inr v \<and> Resolve (''base64:'' @ b64_encode v) lookup = Inr v \<and>
    (\<not> has_prefix v ''literal:'' \<and> \<not> has_prefix v ''env:'' \<and> \<not> has_prefix v ''base64:'' \<longrightarrow> Resolve v lookup = Inr v) \<and>
    (\<forall>name \<noteq> []. \<not> contains_any name [CHR ''='', CHR 0x00, CHR 0x0D, CHR 0x0A] \<longrightarrow>
       lookup name = Some v \<longrightarrow> Resolve (''env:'' @ name) lookup = Inr v) \<and>
    (\<forall>value. case Resolve value lookup of Inl e \<Rightarrow> e \<in> secret_errors | Inr w \<Rightarrow> secret_ok w)"
proof -
  have "case Resolve r lookup of Inl e \<Rightarrow> e \<in> secret_errors | Inr w \<Rightarrow> secret_ok w" for r
  proof (cases "Resolve r lookup")
    case (Inr w)
    then have "secret_ok w"
      by (auto simp: Resolve_def Let_def split: if_splits option.splits)
    with Inr show ?thesis by simp
  qed (simp add: Resolve_error)
  moreover have v: "secret_text v = Inr v" using assms by simp
  moreover have "Resolve (''literal:'' @ v) lookup = Inr v" "Resolve (''base64:'' @ b64_encode v) lookup = Inr v"
    unfolding Resolve_forms by (rule v)+
  moreover have "Resolve (''env:'' @ name) lookup = Inr v"
    if "name \<noteq> []" "\<not> contains_any name [CHR ''='', CHR 0x00, CHR 0x0D, CHR 0x0A]" "lookup name = Some v" for name
    using Resolve_env [of name lookup v] that v by presburger
  ultimately show ?thesis using Resolve_plain [of v lookup] by simp
qed

theorem Resolve_roundtrip_witness:
  "Resolve (''literal:'' @ ''env:PASS'') (\<lambda>_. None) = Inr ''env:PASS''"
proof -
  have "secret_ok ''env:PASS''" using ascii_utf8 [of "''env:PASS''"] by (simp add: secret_ok_def)
  from Resolve_roundtrip [OF this] show ?thesis by blast
qed

subsection \<open>Read\<close>

text \<open>\<open>bufio.Reader.ReadSlice\<close> for a newline with a buffer of \<open>cap\<close> bytes, on a reader that delivers
  \<open>content\<close> and then its end, or the error \<open>err\<close>: the bytes up to the newline, or what there is and an error.\<close>

definition read_slice :: "nat \<Rightarrow> bytes \<Rightarrow> goerr option \<Rightarrow> bytes \<times> goerr option" where
  "read_slice cap content err =
     (case str_index (take cap content) [CHR 0x0A] of
        Some i \<Rightarrow> (take (i + 1) content, None)
      | None \<Rightarrow>
          if length content \<ge> cap then (take cap content, Some (Msg ''bufio: buffer full''))
          else (content, Some (case err of None \<Rightarrow> Sentinel IoEOF | Some e \<Rightarrow> e)))"

definition Read :: "bytes \<Rightarrow> bool \<Rightarrow> bytes \<Rightarrow> goerr option \<Rightarrow> (bytes \<Rightarrow> bytes) \<Rightarrow> goerr + bytes" where
  "Read env stdinMode content err lookup =
     (if \<not> stdinMode then
        check (lookup env = [])
          (Msg ''password environment variable is empty; set it or use --password-stdin'') (Inr (lookup env))
      else case read_slice 65536 content err of (line, e) \<Rightarrow>
        check (case e of None \<Rightarrow> False | Some x \<Rightarrow> \<not> errors_is x IoEOF)
          (Msg ''cannot read password line (maximum 65535 bytes)'') (
        let value = trim_suffix (trim_suffix line [CHR 0x0A]) [CHR 0x0D] in
        check (value = []) (Msg ''password line is empty'') (Inr value)))"

text \<open>\<open>early\<close> is the error of a context that had ended before, \<open>ended\<close> that of one that ends before a read of
  standard input does.\<close>

definition ReadContext ::
  "ctx_err option \<Rightarrow> ctx_err option \<Rightarrow> bytes \<Rightarrow> bool \<Rightarrow> bytes \<Rightarrow> goerr option \<Rightarrow> (bytes \<Rightarrow> bytes) \<Rightarrow> goerr + bytes" where
  "ReadContext early ended env stdinMode content err lookup =
     (case early of
        Some e \<Rightarrow> Inl (ctx_goerr e)
      | None \<Rightarrow>
          if \<not> stdinMode then Read env False content err lookup
          else case ended of
            Some e \<Rightarrow> Inl (ctx_goerr e)
          | None \<Rightarrow> Read env True content err lookup)"

lemma str_index_newline:
  "str_index s [c] = Some i \<longleftrightarrow> i < length s \<and> s ! i = c \<and> c \<notin> set (take i s)"
proof (induction s arbitrary: i)
  case (Cons x s)
  show ?case
  proof (cases "x = c")
    case True
    then show ?thesis by (cases i) (auto simp: has_prefix_def)
  next
    case False
    with Cons show ?thesis by (cases i) (auto simp: has_prefix_def)
  qed
qed simp

text \<open>A line that fits is read without its end of line, whatever follows it.\<close>

lemma Read_line:
  assumes "CHR 0x0A \<notin> set line" "line \<noteq> []" "last line \<noteq> CHR 0x0D" "length line < 65535"
  shows "Read env True (line @ [CHR 0x0A] @ rest) err lookup = Inr line"
    and "Read env True (line @ [CHR 0x0D, CHR 0x0A] @ rest) err lookup = Inr line"
    and "Read env True line None lookup = Inr line"
proof -
  have i: "str_index (take 65536 (a @ [CHR 0x0A] @ b)) [CHR 0x0A] = Some (length a)"
    if "CHR 0x0A \<notin> set a" "length a < 65536" for a b
    using that by (simp add: str_index_newline nth_append)
  have no: "\<not> has_suffix line [CHR 0x0D]" "\<not> has_suffix line [CHR 0x0A]"
    using assms by (auto simp: has_suffix_iff)
  have ts: "trim_suffix (a @ [c]) [c] = a" for a and c :: char
    by (simp add: trim_suffix_def)
  from i [of line rest] assms have r: "read_slice 65536 (line @ [CHR 0x0A] @ rest) err = (line @ [CHR 0x0A], None)"
    by (simp add: read_slice_def)
  show "Read env True (line @ [CHR 0x0A] @ rest) err lookup = Inr line"
    using assms no ts [of line] unfolding Read_def r by (simp add: Let_def trim_suffix_def)
  from i [of "line @ [CHR 0x0D]" rest] assms
  have r: "read_slice 65536 (line @ [CHR 0x0D, CHR 0x0A] @ rest) err = ((line @ [CHR 0x0D]) @ [CHR 0x0A], None)"
    by (simp add: read_slice_def)
  show "Read env True (line @ [CHR 0x0D, CHR 0x0A] @ rest) err lookup = Inr line"
    using assms unfolding Read_def r prod.case ts by (simp add: Let_def ts)
  have r: "read_slice 65536 line None = (line, Some (Sentinel IoEOF))"
    using assms by (simp add: read_slice_def str_index_absent)
  show "Read env True line None lookup = Inr line"
    using assms no unfolding Read_def r by (simp add: Let_def trim_suffix_def)
qed

text \<open>What is read is never empty and has no newline in it.\<close>

lemma Read_result:
  assumes "Read env True content err lookup = Inr v"
  shows "v \<noteq> [] \<and> CHR 0x0A \<notin> set v \<and> length v < 65536 \<and> (\<exists>t. content = v @ t)"
proof -
  obtain line e where s: "read_slice 65536 content err = (line, e)" by (metis surj_pair)
  with assms have v: "v = trim_suffix (trim_suffix line [CHR 0x0A]) [CHR 0x0D]" "v \<noteq> []"
    and e: "e = None \<or> (\<exists>x. e = Some x \<and> errors_is x IoEOF)"
    by (auto simp: Read_def Let_def split: option.splits)
  have tp: "\<exists>t. s = trim_suffix s p @ t" for s p
    by (metis append_take_drop_id append_Nil2 trim_suffix_def)
  have "CHR 0x0A \<notin> set (trim_suffix line [CHR 0x0A]) \<and> length (trim_suffix line [CHR 0x0A]) < 65536 \<and> (\<exists>t. content = line @ t)"
  proof (cases "str_index (take 65536 content) [CHR 0x0A]")
    case (Some i)
    then have i: "i < length content" "i < 65536" "content ! i = CHR 0x0A" "CHR 0x0A \<notin> set (take i content)"
      by (auto simp: str_index_newline min_def split: if_splits)
    with Some s have l: "line = take i content @ [CHR 0x0A]"
      by (auto simp: read_slice_def take_Suc_conv_app_nth)
    then have "trim_suffix line [CHR 0x0A] = take i content" using i(1) by (simp add: trim_suffix_def min_def)
    moreover have "content = line @ drop (Suc i) content" using l i id_take_nth_drop [OF i(1)] by simp
    ultimately show ?thesis using i by auto
  next
    case None
    with s e have l: "line = content" "length content < 65536"
      by (auto simp: read_slice_def split: if_splits)
    with None have "CHR 0x0A \<notin> set content"
      by (auto simp: str_index_None) (metis append_Cons append_Nil split_list)
    with l show ?thesis by (auto simp: trim_suffix_def dest: in_set_takeD)
  qed
  with v tp [of "trim_suffix line [CHR 0x0A]" "[CHR 0x0D]"] tp [of line "[CHR 0x0A]"] show ?thesis
    by (metis Un_iff append.assoc length_append not_add_less1 set_append linorder_not_less le_add1 order_le_less_trans)
qed

end
