(* ===== verification/Child_Env.thy ===== *)
theory Child_Env
  imports Identity_Key Secret
begin

text \<open>
  The environment of a master process (\<open>minimalChildEnv\<close> of \<open>internal/control/socket_unix.go\<close>).  An
  environment is a list of \<open>name=value\<close> texts, as \<open>os/exec\<close> and the system have it.
\<close>

definition child_variables :: "bytes list" where
  "child_variables = [''SSL_CERT_FILE'', ''SSL_CERT_DIR'', ''GODEBUG'']"

definition child_value :: "(bytes \<Rightarrow> bytes option) \<Rightarrow> bytes \<Rightarrow> bytes \<Rightarrow> bytes" where
  "child_value cwd name v =
     (if name = ''SSL_CERT_FILE'' then effectiveCAFile cwd v
      else if name = ''SSL_CERT_DIR'' then effectiveCADirs cwd v else v)"

fun child_entries :: "(bytes \<Rightarrow> bytes option) \<Rightarrow> lookup_env \<Rightarrow> bytes list \<Rightarrow> bytes list" where
  "child_entries cwd lookup [] = []"
| "child_entries cwd lookup (name # names) =
     (case lookup name of
        None \<Rightarrow> child_entries cwd lookup names
      | Some v \<Rightarrow>
          if CHR 0x00 \<in> set v then child_entries cwd lookup names
          else (name @ ''='' @ child_value cwd name v) # child_entries cwd lookup names)"

definition minimalChildEnv :: "(bytes \<Rightarrow> bytes option) \<Rightarrow> lookup_env \<Rightarrow> bytes list" where
  "minimalChildEnv cwd lookup = child_entries cwd lookup child_variables"

text \<open>\<open>os.Getenv\<close>, over the parent's lookup and over an environment.\<close>

definition getenv_of :: "lookup_env \<Rightarrow> bytes \<Rightarrow> bytes" where
  "getenv_of lookup name = (case lookup name of None \<Rightarrow> [] | Some v \<Rightarrow> v)"

definition env_lookup :: "bytes list \<Rightarrow> lookup_env" where
  "env_lookup env name = map_option (drop (length name + 1)) (find (\<lambda>e. has_prefix e (name @ ''='')) env)"

subsection \<open>What the child sees\<close>

lemma entry_prefix:
  assumes "CHR ''='' \<notin> set n" "CHR ''='' \<notin> set m"
  shows "has_prefix (m @ CHR ''='' # v) (n @ [CHR ''='']) \<longleftrightarrow> n = m"
proof
  assume "has_prefix (m @ CHR ''='' # v) (n @ [CHR ''=''])"
  then obtain t where "m @ CHR ''='' # v = n @ CHR ''='' # t" by (auto simp: has_prefix_iff)
  moreover have "takeWhile (\<lambda>c. c \<noteq> CHR ''='') (x @ CHR ''='' # y) = x" if "CHR ''='' \<notin> set x" for x y
    using that by (induction x) auto
  ultimately show "n = m" using assms by metis
qed (simp add: has_prefix_iff)

lemma child_entries_lookup:
  assumes "CHR ''='' \<notin> set n" "\<forall>m \<in> set names. CHR ''='' \<notin> set m" "\<forall>m v. lookup m = Some v \<longrightarrow> CHR 0x00 \<notin> set v"
  shows "env_lookup (child_entries cwd lookup names) n =
    (if n \<in> set names then map_option (child_value cwd n) (lookup n) else None)"
  using assms(2)
proof (induction names)
  case Nil
  then show ?case by (simp add: env_lookup_def)
next
  case (Cons m names)
  then have IH: "env_lookup (child_entries cwd lookup names) n =
    (if n \<in> set names then map_option (child_value cwd n) (lookup n) else None)" by simp
  show ?case
  proof (cases "lookup m")
    case None
    with IH show ?thesis by auto
  next
    case (Some v)
    with assms(3) have "CHR 0x00 \<notin> set v" by blast
    with Some IH Cons.prems show ?thesis
      by (auto simp: env_lookup_def entry_prefix [OF assms(1)])
  qed
qed

lemma child_getenv:
  assumes "CHR ''='' \<notin> set n" "\<forall>m v. lookup m = Some v \<longrightarrow> CHR 0x00 \<notin> set v"
  shows "env_lookup (minimalChildEnv cwd lookup) n =
    (if n \<in> set child_variables then map_option (child_value cwd n) (lookup n) else None)"
  using child_entries_lookup [OF assms(1) _ assms(2), of child_variables cwd]
  by (simp add: minimalChildEnv_def child_variables_def)

subsection \<open>The trust key of the child\<close>

text \<open>What \<open>filepath.Abs\<close> gives: an absolute path, and no colon that is not in the path, unless the directory has one.\<close>

definition plain_cwd :: "(bytes \<Rightarrow> bytes option) \<Rightarrow> bool" where
  "plain_cwd cwd \<longleftrightarrow> (\<forall>p. \<exists>q. cwd p = Some q \<and> has_prefix q ''/'' \<and> (CHR '':'' \<in> set q \<longrightarrow> CHR '':'' \<in> set p))"

lemma effective_fixed:
  assumes "plain_cwd cwd"
  shows "effectiveCAFile cwd' (effectiveCAFile cwd p) = effectiveCAFile cwd p"
    and "CHR '':'' \<notin> set p \<Longrightarrow> CHR '':'' \<notin> set (effectiveCAFile cwd p)"
proof -
  from assms obtain q where "cwd p = Some q" "has_prefix q ''/''" "CHR '':'' \<in> set q \<longrightarrow> CHR '':'' \<in> set p"
    unfolding plain_cwd_def by blast
  then show "effectiveCAFile cwd' (effectiveCAFile cwd p) = effectiveCAFile cwd p"
    and "CHR '':'' \<notin> set p \<Longrightarrow> CHR '':'' \<notin> set (effectiveCAFile cwd p)"
    by (auto simp: effectiveCAFile_def)
qed

lemma effective_dirs_fixed:
  assumes "plain_cwd cwd"
  shows "effectiveCADirs cwd' (effectiveCADirs cwd ps) = effectiveCADirs cwd ps"
proof (cases "effectiveCADirs cwd ps = []")
  case True
  then show ?thesis by (simp add: effectiveCADirs_def)
next
  case False
  let ?qs = "map (effectiveCAFile cwd) (str_split ps '':'')"
  from False have join: "effectiveCADirs cwd ps = str_join ?qs '':''" by (auto simp: effectiveCADirs_def)
  have "\<forall>q \<in> set ?qs. CHR '':'' \<notin> set q"
    using split_plain [of _ ps "CHR '':''"] effective_fixed(2) [OF assms] by auto
  then have "str_split (str_join ?qs '':'') '':'' = ?qs"
    using split_join_pieces [of ?qs "CHR '':''"] str_split_nonempty by simp
  then have "effectiveCADirs cwd' (str_join ?qs '':'') = str_join (map (effectiveCAFile cwd') ?qs) '':''"
    using False join by (simp add: effectiveCADirs_def)
  also have "map (effectiveCAFile cwd') ?qs = ?qs" using effective_fixed(1) [OF assms] by simp
  finally show ?thesis by (simp add: join)
qed

text \<open>A master runs with an environment of its own that holds at most the three variables about certificates,
  so the variable with the password is not passed on, and it verifies certificates as its starter would: its trust key is
  that of the starter, whatever directory it runs in, since relative paths are made absolute.  This holds for
  variables without NUL and a working directory whose path has no colon.\<close>

theorem child_trust_key:
  assumes "plain_cwd cwd" "\<forall>m v. lookup m = Some v \<longrightarrow> CHR 0x00 \<notin> set v"
  shows "TrustKey d cwd' (getenv_of (env_lookup (minimalChildEnv cwd lookup))) = TrustKey d cwd (getenv_of lookup) \<and>
    (\<forall>n. CHR ''='' \<notin> set n \<longrightarrow> n \<notin> {''SSL_CERT_FILE'', ''SSL_CERT_DIR'', ''GODEBUG''} \<longrightarrow>
       env_lookup (minimalChildEnv cwd lookup) n = None)"
proof -
  note child = child_getenv [OF _ assms(2), of _ cwd]
  have "getenv_of (env_lookup (minimalChildEnv cwd lookup)) ''SSL_CERT_FILE'' = effectiveCAFile cwd (getenv_of lookup ''SSL_CERT_FILE'')"
    using child [of "''SSL_CERT_FILE''"]
    by (auto simp: getenv_of_def child_variables_def child_value_def effectiveCAFile_def split: option.split)
  moreover have "getenv_of (env_lookup (minimalChildEnv cwd lookup)) ''SSL_CERT_DIR'' = effectiveCADirs cwd (getenv_of lookup ''SSL_CERT_DIR'')"
    using child [of "''SSL_CERT_DIR''"]
    by (auto simp: getenv_of_def child_variables_def child_value_def effectiveCADirs_def split: option.split)
  moreover have "getenv_of (env_lookup (minimalChildEnv cwd lookup)) ''GODEBUG'' = getenv_of lookup ''GODEBUG''"
    using child [of "''GODEBUG''"]
    by (auto simp: getenv_of_def child_variables_def child_value_def split: option.split)
  moreover have "env_lookup (minimalChildEnv cwd lookup) n = None"
    if "CHR ''='' \<notin> set n" "n \<notin> {''SSL_CERT_FILE'', ''SSL_CERT_DIR'', ''GODEBUG''}" for n
    using child [OF that(1)] that(2) by (simp add: child_variables_def)
  ultimately show ?thesis
    using effective_fixed(1) [OF assms(1)] effective_dirs_fixed [OF assms(1)] by (auto simp: TrustKey_def)
qed

theorem child_trust_key_witness:
  "TrustKey \<lparr>marshal = concat, sha256 = \<lambda>s. s\<rparr> (\<lambda>p. Some (''/other/'' @ p)) (getenv_of (env_lookup
       (minimalChildEnv (\<lambda>p. Some (''/home/'' @ p)) [''SSL_CERT_DIR'' \<mapsto> ''a:b'', ''WINRM_PASSWORD'' \<mapsto> ''pw'']))) =
     TrustKey \<lparr>marshal = concat, sha256 = \<lambda>s. s\<rparr> (\<lambda>p. Some (''/home/'' @ p))
       (getenv_of [''SSL_CERT_DIR'' \<mapsto> ''a:b'', ''WINRM_PASSWORD'' \<mapsto> ''pw''])"
  by (rule child_trust_key [THEN conjunct1]) (auto simp: plain_cwd_def has_prefix_def split: if_splits)

end
