(* ===== verification/Config.thy ===== *)
theory Config
  imports Secret Local_File "HOL-Library.List_Lexorder"
begin

text \<open>
  The configuration file (\<open>internal/config/config.go\<close>, \<open>manage.go\<close>): finding and loading it, selecting a
  context, resolving its credentials, showing it without passwords and changing the current context.  YAML
  and dotenv parsers are parameters.  A Go map is the list of its entries in the order in which a loop
  visits them.
\<close>

record host =
  h_endpoint :: bytes
  h_target :: bytes

record credentials =
  cr_domain :: bytes
  cr_env_file :: bytes
  cr_user :: bytes
  cr_password :: bytes

record context_ref =
  cx_host :: bytes
  cx_credentials :: bytes

record defaults =
  d_auth :: bytes
  d_timeout :: bytes
  d_master :: bytes
  d_persist :: bytes
  d_path :: bytes

record config_file =
  current :: bytes
  hosts :: "(bytes \<times> host) list"
  creds :: "(bytes \<times> credentials) list"
  contexts :: "(bytes \<times> context_ref) list"
  defs :: defaults

record config =
  cfg :: config_file
  cfg_path :: bytes
  cfg_raw :: bytes

text \<open>\<open>c.Hosts[name]\<close> of a missing key is the zero value.\<close>

definition no_host :: host where "no_host = \<lparr>h_endpoint = [], h_target = []\<rparr>"

definition no_credentials :: credentials where
  "no_credentials = \<lparr>cr_domain = [], cr_env_file = [], cr_user = [], cr_password = []\<rparr>"

definition at_key :: "'v \<Rightarrow> (bytes \<times> 'v) list \<Rightarrow> bytes \<Rightarrow> 'v" where
  "at_key z m k = (case map_of m k of None \<Rightarrow> z | Some v \<Rightarrow> v)"

subsection \<open>Files\<close>

definition maxFileSize :: nat where "maxFileSize = 1024 * 1024"

text \<open>What \<open>stat\<close>, \<open>open\<close>, \<open>fstat\<close> (regular, size) and reading say of a file.\<close>

record file_access =
  fa_stat :: "goerr + bool \<times> nat"
  fa_open :: "goerr option"
  fa_fstat :: "goerr + bool \<times> nat"
  fa_content :: bytes
  fa_read :: "goerr option"

definition bounded_regular :: "bool \<times> nat \<Rightarrow> bool" where
  "bounded_regular i \<longleftrightarrow> fst i \<and> snd i \<le> maxFileSize"

definition readFile :: "file_access \<Rightarrow> goerr + bytes" where
  "readFile f =
     and_then (fa_stat f) (\<lambda>info.
     check (\<not> bounded_regular info) (Msg ''file must be regular and at most 1 MiB'') (
     case fa_open f of Some e \<Rightarrow> Inl e | None \<Rightarrow>
     and_then (fa_fstat f) (\<lambda>info.
     check (\<not> bounded_regular info) (Msg ''file must be regular and at most 1 MiB'') (
     let b = take (maxFileSize + 1) (fa_content f) in
     check ((length (fa_content f) \<le> maxFileSize \<and> fa_read f \<noteq> None) \<or> length b > maxFileSize)
       (Msg ''cannot read file or file exceeds 1 MiB'') (Inr b)))))"

lemma readFile_bound: "readFile f = Inr b \<Longrightarrow> length b \<le> maxFileSize \<and> b = fa_content f"
  by (auto simp: readFile_def Let_def split: option.splits)

subsection \<open>Discover\<close>

datatype stat_answer = Exists | Not_exist | Stat_failed

fun first_existing :: "(bytes \<Rightarrow> stat_answer) \<Rightarrow> bytes list \<Rightarrow> goerr + bytes" where
  "first_existing stat [] = Inr []"
| "first_existing stat (p # ps) =
     (case stat p of
        Exists \<Rightarrow> Inr p
      | Not_exist \<Rightarrow> first_existing stat ps
      | Stat_failed \<Rightarrow> Inl (Msg ''cannot inspect configuration path''))"

definition Discover ::
  "(bytes \<Rightarrow> stat_answer) \<Rightarrow> bytes option \<Rightarrow> bytes \<Rightarrow> (bytes \<Rightarrow> bytes) \<Rightarrow> goerr + bytes" where
  "Discover stat home explicit getenv =
     (if explicit \<noteq> [] then Inr explicit
      else if getenv ''WINSH_CONFIG'' \<noteq> [] then Inr (getenv ''WINSH_CONFIG'')
      else
        let dir = (if getenv ''XDG_CONFIG_HOME'' \<noteq> [] then getenv ''XDG_CONFIG_HOME''
                   else case home of None \<Rightarrow> [] | Some h \<Rightarrow> path_join h ''.config'')
        in first_existing stat (''winsh.yaml'' #
             (if dir \<noteq> [] then [path_join (path_join dir ''winsh'') ''config.yaml''] else [])))"

subsection \<open>Load\<close>

text \<open>The strict decoder, whether the text is exactly one document, and whether that is a mapping.\<close>

record yaml =
  yaml_decode :: "bytes \<Rightarrow> config_file option"
  yaml_single :: "bytes \<Rightarrow> bool"
  yaml_mapping :: "bytes \<Rightarrow> bool"

fun check_contexts :: "config_file \<Rightarrow> (bytes \<times> context_ref) list \<Rightarrow> goerr option" where
  "check_contexts c [] = None"
| "check_contexts c ((name, cx) # rest) =
     (if name = [] \<or> contains_any name [CHR 0x09, CHR 0x0D, CHR 0x0A] then Some (Msg ''invalid context name'')
      else if map_of (hosts c) (cx_host cx) = None then Some (Msg ''context references an unknown host'')
      else if map_of (creds c) (cx_credentials cx) = None then Some (Msg ''context references unknown credentials'')
      else check_contexts c rest)"

text \<open>\<open>eval\<close> and \<open>absolute\<close> are \<open>filepath.EvalSymlinks\<close> and \<open>filepath.Abs\<close>.\<close>

definition Load ::
  "yaml \<Rightarrow> (bytes \<Rightarrow> bytes option) \<Rightarrow> (bytes \<Rightarrow> bytes option) \<Rightarrow> (bytes \<Rightarrow> file_access) \<Rightarrow> bytes \<Rightarrow> goerr + config" where
  "Load y eval absolute files path =
     (case eval path of None \<Rightarrow> Inl (Msg ''cannot open configuration file'') | Some link \<Rightarrow>
     (case absolute link of None \<Rightarrow> Inl (Msg ''cannot resolve configuration path'') | Some resolved \<Rightarrow>
     (case readFile (files resolved) of
        Inl _ \<Rightarrow> Inl (Msg ''cannot read configuration file (maximum 1 MiB)'')
      | Inr raw \<Rightarrow>
     (case yaml_decode y raw of
        None \<Rightarrow> Inl (Msg ''invalid YAML configuration; check field names, duplicate keys and types'')
      | Some c \<Rightarrow>
          check (\<not> yaml_single y raw) (Msg ''configuration must contain exactly one YAML document'') (
          check (\<not> yaml_mapping y raw) (Msg ''configuration must be a YAML mapping'') (
          case check_contexts c (contexts c) of
            Some e \<Rightarrow> Inl e
          | None \<Rightarrow> Inr \<lparr>cfg = c, cfg_path = resolved, cfg_raw = raw\<rparr>))))))"

text \<open>What holds of every loaded configuration.\<close>

definition config_ok :: "config_file \<Rightarrow> bool" where
  "config_ok c \<longleftrightarrow> (\<forall>(name, cx) \<in> set (contexts c). name \<noteq> [] \<and>
     \<not> contains_any name [CHR 0x09, CHR 0x0D, CHR 0x0A] \<and>
     map_of (hosts c) (cx_host cx) \<noteq> None \<and> map_of (creds c) (cx_credentials cx) \<noteq> None)"

lemma check_contexts_None:
  "check_contexts c cs = None \<longleftrightarrow> (\<forall>(name, cx) \<in> set cs. name \<noteq> [] \<and>
     \<not> contains_any name [CHR 0x09, CHR 0x0D, CHR 0x0A] \<and>
     map_of (hosts c) (cx_host cx) \<noteq> None \<and> map_of (creds c) (cx_credentials cx) \<noteq> None)"
  by (induction c cs rule: check_contexts.induct) auto

lemma Load_ok: "Load y eval absolute files path = Inr c \<Longrightarrow> config_ok (cfg c)"
  by (auto simp: Load_def check_contexts_None config_ok_def split: option.splits sum.splits)

lemma Load_raw:
  "Load y eval absolute files path = Inr c \<Longrightarrow>
   fa_content (files (cfg_path c)) = cfg_raw c \<and> yaml_decode y (cfg_raw c) = Some (cfg c) \<and>
   length (cfg_raw c) \<le> maxFileSize"
  using readFile_bound by (fastforce simp: Load_def split: option.splits sum.splits)

subsection \<open>Select\<close>

record selection =
  sel_host :: host
  sel_creds :: credentials
  sel_defs :: defaults

definition Select :: "config_file \<Rightarrow> bytes \<Rightarrow> goerr + selection" where
  "Select c name =
     (let s = \<lparr>sel_host = no_host, sel_creds = no_credentials, sel_defs = defs c\<rparr>;
          name = (if name = [] then current c else name) in
      if name = [] then Inr s
      else case map_of (contexts c) name of
        None \<Rightarrow> Inl (Msg ''selected context does not exist'')
      | Some cx \<Rightarrow>
          Inr (s\<lparr>sel_host := at_key no_host (hosts c) (cx_host cx),
                 sel_creds := at_key no_credentials (creds c) (cx_credentials cx)\<rparr>))"

lemma at_key_Some: "map_of m k = Some v \<Longrightarrow> at_key z m k = v"
  by (simp add: at_key_def)

text \<open>In a loaded configuration a selected context always has its host and its credentials.\<close>

lemma Select_ok:
  assumes "config_ok c" and "Select c name = Inr s" and "name \<noteq> [] \<or> current c \<noteq> []"
  shows "\<exists>cx. map_of (contexts c) (if name = [] then current c else name) = Some cx \<and>
    map_of (hosts c) (cx_host cx) = Some (sel_host s) \<and> map_of (creds c) (cx_credentials cx) = Some (sel_creds s) \<and>
    sel_defs s = defs c"
proof -
  from assms(2,3) obtain cx where cx: "map_of (contexts c) (if name = [] then current c else name) = Some cx"
    and s: "sel_host s = at_key no_host (hosts c) (cx_host cx)"
      "sel_creds s = at_key no_credentials (creds c) (cx_credentials cx)" "sel_defs s = defs c"
    by (auto simp: Select_def Let_def split: if_splits option.splits)
  from map_of_SomeD [OF cx] assms(1) obtain h k where "map_of (hosts c) (cx_host cx) = Some h"
    "map_of (creds c) (cx_credentials cx) = Some k" by (auto simp: config_ok_def)
  with cx s show ?thesis by (auto simp: at_key_Some)
qed

subsection \<open>Resolve\<close>

text \<open>\<open>files\<close> reads a file, \<open>dotenv\<close> is \<open>godotenv.Parse\<close>.\<close>

definition config_Resolve ::
  "(bytes \<Rightarrow> file_access) \<Rightarrow> (bytes \<Rightarrow> (bytes \<times> bytes) list option) \<Rightarrow> config \<Rightarrow> bytes \<Rightarrow> credentials \<Rightarrow> lookup_env \<Rightarrow>
   goerr + bytes" where
  "config_Resolve files dotenv c ref cr lookup =
     (if \<not> has_prefix ref ''env:'' then Resolve ref lookup
      else if lookup (trim_prefix ref ''env:'') \<noteq> None \<or> cr_env_file cr = [] then Resolve ref lookup
      else
        let path = (if has_prefix (cr_env_file cr) ''/'' then cr_env_file cr
                    else path_join (path_dir (cfg_path c)) (cr_env_file cr)) in
        case readFile (files path) of
          Inl _ \<Rightarrow> Inl (Msg ''cannot read credential env_file (maximum 1 MiB)'')
        | Inr raw \<Rightarrow>
            (case dotenv raw of
               None \<Rightarrow> Inl (Msg ''invalid credential env_file'')
             | Some values \<Rightarrow>
                 Resolve ref (\<lambda>name. case lookup name of Some v \<Rightarrow> Some v | None \<Rightarrow> map_of values name)))"

text \<open>The process environment wins over the file, which is not even read then.\<close>

lemma config_Resolve_process:
  "lookup name = Some v \<Longrightarrow> config_Resolve files dotenv c (''env:'' @ name) cr lookup = Resolve (''env:'' @ name) lookup"
  using trim_prefix_append [of "''env:''" name] by (simp add: config_Resolve_def)

lemma config_Resolve_secret: "config_Resolve files dotenv c ref cr lookup = Inr v \<Longrightarrow> secret_ok v"
  by (auto simp: config_Resolve_def Resolve_def Let_def split: if_splits option.splits sum.splits)

subsection \<open>View\<close>

definition redacted :: bytes where "redacted = ''[REDACTED]''"

definition hide :: "credentials \<Rightarrow> credentials" where
  "hide k = (if cr_password k \<noteq> [] then k\<lparr>cr_password := redacted\<rparr> else k)"

text \<open>\<open>render\<close> is \<open>yaml.Marshal\<close>.\<close>

definition View :: "(config_file \<Rightarrow> bytes option) \<Rightarrow> config \<Rightarrow> goerr + bytes" where
  "View render c =
     (case render ((cfg c)\<lparr>creds := map (\<lambda>(name, k). (name, hide k)) (creds (cfg c))\<rparr>) of
        None \<Rightarrow> Inl (Msg ''cannot render configuration'')
      | Some text \<Rightarrow> Inr text)"

text \<open>Two configurations that differ in nothing but the values of the passwords that are set.\<close>

definition same_but_passwords :: "config_file \<Rightarrow> config_file \<Rightarrow> bool" where
  "same_but_passwords c d \<longleftrightarrow> c\<lparr>creds := []\<rparr> = d\<lparr>creds := []\<rparr> \<and>
     list_all2 (\<lambda>(m, k) (n, l). m = n \<and> k\<lparr>cr_password := []\<rparr> = l\<lparr>cr_password := []\<rparr> \<and>
       (cr_password k = [] \<longleftrightarrow> cr_password l = [])) (creds c) (creds d)"

lemma hide_same:
  assumes "k\<lparr>cr_password := []\<rparr> = l\<lparr>cr_password := []\<rparr>" "cr_password k = [] \<longleftrightarrow> cr_password l = []"
  shows "hide k = hide l"
  using assms by (cases k; cases l) (auto simp: hide_def)

text \<open>\<open>config view\<close> reveals no stored password: what it prints is the same for any two configurations that
  differ only in the values of their passwords.\<close>

theorem View_hides:
  assumes "same_but_passwords (cfg c) (cfg d)"
  shows "View render c = View render d"
proof -
  have "map (\<lambda>(name, k). (name, hide k)) xs = map (\<lambda>(name, k). (name, hide k)) ys"
    if "list_all2 (\<lambda>(m, k) (n, l). m = n \<and> k\<lparr>cr_password := []\<rparr> = l\<lparr>cr_password := []\<rparr> \<and>
       (cr_password k = [] \<longleftrightarrow> cr_password l = [])) xs ys" for xs ys :: "(bytes \<times> credentials) list"
    using that by (induction rule: list_all2_induct) (auto intro: hide_same)
  then have "map (\<lambda>(name, k). (name, hide k)) (creds (cfg c)) = map (\<lambda>(name, k). (name, hide k)) (creds (cfg d))"
    using assms by (simp add: same_but_passwords_def)
  moreover have "(cfg c)\<lparr>creds := x\<rparr> = (cfg d)\<lparr>creds := x\<rparr>" for x
    using assms by (cases "cfg c"; cases "cfg d") (simp add: same_but_passwords_def)
  ultimately show ?thesis by (simp add: View_def)
qed

theorem View_hides_witness:
  "View (\<lambda>f. Some (concat (map (cr_password \<circ> snd) (creds f))))
     \<lparr>cfg = \<lparr>current = [], hosts = [], creds = [(''lab'', \<lparr>cr_domain = [], cr_env_file = [], cr_user = ''u'', cr_password = ''hunter2''\<rparr>)],
        contexts = [], defs = \<lparr>d_auth = [], d_timeout = [], d_master = [], d_persist = [], d_path = []\<rparr>\<rparr>, cfg_path = [], cfg_raw = []\<rparr> =
   View (\<lambda>f. Some (concat (map (cr_password \<circ> snd) (creds f))))
     \<lparr>cfg = \<lparr>current = [], hosts = [], creds = [(''lab'', \<lparr>cr_domain = [], cr_env_file = [], cr_user = ''u'', cr_password = ''env:PW''\<rparr>)],
        contexts = [], defs = \<lparr>d_auth = [], d_timeout = [], d_master = [], d_persist = [], d_path = []\<rparr>\<rparr>, cfg_path = [], cfg_raw = []\<rparr>"
  by (rule View_hides) (simp add: same_but_passwords_def)

subsection \<open>UseContext\<close>

text \<open>A node of the YAML tree: its value and anchor, its three comments, and the rest of it.\<close>

record ynode =
  y_value :: bytes
  y_anchor :: bytes
  y_comments :: "bytes \<times> bytes \<times> bytes"
  y_other :: bytes

text \<open>\<open>yaml.Node\<close> literals: a string scalar.\<close>

definition scalar_node :: "bytes \<Rightarrow> ynode" where
  "scalar_node v = \<lparr>y_value = v, y_anchor = [], y_comments = ([], [], []), y_other = ''!!str''\<rparr>"

text \<open>The loop over the keys of the root: the new content, or that the key was not found.\<close>

fun replace_current :: "bytes \<Rightarrow> ynode list \<Rightarrow> goerr + ynode list option" where
  "replace_current name [] = Inr None"
| "replace_current name [k] = (if y_value k = ''current_context'' then Inl (Sentinel GoPanic) else Inr None)"
| "replace_current name (k # v # rest) =
     (if y_value k = ''current_context'' then
        check (y_anchor v \<noteq> []) (Msg ''cannot update anchored current_context; remove its YAML anchor first'')
          (Inr (Some (k # (scalar_node name)\<lparr>y_comments := y_comments v\<rparr> # rest)))
      else and_then (replace_current name rest) (\<lambda>r. Inr (map_option (\<lambda>rest. k # v # rest) r)))"

definition set_current :: "bytes \<Rightarrow> ynode list \<Rightarrow> goerr + ynode list" where
  "set_current name root =
     and_then (replace_current name root) (\<lambda>r.
       case r of
         Some root' \<Rightarrow> Inr root'
       | None \<Rightarrow> Inr (root @ [scalar_node ''current_context'', scalar_node name]))"

text \<open>The keys and values of a mapping node.\<close>

fun entries :: "ynode list \<Rightarrow> (ynode \<times> ynode) list" where
  "entries (k # v # rest) = (k, v) # entries rest"
| "entries _ = []"

lemma replace_current_even:
  "even (length root) \<Longrightarrow> replace_current name root \<noteq> Inl (Sentinel GoPanic)"
  by (induction name root rule: replace_current.induct) (auto simp: check_def elim!: and_then.elims)

lemma replace_current_None:
  "replace_current name root = Inr None \<Longrightarrow> \<forall>(k, v) \<in> set (entries root). y_value k \<noteq> ''current_context''"
  by (induction name root rule: replace_current.induct) (auto simp: check_def split: if_splits)

lemma replace_current_Some:
  "replace_current name root = Inr (Some root') \<Longrightarrow>
   \<exists>a k v b. entries root = a @ (k, v) # b \<and> y_value k = ''current_context'' \<and>
     (\<forall>(k', v') \<in> set a. y_value k' \<noteq> ''current_context'') \<and>
     entries root' = a @ (k, (scalar_node name)\<lparr>y_comments := y_comments v\<rparr>) # b \<and> length root' = length root"
proof (induction name root arbitrary: root' rule: replace_current.induct)
  case (3 name k v rest)
  show ?case
  proof (cases "y_value k = ''current_context''")
    case True
    with 3(2) have "root' = k # (scalar_node name)\<lparr>y_comments := y_comments v\<rparr> # rest"
      by (simp add: check_def split: if_splits)
    with True show ?thesis by (intro exI [of _ "[]"]) auto
  next
    case False
    with 3(2) obtain rest' where r: "replace_current name rest = Inr (Some rest')" "root' = k # v # rest'" by auto
    from 3(1) [OF False r(1)] obtain a k' v' b where
      "entries rest = a @ (k', v') # b \<and> y_value k' = ''current_context'' \<and>
       (\<forall>(k', v') \<in> set a. y_value k' \<noteq> ''current_context'') \<and>
       entries rest' = a @ (k', (scalar_node name)\<lparr>y_comments := y_comments v'\<rparr>) # b \<and> length rest' = length rest" by blast
    with False r(2) show ?thesis by (intro exI [of _ "(k, v) # a"]) auto
  qed
qed (auto split: if_splits)

lemma entries_append: "even (length a) \<Longrightarrow> entries (a @ b) = entries a @ entries b"
  by (induction a rule: entries.induct) auto

text \<open>All entries but that of \<open>current_context\<close> are kept, in their order.\<close>

lemma set_current_entries:
  assumes "set_current name root = Inr root'" "even (length root)"
  shows "filter (\<lambda>(k, v). y_value k \<noteq> ''current_context'') (entries root') =
      filter (\<lambda>(k, v). y_value k \<noteq> ''current_context'') (entries root) \<and>
    (\<exists>v. map_of (map (\<lambda>(k, v). (y_value k, v)) (entries root')) ''current_context'' = Some v \<and> y_value v = name)"
proof -
  from assms(1) obtain r where r: "replace_current name root = Inr r" by (auto simp: set_current_def)
  show ?thesis
  proof (cases r)
    case None
    with r assms(1) have root': "root' = root @ [scalar_node ''current_context'', scalar_node name]"
      by (auto simp: set_current_def)
    have "map_of (map (\<lambda>(k, v). (y_value k, v)) (entries root)) ''current_context'' = None"
      using replace_current_None [OF r [unfolded None]] by (force simp: map_of_eq_None_iff)
    with root' entries_append [OF assms(2)] show ?thesis
      by (auto simp: scalar_node_def map_add_def)
  next
    case (Some x)
    with r assms(1) have "root' = x" by (simp add: set_current_def)
    with replace_current_Some [OF r [unfolded Some]] obtain a k v b where
      e: "entries root = a @ (k, v) # b" "y_value k = ''current_context''"
        "\<forall>(k', v') \<in> set a. y_value k' \<noteq> ''current_context''"
        "entries root' = a @ (k, (scalar_node name)\<lparr>y_comments := y_comments v\<rparr>) # b" by blast
    have "map_of (map (\<lambda>(k, v). (y_value k, v)) a) ''current_context'' = None"
      using e(3) by (force simp: map_of_eq_None_iff)
    with e show ?thesis by (auto simp: scalar_node_def map_add_def)
  qed
qed

text \<open>
  What the system says while the file is replaced: parsing and printing the tree, the file system as others
  leave it between the two checks and between the second check and the rename, the temporary name, an error of
  reading the configuration and what it reads through a symbolic link, and errors of creating, writing (with the
  number of bytes that were written), syncing, closing, renaming and removing.
\<close>

record update_env =
  up_parse :: "bytes \<Rightarrow> ynode list option"
  up_print :: "ynode list \<Rightarrow> bytes option"
  up_before :: "file_system \<Rightarrow> file_system"
  up_between :: "file_system \<Rightarrow> file_system"
  up_temp :: bytes
  up_read :: "file_system \<Rightarrow> goerr option"
  up_link :: "file_system \<Rightarrow> bytes option"
  up_create :: bool
  up_write :: "nat option"
  up_sync :: bool
  up_close :: bool
  up_rename :: "goerr option"
  up_remove :: "goerr option"

text \<open>\<open>readFile\<close> of a path in this file system: a symbolic link is followed, other special files are refused.\<close>

definition read_config :: "update_env \<Rightarrow> bytes \<Rightarrow> file_system \<Rightarrow> bytes option" where
  "read_config env path fs =
     (if up_read env fs \<noteq> None then None
      else case (case fs path of Some (Regular d) \<Rightarrow> Some d | Some Symlink \<Rightarrow> up_link env fs | _ \<Rightarrow> None) of
        None \<Rightarrow> None
      | Some d \<Rightarrow> if length d \<le> maxFileSize then Some d else None)"

definition unchanged :: "update_env \<Rightarrow> config \<Rightarrow> file_system \<Rightarrow> bool" where
  "unchanged env c fs \<longleftrightarrow> read_config env (cfg_path c) fs = Some (cfg_raw c)"

definition changed_error :: goerr where
  "changed_error = Msg ''configuration changed since loading; retry''"

text \<open>From the temporary file on; on every way out its removal is tried.\<close>

definition replace_file :: "update_env \<Rightarrow> config \<Rightarrow> bytes \<Rightarrow> file_system \<Rightarrow> goerr option \<times> file_system" where
  "replace_file env c text fs =
     (let tmp = up_temp env; clean = (\<lambda>fs. snd (os_remove (up_remove env) tmp fs)) in
      case up_write env of
        Some n \<Rightarrow> (Some (Msg ''cannot write configuration update''), clean (fs(tmp \<mapsto> Regular (take n text))))
      | None \<Rightarrow>
        let fs = fs(tmp \<mapsto> Regular text) in
        if up_sync env then (Some (Msg ''cannot sync configuration update''), clean fs)
        else if up_close env then (Some (Msg ''cannot close configuration update''), clean fs)
        else
          let fs = up_before env fs in
          if \<not> unchanged env c fs then (Some changed_error, clean fs)
          else case os_rename (up_rename env) tmp (cfg_path c) (up_between env fs) of
            (Some _, fs) \<Rightarrow> (Some (Msg ''cannot replace configuration file''), clean fs)
          | (None, fs) \<Rightarrow> (None, clean fs))"

definition UseContext ::
  "update_env \<Rightarrow> config \<Rightarrow> bytes \<Rightarrow> file_system \<Rightarrow> goerr option \<times> config \<times> file_system" where
  "UseContext env c name fs =
     (let refuse = (\<lambda>m. (Some (Msg m), c, fs)) in
      if map_of (contexts (cfg c)) name = None then refuse ''context does not exist''
      else case up_parse env (cfg_raw c) of
        None \<Rightarrow> refuse ''cannot update configuration''
      | Some root \<Rightarrow>
          (case set_current name root of
             Inl e \<Rightarrow> (Some e, c, fs)
           | Inr root' \<Rightarrow>
               (case up_print env root' of
                  None \<Rightarrow> refuse ''cannot encode configuration''
                | Some text \<Rightarrow>
                    if \<not> unchanged env c fs then (Some changed_error, c, fs)
                    else if up_create env \<or> fs (up_temp env) \<noteq> None
                    then refuse ''cannot create configuration update''
                    else case replace_file env c text fs of
                      (Some e, fs) \<Rightarrow> (Some e, c, fs)
                    | (None, fs) \<Rightarrow>
                        (None, c\<lparr>cfg := (cfg c)\<lparr>current := name\<rparr>, cfg_raw := text\<rparr>, fs))))"

text \<open>What others have made of the file system, at the checks and at the rename.\<close>

definition others_views :: "update_env \<Rightarrow> file_system \<Rightarrow> file_system set" where
  "others_views env fs = {fs, up_before env fs, up_between env (up_before env fs)}"

lemma replace_file_error:
  assumes "replace_file env c text fs = (Some e, fs')"
  shows "\<exists>new. \<exists>g \<in> others_views env (fs(up_temp env \<mapsto> Regular new)).
    fs' = g(up_temp env := None) \<or> up_remove env \<noteq> None \<and> fs' = g"
proof -
  let ?clean = "\<lambda>g. snd (os_remove (up_remove env) (up_temp env) g)"
  have "\<exists>new. \<exists>g \<in> others_views env (fs(up_temp env \<mapsto> Regular new)). fs' = ?clean g"
    using assms
    by (fastforce simp: replace_file_def Let_def os_rename_def others_views_def split: if_splits option.splits)
  then show ?thesis using os_remove_cases by metis
qed

lemma replace_file_ok:
  assumes "replace_file env c text fs = (None, fs')"
  defines "seen \<equiv> up_before env (fs(up_temp env \<mapsto> Regular text))"
  shows "read_config env (cfg_path c) seen = Some (cfg_raw c) \<and>
    fs' = ((up_between env seen)(cfg_path c := up_between env seen (up_temp env)))(up_temp env := None)"
  using assms
  by (auto simp: replace_file_def Let_def os_remove_def os_rename_def unchanged_def
      split: if_splits option.splits)

text \<open>C19: \<open>config use-context\<close> replaces the configuration file as a whole or leaves it alone.  If it succeeds,
  the context exists, at both checks the path still read as what had been loaded, and the new file is the printed tree in
  which \<open>current_context\<close> is the chosen name and every other entry is as before and in its place; nothing else
  is changed.  If it fails, no file has been changed but by others, and no temporary file remains unless its
  removal has failed too.\<close>

theorem UseContext_atomic:
  assumes "UseContext env c name fs = (err, c', fs')"
    and "\<forall>g. up_before env g (up_temp env) = g (up_temp env) \<and> up_between env g (up_temp env) = g (up_temp env)"
    and "\<forall>root. up_parse env (cfg_raw c) = Some root \<longrightarrow> even (length root)"
  shows "case err of
      Some e \<Rightarrow> c' = c \<and> (fs' = fs \<or> (\<exists>new. \<exists>g \<in> others_views env (fs(up_temp env \<mapsto> Regular new)).
        fs' = g(up_temp env := None) \<or> up_remove env \<noteq> None \<and> fs' = g))
    | None \<Rightarrow> (\<exists>root root' new g. up_parse env (cfg_raw c) = Some root \<and> up_print env root' = Some new \<and>
        map_of (contexts (cfg c)) name \<noteq> None \<and> current (cfg c') = name \<and> read_config env (cfg_path c) fs = Some (cfg_raw c) \<and>
        read_config env (cfg_path c) (up_before env (fs(up_temp env \<mapsto> Regular new))) = Some (cfg_raw c) \<and>
        g = up_between env (up_before env (fs(up_temp env \<mapsto> Regular new))) \<and>
        fs' = (g(up_temp env := None))(cfg_path c \<mapsto> Regular new) \<and>
        filter (\<lambda>(k, v). y_value k \<noteq> ''current_context'') (entries root') =
          filter (\<lambda>(k, v). y_value k \<noteq> ''current_context'') (entries root) \<and>
        (\<exists>v. map_of (map (\<lambda>(k, v). (y_value k, v)) (entries root')) ''current_context'' = Some v \<and> y_value v = name))"
proof (cases err)
  case (Some e)
  with assms(1) have "c' = c \<and> (fs' = fs \<or> (\<exists>new. replace_file env c new fs = (Some e, fs')))"
    by (auto simp: UseContext_def Let_def split: option.splits sum.splits if_splits prod.splits)
  then have "c' = c" and "fs' = fs \<or> (\<exists>new. \<exists>g \<in> others_views env (fs(up_temp env \<mapsto> Regular new)).
      fs' = g(up_temp env := None) \<or> up_remove env \<noteq> None \<and> fs' = g)"
    using replace_file_error by blast+
  with Some show ?thesis by simp
next
  case None
  with assms(1) obtain root root' new where r: "up_parse env (cfg_raw c) = Some root" "set_current name root = Inr root'"
    "up_print env root' = Some new" "map_of (contexts (cfg c)) name \<noteq> None" "unchanged env c fs" "fs (up_temp env) = None"
    "replace_file env c new fs = (None, fs')" "current (cfg c') = name"
    by (auto simp: UseContext_def Let_def split: option.splits sum.splits if_splits prod.splits)
  have ne: "up_temp env \<noteq> cfg_path c" using r(5,6) by (auto simp: unchanged_def read_config_def split: if_splits)
  note f = replace_file_ok [OF r(7)]
  have "fs' = ((up_between env (up_before env (fs(up_temp env \<mapsto> Regular new))))(up_temp env := None))(cfg_path c \<mapsto> Regular new)"
    using f assms(2) ne by (auto simp: fun_upd_twist)
  moreover have "read_config env (cfg_path c) fs = Some (cfg_raw c)" using r(5) by (simp add: unchanged_def)
  moreover have "even (length root)" using assms(3) r(1) by blast
  note E = set_current_entries [OF r(2) this]
  ultimately show ?thesis unfolding None option.case
    by (intro exI [of _ root] exI [of _ root'] exI [of _ new]
        exI [of _ "up_between env (up_before env (fs(up_temp env \<mapsto> Regular new)))"] conjI r(1,3,4,8)
        conjunct1 [OF f] conjunct1 [OF E] conjunct2 [OF E] refl) assumption+
qed

text \<open>A file with a comment that is kept; nobody interferes.\<close>

definition lab_config :: config where
  "lab_config = \<lparr>cfg = \<lparr>current = ''lab'', hosts = [], creds = [],
     contexts = [(''lab'', \<lparr>cx_host = ''h'', cx_credentials = ''c''\<rparr>), (''stage'', \<lparr>cx_host = ''h'', cx_credentials = ''c''\<rparr>)],
     defs = \<lparr>d_auth = [], d_timeout = [], d_master = [], d_persist = [], d_path = []\<rparr>\<rparr>,
     cfg_path = ''/c.yaml'', cfg_raw = ''old''\<rparr>"

definition lab_root :: "ynode list" where
  "lab_root = [scalar_node ''hosts'', scalar_node ''h'', scalar_node ''current_context'',
     (scalar_node ''lab'')\<lparr>y_comments := (''note'', [], [])\<rparr>]"

definition lab_update :: update_env where
  "lab_update = \<lparr>up_parse = (\<lambda>_. Some lab_root), up_print = (\<lambda>r. Some (concat (map y_value r))), up_before = (\<lambda>g. g),
     up_between = (\<lambda>g. g), up_temp = ''/.winsh-config-1'', up_read = (\<lambda>_. None),
     up_link = (\<lambda>_. None), up_create = False, up_write = None, up_sync = False, up_close = False, up_rename = None,
     up_remove = None\<rparr>"

lemma lab_update_ok: "\<exists>c' fs'. UseContext lab_update lab_config ''stage'' (Map.empty(''/c.yaml'' \<mapsto> Regular ''old'')) = (None, c', fs')"
  by (simp add: UseContext_def lab_update_def lab_config_def lab_root_def set_current_def scalar_node_def
      replace_file_def unchanged_def read_config_def os_rename_def os_remove_def maxFileSize_def Let_def)

theorem UseContext_atomic_witness:
  "\<exists>c' fs' new. UseContext lab_update lab_config ''stage'' (Map.empty(''/c.yaml'' \<mapsto> Regular ''old'')) = (None, c', fs') \<and>
     current (cfg c') = ''stage'' \<and> fs' ''/c.yaml'' = Some (Regular new)"
proof -
  obtain c' fs' where u: "UseContext lab_update lab_config ''stage'' (Map.empty(''/c.yaml'' \<mapsto> Regular ''old'')) = (None, c', fs')"
    using lab_update_ok by blast
  have "current (cfg c') = ''stage'' \<and> (\<exists>new. fs' ''/c.yaml'' = Some (Regular new))"
    using UseContext_atomic [OF u] by (auto simp: lab_update_def lab_root_def lab_config_def)
  with u show ?thesis by blast
qed

end
