(* ===== verification/Endpoint_Url.thy ===== *)
theory Endpoint_Url
  imports Go_Text Go_Errors
begin

text \<open>
  \<open>Endpoint\<close> of \<open>internal/remote/command.go\<close>: the URL of the WinRM service from a host or an explicit
  address.  \<open>url.Parse\<close>, the escaping of a host in \<open>URL.String\<close> and \<open>net.ParseIP\<close> are parameters;
  \<open>URL.Hostname\<close>, \<open>URL.Port\<close> and \<open>net.JoinHostPort\<close> are modelled.
\<close>

record url =
  u_scheme :: bytes
  u_opaque :: bytes
  u_user :: bool
  u_host :: bytes
  u_path :: bytes
  u_raw_path :: bytes
  u_force_query :: bool
  u_query :: bytes
  u_fragment :: bytes

record url_lib =
  parse_url :: "bytes \<Rightarrow> url option"
  escape_host :: "bytes \<Rightarrow> bytes"
  parse_ip :: "bytes \<Rightarrow> bool"

definition digits :: "bytes \<Rightarrow> bool" where
  "digits s \<longleftrightarrow> list_all (\<lambda>c. digit_val c \<noteq> None) s"

text \<open>\<open>splitHostPort\<close> of \<open>net/url\<close>.\<close>

definition strip_brackets :: "bytes \<Rightarrow> bytes" where
  "strip_brackets h = (if has_prefix h ''['' \<and> has_suffix h '']'' then butlast (tl h) else h)"

definition split_host_port :: "bytes \<Rightarrow> bytes \<times> bytes" where
  "split_host_port hp =
     (case last_index_any hp {CHR '':''} of
        None \<Rightarrow> (strip_brackets hp, [])
      | Some i \<Rightarrow>
          if digits (drop (i + 1) hp) then (strip_brackets (take i hp), drop (i + 1) hp)
          else (strip_brackets hp, []))"

definition hostname :: "url \<Rightarrow> bytes" where "hostname u = fst (split_host_port (u_host u))"
definition port :: "url \<Rightarrow> bytes" where "port u = snd (split_host_port (u_host u))"

definition join_host_port :: "bytes \<Rightarrow> bytes \<Rightarrow> bytes" where
  "join_host_port h p = (if CHR '':'' \<in> set h then ''['' @ h @ '']:'' @ p else h @ '':'' @ p)"

text \<open>\<open>URL.String\<close> for a URL of a scheme, a host and the path \<open>/wsman\<close>.\<close>

definition wsman_url :: "url_lib \<Rightarrow> bytes \<Rightarrow> bytes \<Rightarrow> bytes" where
  "wsman_url lib scheme h = scheme @ ''://'' @ escape_host lib h @ ''/wsman''"

definition plain_url :: "url \<Rightarrow> bool" where
  "plain_url u \<longleftrightarrow> hostname u \<noteq> [] \<and> \<not> u_user u \<and> u_query u = [] \<and> \<not> u_force_query u \<and> u_fragment u = [] \<and>
     u_opaque u = [] \<and> u_raw_path u = []"

definition host_endpoint :: "url_lib \<Rightarrow> bytes \<Rightarrow> goerr + bytes" where
  "host_endpoint lib h =
     check (h = [] \<or> contains_any h [CHR ''/'', CHR ''?'', CHR ''#'', CHR ''@'', CHR '' '', CHR 0x09, CHR 0x0D, CHR 0x0A])
       (Msg ''provide a host or --endpoint'') (
     check (CHR '':'' \<in> set h \<and> \<not> parse_ip lib h) (Msg ''use --endpoint to specify a port'')
       (Inr (''http://'' @ join_host_port h ''5985'' @ ''/wsman'')))"

definition port_or_default :: "url \<Rightarrow> bytes" where
  "port_or_default u =
     (if port u \<noteq> [] then port u else if u_scheme u = ''https'' then ''5986'' else ''5985'')"

definition Endpoint :: "url_lib \<Rightarrow> bytes \<Rightarrow> bytes \<Rightarrow> goerr + bytes" where
  "Endpoint lib h ep =
     and_then (if ep = [] then host_endpoint lib h else Inr ep) (\<lambda>ep.
     case parse_url lib ep of
       None \<Rightarrow> Inl (Msg ''invalid endpoint; use an HTTP(S) URL without credentials, query or fragment'')
     | Some u \<Rightarrow>
         check (\<not> plain_url u) (Msg ''invalid endpoint; use an HTTP(S) URL without credentials, query or fragment'') (
         check (u_scheme u \<noteq> ''http'' \<and> u_scheme u \<noteq> ''https'') (Msg ''endpoint must use http or https'') (
         check (u_path u \<noteq> [] \<and> u_path u \<noteq> ''/wsman'') (Msg ''endpoint path must be /wsman'') (
         let p = port_or_default u in
         check (case atoi p of None \<Rightarrow> True | Some n \<Rightarrow> n < 1 \<or> n > 65535) (Msg ''invalid endpoint port'')
           (Inr (wsman_url lib (u_scheme u) (join_host_port (hostname u) p)))))))"

subsection \<open>Laws\<close>

lemma last_index_snoc: "CHR '':'' \<notin> set p \<Longrightarrow> last_index_any (h @ CHR '':'' # p) {CHR '':''} = Some (length h)"
proof (induction h)
  case Nil
  have "last_index_any p {CHR '':''} = None" using Nil by (induction p) auto
  then show ?case by simp
qed simp

lemma digits_no_colon: "digits p \<Longrightarrow> CHR '':'' \<notin> set p"
  by (auto simp: digits_def list_all_iff digit_val_def)

lemma split_join:
  assumes "digits p" "\<not> has_prefix h ''[''"
  shows "split_host_port (join_host_port h p) = (h, p)"
proof (cases "CHR '':'' \<in> set h")
  case True
  have "has_suffix (''['' @ h @ '']'') '']''" using has_suffix_append [of "''['' @ h" "'']''"] by simp
  then have "strip_brackets (''['' @ h @ '']'') = h" by (simp add: strip_brackets_def has_prefix_def)
  moreover have "last_index_any ((''['' @ h @ '']'') @ CHR '':'' # p) {CHR '':''} = Some (length (''['' @ h @ '']''))"
    by (rule last_index_snoc [OF digits_no_colon [OF assms(1)]])
  ultimately show ?thesis using True assms(1)
    by (simp add: split_host_port_def join_host_port_def)
next
  case False
  with last_index_snoc [OF digits_no_colon [OF assms(1)], of h] assms show ?thesis
    by (simp add: split_host_port_def join_host_port_def strip_brackets_def)
qed

lemma port_digits: "digits (port u)"
  by (auto simp: port_def split_host_port_def digits_def split: option.splits)

text \<open>What an accepted endpoint looks like.\<close>

definition port_ok :: "bytes \<Rightarrow> bool" where
  "port_ok p \<longleftrightarrow> p \<noteq> [] \<and> digits p \<and> (\<exists>n. atoi p = Some n \<and> 1 \<le> n \<and> n \<le> 65535)"

lemma default_ports [simp]: "digits ''5985''" "digits ''5986''"
  by (simp_all add: digits_def digit_val_def less_eq_char_def)

lemma Endpoint_shape:
  assumes "Endpoint lib h ep = Inr out"
  shows "\<exists>u p. u_scheme u \<in> {''http'', ''https''} \<and> hostname u \<noteq> [] \<and> port_ok p \<and> (\<exists>s. parse_url lib s = Some u) \<and>
    out = wsman_url lib (u_scheme u) (join_host_port (hostname u) p)"
proof -
  from assms obtain ep' u where u: "parse_url lib ep' = Some u" "plain_url u" "u_scheme u \<in> {''http'', ''https''}"
    "out = wsman_url lib (u_scheme u) (join_host_port (hostname u) (port_or_default u))"
    "\<exists>n. atoi (port_or_default u) = Some n \<and> 1 \<le> n \<and> n \<le> 65535"
    unfolding Endpoint_def and_then_Inr_iff Let_def by (auto split: option.splits)
  have "port_ok (port_or_default u)"
    using u(5) port_digits [of u] by (auto simp: port_ok_def port_or_default_def)
  with u show ?thesis
    by (intro exI [of _ u] exI [of _ "port_or_default u"]) (auto simp: plain_url_def)
qed

lemma Endpoint_accepts:
  assumes "(if ep = [] then host_endpoint lib h else Inr ep) = Inr ep'" "parse_url lib ep' = Some u" "plain_url u"
    "u_scheme u \<in> {''http'', ''https''}" "u_path u \<in> {[], ''/wsman''}"
    "atoi (port_or_default u) = Some n" "1 \<le> n" "n \<le> 65535"
  shows "Endpoint lib h ep = Inr (wsman_url lib (u_scheme u) (join_host_port (hostname u) (port_or_default u)))"
  using assms unfolding Endpoint_def by (auto simp: Let_def)

definition wsman_parts :: "bytes \<Rightarrow> bytes \<Rightarrow> url" where
  "wsman_parts s x = \<lparr>u_scheme = s, u_opaque = [], u_user = False, u_host = x, u_path = ''/wsman'', u_raw_path = [],
     u_force_query = False, u_query = [], u_fragment = []\<rparr>"

lemma wsman_parts_simps [simp]:
  "u_scheme (wsman_parts s x) = s" "u_path (wsman_parts s x) = ''/wsman''"
  "hostname (wsman_parts s x) = fst (split_host_port x)" "port (wsman_parts s x) = snd (split_host_port x)"
  "plain_url (wsman_parts s x) \<longleftrightarrow> fst (split_host_port x) \<noteq> []"
  by (simp_all add: wsman_parts_def hostname_def port_def plain_url_def)

text \<open>An accepted endpoint is an HTTP or HTTPS URL with a host name, a decimal port from 1 to 65535 and the
  path \<open>/wsman\<close>, and nothing else.  It is canonical: given as an endpoint again, with any host beside it, it is
  accepted unchanged.  This uses of \<open>url.Parse\<close> that it reads back what \<open>URL.String\<close> has printed and that a
  host name has no bracket in front.\<close>

theorem Endpoint_canonical:
  assumes "Endpoint lib h ep = Inr out"
    and parsed: "\<And>s x p. s \<in> {''http'', ''https''} \<Longrightarrow> x \<noteq> [] \<Longrightarrow> \<not> has_prefix x ''['' \<Longrightarrow> port_ok p \<Longrightarrow>
      parse_url lib (wsman_url lib s (join_host_port x p)) = Some (wsman_parts s (join_host_port x p))"
    and brackets: "\<And>s u. parse_url lib s = Some u \<Longrightarrow> \<not> has_prefix (hostname u) ''[''"
  shows "(\<exists>s x p. s \<in> {''http'', ''https''} \<and> x \<noteq> [] \<and> port_ok p \<and> out = wsman_url lib s (join_host_port x p)) \<and>
    Endpoint lib h' out = Inr out"
proof -
  obtain u p where u: "u_scheme u \<in> {''http'', ''https''}" "hostname u \<noteq> []" "port_ok p"
    "\<not> has_prefix (hostname u) ''[''" and out: "out = wsman_url lib (u_scheme u) (join_host_port (hostname u) p)"
    using Endpoint_shape [OF assms(1)] brackets by metis
  have j: "split_host_port (join_host_port (hostname u) p) = (hostname u, p)"
    using split_join u(3,4) by (simp add: port_ok_def)
  obtain n where n: "atoi p = Some n" "1 \<le> n" "n \<le> 65535" "p \<noteq> []" using u(3) by (auto simp: port_ok_def)
  have "out \<noteq> []" using out u(1) by (auto simp: wsman_url_def)
  then have "Endpoint lib h' out = Inr out"
    using Endpoint_accepts [of out lib h' out "wsman_parts (u_scheme u) (join_host_port (hostname u) p)" n]
      parsed [OF u(1,2,4,3)] u(1,2) n j out by (simp add: port_or_default_def)
  with u out show ?thesis by blast
qed

text \<open>A library that reads only what \<open>wsman_url\<close> prints.\<close>

definition tiny_parse :: "bytes \<Rightarrow> url option" where
  "tiny_parse s =
     (let s' = (if has_prefix s ''http:'' then ''http'' else ''https'');
          u = \<lparr>u_scheme = s', u_opaque = [], u_user = False, u_host = take (length s - length s' - 9) (drop (length s' + 3) s),
            u_path = ''/wsman'', u_raw_path = [], u_force_query = False, u_query = [], u_fragment = []\<rparr>
      in if has_prefix (hostname u) ''['' then None else Some u)"

definition tiny_lib :: url_lib where
  "tiny_lib = \<lparr>parse_url = tiny_parse, escape_host = (\<lambda>h. h), parse_ip = (\<lambda>_. False)\<rparr>"

lemma tiny_reads:
  assumes "s \<in> {''http'', ''https''}" "\<not> has_prefix x ''[''" "port_ok p"
  shows "tiny_parse (wsman_url tiny_lib s (join_host_port x p)) = Some (wsman_parts s (join_host_port x p))"
  using assms split_join [of p x]
  by (auto simp: tiny_parse_def wsman_url_def tiny_lib_def Let_def has_prefix_def hostname_def port_ok_def wsman_parts_def)

lemma atoi_5985: "atoi ''5985'' = Some 5985"
  by (simp add: atoi_def has_prefix_def digit_val_def less_eq_char_def)

lemma tiny_srv: "Endpoint tiny_lib ''srv'' [] = Inr ''http://srv:5985/wsman''"
proof -
  have p: "port_ok ''5985''" using atoi_5985 by (simp add: port_ok_def)
  have j: "join_host_port ''srv'' ''5985'' = ''srv:5985''" by (simp add: join_host_port_def)
  have s: "split_host_port ''srv:5985'' = (''srv'', ''5985'')"
    using split_join [of "''5985''" "''srv''"] by (simp add: has_prefix_def j)
  have w: "wsman_url tiny_lib ''http'' ''srv:5985'' = ''http://srv:5985/wsman''" by (simp add: wsman_url_def tiny_lib_def)
  have "tiny_parse ''http://srv:5985/wsman'' = Some (wsman_parts ''http'' ''srv:5985'')"
    using tiny_reads [of "''http''" "''srv''" "''5985''"] p by (simp add: has_prefix_def j w)
  then have "parse_url tiny_lib ''http://srv:5985/wsman'' = Some (wsman_parts ''http'' ''srv:5985'')"
    by (simp add: tiny_lib_def)
  moreover note atoi_5985
  moreover have "host_endpoint tiny_lib ''srv'' = Inr ''http://srv:5985/wsman''"
    by (simp add: host_endpoint_def contains_any_def j)
  ultimately show ?thesis
    using Endpoint_accepts [of "[]" tiny_lib "''srv''" "''http://srv:5985/wsman''" "wsman_parts ''http'' ''srv:5985''" 5985]
    by (simp add: s j w port_or_default_def)
qed

theorem Endpoint_canonical_witness:
  "Endpoint tiny_lib ''other'' ''http://srv:5985/wsman'' = Inr ''http://srv:5985/wsman''"
proof -
  have "\<not> has_prefix (hostname u) ''[''" if "parse_url tiny_lib s = Some u" for s u
    using that by (auto simp: tiny_lib_def tiny_parse_def Let_def split: if_splits)
  moreover have "parse_url tiny_lib (wsman_url tiny_lib s (join_host_port x p)) = Some (wsman_parts s (join_host_port x p))"
    if "s \<in> {''http'', ''https''}" "\<not> has_prefix x ''[''" "port_ok p" for s x p
    using tiny_reads [OF that] by (simp add: tiny_lib_def)
  ultimately show ?thesis using Endpoint_canonical [OF tiny_srv, of "''other''"] by blast
qed

end
