(* ===== verification/Options.thy ===== *)
theory Options
  imports Config Endpoint_Url Master_Start Command
begin

text \<open>
  The command line (\<open>parse\<close> of \<open>internal/cmd/cmd.go\<close>, \<open>normalizeGlobals\<close>, \<open>applyConfig\<close> and
  \<open>parseControlPersist\<close> of \<open>config.go\<close>, \<open>parseTransfer\<close> of \<open>transfer.go\<close>).  \<open>time.ParseDuration\<close>
  and what the configuration and script files are read from are parameters.
\<close>

subsection \<open>Options\<close>

text \<open>\<open>options\<close>, with the fields of its request and of its control settings.\<close>

record options =
  o_endpoint :: bytes
  o_target :: bytes
  o_user :: bytes
  o_password :: bytes
  o_command :: bytes
  o_codepage :: bytes
  o_powershell :: bool
  o_password_env :: bytes
  o_file :: bytes
  o_password_stdin :: bool
  o_env_explicit :: bool
  o_help :: bool
  o_timeout :: int
  o_verbose :: nat
  o_config_path :: bytes
  o_context :: bytes
  o_reference :: bytes
  o_password_config :: "config option"
  o_credentials :: credentials
  o_control :: settings
  o_timeout_configured :: bool

definition second :: int where "second = 10 ^ 9"

definition initial_options :: "bool \<Rightarrow> options" where
  "initial_options powershell = \<lparr>o_endpoint = [], o_target = [], o_user = [], o_password = [], o_command = [],
     o_codepage = [], o_powershell = powershell, o_password_env = ''WINRM_PASSWORD'', o_file = [],
     o_password_stdin = False, o_env_explicit = False, o_help = False, o_timeout = 60 * second, o_verbose = 0,
     o_config_path = [], o_context = [], o_reference = [], o_password_config = None,
     o_credentials = no_credentials,
     o_control = \<lparr>set_mode = ''off'', set_path = [], set_persist = 300 * second\<rparr>, o_timeout_configured = False\<rparr>"

text \<open>The local variables of \<open>parse\<close>.\<close>

record parse_state =
  ps_opts :: options
  ps_host :: bytes
  ps_domain :: bytes
  ps_seen :: "bytes list"

text \<open>Environment lookups, durations, the file system as the configuration code reads it, the URL library, the
  script file (an error of opening it, its content, an error of reading it) and the PowerShell encoder.\<close>

record cli_env =
  ce_getenv :: "bytes \<Rightarrow> bytes"
  ce_lookup :: lookup_env
  ce_duration :: "bytes \<Rightarrow> int option"
  ce_stat :: "bytes \<Rightarrow> stat_answer"
  ce_home :: "bytes option"
  ce_yaml :: yaml
  ce_eval :: "bytes \<Rightarrow> bytes option"
  ce_absolute :: "bytes \<Rightarrow> bytes option"
  ce_files :: "bytes \<Rightarrow> file_access"
  ce_dotenv :: "bytes \<Rightarrow> (bytes \<times> bytes) list option"
  ce_url :: url_lib
  ce_script :: "bytes \<Rightarrow> bool \<times> bytes \<times> bool"
  ce_encode :: "bytes \<Rightarrow> bytes"

text \<open>\<open>envLookups\<close>: the lookups that are given, else the process environment.\<close>

definition envLookups ::
  "(bytes \<Rightarrow> bytes) option \<Rightarrow> lookup_env option \<Rightarrow> (bytes \<Rightarrow> bytes) \<Rightarrow> lookup_env \<Rightarrow>
   (bytes \<Rightarrow> bytes) \<times> lookup_env" where
  "envLookups getenv lookup os_get os_lookup =
     (let get = (case getenv of None \<Rightarrow> os_get | Some g \<Rightarrow> g) in
      (get, case lookup of
         Some l \<Rightarrow> l
       | None \<Rightarrow> (if getenv = None then os_lookup else (\<lambda>name. if get name = [] then None else Some (get name)))))"

subsection \<open>Options with a value\<close>

definition value_options :: "bytes list" where
  "value_options = [''--config'', ''--context'', ''--endpoint'', ''--target-host'', ''--user'', ''--domain'', ''--auth'',
     ''--password-env'', ''--timeout'', ''--codepage'', ''--control'', ''--control-persist'', ''--control-path'', ''-f'']"

definition parseControlPersist :: "(bytes \<Rightarrow> int option) \<Rightarrow> bytes \<Rightarrow> goerr + int" where
  "parseControlPersist duration v =
     (let bad = Msg ''control persist must be between 1s and 1h'' in
      case duration v of
        None \<Rightarrow> Inl bad
      | Some p \<Rightarrow> check (p < MinPersist \<or> p > hour) bad (Inr p))"

definition parse_timeout :: "(bytes \<Rightarrow> int option) \<Rightarrow> bytes \<Rightarrow> goerr + int" where
  "parse_timeout duration v =
     (let bad = Msg ''timeout must be a positive duration'' in
      case duration v of None \<Rightarrow> Inl bad | Some d \<Rightarrow> check (d \<le> 0) bad (Inr d))"

definition set_option :: "cli_env \<Rightarrow> bytes \<Rightarrow> bytes \<Rightarrow> parse_state \<Rightarrow> goerr + parse_state" where
  "set_option env name v st =
     (let opts = ps_opts st; put = (\<lambda>opts. Inr (st\<lparr>ps_opts := opts\<rparr>)) in
      if name = ''--config'' then put (opts\<lparr>o_config_path := v\<rparr>)
      else if name = ''--context'' then put (opts\<lparr>o_context := v\<rparr>)
      else if name = ''--endpoint'' then put (opts\<lparr>o_endpoint := v\<rparr>)
      else if name = ''--target-host'' then put (opts\<lparr>o_target := v\<rparr>)
      else if name = ''--user'' then put (opts\<lparr>o_user := v\<rparr>)
      else if name = ''--domain'' then Inr (st\<lparr>ps_domain := v\<rparr>)
      else if name = ''--auth'' then check (v \<noteq> ''ntlm'') (Msg ''v0.1 supports --auth ntlm only'') (Inr st)
      else if name = ''--password-env'' then put (opts\<lparr>o_password_env := v, o_env_explicit := True\<rparr>)
      else if name = ''--timeout'' then
        and_then (parse_timeout (ce_duration env) v) (\<lambda>d. put (opts\<lparr>o_timeout := d, o_timeout_configured := True\<rparr>))
      else if name = ''--control'' then
        check (v \<noteq> ''auto'' \<and> v \<noteq> ''off'') (Msg ''control mode must be auto or off'')
          (put (opts\<lparr>o_control := (o_control opts)\<lparr>set_mode := v\<rparr>\<rparr>))
      else if name = ''--control-persist'' then
        and_then (parseControlPersist (ce_duration env) v)
          (\<lambda>p. put (opts\<lparr>o_control := (o_control opts)\<lparr>set_persist := p\<rparr>\<rparr>))
      else if name = ''--control-path'' then
        check (v = []) (Msg ''control path must be nonempty'')
          (put (opts\<lparr>o_control := (o_control opts)\<lparr>set_path := v\<rparr>\<rparr>))
      else if name = ''--codepage'' then put (opts\<lparr>o_codepage := v\<rparr>)
      else if name = ''-f'' then put (opts\<lparr>o_file := v\<rparr>)
      else Inr st)"

subsection \<open>The argument loop\<close>

text \<open>The state at the end of the options and the words behind \<open>--\<close>.\<close>

fun parse_args :: "cli_env \<Rightarrow> bytes list \<Rightarrow> parse_state \<Rightarrow> goerr + parse_state \<times> bytes list" where
  "parse_args env [] st = Inr (st, [])"
| "parse_args env (a # rest) st =
     (if a = ''--'' then Inr (st, rest)
      else if a = ''--help'' \<or> a = ''-h'' then Inr (st\<lparr>ps_opts := (ps_opts st)\<lparr>o_help := True\<rparr>\<rparr>, [])
      else if a = ''-v'' \<or> a = ''-vv'' then
        parse_args env rest (st\<lparr>ps_opts := (ps_opts st)\<lparr>o_verbose := length a - 1\<rparr>\<rparr>)
      else if a = ''--password-stdin'' then
        check (o_password_stdin (ps_opts st)) (Msg ''duplicate password source'')
          (parse_args env rest (st\<lparr>ps_opts := (ps_opts st)\<lparr>o_password_stdin := True\<rparr>\<rparr>))
      else if \<not> has_prefix a ''-'' then
        check (ps_host st \<noteq> []) (Msg ''put remote command text after --'')
          (parse_args env rest (st\<lparr>ps_host := a\<rparr>))
      else
        case str_cut a ''='' of (name, v, inline) \<Rightarrow>
          check (name \<notin> set value_options)
            (Msg ''unknown option; see --help (password values are never accepted as flags)'') (
          check (name \<in> set (ps_seen st)) (Msg ''duplicate option'') (
          let st = st\<lparr>ps_seen := name # ps_seen st\<rparr> in
          if inline then
            (case set_option env name v st of Inl e \<Rightarrow> Inl e | Inr st \<Rightarrow> parse_args env rest st)
          else case rest of
            [] \<Rightarrow> Inl (Msg ''option requires a value'')
          | v # rest' \<Rightarrow>
              if v = ''--'' then Inl (Msg ''option requires a value'')
              else
                (case set_option env name v st of Inl e \<Rightarrow> Inl e | Inr st \<Rightarrow> parse_args env rest' st))))"

declare parse_args.simps(2) [simp del]

subsection \<open>The configuration\<close>

text \<open>The host of the selection: one that is named on the command line replaces it.\<close>

definition chosen_host :: "config \<Rightarrow> selection \<Rightarrow> bytes \<Rightarrow> bytes \<times> host" where
  "chosen_host c sel h =
     (if h = [] then (h, sel_host sel)
      else case map_of (hosts (cfg c)) h of Some x \<Rightarrow> ([], x) | None \<Rightarrow> (h, no_host))"

definition apply_host :: "config \<Rightarrow> selection \<Rightarrow> parse_state \<Rightarrow> parse_state" where
  "apply_host c sel st =
     (case chosen_host c sel (ps_host st) of (h, x) \<Rightarrow>
        let opts = ps_opts st;
            opts = (if ''--endpoint'' \<in> set (ps_seen st) then opts else opts\<lparr>o_endpoint := h_endpoint x\<rparr>);
            opts = (if ''--target-host'' \<in> set (ps_seen st) then opts else opts\<lparr>o_target := h_target x\<rparr>)
        in st\<lparr>ps_host := h, ps_opts := opts\<rparr>)"

definition apply_defaults :: "cli_env \<Rightarrow> defaults \<Rightarrow> bytes list \<Rightarrow> options \<Rightarrow> goerr + options" where
  "apply_defaults env d seen opts =
     check (''--auth'' \<notin> set seen \<and> d_auth d \<noteq> [] \<and> d_auth d \<noteq> ''ntlm'')
       (Msg ''only ntlm authentication is supported'') (
     and_then (if ''--timeout'' \<notin> set seen \<and> d_timeout d \<noteq> []
               then and_then (parse_timeout (ce_duration env) (d_timeout d))
                      (\<lambda>t. Inr (opts\<lparr>o_timeout := t, o_timeout_configured := True\<rparr>))
               else Inr opts) (\<lambda>opts.
     and_then (if ''--control'' \<notin> set seen \<and> d_master d \<noteq> []
               then check (d_master d \<noteq> ''auto'' \<and> d_master d \<noteq> ''off'') (Msg ''control mode must be auto or off'')
                      (Inr (opts\<lparr>o_control := (o_control opts)\<lparr>set_mode := d_master d\<rparr>\<rparr>))
               else Inr opts) (\<lambda>opts.
     and_then (if ''--control-persist'' \<notin> set seen \<and> d_persist d \<noteq> []
               then and_then (parseControlPersist (ce_duration env) (d_persist d))
                      (\<lambda>p. Inr (opts\<lparr>o_control := (o_control opts)\<lparr>set_persist := p\<rparr>\<rparr>))
               else Inr opts) (\<lambda>opts.
     Inr (if ''--control-path'' \<notin> set seen \<and> d_path d \<noteq> []
          then opts\<lparr>o_control := (o_control opts)\<lparr>set_path := d_path d\<rparr>\<rparr> else opts)))))"

definition apply_credentials :: "cli_env \<Rightarrow> config \<Rightarrow> credentials \<Rightarrow> parse_state \<Rightarrow> goerr + parse_state" where
  "apply_credentials env c k st =
     and_then (if ''--user'' \<notin> set (ps_seen st) \<and> cr_user k \<noteq> []
               then (case config_Resolve (ce_files env) (ce_dotenv env) c (cr_user k) k (ce_lookup env) of
                       Inl e \<Rightarrow> Inl (Wrap ''configured user'' e)
                     | Inr u \<Rightarrow> Inr ((ps_opts st)\<lparr>o_user := u\<rparr>))
               else Inr (ps_opts st)) (\<lambda>opts.
     Inr (st\<lparr>ps_domain := (if ''--domain'' \<notin> set (ps_seen st) \<and> \<not> contains_any (o_user opts) [CHR 0x5C, CHR ''@'']
                          then cr_domain k else ps_domain st),
             ps_opts := (if \<not> o_password_stdin opts \<and> \<not> o_env_explicit opts \<and> cr_password k \<noteq> []
                         then opts\<lparr>o_password_config := Some c, o_reference := cr_password k, o_credentials := k\<rparr>
                         else opts)\<rparr>))"

definition apply_selection :: "cli_env \<Rightarrow> config \<Rightarrow> selection \<Rightarrow> parse_state \<Rightarrow> goerr + parse_state" where
  "apply_selection env c sel st =
     (let st = apply_host c sel st in
      and_then (apply_defaults env (sel_defs sel) (ps_seen st) (ps_opts st)) (\<lambda>opts.
        apply_credentials env c (sel_creds sel) (st\<lparr>ps_opts := opts\<rparr>)))"

definition cli_load :: "cli_env \<Rightarrow> bytes \<Rightarrow> goerr + config" where
  "cli_load env path = Load (ce_yaml env) (ce_eval env) (ce_absolute env) (ce_files env) path"

definition applyConfig :: "cli_env \<Rightarrow> parse_state \<Rightarrow> goerr + parse_state" where
  "applyConfig env st =
     (let opts = ps_opts st in
      check ((''--config'' \<in> set (ps_seen st) \<and> o_config_path opts = []) \<or>
             (''--context'' \<in> set (ps_seen st) \<and> o_context opts = []))
        (Msg ''global option requires a nonempty value'') (
      and_then (Discover (ce_stat env) (ce_home env) (o_config_path opts) (ce_getenv env)) (\<lambda>path.
      if path = [] then
        check (o_context opts \<noteq> []) (Msg ''context requires a configuration file'') (Inr st)
      else
        and_then (cli_load env path) (\<lambda>c.
        and_then (Select (cfg c) (o_context opts)) (\<lambda>sel. apply_selection env c sel st)))))"

subsection \<open>parse\<close>

definition codepages :: "bytes list" where
  "codepages = [[], ''raw'', ''utf-8'', ''866'', ''1251'']"

text \<open>The checks between the loop and the configuration.\<close>

definition check_sources :: "options \<Rightarrow> goerr option" where
  "check_sources opts =
     (if o_password_stdin opts \<and> o_env_explicit opts then Some (Msg ''choose --password-env or --password-stdin'')
      else if o_password_env opts = [] then Some (Msg ''password environment variable name is empty'')
      else if o_codepage opts \<notin> set codepages then Some (Msg ''codepage must be raw, utf-8, 866 or 1251'')
      else if o_powershell opts \<and> o_codepage opts \<noteq> [] \<and> o_codepage opts \<noteq> ''utf-8''
      then Some (Msg ''PowerShell output is UTF-8; --codepage applies to run'')
      else None)"

definition breaks :: bytes where "breaks = [CHR 0x0D, CHR 0x0A, CHR 0x00]"

definition domain_bad :: bytes where
  "domain_bad = [CHR 0x5C, CHR ''@'', CHR ''/'', CHR '' '', CHR 0x09] @ breaks"

definition qualified_user :: "bytes \<Rightarrow> bytes \<Rightarrow> goerr + bytes" where
  "qualified_user domain user =
     check (user = [] \<or> contains_any user breaks) (Msg ''--user is required'') (
     if domain = [] then Inr user
     else check (contains_any domain domain_bad \<or> contains_any user [CHR 0x5C, CHR ''@''])
            (Msg ''--domain requires an unqualified --user'') (Inr (domain @ [CHR 0x5C] @ user)))"

text \<open>The byte order mark.\<close>

definition bom :: bytes where "bom = [CHR 0xEF, CHR 0xBB, CHR 0xBF]"

definition command_text :: "cli_env \<Rightarrow> options \<Rightarrow> bytes list \<Rightarrow> goerr + bytes" where
  "command_text env opts words =
     (if o_file opts \<noteq> [] then
        check (\<not> o_powershell opts \<or> words \<noteq> []) (Msg ''-f requires ps and cannot be combined with command text'') (
        case ce_script env (o_file opts) of (opened, content, read_ok) \<Rightarrow>
        check (\<not> opened) (Msg ''cannot open script file'') (
        check ((length content \<le> 32768 \<and> \<not> read_ok) \<or> length content > 32768)
          (Msg ''cannot read script or script exceeds 32 KiB'')
          (Inr (trim_prefix content bom))))
      else Inr (str_join words '' ''))"

definition check_command :: "cli_env \<Rightarrow> options \<Rightarrow> goerr + options" where
  "check_command env opts =
     check (trim_space (o_command opts) = []) (Msg ''provide command text after -- or use ps -f'') (
     check (\<not> valid_utf8 (o_command opts) \<or> CHR 0x00 \<in> set (o_command opts))
       (Msg ''command must be valid UTF-8 without NUL'') (
     check (length (o_command opts) > 32768) (Msg ''command exceeds 32 KiB'') (
     and_then (Command (ce_encode env) (o_command opts) (o_powershell opts)) (\<lambda>_. Inr opts))))"

definition finish_parse :: "cli_env \<Rightarrow> parse_state \<Rightarrow> bytes list \<Rightarrow> goerr + options" where
  "finish_parse env st words =
     (let opts = ps_opts st in
      and_then (qualified_user (ps_domain st) (o_user opts)) (\<lambda>user.
      check (contains_any (o_target opts) ([CHR ''/'', CHR 0x5C, CHR ''@'', CHR '' '', CHR 0x09] @ breaks))
        (Msg ''invalid --target-host'') (
      and_then (Endpoint (ce_url env) (ps_host st) (o_endpoint opts)) (\<lambda>ep.
      and_then (command_text env opts words) (\<lambda>command.
        check_command env (opts\<lparr>o_user := user, o_endpoint := ep, o_command := command\<rparr>))))))"

definition parse :: "cli_env \<Rightarrow> bytes list \<Rightarrow> goerr + options" where
  "parse env args =
     (case args of
        [] \<Rightarrow> Inl (Sentinel GoPanic)
      | cmd # rest \<Rightarrow>
          and_then (parse_args env rest \<lparr>ps_opts = initial_options (cmd = ''ps''), ps_host = [], ps_domain = [], ps_seen = []\<rparr>)
            (\<lambda>(st, words).
               if o_help (ps_opts st) then Inr (ps_opts st)
               else case check_sources (ps_opts st) of
                 Some e \<Rightarrow> Inl e
               | None \<Rightarrow> and_then (applyConfig env st) (\<lambda>st. finish_parse env st words)))"

end
