(* ===== verification/Options_Spec.thy ===== *)
theory Options_Spec
  imports Options
begin

text \<open>
  Properties of the command line parser: what every accepted command line is like, that the words behind
  \<open>--\<close> are the command and nothing else, and that an explicit option wins over the configuration.
\<close>

subsection \<open>The argument loop\<close>

text \<open>What holds of the options from the beginning on.\<close>

definition control_ok :: "settings \<Rightarrow> bool" where
  "control_ok s \<longleftrightarrow> set_mode s \<in> {''auto'', ''off''} \<and> MinPersist \<le> set_persist s \<and> set_persist s \<le> hour"

definition loop_ok :: "options \<Rightarrow> bool" where
  "loop_ok opts \<longleftrightarrow> 0 < o_timeout opts \<and> control_ok (o_control opts) \<and> o_password opts = []"

lemma initial_ok: "loop_ok (initial_options b)"
  by (simp add: initial_options_def loop_ok_def control_ok_def second_def MinPersist_def hour_def)

lemma parse_timeout_ok: "parse_timeout f v = Inr d \<Longrightarrow> 0 < d"
  by (auto simp: parse_timeout_def Let_def split: option.splits)

lemma parseControlPersist_ok: "parseControlPersist f v = Inr d \<Longrightarrow> MinPersist \<le> d \<and> d \<le> hour"
  by (auto simp: parseControlPersist_def Let_def split: option.splits)

lemma set_option_ok:
  assumes "set_option env name v st = Inr st'" "loop_ok (ps_opts st)"
  shows "loop_ok (ps_opts st')"
  using assms parse_timeout_ok parseControlPersist_ok
  unfolding set_option_def Let_def loop_ok_def control_ok_def by (auto split: if_splits)

text \<open>One iteration: the separator, \<open>--help\<close>, a flag or a host, or an option with its value.\<close>

lemma parse_args_cases:
  assumes "parse_args env (a # rest) st = Inr r"
  obtains (separator) "a = ''--''" "r = (st, rest)"
  | (flag) "a = ''--help'' \<or> a = ''-h''" "r = (st\<lparr>ps_opts := (ps_opts st)\<lparr>o_help := True\<rparr>\<rparr>, [])"
  | (verbosity) n where "a \<noteq> ''--''" "parse_args env rest (st\<lparr>ps_opts := (ps_opts st)\<lparr>o_verbose := n\<rparr>\<rparr>) = Inr r"
  | (stdin) "a \<noteq> ''--''" "parse_args env rest (st\<lparr>ps_opts := (ps_opts st)\<lparr>o_password_stdin := True\<rparr>\<rparr>) = Inr r"
  | (host) "a \<noteq> ''--''" "parse_args env rest (st\<lparr>ps_host := a\<rparr>) = Inr r"
  | (inline) name v st2 where "a \<noteq> ''--''" "name \<notin> set (ps_seen st)"
      "set_option env name v (st\<lparr>ps_seen := name # ps_seen st\<rparr>) = Inr st2" "parse_args env rest st2 = Inr r"
  | (separate) name v st2 rest' where "a \<noteq> ''--''" "rest = v # rest'" "v \<noteq> ''--''" "name \<notin> set (ps_seen st)"
      "set_option env name v (st\<lparr>ps_seen := name # ps_seen st\<rparr>) = Inr st2" "parse_args env rest' st2 = Inr r"
proof -
  note step = assms [unfolded parse_args.simps(2) [of env a rest st]]
  consider "a = ''--''" | "a = ''--help'' \<or> a = ''-h''" | "a = ''-v'' \<or> a = ''-vv''" | "a = ''--password-stdin''"
    | "a \<noteq> ''--''" "a \<noteq> ''--help'' \<and> a \<noteq> ''-h''" "a \<noteq> ''-v'' \<and> a \<noteq> ''-vv''" "a \<noteq> ''--password-stdin''" by blast
  then show ?thesis
  proof cases
    case 1
    with step separator show ?thesis by simp
  next
    case 2
    with step flag show ?thesis by auto
  next
    case 3
    with step verbosity [of "length a - 1"] show ?thesis by auto
  next
    case 4
    with step stdin show ?thesis by (simp split: if_splits)
  next
    case 5
    show ?thesis
    proof (cases "has_prefix a ''-''")
      case False
      with 5 step host show ?thesis by simp
    next
      case True
      obtain name v inl where cut: "str_cut a ''='' = (name, v, inl)" by (cases "str_cut a ''=''") auto
      with 5 True step have name: "name \<notin> set (ps_seen st)" by (simp add: Let_def)
      note s = step [simplified 5 True cut if_False if_True prod.case Let_def simp_thms check_Inr_iff]
      show ?thesis
      proof (cases inl)
        case True
        with s inline [OF 5(1) name] show ?thesis by (auto split: sum.splits)
      next
        case False
        with s separate [OF 5(1) _ _ name] show ?thesis by (auto split: sum.splits list.splits if_splits)
      qed
    qed
  qed
qed

text \<open>What every step of the loop keeps holds at its end.\<close>

lemma parse_args_invariant:
  assumes "parse_args env args st = Inr (st', words)" "I st"
    and flag: "\<And>st. I st \<Longrightarrow> I (st\<lparr>ps_opts := (ps_opts st)\<lparr>o_help := True\<rparr>\<rparr>)"
    and verbosity: "\<And>st n. I st \<Longrightarrow> I (st\<lparr>ps_opts := (ps_opts st)\<lparr>o_verbose := n\<rparr>\<rparr>)"
    and stdin: "\<And>st. I st \<Longrightarrow> I (st\<lparr>ps_opts := (ps_opts st)\<lparr>o_password_stdin := True\<rparr>\<rparr>)"
    and host: "\<And>st h. I st \<Longrightarrow> I (st\<lparr>ps_host := h\<rparr>)"
    and opt: "\<And>st st' name v. I st \<Longrightarrow> set_option env name v (st\<lparr>ps_seen := name # ps_seen st\<rparr>) = Inr st' \<Longrightarrow> I st'"
  shows "I st'"
  using assms(1,2)
proof (induction args arbitrary: st rule: length_induct)
  case (1 args)
  show ?case
  proof (cases args)
    case Nil
    with 1 show ?thesis by simp
  next
    case (Cons a rest)
    note IH = 1(1) [unfolded Cons, rule_format]
    from "1.prems"(1) [unfolded Cons] show ?thesis
    proof (cases rule: parse_args_cases)
      case separator
      with "1.prems"(2) show ?thesis by simp
    next
      case flag
      with "1.prems"(2) assms(3) show ?thesis by simp
    next
      case (verbosity n)
      with IH [OF _ verbosity(2)] assms(4) "1.prems"(2) show ?thesis by simp
    next
      case stdin
      with IH [OF _ stdin(2)] assms(5) "1.prems"(2) show ?thesis by simp
    next
      case host
      with IH [OF _ host(2)] assms(6) "1.prems"(2) show ?thesis by simp
    next
      case (inline name v st2)
      with IH [OF _ inline(4)] assms(7) [OF "1.prems"(2) inline(3)] show ?thesis by simp
    next
      case (separate name v st2 rest')
      with IH [OF _ separate(6)] assms(7) [OF "1.prems"(2) separate(5)] show ?thesis by simp
    qed
  qed
qed

lemma parse_args_ok:
  assumes "parse_args env args st = Inr (st', words)" "loop_ok (ps_opts st)"
  shows "loop_ok (ps_opts st')"
  using assms(1,2)
proof (rule parse_args_invariant [where I = "\<lambda>st. loop_ok (ps_opts st)"])
  show "loop_ok (ps_opts st')"
    if "loop_ok (ps_opts st)" "set_option env name v (st\<lparr>ps_seen := name # ps_seen st\<rparr>) = Inr st'" for st st' name v
    using set_option_ok [OF that(2)] that(1) by simp
qed (simp_all add: loop_ok_def)

text \<open>The first \<open>--\<close> ends the options, whatever stands in front of it, and what follows has no influence on
  them.\<close>

lemma set_option_help:
  "set_option env name v st = Inr st' \<Longrightarrow> o_help (ps_opts st') = o_help (ps_opts st)"
  unfolding set_option_def Let_def by (auto split: if_splits)

lemma parse_args_split:
  assumes "''--'' \<notin> set before" "\<not> o_help (ps_opts st)"
  shows "parse_args env (before @ ''--'' # words) st =
    (case parse_args env before st of
       Inl e \<Rightarrow> Inl e
     | Inr (st', _) \<Rightarrow> Inr (st', if o_help (ps_opts st') then [] else words))"
  using assms
proof (induction before arbitrary: st rule: length_induct)
  case (1 before)
  show ?case
  proof (cases before)
    case Nil
    with "1.prems"(2) show ?thesis by (simp add: parse_args.simps(2) [of env "''--''"])
  next
    case (Cons a rest)
    have a: "a \<noteq> ''--''" and rest: "''--'' \<notin> set rest" using "1.prems"(1) Cons by auto
    have IH: "parse_args env (xs @ ''--'' # words) t =
        (case parse_args env xs t of Inl e \<Rightarrow> Inl e | Inr (st', _) \<Rightarrow> Inr (st', if o_help (ps_opts st') then [] else words))"
      if "length xs \<le> length rest" "''--'' \<notin> set xs" "\<not> o_help (ps_opts t)" for xs t
      using "1.IH" that Cons by simp
    note step = parse_args.simps(2) [of env a rest st] parse_args.simps(2) [of env a "rest @ ''--'' # words" st]
    consider "a = ''--help'' \<or> a = ''-h''" | "a = ''-v'' \<or> a = ''-vv''" | "a = ''--password-stdin''"
      | "\<not> has_prefix a ''-''" "a \<noteq> ''--help'' \<and> a \<noteq> ''-h''" "a \<noteq> ''-v'' \<and> a \<noteq> ''-vv''" "a \<noteq> ''--password-stdin''"
      | "has_prefix a ''-''" "a \<noteq> ''--help'' \<and> a \<noteq> ''-h''" "a \<noteq> ''-v'' \<and> a \<noteq> ''-vv''" "a \<noteq> ''--password-stdin''" by blast
    then show ?thesis
    proof cases
      case 1
      then show ?thesis using Cons by (auto simp: step)
    next
      case 2
      with IH [OF order_refl rest, of "st\<lparr>ps_opts := (ps_opts st)\<lparr>o_verbose := length a - 1\<rparr>\<rparr>"] "1.prems"(2) Cons
      show ?thesis by (auto simp: step)
    next
      case 3
      with IH [OF order_refl rest, of "st\<lparr>ps_opts := (ps_opts st)\<lparr>o_password_stdin := True\<rparr>\<rparr>"] "1.prems"(2) Cons
      show ?thesis by (cases "o_password_stdin (ps_opts st)") (simp_all add: step [unfolded 3])
    next
      case 4
      with IH [OF order_refl rest, of "st\<lparr>ps_host := a\<rparr>"] "1.prems"(2) Cons a
      show ?thesis by (cases "ps_host st = []") (simp_all add: step)
    next
      case 5
      obtain name v inl where cut: "str_cut a ''='' = (name, v, inl)" by (cases "str_cut a ''=''") auto
      let ?st = "st\<lparr>ps_seen := name # ps_seen st\<rparr>"
      have H: "\<not> o_help (ps_opts t)" if "set_option env name v ?st = Inr t" for v t
        using set_option_help [OF that] "1.prems"(2) by simp
      show ?thesis
      proof (cases "name \<in> set value_options \<and> name \<notin> set (ps_seen st)")
        case False
        with 5 a cut Cons show ?thesis by (auto simp: step check_def)
      next
        case ok: True
        show ?thesis
        proof (cases inl)
          case True
          with 5 a cut Cons ok show ?thesis
            by (simp add: step check_def IH [OF order_refl rest] H split: sum.split)
        next
          case False
          show ?thesis
          proof (cases rest)
            case Nil
            with 5 a cut Cons ok False show ?thesis by (simp add: step [unfolded Nil append_Nil] check_def)
          next
            case (Cons w ws)
            have "length ws \<le> length rest" "''--'' \<notin> set ws" "w \<noteq> ''--''" using Cons rest by auto
            with 5 a cut \<open>before = a # rest\<close> ok False Cons show ?thesis
              by (simp add: step [unfolded Cons append_Cons] check_def IH H split: sum.split)
          qed
        qed
      qed
    qed
  qed
qed

subsection \<open>The configuration\<close>

text \<open>The options that no configuration sets.\<close>

definition own_options ::
  "options \<Rightarrow> bytes \<times> bytes \<times> bool \<times> bytes \<times> bytes \<times> bool \<times> bool \<times> bool \<times> nat \<times> bytes \<times> bytes \<times> bytes" where
  "own_options opts = (o_command opts, o_codepage opts, o_powershell opts, o_password_env opts, o_file opts, o_password_stdin opts,
     o_env_explicit opts, o_help opts, o_verbose opts, o_config_path opts, o_context opts, o_password opts)"

text \<open>What an option that was given keeps from the configuration.\<close>

definition kept :: "bytes list \<Rightarrow> options \<Rightarrow> options \<Rightarrow> bool" where
  "kept seen old new \<longleftrightarrow> own_options new = own_options old \<and>
     (''--endpoint'' \<in> set seen \<longrightarrow> o_endpoint new = o_endpoint old) \<and>
     (''--target-host'' \<in> set seen \<longrightarrow> o_target new = o_target old) \<and>
     (''--user'' \<in> set seen \<longrightarrow> o_user new = o_user old) \<and>
     (''--timeout'' \<in> set seen \<longrightarrow> o_timeout new = o_timeout old) \<and>
     (''--control'' \<in> set seen \<longrightarrow> set_mode (o_control new) = set_mode (o_control old)) \<and>
     (''--control-persist'' \<in> set seen \<longrightarrow> set_persist (o_control new) = set_persist (o_control old)) \<and>
     (''--control-path'' \<in> set seen \<longrightarrow> set_path (o_control new) = set_path (o_control old)) \<and>
     (o_password_stdin old \<or> o_env_explicit old \<longrightarrow> o_password_config new = o_password_config old)"

lemma kept_refl: "kept seen opts opts"
  by (simp add: kept_def)

lemma kept_trans: "kept seen a b \<Longrightarrow> kept seen b c \<Longrightarrow> kept seen a c"
  by (auto simp: kept_def own_options_def)

lemma apply_host_kept:
  "kept (ps_seen st) (ps_opts st) (ps_opts (apply_host c sel st)) \<and> ps_seen (apply_host c sel st) = ps_seen st \<and>
   ps_domain (apply_host c sel st) = ps_domain st \<and> (loop_ok (ps_opts st) \<longrightarrow> loop_ok (ps_opts (apply_host c sel st)))"
  by (auto simp: apply_host_def Let_def kept_def own_options_def loop_ok_def split: prod.splits)

lemma apply_defaults_kept:
  assumes "apply_defaults env d seen opts = Inr opts'"
  shows "kept seen opts opts' \<and> (loop_ok opts \<longrightarrow> loop_ok opts')"
proof -
  note steps = assms [unfolded apply_defaults_def check_Inr_iff and_then_Inr_iff]
  then obtain a b c where
    a: "(if ''--timeout'' \<notin> set seen \<and> d_timeout d \<noteq> []
      then and_then (parse_timeout (ce_duration env) (d_timeout d))
        (\<lambda>t. Inr (opts\<lparr>o_timeout := t, o_timeout_configured := True\<rparr>)) else Inr opts) = Inr a"
    and b: "(if ''--control'' \<notin> set seen \<and> d_master d \<noteq> []
      then check (d_master d \<noteq> ''auto'' \<and> d_master d \<noteq> ''off'') (Msg ''control mode must be auto or off'')
        (Inr (a\<lparr>o_control := (o_control a)\<lparr>set_mode := d_master d\<rparr>\<rparr>)) else Inr a) = Inr b"
    and c: "(if ''--control-persist'' \<notin> set seen \<and> d_persist d \<noteq> []
      then and_then (parseControlPersist (ce_duration env) (d_persist d))
        (\<lambda>p. Inr (b\<lparr>o_control := (o_control b)\<lparr>set_persist := p\<rparr>\<rparr>)) else Inr b) = Inr c"
    and out: "Inr (if ''--control-path'' \<notin> set seen \<and> d_path d \<noteq> []
      then c\<lparr>o_control := (o_control c)\<lparr>set_path := d_path d\<rparr>\<rparr> else c) = (Inr opts' :: goerr + options)" by blast
  have "kept seen opts a \<and> (loop_ok opts \<longrightarrow> loop_ok a)"
    using a parse_timeout_ok by (auto simp: kept_def own_options_def loop_ok_def split: if_splits)
  moreover have "kept seen a b \<and> (loop_ok a \<longrightarrow> loop_ok b)"
    using b by (auto simp: kept_def own_options_def loop_ok_def control_ok_def split: if_splits)
  moreover have "kept seen b c \<and> (loop_ok b \<longrightarrow> loop_ok c)"
    using c parseControlPersist_ok by (auto simp: kept_def own_options_def loop_ok_def control_ok_def split: if_splits)
  moreover have "kept seen c opts' \<and> (loop_ok c \<longrightarrow> loop_ok opts')"
    using out by (auto simp: kept_def own_options_def loop_ok_def control_ok_def split: if_splits)
  ultimately show ?thesis using kept_trans by blast
qed

lemma apply_credentials_kept:
  assumes "apply_credentials env c k st = Inr st'"
  shows "kept (ps_seen st) (ps_opts st) (ps_opts st') \<and> ps_seen st' = ps_seen st \<and>
    (''--domain'' \<in> set (ps_seen st) \<longrightarrow> ps_domain st' = ps_domain st) \<and>
    (loop_ok (ps_opts st) \<longrightarrow> loop_ok (ps_opts st'))"
proof -
  from assms obtain a where
    a: "(if ''--user'' \<notin> set (ps_seen st) \<and> cr_user k \<noteq> []
      then (case config_Resolve (ce_files env) (ce_dotenv env) c (cr_user k) k (ce_lookup env) of
              Inl e \<Rightarrow> Inl (Wrap ''configured user'' e) | Inr u \<Rightarrow> Inr ((ps_opts st)\<lparr>o_user := u\<rparr>))
      else Inr (ps_opts st)) = Inr a"
    and st': "ps_opts st' = (if \<not> o_password_stdin a \<and> \<not> o_env_explicit a \<and> cr_password k \<noteq> []
        then a\<lparr>o_password_config := Some c, o_reference := cr_password k, o_credentials := k\<rparr> else a)"
      "ps_seen st' = ps_seen st" "''--domain'' \<in> set (ps_seen st) \<longrightarrow> ps_domain st' = ps_domain st"
    unfolding apply_credentials_def and_then_Inr_iff by auto
  have "kept (ps_seen st) (ps_opts st) a \<and> (loop_ok (ps_opts st) \<longrightarrow> loop_ok a)"
    using a by (auto simp: kept_def own_options_def loop_ok_def split: if_splits sum.splits)
  moreover have "kept (ps_seen st) a (ps_opts st') \<and> (loop_ok a \<longrightarrow> loop_ok (ps_opts st'))"
    using st'(1) by (auto simp: kept_def own_options_def loop_ok_def)
  ultimately show ?thesis using st'(2,3) kept_trans by blast
qed

lemma applyConfig_kept:
  assumes "applyConfig env st = Inr st'"
  shows "kept (ps_seen st) (ps_opts st) (ps_opts st') \<and> ps_seen st' = ps_seen st \<and>
    (''--domain'' \<in> set (ps_seen st) \<longrightarrow> ps_domain st' = ps_domain st) \<and>
    (loop_ok (ps_opts st) \<longrightarrow> loop_ok (ps_opts st'))"
proof -
  from assms consider "st' = st" | c sel where "apply_selection env c sel st = Inr st'"
    unfolding applyConfig_def by (auto simp: Let_def split: if_splits)
  then show ?thesis
  proof cases
    case 1
    then show ?thesis by (simp add: kept_refl)
  next
    case (2 c sel)
    let ?h = "apply_host c sel st"
    from 2 obtain opts where d: "apply_defaults env (sel_defs sel) (ps_seen ?h) (ps_opts ?h) = Inr opts"
      and k: "apply_credentials env c (sel_creds sel) (?h\<lparr>ps_opts := opts\<rparr>) = Inr st'"
      unfolding apply_selection_def by (auto simp: Let_def)
    show ?thesis
      using apply_host_kept [of st c sel] apply_defaults_kept [OF d] apply_credentials_kept [OF k]
      by (auto intro: kept_trans)
  qed
qed

text \<open>The context in force: the one that is given, else the current one of the file; its host and credentials.  Without
  either there is none.\<close>

definition in_force :: "config_file \<Rightarrow> bytes \<Rightarrow> host \<Rightarrow> credentials \<Rightarrow> bool" where
  "in_force c given h k \<longleftrightarrow>
     (if given = [] \<and> current c = [] then h = no_host \<and> k = no_credentials
      else \<exists>cx. map_of (contexts c) (if given = [] then current c else given) = Some cx \<and>
        map_of (hosts c) (cx_host cx) = Some h \<and> map_of (creds c) (cx_credentials cx) = Some k)"

text \<open>The host that supplies endpoint and certificate name: the operand names one of the configured hosts, or
  is an address of its own, which no configured endpoint replaces; without an operand it is the context's.\<close>

definition host_in_force :: "config_file \<Rightarrow> host \<Rightarrow> bytes \<Rightarrow> host" where
  "host_in_force c h operand =
     (if operand = [] then h else case map_of (hosts c) operand of None \<Rightarrow> no_host | Some x \<Rightarrow> x)"

definition target_merged :: "config \<Rightarrow> host \<Rightarrow> parse_state \<Rightarrow> parse_state \<Rightarrow> bool" where
  "target_merged c h st st' \<longleftrightarrow>
     ps_host st' = (if map_of (hosts (cfg c)) (ps_host st) = None then ps_host st else []) \<and>
     o_endpoint (ps_opts st') = (if ''--endpoint'' \<in> set (ps_seen st) then o_endpoint (ps_opts st)
       else h_endpoint (host_in_force (cfg c) h (ps_host st))) \<and>
     o_target (ps_opts st') = (if ''--target-host'' \<in> set (ps_seen st) then o_target (ps_opts st)
       else h_target (host_in_force (cfg c) h (ps_host st)))"

definition login_merged :: "cli_env \<Rightarrow> config \<Rightarrow> credentials \<Rightarrow> parse_state \<Rightarrow> parse_state \<Rightarrow> bool" where
  "login_merged env c k st st' \<longleftrightarrow>
     (if ''--user'' \<in> set (ps_seen st) \<or> cr_user k = [] then o_user (ps_opts st') = o_user (ps_opts st)
      else config_Resolve (ce_files env) (ce_dotenv env) c (cr_user k) k (ce_lookup env) = Inr (o_user (ps_opts st'))) \<and>
     ps_domain st' = (if ''--domain'' \<in> set (ps_seen st) \<or> contains_any (o_user (ps_opts st')) [CHR 0x5C, CHR ''@'']
       then ps_domain st else cr_domain k) \<and>
     (if o_password_stdin (ps_opts st) \<or> o_env_explicit (ps_opts st) \<or> cr_password k = []
      then o_password_config (ps_opts st') = o_password_config (ps_opts st) \<and> o_reference (ps_opts st') = o_reference (ps_opts st)
      else o_password_config (ps_opts st') = Some c \<and> o_reference (ps_opts st') = cr_password k \<and>
        o_credentials (ps_opts st') = k)"

definition defaults_merged :: "cli_env \<Rightarrow> defaults \<Rightarrow> bytes list \<Rightarrow> options \<Rightarrow> options \<Rightarrow> bool" where
  "defaults_merged env d seen old new \<longleftrightarrow>
     (if ''--timeout'' \<in> set seen \<or> d_timeout d = [] then o_timeout new = o_timeout old
      else parse_timeout (ce_duration env) (d_timeout d) = Inr (o_timeout new)) \<and>
     set_mode (o_control new) = (if ''--control'' \<in> set seen \<or> d_master d = [] then set_mode (o_control old) else d_master d) \<and>
     (if ''--control-persist'' \<in> set seen \<or> d_persist d = [] then set_persist (o_control new) = set_persist (o_control old)
      else parseControlPersist (ce_duration env) (d_persist d) = Inr (set_persist (o_control new))) \<and>
     set_path (o_control new) = (if ''--control-path'' \<in> set seen \<or> d_path d = [] then set_path (o_control old) else d_path d)"

lemma Select_in_force:
  assumes "config_ok c" and "Select c given = Inr sel"
  shows "in_force c given (sel_host sel) (sel_creds sel) \<and> sel_defs sel = defs c"
proof (cases "given = [] \<and> current c = []")
  case True
  with assms(2) show ?thesis by (auto simp: Select_def in_force_def)
next
  case False
  then have "given \<noteq> [] \<or> current c \<noteq> []" by blast
  from Select_ok [OF assms this] False show ?thesis by (auto simp: in_force_def)
qed

lemma apply_host_merged:
  "target_merged c (sel_host sel) st (apply_host c sel st) \<and> o_user (ps_opts (apply_host c sel st)) = o_user (ps_opts st) \<and>
   o_timeout (ps_opts (apply_host c sel st)) = o_timeout (ps_opts st) \<and>
   o_control (ps_opts (apply_host c sel st)) = o_control (ps_opts st) \<and>
   o_password_config (ps_opts (apply_host c sel st)) = o_password_config (ps_opts st) \<and>
   o_reference (ps_opts (apply_host c sel st)) = o_reference (ps_opts st)"
  by (simp add: apply_host_def chosen_host_def target_merged_def host_in_force_def Let_def split: option.split)

lemma apply_defaults_merged:
  assumes "apply_defaults env d seen opts = Inr opts'"
  shows "defaults_merged env d seen opts opts' \<and> o_endpoint opts' = o_endpoint opts \<and> o_target opts' = o_target opts \<and>
    o_user opts' = o_user opts \<and> o_password_config opts' = o_password_config opts \<and> o_reference opts' = o_reference opts \<and>
    o_password_stdin opts' = o_password_stdin opts \<and> o_env_explicit opts' = o_env_explicit opts"
proof -
  note steps = assms [unfolded apply_defaults_def check_Inr_iff and_then_Inr_iff]
  then obtain a b c where
    a: "(if ''--timeout'' \<notin> set seen \<and> d_timeout d \<noteq> []
      then and_then (parse_timeout (ce_duration env) (d_timeout d))
        (\<lambda>t. Inr (opts\<lparr>o_timeout := t, o_timeout_configured := True\<rparr>)) else Inr opts) = Inr a"
    and b: "(if ''--control'' \<notin> set seen \<and> d_master d \<noteq> []
      then check (d_master d \<noteq> ''auto'' \<and> d_master d \<noteq> ''off'') (Msg ''control mode must be auto or off'')
        (Inr (a\<lparr>o_control := (o_control a)\<lparr>set_mode := d_master d\<rparr>\<rparr>)) else Inr a) = Inr b"
    and c: "(if ''--control-persist'' \<notin> set seen \<and> d_persist d \<noteq> []
      then and_then (parseControlPersist (ce_duration env) (d_persist d))
        (\<lambda>p. Inr (b\<lparr>o_control := (o_control b)\<lparr>set_persist := p\<rparr>\<rparr>)) else Inr b) = Inr c"
    and out: "Inr (if ''--control-path'' \<notin> set seen \<and> d_path d \<noteq> []
      then c\<lparr>o_control := (o_control c)\<lparr>set_path := d_path d\<rparr>\<rparr> else c) = (Inr opts' :: goerr + options)" by blast
  from a obtain t tc where a': "a = opts\<lparr>o_timeout := t, o_timeout_configured := tc\<rparr>"
    "if ''--timeout'' \<in> set seen \<or> d_timeout d = [] then t = o_timeout opts
     else parse_timeout (ce_duration env) (d_timeout d) = Inr t"
    by (cases "''--timeout'' \<in> set seen \<or> d_timeout d = []") (auto intro: that [of "o_timeout_configured opts" "o_timeout opts"])
  from b have b': "b = a\<lparr>o_control := (o_control a)\<lparr>set_mode :=
      (if ''--control'' \<in> set seen \<or> d_master d = [] then set_mode (o_control a) else d_master d)\<rparr>\<rparr>"
    by (auto split: if_splits)
  from c obtain q where c': "c = b\<lparr>o_control := (o_control b)\<lparr>set_persist := q\<rparr>\<rparr>"
    "if ''--control-persist'' \<in> set seen \<or> d_persist d = [] then q = set_persist (o_control b)
     else parseControlPersist (ce_duration env) (d_persist d) = Inr q"
    by (cases "''--control-persist'' \<in> set seen \<or> d_persist d = []") (auto intro: that [of "set_persist (o_control b)"])
  from out have d': "opts' = c\<lparr>o_control := (o_control c)\<lparr>set_path :=
      (if ''--control-path'' \<in> set seen \<or> d_path d = [] then set_path (o_control c) else d_path d)\<rparr>\<rparr>"
    by (auto split: if_splits)
  show ?thesis using a'(2) c'(2) unfolding defaults_merged_def d' c'(1) b' a'(1) by simp
qed

lemma apply_credentials_merged:
  assumes "apply_credentials env c k st = Inr st'"
  shows "login_merged env c k st st' \<and> ps_host st' = ps_host st \<and> o_endpoint (ps_opts st') = o_endpoint (ps_opts st) \<and>
    o_target (ps_opts st') = o_target (ps_opts st) \<and> o_timeout (ps_opts st') = o_timeout (ps_opts st) \<and>
    o_control (ps_opts st') = o_control (ps_opts st)"
proof -
  from assms obtain a where
    a: "(if ''--user'' \<notin> set (ps_seen st) \<and> cr_user k \<noteq> []
      then (case config_Resolve (ce_files env) (ce_dotenv env) c (cr_user k) k (ce_lookup env) of
              Inl e \<Rightarrow> Inl (Wrap ''configured user'' e) | Inr u \<Rightarrow> Inr ((ps_opts st)\<lparr>o_user := u\<rparr>))
      else Inr (ps_opts st)) = Inr a"
    and st': "st' = st\<lparr>ps_domain := (if ''--domain'' \<notin> set (ps_seen st) \<and> \<not> contains_any (o_user a) [CHR 0x5C, CHR ''@'']
        then cr_domain k else ps_domain st),
      ps_opts := (if \<not> o_password_stdin a \<and> \<not> o_env_explicit a \<and> cr_password k \<noteq> []
        then a\<lparr>o_password_config := Some c, o_reference := cr_password k, o_credentials := k\<rparr> else a)\<rparr>"
    unfolding apply_credentials_def and_then_Inr_iff by auto
  from a obtain u where u: "a = (ps_opts st)\<lparr>o_user := u\<rparr>"
    "if ''--user'' \<in> set (ps_seen st) \<or> cr_user k = [] then u = o_user (ps_opts st)
     else config_Resolve (ce_files env) (ce_dotenv env) c (cr_user k) k (ce_lookup env) = Inr u"
    by (cases "''--user'' \<in> set (ps_seen st) \<or> cr_user k = []")
       (auto split: sum.splits intro: that [of "o_user (ps_opts st)"])
  show ?thesis using u(2) unfolding login_merged_def st' u(1) by simp
qed

lemma apply_selection_merged:
  assumes "apply_selection env c sel st = Inr st'"
  shows "target_merged c (sel_host sel) st st' \<and> login_merged env c (sel_creds sel) st st' \<and>
    defaults_merged env (sel_defs sel) (ps_seen st) (ps_opts st) (ps_opts st')"
proof -
  let ?h = "apply_host c sel st"
  from assms obtain opts where d: "apply_defaults env (sel_defs sel) (ps_seen ?h) (ps_opts ?h) = Inr opts"
    and k: "apply_credentials env c (sel_creds sel) (?h\<lparr>ps_opts := opts\<rparr>) = Inr st'"
    unfolding apply_selection_def by (auto simp: Let_def)
  have own: "ps_seen ?h = ps_seen st" "ps_domain ?h = ps_domain st" "o_password_stdin (ps_opts ?h) = o_password_stdin (ps_opts st)"
    "o_env_explicit (ps_opts ?h) = o_env_explicit (ps_opts st)"
    using apply_host_kept [of st c sel] by (auto simp: kept_def own_options_def)
  note h = apply_host_merged [of c sel st] and D = apply_defaults_merged [OF d] and K = apply_credentials_merged [OF k]
  have "target_merged c (sel_host sel) st st'" using h D K by (simp add: target_merged_def)
  moreover have "login_merged env c (sel_creds sel) st st'" using h D K own by (simp add: login_merged_def)
  moreover have "defaults_merged env (sel_defs sel) (ps_seen st) (ps_opts st) (ps_opts st')"
    using h D K own by (simp add: defaults_merged_def)
  ultimately show ?thesis by blast
qed

text \<open>C21: Precedence of the command line over the configuration file.  Without a file nothing changes and no context
  may have been named.  Otherwise the context is the one of \<open>--context\<close>, else the current one of the file at
  \<open>--config\<close> (or the discovered file); a HOST operand chooses that configured host or stands for an address that no
  configured endpoint replaces, else the context's host is taken; every endpoint, certificate name, user, domain,
  timeout and control option that was given is what is used, and only one that was not given comes from the
  file; a password source that was named is not replaced by a configured reference; the command, code page, script,
  verbosity and the choice of configuration and context never come from the file.\<close>

theorem applyConfig_precedence:
  assumes "applyConfig env st = Inr st'"
  shows "own_options (ps_opts st') = own_options (ps_opts st) \<and>
    (Discover (ce_stat env) (ce_home env) (o_config_path (ps_opts st)) (ce_getenv env) = Inr [] \<and>
       o_context (ps_opts st) = [] \<and> st' = st \<or>
     (\<exists>path c h k. Discover (ce_stat env) (ce_home env) (o_config_path (ps_opts st)) (ce_getenv env) = Inr path \<and>
       path \<noteq> [] \<and> cli_load env path = Inr c \<and> in_force (cfg c) (o_context (ps_opts st)) h k \<and>
       target_merged c h st st' \<and> login_merged env c k st st' \<and>
       defaults_merged env (defs (cfg c)) (ps_seen st) (ps_opts st) (ps_opts st'))) \<and>
    kept (ps_seen st) (ps_opts st) (ps_opts st') \<and> (''--domain'' \<in> set (ps_seen st) \<longrightarrow> ps_domain st' = ps_domain st)"
proof -
  note k = applyConfig_kept [OF assms]
  obtain path where p: "Discover (ce_stat env) (ce_home env) (o_config_path (ps_opts st)) (ce_getenv env) = Inr path"
    and r: "(if path = [] then check (o_context (ps_opts st) \<noteq> []) (Msg ''context requires a configuration file'') (Inr st)
      else and_then (cli_load env path) (\<lambda>c.
        and_then (Select (cfg c) (o_context (ps_opts st))) (\<lambda>sel. apply_selection env c sel st))) = Inr st'"
    using assms unfolding applyConfig_def Let_def check_Inr_iff and_then_Inr_iff by blast
  show ?thesis
  proof (cases "path = []")
    case True
    with r have "o_context (ps_opts st) = []" "st' = st" by auto
    with True p k show ?thesis unfolding kept_def by blast
  next
    case False
    with r obtain c sel where c: "cli_load env path = Inr c" "Select (cfg c) (o_context (ps_opts st)) = Inr sel"
      "apply_selection env c sel st = Inr st'" by auto
    have "config_ok (cfg c)" using c(1) unfolding cli_load_def by (rule Load_ok)
    from Select_in_force [OF this c(2)] apply_selection_merged [OF c(3)] have
      "in_force (cfg c) (o_context (ps_opts st)) (sel_host sel) (sel_creds sel) \<and> target_merged c (sel_host sel) st st' \<and>
       login_merged env c (sel_creds sel) st st' \<and> defaults_merged env (defs (cfg c)) (ps_seen st) (ps_opts st) (ps_opts st')" by auto
    with p c(1) False k show ?thesis unfolding kept_def by blast
  qed
qed

subsection \<open>Accepted command lines\<close>

definition well_formed :: "cli_env \<Rightarrow> options \<Rightarrow> bool" where
  "well_formed env opts \<longleftrightarrow>
     o_user opts \<noteq> [] \<and> \<not> contains_any (o_user opts) breaks \<and>
     \<not> contains_any (o_target opts) ([CHR ''/'', CHR 0x5C, CHR ''@'', CHR '' '', CHR 0x09] @ breaks) \<and>
     (\<exists>h ep. Endpoint (ce_url env) h ep = Inr (o_endpoint opts)) \<and>
     o_codepage opts \<in> set codepages \<and> (o_powershell opts \<longrightarrow> o_codepage opts \<in> {[], ''utf-8''}) \<and>
     trim_space (o_command opts) \<noteq> [] \<and> valid_utf8 (o_command opts) \<and> CHR 0x00 \<notin> set (o_command opts) \<and>
     length (o_command opts) \<le> 32768 \<and> is_ok (Command (ce_encode env) (o_command opts) (o_powershell opts)) \<and>
     (o_file opts \<noteq> [] \<longrightarrow> o_powershell opts) \<and>
     0 < o_timeout opts \<and> control_ok (o_control opts) \<and>
     \<not> (o_password_stdin opts \<and> o_env_explicit opts) \<and> o_password_env opts \<noteq> [] \<and> o_password opts = []"

lemma parse_cases:
  assumes "parse env (cmd # rest) = Inr opts" "\<not> o_help opts"
  obtains st words st' where
    "parse_args env rest \<lparr>ps_opts = initial_options (cmd = ''ps''), ps_host = [], ps_domain = [], ps_seen = []\<rparr> = Inr (st, words)"
    "\<not> o_help (ps_opts st)" "check_sources (ps_opts st) = None" "applyConfig env st = Inr st'"
    "finish_parse env st' words = Inr opts"
proof -
  from assms(1) [unfolded parse_def list.case and_then_Inr_iff] obtain st words where
    loop: "parse_args env rest \<lparr>ps_opts = initial_options (cmd = ''ps''), ps_host = [], ps_domain = [], ps_seen = []\<rparr> = Inr (st, words)"
    and tail: "(if o_help (ps_opts st) then Inr (ps_opts st)
      else case check_sources (ps_opts st) of Some e \<Rightarrow> Inl e
        | None \<Rightarrow> and_then (applyConfig env st) (\<lambda>st. finish_parse env st words)) = Inr opts" by auto
  from tail assms(2) have nohelp: "\<not> o_help (ps_opts st)" by auto
  with tail obtain st' where "check_sources (ps_opts st) = None" "applyConfig env st = Inr st'"
    "finish_parse env st' words = Inr opts" by (auto split: option.splits)
  with loop nohelp that show ?thesis by blast
qed

lemma qualified_user_ok:
  assumes "qualified_user d u = Inr v"
  shows "v \<noteq> [] \<and> \<not> contains_any v breaks"
proof (cases "d = []")
  case True
  with assms show ?thesis by (auto simp: qualified_user_def)
next
  case False
  with assms have "v = d @ CHR 0x5C # u" "\<not> contains_any d domain_bad" "\<not> contains_any u breaks"
    by (simp_all add: qualified_user_def)
  moreover have "set breaks \<subseteq> set domain_bad" by (auto simp: domain_bad_def)
  moreover have "CHR 0x5C \<notin> set breaks" by (simp add: breaks_def)
  ultimately show ?thesis by (auto simp: contains_any_iff)
qed

lemma check_sources_ok:
  assumes "check_sources opts = None"
  shows "\<not> (o_password_stdin opts \<and> o_env_explicit opts)" "o_password_env opts \<noteq> []"
    "o_codepage opts \<in> set codepages" "o_powershell opts \<longrightarrow> o_codepage opts \<in> {[], ''utf-8''}"
  using assms unfolding check_sources_def by (auto split: if_splits)

lemma check_command_same: "check_command env opts = Inr opts' \<Longrightarrow> opts' = opts"
  unfolding check_command_def check_Inr_iff and_then_Inr_iff
  by (elim conjE exE) (simp only: sum.inject)

lemma finish_parse_ok:
  assumes "finish_parse env st words = Inr opts"
  obtains user ep command where "opts = (ps_opts st)\<lparr>o_user := user, o_endpoint := ep, o_command := command\<rparr>"
    "qualified_user (ps_domain st) (o_user (ps_opts st)) = Inr user"
    "\<not> contains_any (o_target (ps_opts st)) ([CHR ''/'', CHR 0x5C, CHR ''@'', CHR '' '', CHR 0x09] @ breaks)"
    "Endpoint (ce_url env) (ps_host st) (o_endpoint (ps_opts st)) = Inr ep"
    "command_text env (ps_opts st) words = Inr command" "check_command env opts = Inr opts"
proof -
  from assms [unfolded finish_parse_def Let_def and_then_Inr_iff check_Inr_iff] obtain user ep command where
    f: "qualified_user (ps_domain st) (o_user (ps_opts st)) = Inr user"
      "\<not> contains_any (o_target (ps_opts st)) ([CHR ''/'', CHR 0x5C, CHR ''@'', CHR '' '', CHR 0x09] @ breaks)"
      "Endpoint (ce_url env) (ps_host st) (o_endpoint (ps_opts st)) = Inr ep"
      "command_text env (ps_opts st) words = Inr command"
      "check_command env ((ps_opts st)\<lparr>o_user := user, o_endpoint := ep, o_command := command\<rparr>) = Inr opts" by blast
  from that [OF check_command_same [OF f(5)] f(1-4)] f(5) check_command_same [OF f(5)] show ?thesis by (simp only:)
qed

lemma parse_ok:
  assumes "parse env args = Inr opts" "\<not> o_help opts"
  shows "well_formed env opts"
proof -
  from assms(1) obtain cmd rest where args: "args = cmd # rest" by (cases args) (auto simp: parse_def)
  from parse_cases [OF assms [unfolded args]] obtain st words st' where
    loop: "parse_args env rest \<lparr>ps_opts = initial_options (cmd = ''ps''), ps_host = [], ps_domain = [], ps_seen = []\<rparr> = Inr (st, words)"
    and src: "check_sources (ps_opts st) = None" and app: "applyConfig env st = Inr st'"
    and fin: "finish_parse env st' words = Inr opts" .
  have "loop_ok (ps_opts st)" using parse_args_ok [OF loop] initial_ok by simp
  with applyConfig_kept [OF app] have ok: "loop_ok (ps_opts st')" and own: "own_options (ps_opts st') = own_options (ps_opts st)"
    by (auto simp: kept_def)
  from finish_parse_ok [OF fin] obtain user ep command where
    opts: "opts = (ps_opts st')\<lparr>o_user := user, o_endpoint := ep, o_command := command\<rparr>"
    and user: "qualified_user (ps_domain st') (o_user (ps_opts st')) = Inr user"
    and target: "\<not> contains_any (o_target (ps_opts st')) ([CHR ''/'', CHR 0x5C, CHR ''@'', CHR '' '', CHR 0x09] @ breaks)"
    and ep: "Endpoint (ce_url env) (ps_host st') (o_endpoint (ps_opts st')) = Inr ep"
    and body: "command_text env (ps_opts st') words = Inr command" and cmd: "check_command env opts = Inr opts" .
  have "o_file opts \<noteq> [] \<longrightarrow> o_powershell opts"
    using body opts by (auto simp: command_text_def)
  moreover have "trim_space (o_command opts) \<noteq> [] \<and> valid_utf8 (o_command opts) \<and> CHR 0x00 \<notin> set (o_command opts) \<and>
      length (o_command opts) \<le> 32768 \<and> is_ok (Command (ce_encode env) (o_command opts) (o_powershell opts))"
    using cmd by (auto simp: check_command_def is_ok_iff)
  moreover have "\<exists>h e. Endpoint (ce_url env) h e = Inr (o_endpoint opts)" using ep opts by auto
  ultimately show ?thesis
    using ok own check_sources_ok [OF src] qualified_user_ok [OF user] target opts
    unfolding well_formed_def by (simp add: own_options_def loop_ok_def)
qed

text \<open>C13: Whatever the arguments, environment, configuration and script file are, a command line that is accepted
  for execution is well formed: the user is non-empty and, like the certificate name, has no line break or NUL, the endpoint is
  one that \<open>Endpoint\<close> has produced, the code page is a known one and UTF-8 for PowerShell, the command
  is not blank, is valid UTF-8 without NUL of at most 32 KiB and fits the Windows command line, the timeout is
  positive, the control mode is \<open>auto\<close> or \<open>off\<close> with an idle time from one second to one hour, exactly one
  password source is selected, and no password has come from an argument.\<close>

theorem parse_wellformed:
  assumes "parse env args = Inr opts" "\<not> o_help opts"
  shows "well_formed env opts"
  using assms by (rule parse_ok)

subsection \<open>Command words\<close>

text \<open>What stands in front of \<open>--\<close> and the system alone determine the options; the words come in at the end.\<close>

lemma parse_behind:
  assumes "''--'' \<notin> set before" "parse env (cmd # before @ ''--'' # words) = Inr opts" "\<not> o_help opts"
  obtains st where "\<And>w. parse env (cmd # before @ ''--'' # w) = finish_parse env st w"
proof -
  let ?st = "\<lparr>ps_opts = initial_options (cmd = ''ps''), ps_host = [], ps_domain = [], ps_seen = []\<rparr>"
  have init: "\<not> o_help (ps_opts ?st)" by (simp add: initial_options_def)
  from parse_cases [OF assms(2,3)] obtain st w st' where
    loop: "parse_args env (before @ ''--'' # words) ?st = Inr (st, w)" and nohelp: "\<not> o_help (ps_opts st)"
    and src: "check_sources (ps_opts st) = None" and app: "applyConfig env st = Inr st'" .
  have "parse_args env (before @ ''--'' # w') ?st = Inr (st, w')" for w'
    using loop nohelp unfolding parse_args_split [OF assms(1) init] by (auto split: sum.splits)
  then have "parse env (cmd # before @ ''--'' # w') = finish_parse env st' w'" for w'
    using nohelp src app by (simp add: parse_def)
  with that show ?thesis by blast
qed

text \<open>The words as the command of the result.\<close>

lemma finish_parse_words:
  assumes "finish_parse env st words = Inr opts" "words \<noteq> []"
  obtains user ep where
    "opts = (ps_opts st)\<lparr>o_user := user, o_endpoint := ep, o_command := str_join words '' ''\<rparr>" "o_file (ps_opts st) = []"
    "qualified_user (ps_domain st) (o_user (ps_opts st)) = Inr user"
    "Endpoint (ce_url env) (ps_host st) (o_endpoint (ps_opts st)) = Inr ep"
proof -
  from finish_parse_ok [OF assms(1)] obtain user ep command where
    f: "opts = (ps_opts st)\<lparr>o_user := user, o_endpoint := ep, o_command := command\<rparr>"
      "qualified_user (ps_domain st) (o_user (ps_opts st)) = Inr user"
      "Endpoint (ce_url env) (ps_host st) (o_endpoint (ps_opts st)) = Inr ep"
    and c: "command_text env (ps_opts st) words = Inr command" .
  from c assms(2) have "o_file (ps_opts st) = []" "command = str_join words '' ''"
    by (auto simp: command_text_def split: if_splits)
  with f that show ?thesis by simp
qed

lemma parse_command_words:
  assumes "''--'' \<notin> set before" "parse env (cmd # before @ ''--'' # words) = Inr opts" "\<not> o_help opts" "words \<noteq> []"
  shows "o_command opts = str_join words '' '' \<and> o_file opts = []"
proof -
  from parse_behind [OF assms(1-3)] assms(2) obtain st where "finish_parse env st words = Inr opts" by metis
  from finish_parse_words [OF this assms(4)] obtain user ep where
    "opts = (ps_opts st)\<lparr>o_user := user, o_endpoint := ep, o_command := str_join words '' ''\<rparr>" "o_file (ps_opts st) = []" .
  then show ?thesis by simp
qed

text \<open>Everything behind the first \<open>--\<close> is the command and nothing else: the command sent is these words joined by
  spaces, whatever they look like, no script file is read then, and with other words behind \<open>--\<close> an accepted command line
  has the same options but for the command.\<close>

theorem parse_words:
  assumes "''--'' \<notin> set before" "words \<noteq> []" "words' \<noteq> []"
    and "parse env (cmd # before @ ''--'' # words) = Inr opts" "\<not> o_help opts"
    and "parse env (cmd # before @ ''--'' # words') = Inr opts'"
  shows "o_command opts = str_join words '' '' \<and> o_file opts = [] \<and>
    opts' = opts\<lparr>o_command := str_join words' '' ''\<rparr>"
proof -
  from parse_behind [OF assms(1,4,5)] obtain st where
    st: "\<And>w. parse env (cmd # before @ ''--'' # w) = finish_parse env st w" by blast
  from finish_parse_words [OF assms(4) [unfolded st] assms(2)] obtain user ep where
    a: "opts = (ps_opts st)\<lparr>o_user := user, o_endpoint := ep, o_command := str_join words '' ''\<rparr>"
      "qualified_user (ps_domain st) (o_user (ps_opts st)) = Inr user"
      "Endpoint (ce_url env) (ps_host st) (o_endpoint (ps_opts st)) = Inr ep" "o_file (ps_opts st) = []" .
  from finish_parse_words [OF assms(6) [unfolded st] assms(3)] a(2,3)
  have "opts' = (ps_opts st)\<lparr>o_user := user, o_endpoint := ep, o_command := str_join words' '' ''\<rparr>"
    by (metis sum.inject(2))
  with a show ?thesis by simp
qed

subsection \<open>Concrete command lines\<close>

definition empty_config :: config_file where
  "empty_config = \<lparr>current = [], hosts = [], creds = [], contexts = [],
     defs = \<lparr>d_auth = [], d_timeout = [], d_master = [], d_persist = [], d_path = []\<rparr>\<rparr>"

text \<open>A system whose only file is a configuration, if there is one.\<close>

definition tiny_cli :: "config_file option \<Rightarrow> cli_env" where
  "tiny_cli c = \<lparr>ce_getenv = \<lambda>n. if n = ''WINRM_PASSWORD'' then ''pw'' else [], ce_lookup = \<lambda>_. None, ce_duration = \<lambda>_. None,
     ce_stat = \<lambda>_. if c = None then Not_exist else Exists, ce_home = None,
     ce_yaml = \<lparr>yaml_decode = \<lambda>_. c, yaml_single = \<lambda>_. True, yaml_mapping = \<lambda>_. True\<rparr>,
     ce_eval = Some, ce_absolute = Some,
     ce_files = \<lambda>_. \<lparr>fa_stat = Inr (True, 0), fa_open = None, fa_fstat = Inr (True, 0), fa_content = [], fa_read = None\<rparr>,
     ce_dotenv = \<lambda>_. None, ce_url = tiny_lib, ce_script = \<lambda>_. (False, [], False), ce_encode = \<lambda>_. ''x''\<rparr>"

lemma tiny_cli_none: "{''--config'', ''--context''} \<inter> set (ps_seen st) = {} \<Longrightarrow> o_config_path (ps_opts st) = [] \<Longrightarrow> o_context (ps_opts st) = [] \<Longrightarrow>
  applyConfig (tiny_cli None) st = Inr st"
  by (simp add: applyConfig_def Let_def Discover_def tiny_cli_def)

definition tls_url :: bytes where "tls_url = ''https://h:5986/wsman''"

lemma tls_url_word [simp]: "tls_url \<noteq> ''--''" "''--'' \<noteq> tls_url" "''--help'' \<noteq> tls_url" "''-h'' \<noteq> tls_url"
  by (simp_all add: tls_url_def)

lemma tls_endpoint: "Endpoint tiny_lib [] tls_url = Inr tls_url"
proof -
  have "atoi ''5986'' = Some 5986" by (simp add: atoi_def has_prefix_def digit_val_def less_eq_char_def)
  moreover from this have p: "port_ok ''5986''" by (simp add: port_ok_def)
  have j: "join_host_port ''h'' ''5986'' = ''h:5986''" by (simp add: join_host_port_def)
  moreover have s: "split_host_port ''h:5986'' = (''h'', ''5986'')"
    using split_join [of "''5986''" "''h''"] by (simp add: has_prefix_def j)
  moreover have w: "wsman_url tiny_lib ''https'' ''h:5986'' = tls_url" by (simp add: wsman_url_def tiny_lib_def tls_url_def)
  moreover have "parse_url tiny_lib tls_url = Some (wsman_parts ''https'' ''h:5986'')"
    using tiny_reads [of "''https''" "''h''" "''5986''"] p unfolding j w by (simp add: has_prefix_def tiny_lib_def)
  ultimately show ?thesis
    using Endpoint_accepts [of tls_url tiny_lib "[]" tls_url "wsman_parts ''https'' ''h:5986''" 5986]
    by (simp add: port_or_default_def tls_url_def)
qed

definition run_opts :: "bool \<Rightarrow> bytes \<Rightarrow> options" where
  "run_opts ps c = (initial_options ps)\<lparr>o_user := ''u'', o_endpoint := tls_url, o_command := c\<rparr>"

lemma run_opts_simps [simp]:
  "o_command (run_opts ps c) = c" "o_powershell (run_opts ps c) = ps" "o_user (run_opts ps c) = ''u''"
  "o_endpoint (run_opts ps c) = tls_url" "\<not> o_help (run_opts ps c)" "o_target (run_opts ps c) = []"
  "\<not> o_timeout_configured (run_opts ps c)" "o_timeout (run_opts ps c) = 60 * second" "o_verbose (run_opts ps c) = 0"
  "o_password_config (run_opts ps c) = None" "\<not> o_password_stdin (run_opts ps c)"
  "o_password_env (run_opts ps c) = ''WINRM_PASSWORD''"
  by (simp_all add: run_opts_def initial_options_def)

lemma tiny_command:
  assumes "c \<in> {''dir'', ''ver'', ''exit 0''}"
  shows "check_command (tiny_cli None) (run_opts ps c) = Inr (run_opts ps c)"
proof -
  have u: "valid_utf8 c \<and> runes c = map byte_val c" using assms ascii_utf8 [of c] by auto
  have t: "trim_space c \<noteq> []" using assms by (auto simp: trim_space_plain ascii_spaces_def)
  have l: "length (utf16_encode (runes c)) \<le> 8000" using u assms by (auto simp: utf16_encode_def utf16_rune.simps)
  have n: "CHR 0x00 \<notin> set c" "length c \<le> 32768" using assms by auto
  have "is_ok (Command (ce_encode (tiny_cli None)) c ps)"
    using u l by (simp add: Command_def PowerShell_def tiny_cli_def Let_def replace_first_def str_cut_def has_prefix_def)
  then show ?thesis unfolding check_command_def run_opts_simps using u t n by (auto simp: is_ok_iff)
qed

lemma tiny_parse:
  assumes "c \<in> {''dir'', ''ver'', ''exit 0''}"
  shows "parse (tiny_cli None) [if ps then ''ps'' else ''run'', ''--endpoint'', tls_url, ''--user'', ''u'', ''--'', c] = Inr (run_opts ps c)"
proof -
  let ?st = "\<lparr>ps_opts = (initial_options ps)\<lparr>o_user := ''u'', o_endpoint := tls_url\<rparr>, ps_host = [], ps_domain = [],
    ps_seen = [''--user'', ''--endpoint'']\<rparr>"
  have a: "parse_args (tiny_cli None) [''--endpoint'', tls_url, ''--user'', ''u'', ''--'', c]
      \<lparr>ps_opts = initial_options ps, ps_host = [], ps_domain = [], ps_seen = []\<rparr> = Inr (?st, [c])"
    by (simp add: parse_args.simps has_prefix_def str_cut_def value_options_def set_option_def Let_def)
  have b: "applyConfig (tiny_cli None) ?st = Inr ?st"
    by (rule tiny_cli_none) (simp_all add: initial_options_def)
  have h: "\<not> o_help (ps_opts ?st)" "check_sources (ps_opts ?st) = None"
    by (simp_all add: check_sources_def initial_options_def codepages_def)
  have "qualified_user [] ''u'' = Inr ''u''" by (simp add: qualified_user_def contains_any_def breaks_def)
  moreover have "Endpoint (ce_url (tiny_cli None)) [] tls_url = Inr tls_url"
    using tls_endpoint by (simp add: tiny_cli_def)
  moreover have "command_text (tiny_cli None) (ps_opts ?st) [c] = Inr c"
    by (simp add: command_text_def initial_options_def)
  moreover have "(ps_opts ?st)\<lparr>o_user := ''u'', o_endpoint := tls_url, o_command := c\<rparr> = run_opts ps c"
    by (simp add: run_opts_def)
  moreover have "o_target (ps_opts ?st) = []" "o_endpoint (ps_opts ?st) = tls_url" "o_user (ps_opts ?st) = ''u''"
    by (simp_all add: initial_options_def)
  ultimately have f: "finish_parse (tiny_cli None) ?st [c] = Inr (run_opts ps c)"
    using tiny_command [OF assms] unfolding finish_parse_def by (simp add: contains_any_def Let_def)
  show ?thesis unfolding parse_def using a b h f by (cases ps) simp_all
qed

theorem parse_wellformed_witness: "well_formed (tiny_cli None) (run_opts True ''dir'')"
  using parse_wellformed [OF tiny_parse] by simp

theorem parse_words_witness: "run_opts False ''ver'' = (run_opts False ''dir'')\<lparr>o_command := ''ver''\<rparr>"
  using parse_words [of "[''--endpoint'', tls_url, ''--user'', ''u'']" "[''dir'']" "[''ver'']" "tiny_cli None" "''run''" "run_opts False ''dir''"
      "run_opts False ''ver''"] tiny_parse [of "''dir''" False] tiny_parse [of "''ver''" False] by simp

text \<open>A configuration with two contexts; the command line names the one that is not current, a user and a configured host.\<close>

definition office_config :: config_file where
  "office_config = empty_config\<lparr>current := ''office'',
     hosts := [(''h'', \<lparr>h_endpoint = ''http://office'', h_target = ''office''\<rparr>), (''g'', \<lparr>h_endpoint = ''http://lab'', h_target = ''lab''\<rparr>)],
     creds := [(''k'', no_credentials\<lparr>cr_user := ''literal:root''\<rparr>), (''l'', no_credentials\<lparr>cr_domain := ''LAB''\<rparr>)],
     contexts := [(''office'', \<lparr>cx_host = ''h'', cx_credentials = ''k''\<rparr>), (''lab'', \<lparr>cx_host = ''g'', cx_credentials = ''l''\<rparr>)]\<rparr>"

lemma office_loaded:
  "cli_load (tiny_cli (Some office_config)) ''winsh.yaml'' = Inr \<lparr>cfg = office_config, cfg_path = ''winsh.yaml'', cfg_raw = []\<rparr>"
  by (simp add: cli_load_def tiny_cli_def Load_def readFile_def bounded_regular_def maxFileSize_def Let_def
      office_config_def empty_config_def contains_any_def)

lemma office_discovered:
  "Discover (ce_stat (tiny_cli (Some office_config))) (ce_home (tiny_cli (Some office_config))) []
     (ce_getenv (tiny_cli (Some office_config))) = Inr ''winsh.yaml''"
  by (simp add: tiny_cli_def Discover_def)

theorem applyConfig_precedence_witness:
  "\<exists>st'. applyConfig (tiny_cli (Some office_config))
       \<lparr>ps_opts = (initial_options False)\<lparr>o_user := ''me'', o_context := ''lab''\<rparr>, ps_host = ''h'', ps_domain = [],
        ps_seen = [''--user'', ''--context'']\<rparr> = Inr st' \<and>
     o_user (ps_opts st') = ''me'' \<and> ps_domain st' = ''LAB'' \<and> o_endpoint (ps_opts st') = ''http://office'' \<and> ps_host st' = []"
proof -
  let ?env = "tiny_cli (Some office_config)"
  let ?st = "\<lparr>ps_opts = (initial_options False)\<lparr>o_user := ''me'', o_context := ''lab''\<rparr>, ps_host = ''h'', ps_domain = [],
    ps_seen = [''--user'', ''--context'']\<rparr>"
  have o: "o_config_path (initial_options False) = []" by (simp add: initial_options_def)
  have "\<exists>st'. applyConfig ?env ?st = Inr st'"
    using office_loaded office_discovered
    by (simp add: applyConfig_def Let_def initial_options_def Select_def office_config_def empty_config_def at_key_def
        apply_selection_def apply_host_def chosen_host_def apply_defaults_def apply_credentials_def no_credentials_def)
  then obtain st' where st': "applyConfig ?env ?st = Inr st'" ..
  from applyConfig_precedence [OF st'] office_discovered o obtain c h k where
    c: "cli_load ?env ''winsh.yaml'' = Inr c" "in_force (cfg c) ''lab'' h k" "target_merged c h ?st st'" "login_merged ?env c k ?st st'" by auto
  from c(1) office_loaded have cfg: "cfg c = office_config" by auto
  from c(2) cfg have k: "k = no_credentials\<lparr>cr_domain := ''LAB''\<rparr>"
    by (simp add: in_force_def office_config_def)
  have "o_user (ps_opts st') = ''me''" using c(4) by (simp add: login_merged_def)
  moreover from this have "ps_domain st' = ''LAB''" using c(4) k by (simp add: login_merged_def contains_any_def)
  moreover have "o_endpoint (ps_opts st') = ''http://office''" "ps_host st' = []"
    using c(3) cfg by (simp_all add: target_merged_def host_in_force_def office_config_def initial_options_def)
  ultimately show ?thesis using st' by blast
qed

end
