(* ===== verification/Transfer_Args.thy ===== *)
theory Transfer_Args
  imports Options_Spec Transfer_Lanes
begin

text \<open>
  Command lines around \<open>parse\<close>: the global options in front of a command (\<open>normalizeGlobals\<close> of
  \<open>internal/cmd/config.go\<close>) and the command line of a transfer (\<open>parseTransfer\<close> of \<open>transfer.go\<close>).
\<close>

subsection \<open>Global options\<close>

definition global_options :: "bytes list" where
  "global_options = [''--config'', ''--context'']"

text \<open>The leading global options, each as one word, and the arguments behind them.\<close>

fun leading_globals :: "bytes list \<Rightarrow> goerr + bytes list \<times> bytes list" where
  "leading_globals [] = Inr ([], [])"
| "leading_globals (a # rest) =
     (case str_cut a ''='' of (name, v, inline) \<Rightarrow>
        if name \<notin> set global_options then Inr ([], a # rest)
        else if inline then
          check (v = []) (Msg ''global option requires a nonempty value'')
            (and_then (leading_globals rest) (\<lambda>(l, r). Inr ((name @ ''='' @ v) # l, r)))
        else case rest of
          [] \<Rightarrow> Inl (Msg ''global option requires a value'')
        | v # rest' \<Rightarrow>
            if v = ''--'' then Inl (Msg ''global option requires a value'')
            else check (v = []) (Msg ''global option requires a nonempty value'')
              (and_then (leading_globals rest') (\<lambda>(l, r). Inr ((name @ ''='' @ v) # l, r))))"

definition normalizeGlobals :: "bytes list \<Rightarrow> goerr + bytes list" where
  "normalizeGlobals args =
     and_then (leading_globals args) (\<lambda>(leading, rest).
       if leading = [] then Inr rest
       else case rest of
         [] \<Rightarrow> Inl (Msg ''expected command after global options'')
       | c # cs \<Rightarrow> Inr (c # leading @ cs))"

text \<open>A global option as it may be written: in one word or in two.\<close>

fun spelled :: "bytes \<times> bytes \<times> bool \<Rightarrow> bytes list" where
  "spelled (name, v, inline) = (if inline then [name @ ''='' @ v] else [name, v])"

fun one_word :: "bytes \<times> bytes \<times> bool \<Rightarrow> bytes" where
  "one_word (name, v, inline) = name @ ''='' @ v"

fun global_ok :: "bytes \<times> bytes \<times> bool \<Rightarrow> bool" where
  "global_ok (name, v, inline) \<longleftrightarrow> name \<in> set global_options \<and> v \<noteq> [] \<and> (\<not> inline \<longrightarrow> v \<noteq> ''--'')"

lemma cut_global:
  assumes "name \<in> set global_options"
  shows "str_cut (name @ CHR ''='' # v) ''='' = (name, v, True)" "str_cut name ''='' = (name, [], False)"
proof -
  have "CHR ''='' \<notin> set name" using assms by (auto simp: global_options_def)
  then show "str_cut (name @ CHR ''='' # v) ''='' = (name, v, True)" "str_cut name ''='' = (name, [], False)"
    using str_cut_first [of "CHR ''=''" name "[]" v] str_cut_absent [of "CHR ''=''" name "[]"] by simp_all
qed

lemma leading_spelled:
  assumes "\<forall>g \<in> set gs. global_ok g" "fst (str_cut c ''='') \<notin> set global_options"
  shows "leading_globals (concat (map spelled gs) @ c # rest) = Inr (map one_word gs, c # rest)"
  using assms(1)
proof (induction gs)
  case Nil
  obtain n v i where "str_cut c ''='' = (n, v, i)" by (cases "str_cut c ''=''") auto
  with assms(2) show ?case by simp
next
  case (Cons g gs)
  obtain name v inline where g: "g = (name, v, inline)" by (cases g) auto
  with Cons show ?case by (cases inline) (simp_all add: cut_global)
qed

text \<open>Global options in front of a command mean the same however they are written: each becomes one word
  \<open>name=value\<close> directly behind the command, in the order given, and the command and everything behind it stay as they
  are; the result is normal, so normalising it again changes nothing.\<close>

theorem normalizeGlobals_spelling:
  assumes "\<forall>g \<in> set gs. global_ok g" "fst (str_cut c ''='') \<notin> set global_options"
  shows "normalizeGlobals (concat (map spelled gs) @ c # rest) = Inr (c # map one_word gs @ rest) \<and>
    normalizeGlobals (c # map one_word gs @ rest) = Inr (c # map one_word gs @ rest)"
proof -
  have "normalizeGlobals (c # xs) = Inr (c # xs)" for xs
    using leading_spelled [of "[]" c xs] assms(2) by (simp add: normalizeGlobals_def)
  moreover have "normalizeGlobals (concat (map spelled gs) @ c # rest) = Inr (c # map one_word gs @ rest)"
    using leading_spelled [OF assms] by (cases gs) (simp_all add: normalizeGlobals_def)
  ultimately show ?thesis by simp
qed

theorem normalizeGlobals_spelling_witness:
  "normalizeGlobals [''--config'', ''a.yaml'', ''--context=lab'', ''run'', ''--'', ''--config=x''] =
     Inr [''run'', ''--config=a.yaml'', ''--context=lab'', ''--'', ''--config=x'']"
  using normalizeGlobals_spelling [of "[(''--config'', ''a.yaml'', False), (''--context'', ''lab'', True)]" "''run''" "[''--'', ''--config=x'']"]
  by (simp add: global_options_def str_cut_def has_prefix_def)

subsection \<open>Transfers\<close>

definition zero_options :: options where
  "zero_options = \<lparr>o_endpoint = [], o_target = [], o_user = [], o_password = [], o_command = [],
     o_codepage = [], o_powershell = False, o_password_env = [], o_file = [], o_password_stdin = False,
     o_env_explicit = False, o_help = False, o_timeout = 0, o_verbose = 0, o_config_path = [], o_context = [],
     o_reference = [], o_password_config = None, o_credentials = no_credentials,
     o_control = \<lparr>set_mode = [], set_path = [], set_persist = 0\<rparr>, o_timeout_configured = False\<rparr>"

definition no_request :: transfer_request where
  "no_request = \<lparr>tr_endpoint = [], tr_direction = [], tr_local = [], tr_remote = [], tr_force = False\<rparr>"

definition not_for_transfer :: "bytes list" where
  "not_for_transfer = [''-f'', ''--codepage'', ''--control'', ''--control-persist'', ''--control-path'']"

text \<open>The loop over the arguments in front of \<open>--\<close>: what is left for \<open>parse\<close>, and \<open>--force\<close>.\<close>

fun take_force :: "bytes list \<Rightarrow> bool \<Rightarrow> goerr + bytes list \<times> bool" where
  "take_force [] force = Inr ([], force)"
| "take_force (a # rest) force =
     (case str_cut a ''='' of (name, _, _) \<Rightarrow>
        check (name \<in> set not_for_transfer) (Msg ''option does not apply to file transfer'') (
        if name = ''--force'' then
          check (a \<noteq> ''--force'' \<or> force) (Msg ''duplicate or invalid --force'') (take_force rest True)
        else and_then (take_force rest force) (\<lambda>(words, f). Inr (a # words, f))))"

definition transfer_paths :: "bytes \<Rightarrow> bytes \<Rightarrow> bytes \<Rightarrow> bytes \<times> bytes" where
  "transfer_paths direction a b = (if direction = Upload_direction then (a, b) else (b, a))"

definition parseTransfer :: "cli_env \<Rightarrow> bytes list \<Rightarrow> goerr + options \<times> transfer_request" where
  "parseTransfer env args =
     (case args of
        [] \<Rightarrow> Inl (Msg ''expected upload or download'')
      | direction # rest \<Rightarrow>
          let before = takeWhile (\<lambda>a. a \<noteq> ''--'') rest in
          check (direction \<noteq> Upload_direction \<and> direction \<noteq> Download_direction) (Msg ''expected upload or download'') (
          if ''--help'' \<in> set before \<or> ''-h'' \<in> set before then Inr (zero_options\<lparr>o_help := True\<rparr>, no_request)
          else check (''--'' \<notin> set rest) (Msg ''transfer requires -- and two paths'') (
          case drop (length before + 1) rest of
            [a, b] \<Rightarrow>
              and_then (take_force before False) (\<lambda>(words, force).
              and_then (parse env (''ps'' # words @ [''--'', ''exit 0''])) (\<lambda>opts.
              let opts = (if o_timeout_configured opts then opts else opts\<lparr>o_timeout := 1800 * second\<rparr>) in
              case transfer_paths direction a b of (l, r) \<Rightarrow>
              check (l = [] \<or> r = [] \<or> l = ''-'' \<or> r = ''-'')
                (Msg ''transfer requires two file paths; stdin/stdout paths are unsupported'')
                (Inr (opts, \<lparr>tr_endpoint = o_endpoint opts, tr_direction = direction, tr_local = l, tr_remote = r,
                   tr_force = force\<rparr>))))
          | _ \<Rightarrow> Inl (Msg ''transfer requires exactly two paths after --''))))"

lemma take_force_ok:
  "take_force args f = Inr (words, f') \<Longrightarrow> (f' \<longleftrightarrow> f \<or> ''--force'' \<in> set args) \<and> words = removeAll ''--force'' args"
proof (induction args f arbitrary: words f' rule: take_force.induct)
  case (2 a rest force)
  obtain name v i where cut: "str_cut a ''='' = (name, v, i)" by (cases "str_cut a ''=''") auto
  have f: "str_cut ''--force'' ''='' = (''--force'', [], False)" by (simp add: str_cut_def has_prefix_def)
  show ?case
  proof (cases "name = ''--force''")
    case True
    with 2 cut show ?thesis by auto
  next
    case False
    with cut f have "a \<noteq> ''--force''" by auto
    with 2 cut False show ?thesis by auto
  qed
qed simp

lemma parseTransfer_ok:
  assumes "parseTransfer env args = Inr (opts, req)" "\<not> o_help opts"
  shows "\<exists>before a b. args = tr_direction req # before @ [''--'', a, b] \<and> ''--'' \<notin> set before \<and>
    (if tr_direction req = ''upload'' then tr_local req = a \<and> tr_remote req = b
     else tr_direction req = ''download'' \<and> tr_remote req = a \<and> tr_local req = b) \<and>
    {a, b} \<inter> {[], ''-''} = {} \<and> (tr_force req \<longleftrightarrow> ''--force'' \<in> set before) \<and>
    well_formed env opts \<and> o_command opts = ''exit 0'' \<and> o_file opts = [] \<and> tr_endpoint req = o_endpoint opts \<and>
    (\<not> o_timeout_configured opts \<longrightarrow> o_timeout opts = 1800 * second)"
proof -
  from assms obtain direction rest where args: "args = direction # rest" by (cases args) (auto simp: parseTransfer_def)
  let ?before = "takeWhile (\<lambda>a. a \<noteq> ''--'') rest"
  have nohelp: "\<not> (''--help'' \<in> set ?before \<or> ''-h'' \<in> set ?before)"
    using assms unfolding args parseTransfer_def list.case Let_def by (auto split: if_splits)
  from assms(1) obtain a b where two: "drop (length ?before + 1) rest = [a, b]" and sep: "''--'' \<in> set rest"
    and dir: "direction = ''upload'' \<or> direction = ''download''"
    using nohelp unfolding args parseTransfer_def list.case Let_def
    by (auto simp: Upload_direction_def Download_direction_def split: list.splits)
  obtain l r where paths: "transfer_paths direction a b = (l, r)" by (cases "transfer_paths direction a b") auto
  from assms(1) two nohelp paths obtain words force o1 where
    force: "take_force ?before False = Inr (words, force)"
    and parsed: "parse env (''ps'' # words @ [''--'', ''exit 0'']) = Inr o1"
    and opts: "opts = (if o_timeout_configured o1 then o1 else o1\<lparr>o_timeout := 1800 * second\<rparr>)"
    and lr: "l \<noteq> [] \<and> r \<noteq> [] \<and> l \<noteq> ''-'' \<and> r \<noteq> ''-''"
      "req = \<lparr>tr_endpoint = o_endpoint opts, tr_direction = direction, tr_local = l, tr_remote = r, tr_force = force\<rparr>"
    unfolding args parseTransfer_def list.case Let_def by auto
  have "rest = ?before @ dropWhile (\<lambda>a. a \<noteq> ''--'') rest" by simp
  moreover have "dropWhile (\<lambda>a. a \<noteq> ''--'') rest = ''--'' # drop (length ?before + 1) rest"
    using sep by (induction rest) auto
  ultimately have rest: "rest = ?before @ [''--'', a, b]" using two by simp
  have nosep: "''--'' \<notin> set ?before" by (auto dest: set_takeWhileD)
  have o1: "\<not> o_help o1" using assms(2) opts by (auto split: if_splits)
  from parse_ok [OF parsed o1] have "well_formed env opts"
    using opts by (auto simp: well_formed_def second_def)
  moreover have "o_command opts = ''exit 0'' \<and> o_file opts = []"
    using parse_command_words [OF _ parsed o1] take_force_ok [OF force] nosep opts by auto
  moreover have "o_timeout_configured opts = o_timeout_configured o1" using opts by simp
  ultimately show ?thesis
    using rest nosep dir lr paths take_force_ok [OF force] opts args
    by (intro exI [of _ ?before] exI [of _ a] exI [of _ b])
      (auto simp: transfer_paths_def Upload_direction_def split: if_splits)
qed

text \<open>C22: An accepted transfer has exactly two operands behind \<open>--\<close>, taken literally in the order of the
  direction, neither empty nor standard input or output; it overwrites exactly if \<open>--force\<close> was given in front of
  \<open>--\<close>, its connection is a well-formed one to an accepted endpoint, it runs nothing of the user's, and without
  a configured timeout it has thirty minutes.\<close>

theorem parseTransfer_operands:
  assumes "parseTransfer env args = Inr (opts, req)" "\<not> o_help opts"
  shows "\<exists>before a b. args = tr_direction req # before @ [''--'', a, b] \<and> ''--'' \<notin> set before \<and>
    (if tr_direction req = ''upload'' then tr_local req = a \<and> tr_remote req = b
     else tr_direction req = ''download'' \<and> tr_remote req = a \<and> tr_local req = b) \<and>
    {a, b} \<inter> {[], ''-''} = {} \<and> (tr_force req \<longleftrightarrow> ''--force'' \<in> set before) \<and>
    well_formed env opts \<and> o_command opts = ''exit 0'' \<and> o_file opts = [] \<and> tr_endpoint req = o_endpoint opts \<and>
    (\<not> o_timeout_configured opts \<longrightarrow> o_timeout opts = 1800 * second)"
  using assms by (rule parseTransfer_ok)

lemma tiny_transfer:
  "parseTransfer (tiny_cli None) [''upload'', ''--endpoint'', tls_url, ''--user'', ''u'', ''--force'', ''--'', ''a.txt'', ''b.txt''] =
     Inr ((run_opts True ''exit 0'')\<lparr>o_timeout := 1800 * second\<rparr>,
       \<lparr>tr_endpoint = tls_url, tr_direction = ''upload'', tr_local = ''a.txt'', tr_remote = ''b.txt'', tr_force = True\<rparr>)"
proof -
  have f: "take_force [''--endpoint'', tls_url, ''--user'', ''u'', ''--force''] False = Inr ([''--endpoint'', tls_url, ''--user'', ''u''], True)"
    by (simp add: tls_url_def str_cut_def has_prefix_def not_for_transfer_def)
  show ?thesis
    using tiny_parse [of "''exit 0''" True] f
    by (simp add: parseTransfer_def Let_def Upload_direction_def Download_direction_def transfer_paths_def del: take_force.simps)
qed

theorem parseTransfer_operands_witness:
  "well_formed (tiny_cli None) ((run_opts True ''exit 0'')\<lparr>o_timeout := 1800 * second\<rparr>)"
  using parseTransfer_operands [OF tiny_transfer] by simp

end
