(* ===== verification/Cli_Run.thy ===== *)
theory Cli_Run
  imports Transfer_Args
begin

text \<open>
  From a command line to an exit status (\<open>Run\<close>, \<open>resolvePassword\<close> and \<open>redact\<close> of \<open>internal/cmd/cmd.go\<close>,
  \<open>control.go\<close>, \<open>runTransfer\<close> of \<open>transfer.go\<close>, \<open>runConfig\<close> of \<open>config.go\<close>).  The functions of \<open>Deps\<close>
  that execute a command, transfer a file or talk to a master are parameters, as are \<open>err.Error()\<close>, the
  printing of durations and of quoted strings, and the ends of the contexts.  What the executed command itself
  prints is not part of the output here.
\<close>

subsection \<open>The environment of a run\<close>

record password_input =
  pi_early :: "ctx_err option"
  pi_ended :: "ctx_err option"
  pi_content :: bytes
  pi_error :: "goerr option"

text \<open>\<open>re_ended\<close> and \<open>re_after\<close> are \<open>ctx.Err()\<close> after the password has been read and at the end.\<close>

record deps =
  re_text :: "goerr \<Rightarrow> bytes"
  re_duration :: "int \<Rightarrow> bytes"
  re_quote :: "bytes \<Rightarrow> bytes"
  re_version :: bytes
  re_input :: password_input
  re_ended :: "ctx_err option"
  re_after :: "ctx_err option"
  re_execute :: "options \<Rightarrow> int \<times> goerr option"
  re_transfer :: "(options \<Rightarrow> transfer_request \<Rightarrow> transfer_result \<times> goerr option \<times> (int \<times> int) list) option"
  re_deadline :: "int option"
  re_start :: "identity \<Rightarrow> settings \<Rightarrow> goerr + bootstrap \<Rightarrow> goerr + bytes"
  re_invoke :: "bytes \<Rightarrow> call \<Rightarrow> control_result \<times> goerr option"
  re_check :: "bytes \<Rightarrow> identity \<Rightarrow> int \<Rightarrow> bool \<times> goerr option"
  re_exit :: "bytes \<Rightarrow> identity \<Rightarrow> int \<Rightarrow> goerr option"
  re_digests :: digests
  re_naming :: naming
  re_cwd :: "bytes \<Rightarrow> bytes option"
  re_home :: "bytes option"
  re_render :: "config_file \<Rightarrow> bytes option"
  re_update :: update_env
  re_stdout :: "goerr option"

text \<open>One write to the standard output or to the standard error stream.\<close>

datatype written = Out bytes | Err bytes

definition println :: "bytes list \<Rightarrow> bytes" where
  "println ws = str_join ws '' '' @ [CHR 0x0A]"

definition complain :: "bytes list \<Rightarrow> written" where
  "complain ws = Err (println (''winsh:'' # ws))"

definition decimal :: "int \<Rightarrow> bytes" where
  "decimal n = (if n < 0 then ''-'' @ dec (nat (- n)) else dec (nat n))"

definition usage :: bytes where
  "usage = concat (map (\<lambda>l. l @ [CHR 0x0A]) [
     ''winsh '' @ [CHR 0xE2] @ [CHR 0x80] @ [CHR 0x94] @ '' noninteractive Windows command execution over WinRM'',
     [],
     ''Usage:'',
     ''  winsh run <host> [options] -- <cmd shell text ...>'',
     ''  winsh ps  <host> [options] -- <PowerShell script ...>'',
     ''  winsh ps  <host> [options] -f script.ps1'',
     ''  winsh upload [host] [options] [--force] -- LOCAL_FILE REMOTE_FILE'',
     ''  winsh download [host] [options] [--force] -- REMOTE_FILE LOCAL_FILE'',
     ''  winsh control check [host] [options]'',
     ''  winsh control exit  [host] [options]'',
     ''  winsh [--config PATH] config get-contexts|current-context|view'',
     ''  winsh [--config PATH] config use-context NAME'',
     [],
     ''Host and credentials may be supplied by the selected configuration context.'',
     [],
     ''Options:'',
     ''  --config PATH          YAML config (or WINSH_CONFIG)'',
     ''  --context NAME         Override current_context'',
     ''  --endpoint URL         HTTP(S) /wsman URL; replaces host network address'',
     ''  --user USER            DOMAIN'' @ [CHR 0x5C] @ ''user, user@domain or local user'',
     ''  --domain DOMAIN        Domain for an unqualified user'',
     ''  --auth ntlm            Only NTLM is supported in v0.1'',
     ''  --password-env NAME    Password variable name (default WINRM_PASSWORD)'',
     ''  --password-stdin       Read password from first stdin line; no prompt'',
     ''  --target-host NAME     TLS certificate name when using a tunnel'',
     ''  --timeout DURATION    Overall timeout (run/ps 60s; transfers 30m)'',
     ''  --control=auto|off   Reuse command NTLM connections (run/ps; default off)'',
     ''  --control-persist DURATION  Master idle lifetime (default 5m; 1s to 1h)'',
     ''  --control-path PATH  Explicit private Unix socket path'',
     ''  --force               Replace an existing transfer destination'',
     ''  --codepage CODEPAGE    run encoding: raw/utf-8 (default WinRS UTF-8), 866 or 1251'',
     ''  -v, -vv                Session diagnostics on stderr (no wire dump)'',
     ''  --help, --version'',
     [],
     ''Quote complete remote commands to preserve Windows quoting. Everything after'',
     ''-- is command text, including --help and -v. Remote stdin is not forwarded.'',
     ''For upload/download, exactly two literal file paths follow --. The destination'',
     ''parent must already exist. A transfer completes only after SHA-256 verification.'',
     ''HTTP uses NTLM message encryption. HTTPS verifies the server certificate.'',
     ''Control mode runs on Linux/macOS, opens a new remote Shell per command, and'',
     ''reads the password only when starting a master. Control check/exit do not'',
     ''read a password. A master belongs to the same local user and target identity.''])"

subsection \<open>Status, password, redaction\<close>

definition statusForContext :: "goerr \<Rightarrow> int" where
  "statusForContext e =
     (if errors_is e CtxDeadlineExceeded then 203 else if errors_is e CtxCanceled then 204 else 202)"

definition resolvePassword :: "cli_env \<Rightarrow> password_input \<Rightarrow> options \<Rightarrow> goerr + bytes" where
  "resolvePassword env i opts =
     (case o_password_config opts of
        Some c \<Rightarrow>
          (case config_Resolve (ce_files env) (ce_dotenv env) c (o_reference opts) (o_credentials opts) (ce_lookup env) of
             Inl e \<Rightarrow> Inl (Wrap ''configured password'' e)
           | Inr p \<Rightarrow> Inr p)
      | None \<Rightarrow>
          ReadContext (pi_early i) (pi_ended i) (o_password_env opts) (o_password_stdin opts) (pi_content i) (pi_error i)
            (ce_getenv env))"

definition redact :: "bytes \<Rightarrow> bytes \<Rightarrow> bytes" where
  "redact message password = (if password = [] then message else replace_all message password redacted)"

subsection \<open>run and ps without a master\<close>

definition command_status :: "goerr \<Rightarrow> ctx_err option \<Rightarrow> int" where
  "command_status e after =
     (if errors_is e CtxDeadlineExceeded \<or> after = Some Deadline then 203
      else if errors_is e CtxCanceled \<or> after = Some Canceled then 204 else 202)"

definition run_direct :: "cli_env \<Rightarrow> deps \<Rightarrow> options \<Rightarrow> int \<times> written list" where
  "run_direct env x opts =
     (case re_ended x of
        Some e \<Rightarrow> (statusForContext (ctx_goerr e), [complain [re_text x (ctx_goerr e)]])
      | None \<Rightarrow>
          (case resolvePassword env (re_input x) opts of
             Inl e \<Rightarrow> (201, [complain [re_text x e]])
           | Inr p \<Rightarrow>
               let start = (if o_verbose opts > 0
                            then [complain [''starting NTLM session; timeout'', re_duration x (o_timeout opts)]] else []) in
               case re_execute x (opts\<lparr>o_password := p\<rparr>) of
                 (rc, None) \<Rightarrow> (rc, start)
               | (_, Some e) \<Rightarrow> (command_status e (re_after x), start @ [complain [redact (re_text x e) p]])))"

subsection \<open>Control commands\<close>

definition controlIdentity :: "cli_env \<Rightarrow> deps \<Rightarrow> options \<Rightarrow> identity" where
  "controlIdentity env x opts =
     \<lparr>id_endpoint = o_endpoint opts, id_user = o_user opts, id_host = o_target opts,
      id_trust = TrustKey (re_digests x) (re_cwd x) (ce_getenv env)\<rparr>"

definition controlFailure :: "deps \<Rightarrow> goerr \<Rightarrow> int \<times> written list" where
  "controlFailure x e =
     (let unknown = as_category e = Some CategoryRemoteStateUnknown in
      case re_after x of
        Some c \<Rightarrow>
          (statusForContext (ctx_goerr c),
           [complain (re_text x (ctx_goerr c) # (if unknown then [''(remote-state-unknown)''] else []))])
      | None \<Rightarrow>
          (case as_password e of
             Some inner \<Rightarrow> (201, [complain [re_text x inner]])
           | None \<Rightarrow>
               let ended = errors_is e CtxCanceled \<or> errors_is e CtxDeadlineExceeded in
               (case as_category e of
                  Some c \<Rightarrow>
                    if unknown \<and> ended then
                      let cause = (if errors_is e CtxDeadlineExceeded then Deadline else Canceled) in
                      (statusForContext e, [complain [re_text x (ctx_goerr cause), ''(remote-state-unknown)'']])
                    else
                      (if c = CategoryTimeout then 203 else if c = CategoryCanceled then 204 else 202,
                       [complain [re_text x (CategoryErr c)]])
                | None \<Rightarrow>
                    if ended then (statusForContext e, [complain [re_text x e]])
                    else (202, [complain [''control master unavailable'']]))))"

text \<open>The password is resolved only when \<open>StartOrConnect\<close> asks for it; the identity, socket and idle time are filled
  in there.\<close>

definition control_boot :: "cli_env \<Rightarrow> deps \<Rightarrow> options \<Rightarrow> goerr + bootstrap" where
  "control_boot env x opts =
     (case resolvePassword env (re_input x) opts of
        Inl e \<Rightarrow> Inl (ControlPassword e)
      | Inr p \<Rightarrow>
          let i = controlIdentity env x opts in
          Inr \<lparr>boot_endpoint = id_endpoint i, boot_user = id_user i, boot_password = p, boot_host = id_host i,
            boot_timeout = o_timeout opts,
            boot_identity = \<lparr>id_endpoint = [], id_user = [], id_host = [], id_trust = []\<rparr>, boot_socket = [],
            boot_persist = 0\<rparr>)"

definition control_call :: "cli_env \<Rightarrow> deps \<Rightarrow> options \<Rightarrow> int \<Rightarrow> call" where
  "control_call env x opts deadline =
     \<lparr>call_identity = controlIdentity env x opts, call_command = o_command opts, call_powershell = o_powershell opts,
      call_codepage = o_codepage opts, call_deadline = Some deadline, call_persist = set_persist (o_control opts)\<rparr>"

definition runControlled :: "cli_env \<Rightarrow> deps \<Rightarrow> options \<Rightarrow> int \<times> written list" where
  "runControlled env x opts =
     (case re_start x (controlIdentity env x opts) (o_control opts) (control_boot env x opts) of
        Inl e \<Rightarrow> controlFailure x e
      | Inr socket \<Rightarrow>
          (case re_deadline x of
             None \<Rightarrow> controlFailure x (Msg ''missing command deadline'')
           | Some d \<Rightarrow>
               (case re_invoke x socket (control_call env x opts d) of
                  (_, Some e) \<Rightarrow> controlFailure x e
                | (r, None) \<Rightarrow>
                    if Category r \<noteq> [] then controlFailure x (CategoryErr (Category r)) else (ExitCode r, []))))"

text \<open>The global options in front of \<open>check\<close> or \<open>exit\<close>.\<close>

fun control_globals :: "bytes list \<Rightarrow> goerr + bytes list \<times> bytes list" where
  "control_globals [] = Inr ([], [])"
| "control_globals (a # rest) =
     (case str_cut a ''='' of (name, _, inline) \<Rightarrow>
        if name \<notin> set global_options then Inr ([], a # rest)
        else if inline then and_then (control_globals rest) (\<lambda>(g, r). Inr (a # g, r))
        else case rest of
          [] \<Rightarrow> Inl (Msg ''global option requires a value'')
        | v # rest' \<Rightarrow> and_then (control_globals rest') (\<lambda>(g, r). Inr (a # v # g, r)))"

definition control_word_bad :: "bytes \<Rightarrow> bool" where
  "control_word_bad a \<longleftrightarrow> a = ''--'' \<or> fst (str_cut a ''='') \<in> {''-f'', ''--codepage''}"

definition runControl :: "cli_env \<Rightarrow> deps \<Rightarrow> bytes list \<Rightarrow> int \<times> written list" where
  "runControl env x args =
     (if args = [''--help''] \<or> args = [''-h''] then (0, [Out usage])
      else case control_globals args of
        Inl _ \<Rightarrow> (201, [complain [''global option requires a value'']])
      | Inr (globals, args) \<Rightarrow>
          if args = [] \<or> (hd args \<noteq> ''check'' \<and> hd args \<noteq> ''exit'')
          then (201, [complain [''expected control check or exit'']])
          else if list_ex control_word_bad (tl args)
          then (201, [complain [''control check/exit accepts target options only'']])
          else case parse env (''run'' # globals @ tl args @ [''--'', ''exit 0'']) of
            Inl e \<Rightarrow> (201, [complain [re_text x e]])
          | Inr opts \<Rightarrow>
              if o_help opts then (0, [Out usage])
              else
                let i = controlIdentity env x opts in
                case socketPath (re_digests x) (re_naming x) (re_home x) i (o_control opts) of
                  Inl _ \<Rightarrow> (201, [complain [''invalid control socket path'']])
                | Inr socket \<Rightarrow>
                    if hd args = ''check'' then
                      (case re_check x socket i (set_persist (o_control opts)) of
                         (_, Some e) \<Rightarrow> controlFailure x e
                       | (False, None) \<Rightarrow> (202, [Out (println [''control master is not running''])])
                       | (True, None) \<Rightarrow> (0, [Out (println [''control master is running''])]))
                    else
                      (case re_exit x socket i (set_persist (o_control opts)) of
                         Some e \<Rightarrow> controlFailure x e
                       | None \<Rightarrow> (0, [Out (println [''control master stopped''])])))"

subsection \<open>Transfers\<close>

text \<open>The progress lines: at most one a second; \<open>latest\<close> is the time of the latest one.\<close>

fun progress :: "bytes \<Rightarrow> int option \<Rightarrow> (int \<times> int) list \<Rightarrow> written list" where
  "progress direction latest [] = []"
| "progress direction latest ((now, n) # calls) =
     (if (case latest of None \<Rightarrow> True | Some t \<Rightarrow> now - t \<ge> second)
      then complain [direction @ '':'', decimal n, ''bytes''] # progress direction (Some now) calls
      else progress direction latest calls)"

text \<open>The status, and whether it is that of a remote command.\<close>

definition transfer_status :: "goerr \<Rightarrow> ctx_err option \<Rightarrow> int \<times> bool" where
  "transfer_status e after =
     (if errors_is e CtxDeadlineExceeded \<or> after = Some Deadline then (203, False)
      else if errors_is e CtxCanceled \<or> after = Some Canceled then (204, False)
      else if is_transfer_input e then (201, False)
      else case as_remote_exit e of Some c \<Rightarrow> (int c, True) | None \<Rightarrow> (202, False))"

definition transfer_message :: "goerr \<Rightarrow> bool \<Rightarrow> int \<Rightarrow> bool \<Rightarrow> bytes" where
  "transfer_message e done code remote =
     (if is_finalization_unknown e then ''finalization outcome unknown; inspect destination before retrying''
      else if done then ''transfer committed but cleanup failed''
      else if code = 203 then ''transfer timeout''
      else if code = 204 then ''transfer canceled''
      else if remote then ''remote command exited with nonzero status''
      else if code = 201 then ''invalid transfer input''
      else ''transfer failed'')"

definition transfer_end ::
  "deps \<Rightarrow> bytes \<Rightarrow> transfer_request \<Rightarrow> transfer_result \<Rightarrow> goerr option \<Rightarrow> int \<times> written list" where
  "transfer_end x password req result err =
     (let err = (if err = None \<and> \<not> committed result then Some (Msg ''transfer was not committed'') else err) in
      case err of
        None \<Rightarrow>
          (0, [complain [tr_direction req @ '':'', decimal (t_bytes result), ''bytes total''],
               Out (println [tr_direction req, decimal (t_bytes result), ''bytes SHA-256'', t_sha result])])
      | Some e \<Rightarrow>
          (case transfer_status e (re_after x) of (code, remote) \<Rightarrow>
             (code, complain [transfer_message e (committed result) code remote] #
                map (\<lambda>a. complain [''artifact'', re_quote x (redact a password)]) (artifacts result))))"

definition runTransfer :: "cli_env \<Rightarrow> deps \<Rightarrow> bytes list \<Rightarrow> int \<times> written list" where
  "runTransfer env x args =
     (case parseTransfer env args of
        Inl e \<Rightarrow> (201, [complain [re_text x e]])
      | Inr (opts, req) \<Rightarrow>
          if o_help opts then (0, [Out usage])
          else if re_ended x \<noteq> None then (204, [complain [''canceled while reading password'']])
          else case resolvePassword env (re_input x) opts of
            Inl _ \<Rightarrow> (201, [complain [''cannot read password'']])
          | Inr p \<Rightarrow>
              let start = (if o_verbose opts > 0
                           then [complain [''starting NTLM file transfer; timeout'', re_duration x (o_timeout opts)]] else []) in
              case re_transfer x of
                None \<Rightarrow> (202, start @ [complain [''transfer unavailable'']])
              | Some transfer \<Rightarrow>
                  (case transfer (opts\<lparr>o_password := p\<rparr>) req of (result, err, calls) \<Rightarrow>
                   case transfer_end x p req result err of (code, out) \<Rightarrow>
                     (code, start @ progress (tr_direction req) None calls @ out)))"

subsection \<open>config\<close>

fun config_args :: "bytes list \<Rightarrow> bool \<Rightarrow> bytes \<Rightarrow> bytes list \<Rightarrow> goerr + bytes \<times> bytes list" where
  "config_args [] seen path positional = Inr (path, positional)"
| "config_args (a # rest) seen path positional =
     (case str_cut a ''='' of (name, v, inline) \<Rightarrow>
        if name = ''--config'' then
          check seen (Msg ''duplicate --config'') (
          if inline then
            check (v = []) (Msg ''--config requires a nonempty value'') (config_args rest True v positional)
          else case rest of
            [] \<Rightarrow> Inl (Msg ''--config requires a value'')
          | v # rest' \<Rightarrow>
              check (v = []) (Msg ''--config requires a nonempty value'') (config_args rest' True v positional))
        else config_args rest seen path (positional @ [a]))"

definition config_command :: "bytes list \<Rightarrow> goerr + bytes" where
  "config_command positional =
     (case positional of
        [] \<Rightarrow> Inl (Msg ''expected config get-contexts, current-context, use-context or view'')
      | command # _ \<Rightarrow>
          check (length positional \<noteq> (if command = ''use-context'' then 2 else 1)) (Msg ''unexpected config arguments'') (
          check (command \<notin> {''get-contexts'', ''current-context'', ''use-context'', ''view''}) (Msg ''unknown config command'')
            (Inr command)))"

definition tab :: bytes where "tab = [CHR 0x09]"

definition context_table :: "config_file \<Rightarrow> written list" where
  "context_table c =
     Out (println [str_join [''CURRENT'', ''NAME'', ''HOST'', ''CREDENTIALS''] tab]) #
     map (\<lambda>name. let cx = the (map_of (contexts c) name) in
            Out (println [str_join [if name = current c then ''*'' else [], name, cx_host cx, cx_credentials cx] tab]))
       (sort (map fst (contexts c)))"

text \<open>The commands on a loaded configuration.\<close>

definition config_action ::
  "deps \<Rightarrow> config \<Rightarrow> bytes \<Rightarrow> bytes list \<Rightarrow> file_system \<Rightarrow> (goerr + written list) \<times> file_system" where
  "config_action x c command positional fs =
     (if command = ''view'' then
        (case View (re_render x) c of
           Inl e \<Rightarrow> (Inl e, fs)
         | Inr data \<Rightarrow> (case re_stdout x of Some e \<Rightarrow> (Inl e, fs) | None \<Rightarrow> (Inr [Out data], fs)))
      else if command = ''current-context'' then
        (check (current (cfg c) = []) (Msg ''current_context is not set'') (Inr [Out (println [current (cfg c)])]), fs)
      else if command = ''get-contexts'' then (Inr (context_table (cfg c)), fs)
      else
        (case UseContext (re_update x) c (positional ! 1) fs of
           (Some e, _, fs) \<Rightarrow> (Inl e, fs)
         | (None, _, fs) \<Rightarrow> (Inr [Out (println [''Current context updated.''])], fs)))"

definition runConfig :: "cli_env \<Rightarrow> deps \<Rightarrow> bytes list \<Rightarrow> file_system \<Rightarrow> (int \<times> written list) \<times> file_system" where
  "runConfig env x args fs =
     (let fail = (\<lambda>e. (201, [complain [re_text x e]])) in
      case and_then (config_args args False [] []) (\<lambda>(path, positional).
           and_then (config_command positional) (\<lambda>command.
           and_then (Discover (ce_stat env) (ce_home env) path (ce_getenv env)) (\<lambda>path.
           check (path = []) (Msg ''no configuration file found'') (
           and_then (cli_load env path) (\<lambda>c. Inr (c, command, positional)))))) of
        Inl e \<Rightarrow> (fail e, fs)
      | Inr (c, command, positional) \<Rightarrow>
          (case config_action x c command positional fs of
             (Inl e, fs) \<Rightarrow> (fail e, fs)
           | (Inr out, fs) \<Rightarrow> ((0, out), fs)))"

subsection \<open>Run\<close>

definition run_command :: "cli_env \<Rightarrow> deps \<Rightarrow> bytes list \<Rightarrow> int \<times> written list" where
  "run_command env x args =
     (case parse env args of
        Inl e \<Rightarrow> (201, [complain [re_text x e]])
      | Inr opts \<Rightarrow>
          if o_help opts then (0, [Out usage])
          else if set_mode (o_control opts) = ''auto'' then runControlled env x opts
          else run_direct env x opts)"

definition Run :: "cli_env \<Rightarrow> deps \<Rightarrow> bytes list \<Rightarrow> file_system \<Rightarrow> (int \<times> written list) \<times> file_system" where
  "Run env x args fs =
     (case normalizeGlobals args of
        Inl e \<Rightarrow> ((201, [complain [re_text x e]]), fs)
      | Inr [] \<Rightarrow> ((201, [Err usage]), fs)
      | Inr (c # rest) \<Rightarrow>
          if c = ''--help'' \<or> c = ''-h'' \<or> c = ''help'' then ((0, [Out usage]), fs)
          else if c = ''--version'' \<or> c = ''version'' then ((0, [Out (println [''winsh'', re_version x])]), fs)
          else if c = ''config'' then runConfig env x rest fs
          else if c = ''control'' then (runControl env x rest, fs)
          else if c = ''upload'' \<or> c = ''download'' then (runTransfer env x (c # rest), fs)
          else if c = ''run'' \<or> c = ''ps'' then (run_command env x (c # rest), fs)
          else ((201, [complain [''expected run, ps, upload, download or control; see --help'']]), fs))"

end
