(* ===== verification/Cli_Run_Spec.thy ===== *)
theory Cli_Run_Spec
  imports Cli_Run
begin

text \<open>
  What the exit status and the output of the program mean: no password in what is printed, no success that is
  not one, and no call to a master that the master must refuse.
\<close>

subsection \<open>Redaction\<close>

lemma redact_pieces:
  assumes "password \<noteq> []"
  shows "\<exists>pieces. message = str_join pieces password \<and> redact message password = str_join pieces ''[REDACTED]'' \<and>
    (\<forall>p \<in> set pieces. \<nexists>a b. p = a @ password @ b)"
  using assms str_join_split [OF assms, of message] split_pieces [OF assms, of _ message]
  by (intro exI [of _ "str_split message password"])
    (auto simp: redact_def replace_all_def redacted_def str_index_None)

lemma resolvePassword_nonempty:
  assumes "resolvePassword env i opts = Inr p"
  shows "p \<noteq> []"
proof (cases "o_password_config opts")
  case None
  with assms show ?thesis
    by (auto simp: resolvePassword_def ReadContext_def Read_def Let_def split: option.splits if_splits prod.splits)
next
  case (Some c)
  with assms show ?thesis
    by (auto simp: resolvePassword_def secret_ok_def dest: config_Resolve_secret split: sum.splits)
qed

text \<open>C20: When a command fails, the text of the error is printed with every occurrence of the password replaced: what is
  printed is the pieces of the text between the occurrences, joined by \<open>[REDACTED]\<close>, and no piece contains
  the password, which is never empty here.\<close>

theorem failure_redacted:
  assumes "re_ended x = None" "resolvePassword env (re_input x) opts = Inr p"
    and "re_execute x (opts\<lparr>o_password := p\<rparr>) = (rc, Some e)"
  shows "\<exists>pieces start. re_text x e = str_join pieces p \<and> (\<forall>s \<in> set pieces. \<nexists>a b. s = a @ p @ b) \<and>
    snd (run_direct env x opts) = start @ [Err (''winsh: '' @ str_join pieces ''[REDACTED]'' @ [CHR 0x0A])] \<and>
    start \<in> {[], [complain [''starting NTLM session; timeout'', re_duration x (o_timeout opts)]]} \<and>
    fst (run_direct env x opts) \<in> {202, 203, 204}"
proof -
  from redact_pieces [OF resolvePassword_nonempty [OF assms(2)], of "re_text x e"] obtain pieces where
    "re_text x e = str_join pieces p" "redact (re_text x e) p = str_join pieces ''[REDACTED]''"
    "\<forall>s \<in> set pieces. \<nexists>a b. s = a @ p @ b" by blast
  then show ?thesis
    by (intro exI [of _ pieces] exI [of _ "if o_verbose opts > 0
        then [complain [''starting NTLM session; timeout'', re_duration x (o_timeout opts)]] else []"])
      (simp add: run_direct_def assms complain_def println_def command_status_def)
qed

subsection \<open>Success\<close>

text \<open>What a command must have done for the status 0, by the kind of command.\<close>

definition executed :: "cli_env \<Rightarrow> deps \<Rightarrow> bytes list \<Rightarrow> bool" where
  "executed env x args \<longleftrightarrow> (\<exists>opts. parse env args = Inr opts \<and>
     (if set_mode (o_control opts) = ''auto'' then
        (\<exists>socket d r. re_start x (controlIdentity env x opts) (o_control opts) (control_boot env x opts) = Inr socket \<and>
           re_deadline x = Some d \<and> re_invoke x socket (control_call env x opts d) = (r, None) \<and>
           Category r = [] \<and> ExitCode r = 0)
      else (\<exists>p. resolvePassword env (re_input x) opts = Inr p \<and> re_execute x (opts\<lparr>o_password := p\<rparr>) = (0, None))))"

definition transferred :: "cli_env \<Rightarrow> deps \<Rightarrow> bytes list \<Rightarrow> bool" where
  "transferred env x args \<longleftrightarrow> (\<exists>opts req p transfer r calls. parseTransfer env args = Inr (opts, req) \<and>
     resolvePassword env (re_input x) opts = Inr p \<and> re_transfer x = Some transfer \<and>
     transfer (opts\<lparr>o_password := p\<rparr>) req = (r, None, calls) \<and> committed r)"

text \<open>The target options stand on both sides of the word \<open>check\<close> or \<open>exit\<close>.\<close>

definition controlled :: "cli_env \<Rightarrow> deps \<Rightarrow> bytes list \<Rightarrow> written list \<Rightarrow> bool" where
  "controlled env x args out \<longleftrightarrow> (\<exists>before word after opts socket. args = before @ word # after \<and>
     parse env (''run'' # before @ after @ [''--'', ''exit 0'']) = Inr opts \<and>
     socketPath (re_digests x) (re_naming x) (re_home x) (controlIdentity env x opts) (o_control opts) = Inr socket \<and>
     (word = ''check'' \<and> re_check x socket (controlIdentity env x opts) (set_persist (o_control opts)) = (True, None) \<and>
        out = [Out (println [''control master is running''])] \<or>
      word = ''exit'' \<and> re_exit x socket (controlIdentity env x opts) (set_persist (o_control opts)) = None \<and>
        out = [Out (println [''control master stopped''])]))"

text \<open>The words of a configuration command and the value of \<open>--config\<close>, which may stand anywhere once.\<close>

inductive config_line :: "bytes list \<Rightarrow> bytes option \<Rightarrow> bytes list \<Rightarrow> bool" where
  empty: "config_line [] None []"
| word: "fst (str_cut a ''='') \<noteq> ''--config'' \<Longrightarrow> config_line rest p ws \<Longrightarrow> config_line (a # rest) p (a # ws)"
| inline: "str_cut a ''='' = (''--config'', v, True) \<Longrightarrow> v \<noteq> [] \<Longrightarrow> config_line rest None ws \<Longrightarrow> config_line (a # rest) (Some v) ws"
| separate: "str_cut a ''='' = (''--config'', u, False) \<Longrightarrow> v \<noteq> [] \<Longrightarrow> config_line rest None ws \<Longrightarrow> config_line (a # v # rest) (Some v) ws"

text \<open>What each configuration command has done with the file in force; all but \<open>use-context\<close> leave every file alone.\<close>

definition configured ::
  "cli_env \<Rightarrow> deps \<Rightarrow> bytes list \<Rightarrow> file_system \<Rightarrow> written list \<Rightarrow> file_system \<Rightarrow> bool" where
  "configured env x args fs out fs' \<longleftrightarrow> (\<exists>p ws path c. config_line args p ws \<and>
     Discover (ce_stat env) (ce_home env) (case p of None \<Rightarrow> [] | Some v \<Rightarrow> v) (ce_getenv env) = Inr path \<and> path \<noteq> [] \<and>
     cli_load env path = Inr c \<and>
     (ws = [''view''] \<and> fs' = fs \<and> re_stdout x = None \<and> (\<exists>data. View (re_render x) c = Inr data \<and> out = [Out data]) \<or>
      ws = [''current-context''] \<and> fs' = fs \<and> current (cfg c) \<noteq> [] \<and> out = [Out (println [current (cfg c)])] \<or>
      ws = [''get-contexts''] \<and> fs' = fs \<and> out = context_table (cfg c) \<or>
      (\<exists>name c'. ws = [''use-context'', name] \<and> UseContext (re_update x) c name fs = (None, c', fs') \<and>
         out = [Out (println [''Current context updated.''])])))"

lemma statusForContext_nonzero [simp]: "statusForContext e \<noteq> 0"
  by (simp add: statusForContext_def)

lemma controlFailure_nonzero [simp]: "controlFailure x e \<noteq> (0, out)"
  by (auto simp: controlFailure_def Let_def split: option.splits)

lemma runControlled_zero:
  assumes "runControlled env x opts = (0, out)"
  shows "\<exists>socket d r. re_start x (controlIdentity env x opts) (o_control opts) (control_boot env x opts) = Inr socket \<and>
    re_deadline x = Some d \<and> re_invoke x socket (control_call env x opts d) = (r, None) \<and> Category r = [] \<and> ExitCode r = 0"
proof -
  from assms obtain socket where s: "re_start x (controlIdentity env x opts) (o_control opts) (control_boot env x opts) = Inr socket"
    by (auto simp: runControlled_def split: sum.splits)
  with assms obtain d where d: "re_deadline x = Some d" by (auto simp: runControlled_def split: option.splits)
  obtain r e where "re_invoke x socket (control_call env x opts d) = (r, e)" by fastforce
  with assms s d show ?thesis by (auto simp: runControlled_def split: option.splits if_splits)
qed

lemma run_direct_zero:
  assumes "run_direct env x opts = (0, out)"
  shows "\<exists>p. resolvePassword env (re_input x) opts = Inr p \<and> re_execute x (opts\<lparr>o_password := p\<rparr>) = (0, None)"
proof -
  from assms obtain p where p: "re_ended x = None" "resolvePassword env (re_input x) opts = Inr p"
    by (auto simp: run_direct_def split: option.splits sum.splits)
  obtain rc e where "re_execute x (opts\<lparr>o_password := p\<rparr>) = (rc, e)" by fastforce
  with assms p show ?thesis by (auto simp: run_direct_def Let_def command_status_def split: option.splits if_splits)
qed

lemma run_command_zero:
  assumes "run_command env x args = (0, out)" "out \<noteq> [Out usage]"
  shows "executed env x args"
proof -
  from assms obtain opts where opts: "parse env args = Inr opts" "\<not> o_help opts"
    by (auto simp: run_command_def split: sum.splits if_splits)
  show ?thesis
    using assms opts runControlled_zero [of env x opts out] run_direct_zero [of env x opts out]
    by (simp add: run_command_def executed_def split: if_splits)
qed

text \<open>A remote command that is reported as failed has a status other than 0.\<close>

definition exits_nonzero :: "deps \<Rightarrow> bool" where
  "exits_nonzero x \<longleftrightarrow> (\<forall>transfer opts req. re_transfer x = Some transfer \<longrightarrow>
     (case transfer opts req of (_, Some e, _) \<Rightarrow> as_remote_exit e \<noteq> Some 0 | _ \<Rightarrow> True))"

lemma transfer_end_zero:
  assumes "transfer_end x p req r err = (0, out)" "\<forall>e. err = Some e \<longrightarrow> as_remote_exit e \<noteq> Some 0"
  shows "err = None \<and> committed r"
  using assms by (auto simp: transfer_end_def transfer_status_def Let_def as_remote_exit_def split: option.splits if_splits prod.splits)

lemma runTransfer_zero:
  assumes "runTransfer env x args = (0, out)" "out \<noteq> [Out usage]" "exits_nonzero x"
  shows "transferred env x args"
proof -
  from assms(1,2) obtain opts req p transfer where a: "parseTransfer env args = Inr (opts, req)" "\<not> o_help opts"
    "re_ended x = None" "resolvePassword env (re_input x) opts = Inr p" "re_transfer x = Some transfer"
    by (auto simp: runTransfer_def Let_def split: sum.splits option.splits if_splits)
  obtain r err calls where t: "transfer (opts\<lparr>o_password := p\<rparr>) req = (r, err, calls)"
    by (cases "transfer (opts\<lparr>o_password := p\<rparr>) req") auto
  with assms(1) a obtain out' where "transfer_end x p req r err = (0, out')"
    by (auto simp: runTransfer_def Let_def split: prod.splits)
  moreover have "\<forall>e. err = Some e \<longrightarrow> as_remote_exit e \<noteq> Some 0"
  proof (intro allI impI)
    fix e assume "err = Some e"
    with assms(3) [unfolded exits_nonzero_def, rule_format, OF a(5), of "opts\<lparr>o_password := p\<rparr>" req] t
    show "as_remote_exit e \<noteq> Some 0" by simp
  qed
  ultimately have "err = None" "committed r" using transfer_end_zero by blast+
  with a t show ?thesis unfolding transferred_def by blast
qed

lemma control_globals_append: "control_globals args = Inr (g, r) \<Longrightarrow> args = g @ r"
  by (induction args arbitrary: g r rule: control_globals.induct)
     (auto split: prod.splits if_splits list.splits)

lemma runControl_zero:
  assumes "runControl env x args = (0, out)" "out \<noteq> [Out usage]"
  shows "controlled env x args out"
proof -
  from assms obtain globals rest opts socket where
    a: "control_globals args = Inr (globals, rest)" "parse env (''run'' # globals @ tl rest @ [''--'', ''exit 0'']) = Inr opts"
    and o: "\<not> o_help opts" and r: "rest \<noteq> []" "hd rest = ''check'' \<or> hd rest = ''exit''"
    and s: "socketPath (re_digests x) (re_naming x) (re_home x) (controlIdentity env x opts) (o_control opts) = Inr socket"
    by (auto simp: runControl_def Let_def split: sum.splits if_splits)
  have args: "args = globals @ hd rest # tl rest" using control_globals_append [OF a(1)] r(1) by simp
  show ?thesis
  proof (cases "hd rest = ''check''")
    case True
    obtain live e where c: "re_check x socket (controlIdentity env x opts) (set_persist (o_control opts)) = (live, e)" by fastforce
    with True assms a o s have "live \<and> e = None \<and> out = [Out (println [''control master is running''])]"
      by (auto simp: runControl_def Let_def split: if_splits option.splits bool.splits)
    with c a(2) s args True show ?thesis unfolding controlled_def by (metis (full_types))
  next
    case False
    with assms a o s have "re_exit x socket (controlIdentity env x opts) (set_persist (o_control opts)) = None \<and>
        out = [Out (println [''control master stopped''])]"
      by (auto simp: runControl_def Let_def split: if_splits option.splits)
    with a(2) s args False r(2) show ?thesis unfolding controlled_def by metis
  qed
qed

lemma config_args_line:
  "config_args args seen path ws = Inr (path', ws') \<Longrightarrow>
   \<exists>p new. config_line args p new \<and> ws' = ws @ new \<and> path' = (case p of None \<Rightarrow> path | Some v \<Rightarrow> v) \<and> (seen \<longrightarrow> p = None)"
proof (induction args seen path ws rule: config_args.induct)
  case (1 seen path positional)
  then show ?case by (auto intro: config_line.empty)
next
  case (2 a rest seen path positional)
  obtain name v inl where cut: "str_cut a ''='' = (name, v, inl)" by (cases "str_cut a ''=''") auto
  show ?case
  proof (cases "name = ''--config''")
    case False
    with 2(4) cut have "config_args rest seen path (positional @ [a]) = Inr (path', ws')" by simp
    from 2(3) [OF cut [symmetric] refl False this] obtain p new where
      "config_line rest p new" "ws' = (positional @ [a]) @ new" "path' = (case p of None \<Rightarrow> path | Some v \<Rightarrow> v)" "seen \<longrightarrow> p = None" by blast
    then show ?thesis using config_line.word [of a rest p new] cut False by auto
  next
    case True
    show ?thesis
    proof (cases inl)
      case inl: True
      with 2(4) cut True have n: "\<not> seen" "v \<noteq> []" "config_args rest True v positional = Inr (path', ws')" by auto
      from 2(1) [OF cut [symmetric] refl True inl n(3)] obtain new where "config_line rest None new" "ws' = positional @ new" "path' = v" by auto
      then show ?thesis using config_line.inline [of a v rest new] cut True inl n by auto
    next
      case inl: False
      with 2(4) cut True obtain u rest' where n: "rest = u # rest'" "\<not> seen" "u \<noteq> []" "config_args rest' True u positional = Inr (path', ws')"
        by (auto split: list.splits)
      from 2(2) [OF cut [symmetric] refl True inl n(1,4)] obtain new where "config_line rest' None new" "ws' = positional @ new" "path' = u" by auto
      then show ?thesis using config_line.separate [of a v u rest' new] cut True inl n by auto
    qed
  qed
qed

lemma config_command_words:
  assumes "config_command ws = Inr command"
  shows "command \<in> {''view'', ''current-context'', ''get-contexts''} \<and> ws = [command] \<or>
    (\<exists>name. command = ''use-context'' \<and> ws = [''use-context'', name])"
proof -
  from assms obtain rest where ws: "ws = command # rest" and l: "length ws = (if command = ''use-context'' then 2 else 1)"
    and c: "command \<in> {''get-contexts'', ''current-context'', ''use-context'', ''view''}"
    by (cases ws) (auto simp: config_command_def)
  show ?thesis
  proof (cases "command = ''use-context''")
    case True
    with ws l obtain name where "ws = [''use-context'', name]" by (cases rest) auto
    with True show ?thesis by blast
  next
    case False
    with ws l c show ?thesis by auto
  qed
qed

lemma runConfig_zero:
  assumes "runConfig env x args fs = ((0, out), fs')"
  shows "configured env x args fs out fs'"
proof -
  from assms obtain p0 ws command path c where
    a: "config_args args False [] [] = Inr (p0, ws)" and w: "config_command ws = Inr command"
    and d: "Discover (ce_stat env) (ce_home env) p0 (ce_getenv env) = Inr path" "path \<noteq> []" "cli_load env path = Inr c"
    and act: "config_action x c command ws fs = (Inr out, fs')"
    by (auto simp: runConfig_def Let_def split: sum.splits prod.splits)
  from config_args_line [OF a] obtain p where l: "config_line args p ws" "p0 = (case p of None \<Rightarrow> [] | Some v \<Rightarrow> v)" by auto
  have "ws = [''view''] \<and> fs' = fs \<and> re_stdout x = None \<and> (\<exists>data. View (re_render x) c = Inr data \<and> out = [Out data]) \<or>
      ws = [''current-context''] \<and> fs' = fs \<and> current (cfg c) \<noteq> [] \<and> out = [Out (println [current (cfg c)])] \<or>
      ws = [''get-contexts''] \<and> fs' = fs \<and> out = context_table (cfg c) \<or>
      (\<exists>name c'. ws = [''use-context'', name] \<and> UseContext (re_update x) c name fs = (None, c', fs') \<and>
         out = [Out (println [''Current context updated.''])])"
  proof -
    consider (view) "command = ''view''" "ws = [command]" | (cur) "command = ''current-context''" "ws = [command]"
      | (get) "command = ''get-contexts''" "ws = [command]" | (change) name where "command = ''use-context''" "ws = [''use-context'', name]"
      using config_command_words [OF w] by blast
    then show ?thesis
    proof cases
      case view
      with act obtain data where "View (re_render x) c = Inr data" "re_stdout x = None" "out = [Out data]" "fs' = fs"
        by (simp add: config_action_def split: sum.splits option.splits)
      with view show ?thesis by (intro disjI1) simp
    next
      case cur
      with act have "current (cfg c) \<noteq> []" "out = [Out (println [current (cfg c)])]" "fs' = fs"
        by (auto simp: config_action_def)
      with cur show ?thesis by (intro disjI2 [OF disjI1]) simp
    next
      case get
      with act have "out = context_table (cfg c)" "fs' = fs" by (simp_all add: config_action_def)
      with get show ?thesis by (intro disjI2 [OF disjI2] disjI1) simp
    next
      case (change name)
      obtain e c' fs1 where u: "UseContext (re_update x) c name fs = (e, c', fs1)" by (metis surj_pair)
      with act change have "e = None" "out = [Out (println [''Current context updated.''])]" "fs' = fs1"
        by (simp_all add: config_action_def split: option.splits)
      with u change show ?thesis by (intro disjI2 [OF disjI2 [OF disjI2]] exI [of _ name] exI [of _ c']) simp
    qed
  qed
  with l d show ?thesis unfolding configured_def by blast
qed

text \<open>C8: The status 0 is never reported for work that was not done.  Unless the usage or the version was asked for,
  a zero status means: the remote command, directly or through the master, ended with status 0 and without an error;
  the transfer committed its file without an error; the master was found running or was stopped, as the word asked;
  the configuration command of the line did, on the file in force, what it stands for: the stored or current
  contexts were printed, or \<open>UseContext\<close> of the given name returned no error.  (A transfer error never
  carries a remote exit status of 0.)\<close>

theorem success_means_done:
  assumes "Run env x args fs = ((0, out), fs')" "exits_nonzero x"
    and "out \<notin> {[Out usage], [Out (println [''winsh'', re_version x])]}"
  shows "\<exists>c rest. normalizeGlobals args = Inr (c # rest) \<and>
    (c \<in> {''run'', ''ps''} \<and> executed env x (c # rest) \<or> c \<in> {''upload'', ''download''} \<and> transferred env x (c # rest) \<or>
     c = ''control'' \<and> controlled env x rest out \<or> c = ''config'' \<and> configured env x rest fs out fs')"
proof -
  from assms(1) obtain c rest where n: "normalizeGlobals args = Inr (c # rest)"
    by (auto simp: Run_def split: sum.splits list.splits)
  note run = assms(1) [unfolded Run_def n sum.case list.case]
  consider "c = ''config''" "runConfig env x rest fs = ((0, out), fs')"
    | "c = ''control''" "runControl env x rest = (0, out)"
    | "c \<in> {''upload'', ''download''}" "runTransfer env x (c # rest) = (0, out)"
    | "c \<in> {''run'', ''ps''}" "run_command env x (c # rest) = (0, out)"
    using run assms(3) by (auto split: if_splits)
  then show ?thesis
  proof cases
    case 1
    with n runConfig_zero [OF 1(2)] show ?thesis by simp
  next
    case 2
    with n runControl_zero [OF 2(2)] assms(3) show ?thesis by simp
  next
    case 3
    with n runTransfer_zero [OF 3(2) _ assms(2)] assms(3) show ?thesis by auto
  next
    case 4
    with n run_command_zero [OF 4(2)] assms(3) show ?thesis by auto
  qed
qed

text \<open>The status of a remote command may be 203 or 204; the message then speaks of a timeout or a cancellation.\<close>

lemma exit_status_mistaken:
  assumes "committed r = False" "re_after x = None"
  shows "transfer_end x p req r (Some (RemoteExit 203)) =
    (203, complain [''transfer timeout''] # map (\<lambda>a. complain [''artifact'', re_quote x (redact a p)]) (artifacts r))"
  using assms by (simp add: transfer_end_def transfer_status_def transfer_message_def is_transfer_input_def)

subsection \<open>Calls to a master\<close>

text \<open>The call that a well-formed command line makes to a master is one that the master accepts: it passes the
  protocol's validation, its idle time is one the master may have been started with, and the two sides agree on
  the target of the bootstrap.\<close>

theorem controlled_call_valid:
  assumes "parse env args = Inr opts" "\<not> o_help opts"
  shows "validateCall (control_call env x opts d) = None \<and>
    MinPersist \<le> call_persist (control_call env x opts d) \<and> call_persist (control_call env x opts d) \<le> hour \<and>
    (\<forall>b. control_boot env x opts = Inr b \<longrightarrow> \<not> boot_mismatch (controlIdentity env x opts) b \<and> boot_timeout b > 0)"
proof -
  have w: "well_formed env opts" by (rule parse_ok [OF assms])
  then have "o_command opts \<noteq> []" by (auto simp: well_formed_def)
  with w show ?thesis
    by (auto simp: well_formed_def validateCall_def control_call_def control_boot_def boot_mismatch_def control_ok_def Let_def
        split: sum.splits)
qed

subsection \<open>A concrete run\<close>

text \<open>Commands end with a given status or error, the password is in the environment.\<close>

definition office_env :: "int \<times> goerr option \<Rightarrow> deps" where
  "office_env r = \<lparr>re_text = \<lambda>e. case e of Msg m \<Rightarrow> m | _ \<Rightarrow> [], re_duration = \<lambda>_. [], re_quote = \<lambda>s. s, re_version = ''dev'',
     re_input = \<lparr>pi_early = None, pi_ended = None, pi_content = [], pi_error = None\<rparr>, re_ended = None, re_after = None,
     re_execute = \<lambda>_. r, re_transfer = None, re_deadline = None, re_start = \<lambda>_ _ _. Inl (Msg []),
     re_invoke = \<lambda>_ _. (failed [], None), re_check = \<lambda>_ _ _. (False, None), re_exit = \<lambda>_ _ _. None,
     re_digests = \<lparr>marshal = concat, sha256 = \<lambda>s. s\<rparr>, re_naming = \<lparr>norm = \<lambda>s. s, lower = \<lambda>s. s\<rparr>, re_cwd = Some,
     re_home = None, re_render = \<lambda>_. None,
     re_update = \<lparr>up_parse = \<lambda>_. None, up_print = \<lambda>_. None, up_before = \<lambda>fs. fs, up_between = \<lambda>fs. fs,
       up_temp = [], up_read = \<lambda>_. None, up_link = \<lambda>_. None, up_create = False, up_write = None, up_sync = False, up_close = False,
       up_rename = None, up_remove = None\<rparr>,
     re_stdout = None\<rparr>"

lemma office_password: "resolvePassword (tiny_cli None) (re_input (office_env r)) (run_opts ps c) = Inr ''pw''"
  by (simp add: resolvePassword_def office_env_def ReadContext_def Read_def tiny_cli_def)

theorem failure_redacted_witness:
  "\<exists>pieces. ''login pw refused'' = str_join pieces ''pw'' \<and>
     snd (run_direct (tiny_cli None) (office_env (0, Some (Msg ''login pw refused''))) (run_opts False ''dir'')) =
       [Err (''winsh: '' @ str_join pieces ''[REDACTED]'' @ [CHR 0x0A])]"
proof -
  let ?x = "office_env (0, Some (Msg ''login pw refused''))"
  have "re_ended ?x = None" "re_execute ?x o1 = (0, Some (Msg ''login pw refused''))"
    "re_text ?x (Msg ''login pw refused'') = ''login pw refused''" for o1 by (simp_all add: office_env_def)
  note x = this
  have l: "length (snd (run_direct (tiny_cli None) ?x (run_opts False ''dir''))) = 1"
    using office_password [of "(0, Some (Msg ''login pw refused''))" False "''dir''"] x
    by (simp add: run_direct_def)
  from failure_redacted [OF x(1) office_password x(2), of False "''dir''"] l show ?thesis
    unfolding x(3) by (elim exE conjE) (rule exI, auto)
qed

lemma office_run:
  "Run (tiny_cli None) (office_env (0, None)) [''run'', ''--endpoint'', tls_url, ''--user'', ''u'', ''--'', ''dir''] fs = ((0, []), fs)"
proof -
  have n: "normalizeGlobals [''run'', ''--endpoint'', tls_url, ''--user'', ''u'', ''--'', ''dir''] = Inr [''run'', ''--endpoint'', tls_url, ''--user'', ''u'', ''--'', ''dir'']"
    by (simp add: normalizeGlobals_def global_options_def str_cut_def has_prefix_def)
  have "run_command (tiny_cli None) (office_env (0, None)) [''run'', ''--endpoint'', tls_url, ''--user'', ''u'', ''--'', ''dir''] = (0, [])"
    using tiny_parse [of "''dir''" False] office_password [of "(0, None)" False "''dir''"]
    by (simp add: run_command_def run_direct_def office_env_def run_opts_def initial_options_def)
  with n show ?thesis by (simp add: Run_def)
qed

theorem success_means_done_witness:
  "executed (tiny_cli None) (office_env (0, None)) [''run'', ''--endpoint'', tls_url, ''--user'', ''u'', ''--'', ''dir'']"
proof -
  have n: "normalizeGlobals [''run'', ''--endpoint'', tls_url, ''--user'', ''u'', ''--'', ''dir''] = Inr [''run'', ''--endpoint'', tls_url, ''--user'', ''u'', ''--'', ''dir'']"
    by (simp add: normalizeGlobals_def global_options_def str_cut_def has_prefix_def)
  have "exits_nonzero (office_env (0, None))" by (simp add: exits_nonzero_def office_env_def)
  from success_means_done [OF office_run this] n show ?thesis by auto
qed

theorem controlled_call_valid_witness:
  "validateCall (control_call (tiny_cli None) (office_env (0, None)) (run_opts True ''dir'') 5) = None"
  using controlled_call_valid [OF tiny_parse [of "''dir''" True], of "office_env (0, None)" 5] by simp

end
