(* ===== verification/Trust.thy ===== *)
theory Trust
  imports Local_File Go_Text
begin

text \<open>
  The configured certificate roots (\<open>internal/remote/trust.go\<close>).  What the system says of files and
  directories and which certificates a PEM text holds are parameters; a pool is the list of its certificates,
  and \<open>AppendCertsFromPEM\<close> is true if the text has one.
\<close>

definition maxCABundleBytes :: nat where "maxCABundleBytes = 8 * 1024 * 1024"
definition maxCADirEntries :: nat where "maxCADirEntries = 4096"

record 'c trust_env =
  te_getenv :: "bytes \<Rightarrow> bytes"
  te_open :: "bytes \<Rightarrow> goerr option"
  te_stat :: "bytes \<Rightarrow> goerr + bool \<times> nat"
  te_content :: "bytes \<Rightarrow> bytes \<times> goerr option"
  te_list :: "bytes \<Rightarrow> goerr + (bytes \<times> bool) list"
  te_certs :: "bytes \<Rightarrow> 'c list"

text \<open>The bounded read of \<open>io.ReadAll\<close>: an error behind the bound is not seen.\<close>

definition read_limited :: "nat \<Rightarrow> bytes \<times> goerr option \<Rightarrow> bytes \<times> goerr option" where
  "read_limited n c = (if length (fst c) < n then c else (take n (fst c), None))"

definition appendCABundle :: "'c trust_env \<Rightarrow> 'c list \<Rightarrow> bytes \<Rightarrow> goerr + 'c list \<times> bool" where
  "appendCABundle env pool path =
     (case te_open env path of
        Some e \<Rightarrow> Inl e
      | None \<Rightarrow>
          check (case te_stat env path of Inl _ \<Rightarrow> True | Inr (regular, n) \<Rightarrow> \<not> regular \<or> n > maxCABundleBytes)
            (Msg ''CA source must be a bounded regular file'') (
          case read_limited (maxCABundleBytes + 1) (te_content env path) of (data, err) \<Rightarrow>
          check (err \<noteq> None \<or> length data > maxCABundleBytes) (Msg ''cannot read CA source'')
            (Inr (pool @ te_certs env data, te_certs env data \<noteq> []))))"

text \<open>The two loops over the directories and their entries.  A path is joined without \<open>filepath.Clean\<close>, which changes its
  spelling only.\<close>

fun append_entries :: "'c trust_env \<Rightarrow> bytes \<Rightarrow> (bytes \<times> bool) list \<Rightarrow> 'c list \<Rightarrow> bool \<Rightarrow> goerr + 'c list \<times> bool" where
  "append_entries env dir [] pool valid = Inr (pool, valid)"
| "append_entries env dir ((name, is_dir) # rest) pool valid =
     (if has_prefix name ''.'' \<or> is_dir then append_entries env dir rest pool valid
      else case appendCABundle env pool (path_join dir name) of
        Inl _ \<Rightarrow> Inl (Msg ''invalid SSL_CERT_DIR trust source'')
      | Inr (pool, added) \<Rightarrow> append_entries env dir rest pool (valid \<or> added))"

fun append_dirs :: "'c trust_env \<Rightarrow> bytes list \<Rightarrow> 'c list \<Rightarrow> bool \<Rightarrow> goerr + 'c list \<times> bool" where
  "append_dirs env [] pool valid = Inr (pool, valid)"
| "append_dirs env (dir # rest) pool valid =
     (case te_list env dir of
        Inl _ \<Rightarrow> Inl (Msg ''invalid SSL_CERT_DIR trust source'')
      | Inr entries \<Rightarrow>
          check (length entries > maxCADirEntries) (Msg ''invalid SSL_CERT_DIR trust source'')
            (and_then (append_entries env dir entries pool valid) (\<lambda>(pool, valid). append_dirs env rest pool valid)))"

definition configuredRootPool :: "'c trust_env \<Rightarrow> goerr + 'c list option" where
  "configuredRootPool env =
     (let file = te_getenv env ''SSL_CERT_FILE''; dirs = te_getenv env ''SSL_CERT_DIR'' in
      if file = [] \<and> dirs = [] then Inr None
      else
        and_then (if file = [] then Inr []
                  else case appendCABundle env [] file of
                    Inr (pool, True) \<Rightarrow> Inr pool
                  | _ \<Rightarrow> Inl (Msg ''invalid SSL_CERT_FILE trust source'')) (\<lambda>roots.
        if dirs = [] then Inr (Some roots)
        else and_then (append_dirs env (str_split dirs '':'') roots False) (\<lambda>(roots, valid).
          check (\<not> valid) (Msg ''invalid SSL_CERT_DIR trust source'') (Inr (Some roots)))))"

subsection \<open>Sources\<close>

text \<open>A readable source: a regular file within the bound, read without an error.\<close>

definition source_ok :: "'c trust_env \<Rightarrow> bytes \<Rightarrow> bool" where
  "source_ok env path \<longleftrightarrow> te_open env path = None \<and> (\<exists>n. te_stat env path = Inr (True, n) \<and> n \<le> maxCABundleBytes) \<and>
     length (fst (te_content env path)) \<le> maxCABundleBytes \<and> snd (te_content env path) = None"

definition source_certs :: "'c trust_env \<Rightarrow> bytes \<Rightarrow> 'c list" where
  "source_certs env path = te_certs env (fst (te_content env path))"

fun entry_sources :: "bytes \<Rightarrow> (bytes \<times> bool) list \<Rightarrow> bytes list" where
  "entry_sources dir [] = []"
| "entry_sources dir ((name, is_dir) # rest) =
     (if has_prefix name ''.'' \<or> is_dir then [] else [path_join dir name]) @ entry_sources dir rest"

definition dir_sources :: "'c trust_env \<Rightarrow> bytes \<Rightarrow> bytes list" where
  "dir_sources env dir =
     (case te_list env dir of Inl _ \<Rightarrow> [] | Inr entries \<Rightarrow> entry_sources dir entries)"

definition all_certs :: "'c trust_env \<Rightarrow> bytes list \<Rightarrow> 'c list" where
  "all_certs env ps = concat (map (source_certs env) ps)"

lemma all_certs_simps [simp]:
  "all_certs env [] = []" "all_certs env (p # ps) = source_certs env p @ all_certs env ps"
  "all_certs env (ps @ qs) = all_certs env ps @ all_certs env qs"
  by (simp_all add: all_certs_def)

definition file_sources :: "'c trust_env \<Rightarrow> bytes list" where
  "file_sources env = (if te_getenv env ''SSL_CERT_FILE'' = [] then [] else [te_getenv env ''SSL_CERT_FILE''])"

definition dirs_sources :: "'c trust_env \<Rightarrow> bytes list" where
  "dirs_sources env = (if te_getenv env ''SSL_CERT_DIR'' = [] then []
     else concat (map (dir_sources env) (str_split (te_getenv env ''SSL_CERT_DIR'') '':'')))"

lemma appendCABundle_iff:
  "appendCABundle env pool path = Inr (pool', added) \<longleftrightarrow>
     source_ok env path \<and> pool' = pool @ source_certs env path \<and> added = (source_certs env path \<noteq> [])"
  by (cases "te_content env path")
    (auto simp: appendCABundle_def source_ok_def source_certs_def read_limited_def Let_def maxCABundleBytes_def
      split: option.splits sum.splits prod.splits if_splits)

lemma append_entries_ok:
  "append_entries env dir entries pool valid = Inr (pool', valid') \<Longrightarrow>
   (\<forall>p \<in> set (entry_sources dir entries). source_ok env p) \<and>
   pool' = pool @ all_certs env (entry_sources dir entries) \<and>
   valid' = (valid \<or> all_certs env (entry_sources dir entries) \<noteq> [])"
proof (induction env dir entries pool valid rule: append_entries.induct)
  case (2 env dir name is_dir rest pool valid)
  show ?case
  proof (cases "has_prefix name ''.'' \<or> is_dir")
    case True
    with 2 show ?thesis by simp
  next
    case False
    with "2.prems" obtain p added where a: "appendCABundle env pool (path_join dir name) = Inr (p, added)"
      and r: "append_entries env dir rest p (valid \<or> added) = Inr (pool', valid')" by (auto split: sum.splits)
    from "2.IH"(2) [OF False a refl r] a False show ?thesis by (auto simp: appendCABundle_iff)
  qed
qed simp

lemma append_dirs_ok:
  "append_dirs env dirs pool valid = Inr (pool', valid') \<Longrightarrow>
   (\<forall>d \<in> set dirs. \<exists>es. te_list env d = Inr es \<and> length es \<le> maxCADirEntries) \<and>
   (\<forall>p \<in> set (concat (map (dir_sources env) dirs)). source_ok env p) \<and>
   pool' = pool @ all_certs env (concat (map (dir_sources env) dirs)) \<and>
   valid' = (valid \<or> all_certs env (concat (map (dir_sources env) dirs)) \<noteq> [])"
proof (induction dirs arbitrary: pool valid)
  case (Cons dir rest)
  from Cons.prems obtain es p v where e: "te_list env dir = Inr es" "length es \<le> maxCADirEntries"
    "append_entries env dir es pool valid = Inr (p, v)" "append_dirs env rest p v = Inr (pool', valid')"
    by (auto split: sum.splits)
  from append_entries_ok [OF e(3)] Cons.IH [OF e(4)] e(1,2) show ?case by (auto simp: dir_sources_def)
qed simp

text \<open>C23: Configured certificate roots fail closed.  The built-in roots are used only if neither variable is set.
  Otherwise a result is exactly the certificates of the configured sources, in their order: every source, the file and all
  visible files of all directories, is a readable regular file of at most 8 MiB, every directory is readable with at
  most 4096 entries, and the file, like the directories taken together, holds at least one certificate.\<close>

theorem root_pool_fails_closed:
  assumes "configuredRootPool env = Inr r"
  shows "(r = None \<longleftrightarrow> te_getenv env ''SSL_CERT_FILE'' = [] \<and> te_getenv env ''SSL_CERT_DIR'' = []) \<and>
    (\<forall>pool. r = Some pool \<longrightarrow>
       pool = all_certs env (file_sources env @ dirs_sources env) \<and>
       (\<forall>p \<in> set (file_sources env @ dirs_sources env). source_ok env p) \<and>
       (te_getenv env ''SSL_CERT_FILE'' \<noteq> [] \<longrightarrow> all_certs env (file_sources env) \<noteq> []) \<and>
       (te_getenv env ''SSL_CERT_DIR'' \<noteq> [] \<longrightarrow> all_certs env (dirs_sources env) \<noteq> [] \<and>
          (\<forall>d \<in> set (str_split (te_getenv env ''SSL_CERT_DIR'') '':'').
             \<exists>es. te_list env d = Inr es \<and> length es \<le> maxCADirEntries)))"
proof (cases "te_getenv env ''SSL_CERT_FILE'' = [] \<and> te_getenv env ''SSL_CERT_DIR'' = []")
  case True
  with assms show ?thesis by (simp add: configuredRootPool_def)
next
  case False
  let ?file = "te_getenv env ''SSL_CERT_FILE''" and ?dirs = "te_getenv env ''SSL_CERT_DIR''"
  from assms False obtain roots where f: "(if ?file = [] then Inr [] else case appendCABundle env [] ?file of
        Inr (pool, True) \<Rightarrow> Inr pool | _ \<Rightarrow> Inl (Msg ''invalid SSL_CERT_FILE trust source'')) = Inr roots"
    and d: "(if ?dirs = [] then Inr (Some roots) else and_then (append_dirs env (str_split ?dirs '':'') roots False)
        (\<lambda>(roots, valid). check (\<not> valid) (Msg ''invalid SSL_CERT_DIR trust source'') (Inr (Some roots)))) = Inr r"
    unfolding configuredRootPool_def Let_def by auto
  have src: "roots = all_certs env (file_sources env) \<and> (\<forall>p \<in> set (file_sources env). source_ok env p) \<and>
      (?file \<noteq> [] \<longrightarrow> all_certs env (file_sources env) \<noteq> [])"
    using f by (auto simp: file_sources_def appendCABundle_iff split: if_splits sum.splits prod.splits bool.splits)
  show ?thesis
  proof (cases "?dirs = []")
    case True
    with d src False show ?thesis by (auto simp: dirs_sources_def)
  next
    case dirs: False
    with d obtain pool where p: "append_dirs env (str_split ?dirs '':'') roots False = Inr (pool, True)" "r = Some pool" by auto
    from append_dirs_ok [OF p(1)] src p(2) dirs show ?thesis by (auto simp: dirs_sources_def)
  qed
qed

definition tiny_trust :: "nat trust_env" where
  "tiny_trust = \<lparr>te_getenv = \<lambda>n. if n = ''SSL_CERT_FILE'' then ''/ca.pem'' else [], te_open = \<lambda>_. None,
     te_stat = \<lambda>_. Inr (True, 3), te_content = \<lambda>_. (''PEM'', None), te_list = \<lambda>_. Inl (Msg []), te_certs = \<lambda>_. [7]\<rparr>"

theorem root_pool_fails_closed_witness: "source_ok tiny_trust ''/ca.pem'' \<and> configuredRootPool tiny_trust = Inr (Some [7])"
proof -
  have p: "configuredRootPool tiny_trust = Inr (Some [7])"
    by (simp add: configuredRootPool_def tiny_trust_def Let_def appendCABundle_def read_limited_def maxCABundleBytes_def)
  from root_pool_fails_closed [OF p] p show ?thesis by (simp add: file_sources_def tiny_trust_def)
qed

end
