(* ===== verification/Control_Json.thy ===== *)
theory Control_Json
  imports Transfer_Record Control_Types
begin

text \<open>
  The JSON of a result frame: \<open>writeJSONFrame\<close> and \<open>decodeStrictJSON\<close> of \<open>internal/control/protocol.go\<close> on the
  structure \<open>Result\<close>, with the part of \<open>encoding/json\<close> that prints and reads it.  A string is printed with
  the escapes that are safe inside HTML; a field is found by its name, in any case of its letters.
\<close>

subsection \<open>Printing\<close>

definition low_hex :: "nat \<Rightarrow> char" where
  "low_hex n = (if n < 10 then digit n else char_of (87 + n))"

definition html_safe :: "char \<Rightarrow> bool" where
  "html_safe c \<longleftrightarrow> CHR 0x20 \<le> c \<and> c < CHR 0x80 \<and> c \<notin> {CHR 0x22, CHR 0x5C, CHR ''<'', CHR ''>'', CHR ''&''}"

definition escape_char :: "char \<Rightarrow> bytes" where
  "escape_char c =
     (if c = CHR 0x22 \<or> c = CHR 0x5C then [CHR 0x5C, c]
      else if c = CHR 0x08 then [CHR 0x5C, CHR ''b''] else if c = CHR 0x0C then [CHR 0x5C, CHR ''f'']
      else if c = CHR 0x0A then [CHR 0x5C, CHR ''n''] else if c = CHR 0x0D then [CHR 0x5C, CHR ''r'']
      else if c = CHR 0x09 then [CHR 0x5C, CHR ''t'']
      else CHR 0x5C # ''u00'' @ [low_hex (byte_val c div 16), low_hex (byte_val c mod 16)])"

function json_text :: "bytes \<Rightarrow> bytes" where
  "json_text s =
     (case s of
        [] \<Rightarrow> []
      | c # s' \<Rightarrow>
          if c < CHR 0x80 then (if html_safe c then [c] else escape_char c) @ json_text s'
          else (case decode_rune s of (r, k) \<Rightarrow>
            (if r = rune_error \<and> k = 1 then CHR 0x5C # ''ufffd''
             else if r = 0x2028 \<or> r = 0x2029 then CHR 0x5C # ''u202'' @ [low_hex (r mod 16)]
             else take k s) @ json_text (drop k s)))"
  by pat_completeness auto
termination
proof (relation "measure length", goal_cases)
  case (3 s c s' r k)
  then show ?case using decode_rune_shrinks [of s r k] by simp
qed auto

declare json_text.simps [simp del]

definition int_text :: "int \<Rightarrow> bytes" where
  "int_text n = (if n < 0 then ''-'' @ dec (nat (- n)) else dec (nat n))"

definition marshal_result :: "control_result \<Rightarrow> bytes" where
  "marshal_result r = CHR 0x7B # quoted ''ExitCode'' @ '':'' @ int_text (ExitCode r) @ '','' @
     quoted ''Category'' @ '':'' @ quoted (json_text (Category r)) @ [CHR 0x7D]"

text \<open>\<open>None\<close> is a value that \<open>json.Marshal\<close> refuses.\<close>

definition writeJSONFrame :: "'s writer \<Rightarrow> frame_type \<Rightarrow> bytes option \<Rightarrow> 's \<Rightarrow> goerr option \<times> 's" where
  "writeJSONFrame w kind marshalled s =
     (case marshalled of None \<Rightarrow> (Some (Sentinel ErrProtocol), s) | Some payload \<Rightarrow> writeFrame w kind payload s)"

subsection \<open>Reading\<close>

text \<open>One field; an unknown name or a value of another type is an error, \<open>null\<close> changes nothing.\<close>

definition set_result :: "bytes \<Rightarrow> bytes \<Rightarrow> control_result \<Rightarrow> control_result option" where
  "set_result key raw r =
     (if equal_fold key ''ExitCode'' then
        (if raw = ''null'' then Some r
         else case raw of
           [] \<Rightarrow> None
         | c # _ \<Rightarrow> if c = CHR ''-'' \<or> is_digit c then map_option (\<lambda>n. r\<lparr>ExitCode := n\<rparr>) (atoi raw) else None)
      else if equal_fold key ''Category'' then map_option (\<lambda>c. if raw = ''null'' then r else r\<lparr>Category := c\<rparr>) (unmarshal_string raw)
      else None)"

function result_members :: "bool \<Rightarrow> control_result \<Rightarrow> bytes \<Rightarrow> control_result option" where
  "result_members initial r s =
     (if \<not> more_members s then Some r
      else case read_key initial s of
        None \<Rightarrow> None
      | Some (key, s1) \<Rightarrow>
          (case read_member_value s1 of
             None \<Rightarrow> None
           | Some (raw, s2) \<Rightarrow>
               (case set_result key raw r of None \<Rightarrow> None | Some r' \<Rightarrow> result_members False r' s2)))"
  by pat_completeness auto
termination
proof (relation "measure (\<lambda>(initial, r, s). length s)", goal_cases)
  case (2 initial r s x key s1 y raw s2 r')
  then have "length s1 \<le> length s" "length s2 < length s1"
    using read_key_length [of initial s key s1] read_member_value_length [of s1 raw s2] by auto
  then show ?case by simp
qed simp

declare result_members.simps [simp del]

definition unmarshal_result :: "bytes \<Rightarrow> control_result option" where
  "unmarshal_result raw =
     (if raw = ''null'' then Some (failed [])
      else if has_prefix raw [CHR 0x7B] then result_members True (failed []) (tl raw) else None)"

text \<open>One value and nothing behind it.\<close>

definition decodeStrictJSON :: "(bytes \<Rightarrow> 'a option) \<Rightarrow> bytes \<Rightarrow> 'a option" where
  "decodeStrictJSON unmarshal payload =
     (case read_value payload of
        None \<Rightarrow> None
      | Some (raw, rest) \<Rightarrow>
          (case unmarshal raw of
             None \<Rightarrow> None
           | Some v \<Rightarrow> if skip_spaces rest = [] then Some v else None))"

subsection \<open>Strings\<close>

lemma hex_val_low: "n < 16 \<Longrightarrow> hex_val (low_hex n) = Some n"
proof -
  assume n: "n < 16"
  show ?thesis
  proof (cases "n < 10")
    case True
    then show ?thesis using is_digit_digit [of n] by (simp add: hex_val_def low_hex_def digit_value)
  next
    case False
    with n have "n \<in> {10, 11, 12, 13, 14, 15}" by auto
    then show ?thesis by (auto simp: hex_val_def low_hex_def is_digit_def less_eq_char_def)
  qed
qed

lemma hex_low: "n < 16 \<Longrightarrow> is_hex (low_hex n)"
  using hex_val_low [of n] by (auto simp: hex_val_def is_hex_def split: if_splits)

text \<open>Bytes that the scanner passes inside a string.\<close>

definition string_byte :: "char \<Rightarrow> bool" where
  "string_byte c \<longleftrightarrow> c \<noteq> CHR 0x22 \<and> c \<noteq> CHR 0x5C \<and> \<not> c < CHR 0x20"

lemma scan_raw: "\<forall>c \<in> set x. string_byte c \<Longrightarrow>
  scan_value In_string stk (x @ t) = map_option (\<lambda>(v, r). (x @ v, r)) (scan_value In_string stk t)"
proof (induction x)
  case Nil
  show ?case by (cases "scan_value In_string stk t") auto
next
  case (Cons c x)
  then show ?case by (cases "scan_value In_string stk t") (auto simp: string_byte_def)
qed

lemma encode_high: "scalar r \<Longrightarrow> 0x80 \<le> r \<Longrightarrow> c \<in> set (encode_rune r) \<Longrightarrow> 0x80 \<le> byte_val c"
proof -
  assume r: "scalar r" "0x80 \<le> r" "c \<in> set (encode_rune r)"
  have b: "r < 0x800 \<Longrightarrow> r div 64 < 32" "r < 0x10000 \<Longrightarrow> r div 4096 < 16" "r < 0x110000 \<Longrightarrow> r div 262144 < 5"
    by (auto simp: less_mult_imp_div_less)
  have m: "m < 256 \<Longrightarrow> byte_val (char_of m :: char) = m" for m by simp
  have "r < 0x110000" using r(1) by (auto simp: scalar_def)
  with r(2,3) b show ?thesis
    by (auto simp: encode_rune_def m simp del: of_char_of split: if_splits)
qed

lemma high_string_byte: "0x80 \<le> byte_val c \<Longrightarrow> string_byte c \<and> \<not> c < CHR 0x80"
  by (auto simp: string_byte_def less_char_def)

text \<open>The rune in front of a string that begins above ASCII.\<close>

lemma high_rune:
  assumes "decode_rune (c # s) = (r, k)" "\<not> c < CHR 0x80" "\<not> (r = rune_error \<and> k = 1)"
  shows "scalar r \<and> 0x80 \<le> r \<and> take k (c # s) = encode_rune r \<and> c # s = encode_rune r @ drop k (c # s)"
proof -
  from encode_decode_rune [OF assms(1) _ assms(3)] have s: "scalar r" "c # s = encode_rune r @ drop k (c # s)" by auto
  then have "take k (c # s) = encode_rune r" by (metis append_take_drop_id append_same_eq)
  moreover have "0x80 \<le> r"
  proof (rule ccontr)
    assume "\<not> 0x80 \<le> r"
    then have "encode_rune r = [char_of r]" "byte_val (char_of r :: char) = r" by (simp_all add: encode_rune_def)
    with s(2) have "byte_val c < 0x80" using \<open>\<not> 0x80 \<le> r\<close> by (metis append_Cons list.inject not_le)
    with assms(2) show False by (simp add: less_char_def)
  qed
  ultimately show ?thesis using s by blast
qed


lemma escape_cases:
  assumes "c < CHR 0x80" "\<not> html_safe c"
  obtains (short) e where "escape_char c = [CHR 0x5C, e]" "e \<in> set (''bfnrt/'' @ [CHR 0x5C, CHR 0x22])" "unescape e = c"
  | (long) "escape_char c = CHR 0x5C # ''u00'' @ [low_hex (byte_val c div 16), low_hex (byte_val c mod 16)]"
proof -
  consider "c \<in> {CHR 0x22, CHR 0x5C, CHR 0x08, CHR 0x0C, CHR 0x0A, CHR 0x0D, CHR 0x09}"
    | "c \<notin> {CHR 0x22, CHR 0x5C, CHR 0x08, CHR 0x0C, CHR 0x0A, CHR 0x0D, CHR 0x09}" by blast
  then show thesis
  proof cases
    case 1
    then show thesis by (auto intro!: short simp: escape_char_def unescape_def)
  next
    case 2
    then show thesis by (intro long) (simp add: escape_char_def)
  qed
qed

lemma scan_escape:
  assumes "e \<in> set (''bfnrt/'' @ [CHR 0x5C, CHR 0x22])"
  shows "scan_value In_string stk (CHR 0x5C # e # t) =
    map_option (\<lambda>(v, r). (CHR 0x5C # e # v, r)) (scan_value In_string stk t)"
  using assms by (cases "scan_value In_string stk t") (simp_all split: prod.splits)

lemma scan_hex4:
  assumes "is_hex a" "is_hex b" "is_hex c" "is_hex d"
  shows "scan_value In_string stk (CHR 0x5C # CHR ''u'' # a # b # c # d # t) =
    map_option (\<lambda>(v, r). (CHR 0x5C # CHR ''u'' # a # b # c # d # v, r)) (scan_value In_string stk t)"
  using assms by (cases "scan_value In_string stk t") (simp_all split: prod.splits)

lemma getu4_hex:
  assumes "hex_val a = Some p" "hex_val b = Some q" "hex_val c = Some r" "hex_val d = Some t"
  shows "getu4 (CHR 0x5C # CHR ''u'' # a # b # c # d # x) = Some (((p * 16 + q) * 16 + r) * 16 + t)"
  using assms by (simp add: getu4_def)

lemma unquote_hex4:
  assumes "hex_val a = Some p" "hex_val b = Some q" "hex_val c = Some r" "hex_val d = Some t"
    and "\<not> is_surrogate (((p * 16 + q) * 16 + r) * 16 + t)"
  shows "unquote (CHR 0x5C # CHR ''u'' # a # b # c # d # x) =
    map_option ((@) (encode_rune (((p * 16 + q) * 16 + r) * 16 + t))) (unquote x)"
  using assms(5) by (simp add: unquote.simps [of "CHR 0x5C # CHR ''u'' # a # b # c # d # x"] getu4_hex [OF assms(1-4)])

lemma unquote_escape:
  assumes "e \<in> set (''bfnrt/'' @ [CHR 0x5C, CHR 0x22])"
  shows "unquote (CHR 0x5C # e # x) = map_option ((#) (unescape e)) (unquote x)"
  using assms by (auto simp: unquote.simps [of "CHR 0x5C # e # x"])

lemma zero_hex [simp]: "is_hex (CHR ''0'')" "hex_val (CHR ''0'') = Some 0" "is_hex (CHR ''2'')" "hex_val (CHR ''2'') = Some 2"
  by (simp_all add: is_hex_def hex_val_def is_digit_def less_eq_char_def)

text \<open>One printed rune: the scanner passes it, and unquoting gives the rune back.\<close>

definition prints_rune :: "bytes \<Rightarrow> bytes \<Rightarrow> bool" where
  "prints_rune x p \<longleftrightarrow>
     (\<forall>stk t. scan_value In_string stk (p @ t) = map_option (\<lambda>(v, r). (p @ v, r)) (scan_value In_string stk t)) \<and>
     (\<forall>t. unquote (p @ t) = map_option ((@) x) (unquote t))"

lemma prints_runeI:
  assumes "\<And>stk t. scan_value In_string stk (p @ t) = map_option (\<lambda>(v, r). (p @ v, r)) (scan_value In_string stk t)"
    and "\<And>t. unquote (p @ t) = map_option ((@) x) (unquote t)"
  shows "prints_rune x p"
  using assms by (simp add: prints_rune_def)

lemma append_one [simp]: "(@) [c] = (#) c"
  by (simp add: fun_eq_iff)

lemma append_none: "(@) [] = id" "(\<lambda>(v, r). (v, r)) = id"
  by (simp_all add: fun_eq_iff)

lemma printed_ascii:
  assumes "c < CHR 0x80"
  shows "prints_rune [c] (if html_safe c then [c] else escape_char c)"
proof (cases "html_safe c")
  case True
  then have s: "\<forall>d \<in> set [c]. string_byte d" by (auto simp: html_safe_def string_byte_def less_char_def less_eq_char_def)
  have "c \<noteq> CHR 0x22" "c \<noteq> CHR 0x5C" "\<not> c < CHR 0x20" using s by (simp_all add: string_byte_def)
  then have "unquote (c # t) = map_option ((#) c) (unquote t)" for t
    using assms by (simp add: unquote.simps [of "c # t"])
  moreover have "scan_value In_string stk (c # t) = map_option (\<lambda>(v, r). (c # v, r)) (scan_value In_string stk t)" for stk t
    using scan_raw [OF s, of stk t] by simp
  ultimately show ?thesis using True by (intro prints_runeI) simp_all
next
  case False
  with assms show ?thesis
  proof (cases rule: escape_cases)
    case (short e)
    with False show ?thesis using scan_escape [OF short(2)] unquote_escape [OF short(2)] by (intro prints_runeI) simp_all
  next
    case long
    have b: "byte_val c < 0x80" using assms by (simp add: less_char_def)
    then have h: "byte_val c div 16 < 16" "byte_val c mod 16 < 16" by auto
    have e: "encode_rune (byte_val c) = [c]" using b by (simp add: encode_rune_def)
    have n: "((0 * 16 + 0) * 16 + byte_val c div 16) * 16 + byte_val c mod 16 = byte_val c" by simp
    have "\<not> is_surrogate (byte_val c)" using b by (simp add: is_surrogate_def)
    with unquote_hex4 [OF zero_hex(2) zero_hex(2) hex_val_low [OF h(1)] hex_val_low [OF h(2)], unfolded n] e
    have "unquote (escape_char c @ t) = map_option ((@) [c]) (unquote t)" for t by (simp add: long)
    moreover have "scan_value In_string stk (escape_char c @ t) =
        map_option (\<lambda>(v, r). (escape_char c @ v, r)) (scan_value In_string stk t)" for stk t
      using scan_hex4 [OF zero_hex(1) zero_hex(1) hex_low [OF h(1)] hex_low [OF h(2)]] by (simp add: long)
    ultimately show ?thesis using False by (intro prints_runeI) simp_all
  qed
qed


lemma printed_high:
  assumes "decode_rune (c # s) = (r, k)" "\<not> c < CHR 0x80" "\<not> (r = rune_error \<and> k = 1)"
  shows "prints_rune (take k (c # s))
    (if r = 0x2028 \<or> r = 0x2029 then CHR 0x5C # ''u202'' @ [low_hex (r mod 16)] else take k (c # s))"
proof -
  note h = high_rune [OF assms]
  then have x: "take k (c # s) = encode_rune r" "scalar r" "0x80 \<le> r" by blast+
  show ?thesis
  proof (cases "r = 0x2028 \<or> r = 0x2029")
    case True
    then have m: "r mod 16 < 16" "((2 * 16 + 0) * 16 + 2) * 16 + r mod 16 = r" "\<not> is_surrogate r"
      by (auto simp: is_surrogate_def)
    have "scan_value In_string stk ((CHR 0x5C # ''u202'' @ [low_hex (r mod 16)]) @ t) =
      map_option (\<lambda>(v, q). ((CHR 0x5C # ''u202'' @ [low_hex (r mod 16)]) @ v, q)) (scan_value In_string stk t)" for stk t
      using scan_hex4 [OF zero_hex(3) zero_hex(1) zero_hex(3) hex_low [OF m(1)]] by simp
    moreover have "unquote ((CHR 0x5C # ''u202'' @ [low_hex (r mod 16)]) @ t) = map_option ((@) (encode_rune r)) (unquote t)" for t
      using unquote_hex4 [OF zero_hex(4) zero_hex(2) zero_hex(4) hex_val_low [OF m(1)], unfolded m(2)] m(3) by simp
    ultimately show ?thesis using True x(1) by (intro prints_runeI) simp_all
  next
    case False
    have b: "\<forall>d \<in> set (encode_rune r). string_byte d" using encode_high x(2,3) high_string_byte by blast
    obtain d x' where d: "encode_rune r = d # x'" by (cases "encode_rune r") auto
    then have "\<not> d < CHR 0x80" "d \<noteq> CHR 0x22" "d \<noteq> CHR 0x5C" "\<not> d < CHR 0x20"
      using b high_string_byte encode_high [OF x(2,3)] by (auto simp: string_byte_def)
    moreover have "decode_rune (encode_rune r @ t) = (r, length (encode_rune r))" for t by (rule decode_encode_rune [OF x(2)])
    ultimately have "unquote (encode_rune r @ t) = map_option ((@) (encode_rune r)) (unquote t)" for t
      using d by (simp add: unquote.simps [of "d # x' @ t"] del: encode_rune_nonempty)
    with scan_raw [OF b] False x(1) show ?thesis by (intro prints_runeI) simp_all
  qed
qed

lemma printed_json: "valid_utf8 s \<Longrightarrow> prints_rune s (json_text s)"
proof (induction s rule: json_text.induct)
  case (1 s)
  show ?case
  proof (cases s)
    case Nil
    then show ?thesis by (intro prints_runeI) (simp_all add: json_text.simps option.map_id append_none)
  next
    case (Cons c s')
    obtain r k where d: "decode_rune s = (r, k)" by fastforce
    have v: "\<not> (r = rune_error \<and> k = 1)" "valid_utf8 (drop k s)"
      using 1(3) d \<open>s = c # s'\<close> [THEN arg_cong [of _ _ "\<lambda>x. x = []"]] by (auto simp: valid_utf8.simps [of s] split: if_splits)
    have both: "prints_rune (x @ y) (p @ q)" if "prints_rune x p" "prints_rune y q" for x y p q
    proof (rule prints_runeI)
      show "scan_value In_string stk ((p @ q) @ t) = map_option (\<lambda>(v, r). ((p @ q) @ v, r)) (scan_value In_string stk t)" for stk t
        using that unfolding prints_rune_def by (cases "scan_value In_string stk t") (auto split: prod.splits)
      show "unquote ((p @ q) @ t) = map_option ((@) (x @ y)) (unquote t)" for t
        using that unfolding prints_rune_def by (cases "unquote t") auto
    qed
    show ?thesis
    proof (cases "c < CHR 0x80")
      case True
      then have "k = 1" using d Cons by (auto simp: less_char_def Let_def)
      with 1(1) [OF Cons True] v(2) Cons have "prints_rune s' (json_text s')" by simp
      from both [OF printed_ascii [OF True] this] True show ?thesis by (simp add: Cons json_text.simps [of "c # s'"])
    next
      case False
      from 1(2) [OF Cons False d [symmetric]] v(2) have "prints_rune (drop k s) (json_text (drop k s))" by simp
      from both [OF printed_high [OF d [unfolded Cons] False v(1)] this] show ?thesis
        using d False v(1) Cons by (auto simp add: json_text.simps [of "c # s'"] simp del: decode_rune.simps)
    qed
  qed
qed


subsection \<open>The round trip\<close>

lemma scan_text:
  "valid_utf8 x \<Longrightarrow> scan_value In_string stk (json_text x @ CHR 0x22 # t) =
     map_option (\<lambda>(v, r). (json_text x @ CHR 0x22 # v, r)) (scan_value End_value stk t)"
  using printed_json [of x] by (cases "scan_value End_value stk t") (auto simp: prints_rune_def)

lemma unmarshal_text: "valid_utf8 x \<Longrightarrow> unmarshal_string (quoted (json_text x)) = Some x"
proof -
  assume "valid_utf8 x"
  then have "unquote (json_text x @ []) = map_option ((@) x) (unquote [])" using printed_json by (simp only: prints_rune_def)
  then have "unquote (json_text x) = Some x" by (simp add: unquote.simps [of "[]"])
  then show ?thesis by (simp add: unmarshal_string_def quoted_def has_prefix_def string_value_def)
qed

lemma scan_dec_digits:
  "\<forall>c \<in> set x. is_digit c \<Longrightarrow> number_end d \<Longrightarrow> scan_value Num_int stk (x @ d # t) =
     map_option (\<lambda>(v, r). (x @ v, r)) (scan_value End_value stk (d # t))"
proof (induction x)
  case Nil
  then have "json_step Num_int stk d = json_step End_value stk d" by (auto simp: number_end_def num_zero_def)
  then have "scan_value Num_int stk (d # t) = scan_value End_value stk (d # t)" by (simp only: scan_value.simps)
  then show ?case by (cases "scan_value End_value stk (d # t)") (auto simp del: scan_value.simps)
next
  case (Cons c x)
  then show ?case by (cases "scan_value End_value stk (d # t)") auto
qed

lemma scan_dec:
  assumes "number_end d" "st \<in> {Begin_value, Num_neg}"
  shows "scan_value st stk (dec n @ d # t) = map_option (\<lambda>(v, r). (dec n @ v, r)) (scan_value End_value stk (d # t))"
proof (cases "n = 0")
  case True
  have z: "dec 0 = ''0''" by (simp add: dec.simps [of 0] digit_def byte_val_eqI [of "CHR ''0''"])
  from assms(1) have "json_step Num_zero stk d = json_step End_value stk d" by (auto simp: number_end_def num_zero_def)
  moreover have "json_step st stk (CHR ''0'') = Go_on Num_zero stk" using assms(2) by (auto simp: begin_value_def json_space_def)
  ultimately show ?thesis using True
    by (cases "scan_value End_value stk (d # t)") (auto simp: z split: json_move.splits)
next
  case False
  then obtain k x where k: "dec n = digit k # x" "0 < k" "k < 10" using hd_dec by blast
  have b: "byte_val (digit k) = 48 + k" using k by (simp add: digit_value)
  then have ne: "digit k \<noteq> c" if "byte_val c < 49 \<or> 57 < byte_val c" for c using that k by auto
  have "json_step st stk (digit k) = Go_on Num_int stk"
    using k ne is_digit_digit [OF k(3)] assms(2) by (auto simp: begin_value_def json_space_def)
  moreover have "\<forall>c \<in> set x. is_digit c" using dec_digits [of _ n] k(1) by simp
  ultimately show ?thesis using scan_dec_digits [OF _ assms(1), of x stk t]
    by (cases "scan_value End_value stk (d # t)") (auto simp: k(1))
qed

lemma scan_int:
  assumes "number_end d"
  shows "scan_value Begin_value stk (int_text n @ d # t) =
    map_option (\<lambda>(v, r). (int_text n @ v, r)) (scan_value End_value stk (d # t))"
proof (cases "n < 0")
  case True
  have "json_step Begin_value stk (CHR ''-'') = Go_on Num_neg stk" by (simp add: begin_value_def json_space_def)
  with True scan_dec [OF assms, of Num_neg stk "nat (- n)" t] show ?thesis
    by (cases "scan_value End_value stk (d # t)") (auto simp: int_text_def)
next
  case False
  with scan_dec [OF assms, of Begin_value stk "nat n" t] show ?thesis by (simp add: int_text_def)
qed

lemma int_text_start: "int_text n = c # x \<Longrightarrow> c = CHR ''-'' \<or> is_digit c"
  using dec_digits [of c "nat n"] by (auto simp: int_text_def split: if_splits)

lemma int_text_nonempty [simp]: "int_text n \<noteq> []"
  by (simp add: int_text_def)

lemma read_int:
  assumes "number_end d" "\<not> json_space d"
  shows "read_value (int_text n @ d # t) = Some (int_text n, d # t)"
proof -
  obtain c x where c: "int_text n = c # x" by (cases "int_text n") simp_all
  then have "\<not> json_space c" using int_text_start [OF c] by (auto simp: json_space_def is_digit_def less_eq_char_def)
  then have "skip_spaces (int_text n @ d # t) = int_text n @ d # t" by (simp add: c)
  with scan_int [OF assms(1), of "[]" n t] show ?thesis by (simp add: read_value_def)
qed

lemma read_text: "valid_utf8 x \<Longrightarrow> read_value (quoted (json_text x) @ d # t) = Some (quoted (json_text x), d # t)"
  using scan_text [of x "[]" "d # t"] by (simp add: read_value_def quoted_def begin_value_def)

lemma atoi_int_text:
  assumes "- (2 ^ 63) \<le> n" "n < 2 ^ 63"
  shows "atoi (int_text n) = Some n"
proof (cases "n < 0")
  case True
  then have "atoi (int_text n) = Some (- int (nat (- n)))" using assms
    by (simp add: int_text_def atoi_def has_prefix_def Let_def)
  then show ?thesis using True by simp
next
  case False
  then show ?thesis using assms atoi_dec [of "nat n"] by (simp add: int_text_def nat_less_iff)
qed


text \<open>One field, read up to the byte \<open>d\<close>.\<close>

lemma result_member:
  assumes key: "\<forall>c \<in> set key. plain_char c"
    and val: "read_value (v @ d # s) = Some (v, d # s)" "set_result key v r = Some r'"
  shows "result_members initial r ((if initial then [] else '','') @ quoted key @ '':'' @ v @ d # s) =
    result_members False r' (d # s)"
proof -
  let ?pre = "if initial then [] else '',''"
  have q: "skip_spaces (quoted key @ t) = quoted key @ t" for t by (simp add: quoted_def)
  have "read_value (quoted key @ '':'' @ v @ d # s) = Some (quoted key, '':'' @ v @ d # s)"
    using read_quoted [OF key, of "CHR '':''"] by simp
  then have k: "read_key initial (?pre @ quoted key @ '':'' @ v @ d # s) = Some (key, '':'' @ v @ d # s)"
    using unmarshal_quoted [OF key] q by (simp add: read_key_def has_prefix_def) (simp add: quoted_def)
  have "more_members (?pre @ quoted key @ '':'' @ v @ d # s)" by (simp add: more_members_def quoted_def)
  moreover have "read_member_value ('':'' @ v @ d # s) = Some (v, d # s)"
    using val(1) by (simp add: read_member_value_def has_prefix_def)
  ultimately show ?thesis using k val(2)
    unfolding result_members.simps [of initial r "?pre @ quoted key @ '':'' @ v @ d # s"] by simp
qed

lemmas result_first = result_member [where initial = True, simplified]
lemmas result_next = result_member [where initial = False, simplified]

lemma result_keys: "\<forall>c \<in> set ''ExitCode''. plain_char c" "\<forall>c \<in> set ''Category''. plain_char c"
  "equal_fold ''ExitCode'' ''ExitCode''" "equal_fold ''Category'' ''Category''" "\<not> equal_fold ''Category'' ''ExitCode''"
  by (simp_all add: plain_char_def less_char_def less_eq_char_def equal_fold_def lower_char_def)

lemma int_text_value: "int_text n \<noteq> ''null''"
proof
  assume n: "int_text n = ''null''"
  with int_text_start [OF n] show False by (simp add: is_digit_def less_eq_char_def)
qed

text \<open>A result frame is read back: for every exit code of 64 bits and every category that is valid UTF-8.\<close>

lemma result_json:
  assumes "- (2 ^ 63) \<le> ExitCode r" "ExitCode r < 2 ^ 63" "valid_utf8 (Category r)"
  shows "decodeStrictJSON unmarshal_result (marshal_result r) = Some r"
proof -
  let ?n = "int_text (ExitCode r)" and ?c = "quoted (json_text (Category r))"
  obtain a x where a: "?n = a # x" by (cases ?n) simp_all
  have "?n \<noteq> ''null''" by (rule int_text_value)
  then have e: "set_result ''ExitCode'' ?n z = Some (z\<lparr>ExitCode := ExitCode r\<rparr>)" for z
    using int_text_start [OF a] atoi_int_text [OF assms(1,2)] unfolding a by (auto simp: set_result_def result_keys)
  have "?c \<noteq> ''null''" by (simp add: quoted_def)
  then have c: "set_result ''Category'' ?c z = Some (z\<lparr>Category := Category r\<rparr>)" for z
    using unmarshal_text [OF assms(3)] by (simp add: set_result_def result_keys)
  have j: "\<not> json_space (CHR '','')" "\<not> json_space (CHR 0x7D)" by simp_all
  let ?s2 = "CHR '','' # quoted ''Category'' @ CHR '':'' # ?c @ [CHR 0x7D]"
  have "result_members True (failed []) (quoted ''ExitCode'' @ CHR '':'' # ?n @ ?s2) =
      result_members False ((failed [])\<lparr>ExitCode := ExitCode r\<rparr>) ?s2"
    by (rule result_first) (use read_int [OF number_ends(1) j(1)] e result_keys in simp_all)
  also have "\<dots> = result_members False ((failed [])\<lparr>ExitCode := ExitCode r, Category := Category r\<rparr>) [CHR 0x7D]"
    by (rule result_next) (use read_text [OF assms(3)] c result_keys in simp_all)
  also have "\<dots> = Some r" by (simp add: result_members.simps more_members_def failed_def)
  finally have u: "unmarshal_result (marshal_result r) = Some r"
    by (simp add: unmarshal_result_def marshal_result_def has_prefix_def)
  have s1: "scan_value In_string stk (key @ CHR 0x22 # t) =
      map_option (\<lambda>(v, q). (key @ CHR 0x22 # v, q)) (scan_value End_value stk t)"
    if "\<forall>c \<in> set key. plain_char c" for key stk t
    using scan_raw [of key stk "CHR 0x22 # t"] that
    by (cases "scan_value End_value stk t") (auto simp: string_byte_def plain_facts)
  have "scan_value Begin_value [] (marshal_result r) = Some (marshal_result r, [])"
    using scan_int [OF number_ends(1), of "[In_val]" "ExitCode r"] scan_text [OF assms(3), of "[In_val]" "[CHR 0x7D]"]
    by (simp add: marshal_result_def quoted_def begin_value_def begin_key_def s1 [OF result_keys(1), simplified]
        s1 [OF result_keys(2), simplified] json_pop_def)
  then have "read_value (marshal_result r) = Some (marshal_result r, [])"
    by (simp add: read_value_def) (simp add: marshal_result_def)
  with u show ?thesis by (simp add: decodeStrictJSON_def skip_spaces_def)
qed

end
