(* ===== verification/Controlled_Run.thy ===== *)
theory Controlled_Run
  imports Client Runner Control_Json
begin

text \<open>
  A command that a client runs through the master: the function \<open>execute\<close> of \<open>serveReady\<close>
  (\<open>internal/control/master_unix.go\<close>), the worker's writers on the connection (\<open>server.go\<close>), the result frame
  and the client that reads both.  The decoders of code pages are parameters: \<open>charmap\<close> is \<open>transform.NewWriter\<close>
  with the decoder of a code page.
\<close>

subsection \<open>Writers that agree\<close>

lemma both_errors [simp]: "errors_join [a, b] = None \<longleftrightarrow> a = None \<and> b = None"
  by (simp add: errors_join_None_iff)

text \<open>As long as the first writer does not fail, the second writes the same.\<close>

definition writer_sim :: "('o \<Rightarrow> 'p \<Rightarrow> bool) \<Rightarrow> 'o writer \<Rightarrow> 'p writer \<Rightarrow> bool" where
  "writer_sim R wr wr' \<longleftrightarrow> (\<forall>p u v n u'. R u v \<longrightarrow> wr p u = (n, None, u') \<longrightarrow> (\<exists>v'. wr' p v = (n, None, v') \<and> R u' v'))"

lemma writer_simD:
  "writer_sim R wr wr' \<Longrightarrow> R u v \<Longrightarrow> wr p u = (n, None, u') \<Longrightarrow> \<exists>v'. wr' p v = (n, None, v') \<and> R u' v'"
  by (simp add: writer_sim_def)

text \<open>The output of a command that ends without an error depends on its writers only through what they accept.\<close>

locale agreeing_writers =
  fixes R :: "'o \<Rightarrow> 'p \<Rightarrow> bool" and out :: "'o writer" and err :: "'o writer" and out' :: "'p writer" and err' :: "'p writer"
  assumes outs: "writer_sim R out out'" and errs: "writer_sim R err err'"
begin

lemma write_streams_sim:
  "write_streams out err ss u = (None, u1) \<Longrightarrow> R u v \<Longrightarrow> \<exists>v1. write_streams out' err' ss v = (None, v1) \<and> R u1 v1"
proof (induction ss arbitrary: u v)
  case (Cons a ss)
  obtain nam enc where a: "a = (nam, enc)" by fastforce
  from Cons.prems(1) obtain data n u2 where d: "b64_decode False enc = Some data" "\<not> (nam \<noteq> ''stdout'' \<and> nam \<noteq> ''stderr'')"
    "(if nam = ''stdout'' then out else err) data u = (n, None, u2)" "n = length data" "write_streams out err ss u2 = (None, u1)"
    by (simp add: a split: option.splits if_splits prod.splits)
  have "writer_sim R (if nam = ''stdout'' then out else err) (if nam = ''stdout'' then out' else err')"
    using outs errs by simp
  from writer_simD [OF this Cons.prems(2) d(3)] obtain v2 where
    v: "(if nam = ''stdout'' then out' else err') data v = (n, None, v2)" "R u2 v2" by blast
  from Cons.IH [OF d(5) v(2)] d(1,2,4) v(1) show ?case by (simp add: a)
qed simp

lemma resp_receive_sim:
  "resp_receive out err r u = (Inr x, u1) \<Longrightarrow> R u v \<Longrightarrow> \<exists>v1. resp_receive out' err' r v = (Inr x, v1) \<and> R u1 v1"
  using write_streams_sim [of _ u u1 v]
  by (fastforce simp: resp_receive_def split: option.splits if_splits prod.splits)

lemma receive_poll_sim:
  assumes "receive_poll b s lane out err ctx (w, u) = (x, w1, u1)" "\<forall>e. x \<noteq> Some (Inl e)" "R u v"
  shows "\<exists>v1. receive_poll b s lane out' err' ctx (w, v) = (x, w1, v1) \<and> R u1 v1"
  using assms resp_receive_sim [of _ u _ u1 v]
  by (fastforce simp: receive_poll_def split: option.splits sum.splits prod.splits if_splits)

definition loop_agrees :: "builders \<Rightarrow> session \<Rightarrow> 'w post \<Rightarrow> 'w ctx \<Rightarrow> 'w \<times> 'o \<Rightarrow> (goerr + nat) \<times> 'w \<times> 'o \<Rightarrow> bool" where
  "loop_agrees b s lane ctx wu y \<longleftrightarrow>
     (\<forall>rc w1 u1 v. y = (Inr rc, w1, u1) \<longrightarrow> R (snd wu) v \<longrightarrow>
        (\<exists>v1. receiveLoop b s lane out' err' ctx (fst wu, v) = Some (Inr rc, w1, v1) \<and> R u1 v1))"

lemma loop_step:
  assumes "receive_poll b s lane out err ctx (w, u) = (r, w2, u2)"
    and "case r of None \<Rightarrow> loop_agrees b s lane ctx (w2, u2) y | Some x \<Rightarrow> y = (x, w2, u2)"
  shows "loop_agrees b s lane ctx (w, u) y"
  unfolding loop_agrees_def
proof (intro allI impI)
  fix rc w1 u1 v assume y: "y = (Inr rc, w1, u1)" and v: "R (snd (w, u)) v"
  have "\<forall>e. r \<noteq> Some (Inl e)" using assms(2) y by auto
  with receive_poll_sim [OF assms(1)] v obtain v2 where
    v2: "receive_poll b s lane out' err' ctx (w, v) = (r, w2, v2)" "R u2 v2" by auto
  show "\<exists>v1. receiveLoop b s lane out' err' ctx (fst (w, u), v) = Some (Inr rc, w1, v1) \<and> R u1 v1"
  proof (cases r)
    case None
    with assms(2) y v2 obtain v1 where "receiveLoop b s lane out' err' ctx (w2, v2) = Some (Inr rc, w1, v1)" "R u1 v1"
      by (auto simp: loop_agrees_def)
    then show ?thesis using v2 None by (subst receiveLoop.simps) simp
  next
    case (Some x)
    with assms(2) y v2 show ?thesis by (subst receiveLoop.simps) simp
  qed
qed

lemma loop_sim_writers:
  assumes "receiveLoop b s lane o1 e1 ctx wu = Some y"
  shows "o1 = out \<and> e1 = err \<longrightarrow> loop_agrees b s lane ctx wu y"
proof (rule receiveLoop.raw_induct [where P = "\<lambda>b s lane o1 e1 ctx wu y. o1 = out \<and> e1 = err \<longrightarrow> loop_agrees b s lane ctx wu y",
      OF _ assms])
  fix f :: "builders \<Rightarrow> session \<Rightarrow> 'w post \<Rightarrow> 'o writer \<Rightarrow> 'o writer \<Rightarrow> 'w ctx \<Rightarrow> 'w \<times> 'o \<Rightarrow> _"
  fix b s lane o1 e1 ctx wu y
  assume IH: "\<And>b s lane o1 e1 ctx wu y. f b s lane o1 e1 ctx wu = Some y \<Longrightarrow>
      o1 = out \<and> e1 = err \<longrightarrow> loop_agrees b s lane ctx wu y"
    and body: "(let r = receive_poll b s lane o1 e1 ctx wu in
      if fst r = None then f b s lane o1 e1 ctx (snd r) else Some (the (fst r), snd r)) = Some y"
  show "o1 = out \<and> e1 = err \<longrightarrow> loop_agrees b s lane ctx wu y"
  proof
    assume o: "o1 = out \<and> e1 = err"
    obtain w u r w' u' where p: "wu = (w, u)" "receive_poll b s lane out err ctx (w, u) = (r, w', u')" by (metis surj_pair)
    have "case r of None \<Rightarrow> loop_agrees b s lane ctx (w', u') y | Some x \<Rightarrow> y = (x, w', u')"
      using body IH [of b s lane out err ctx "(w', u')" y] o p by (auto split: option.splits)
    with loop_step [OF p(2)] p(1) show "loop_agrees b s lane ctx wu y" by simp
  qed
qed

lemma session_receive_sim:
  assumes "session_receive b s lane out err ctx early (w, u) = Some (Inr rc, w1, u1)" "R u v"
  shows "\<exists>v1. session_receive b s lane out' err' ctx early (w, v) = Some (Inr rc, w1, v1) \<and> R u1 v1"
proof -
  from assms(1) have l: "receiveLoop b s lane out err ctx (w, u) = Some (Inr rc, w1, u1)"
    and e: "(if early then ctx w1 else None) = None"
    by (auto simp: session_receive_def split: option.splits prod.splits if_splits)
  from loop_sim_writers [OF l] assms(2) obtain v1 where
    "receiveLoop b s lane out' err' ctx (w, v) = Some (Inr rc, w1, v1)" "R u1 v1" by (auto simp: loop_agrees_def)
  with e show ?thesis by (simp add: session_receive_def)
qed

lemma run_session_sim:
  assumes "run_session b s command cleanup fallback par out err w u = Some ((code, None, ce), w1, u1)" "R u v"
  shows "\<exists>v1. run_session b s command cleanup fallback par out' err' w v = Some ((code, None, ce), w1, v1) \<and> R u1 v1"
proof -
  obtain e w2 where s: "session_send b s command False (run_ctx par) [] True w = (e, w2)" by fastforce
  with assms(1) have e: "e = None"
    by (cases e) (auto simp: run_session_def Let_def split: prod.splits)
  with s assms(1) obtain rc w3 u3 where r: "session_receive b s command out err (run_ctx par) (run_early par) (w2, u) = Some (Inr rc, w3, u3)"
    by (auto simp: run_session_def Let_def split: prod.splits option.splits sum.splits)
  from session_receive_sim [OF r assms(2)] obtain v3 where
    v: "session_receive b s command out' err' (run_ctx par) (run_early par) (w2, v) = Some (Inr rc, w3, v3)" "R u3 v3" by blast
  with s e r assms(1) show ?thesis by (auto simp: run_session_def Let_def split: prod.splits)
qed

lemma RunWithPosters_sim:
  assumes "RunWithPosters env b req i j par out err w u = Some ((code, None), w1, u1)" "R u v"
  shows "\<exists>v1. RunWithPosters env b req i j par out' err' w v = Some ((code, None), w1, v1) \<and> R u1 v1"
proof -
  let ?cmd = "persistent_post env i" and ?cln = "persistent_post env j"
  from assms(1) have r: "runWithPosters b req (Some ?cmd) (Some ?cln) None par out err w u = Some ((code, None, None), w1, u1)"
    by (auto simp: RunWithPosters_def split: option.splits prod.splits)
  then obtain s w2 where s: "startSessionLanes b req ?cmd ?cln None (run_ctx par) (run_budget par) w = (Inr s, w2)"
    "run_session b s ?cmd ?cln None par out err w2 u = Some ((code, None, None), w1, u1)"
    by (auto simp: runWithPosters_def split: prod.splits sum.splits)
  from run_session_sim [OF s(2) assms(2)] s(1) show ?thesis by (auto simp: RunWithPosters_def runWithPosters_def)
qed

end

subsection \<open>The master's side\<close>

text \<open>\<open>decodeWriters\<close>: the output of \<open>cmd\<close> in one of the two code pages is decoded on its way.\<close>

definition decodeWriters :: "(bytes \<Rightarrow> 'o writer \<Rightarrow> 'o writer) \<Rightarrow> request \<Rightarrow> 'o writer \<Rightarrow> 'o writer" where
  "decodeWriters charmap req wr =
     (if req_powershell req then wr
      else if req_codepage req = ''866'' then charmap ''866'' wr
      else if req_codepage req = ''1251'' then charmap ''1251'' wr else wr)"

text \<open>The request that \<open>execute\<close> builds from a call.\<close>

definition serve_request :: "identity \<Rightarrow> call \<Rightarrow> request" where
  "serve_request own c = \<lparr>req_endpoint = id_endpoint own, req_command = call_command c, req_codepage = call_codepage c,
     req_powershell = call_powershell c\<rparr>"

definition serve_execute ::
  "'n net_env \<Rightarrow> builders \<Rightarrow> (bytes \<Rightarrow> 'o writer \<Rightarrow> 'o writer) \<Rightarrow> identity \<Rightarrow> nat \<Rightarrow> nat \<Rightarrow> 'n world run_params \<Rightarrow> call \<Rightarrow>
   'o writer \<Rightarrow> 'o writer \<Rightarrow> 'n world \<Rightarrow> 'o \<Rightarrow> ((nat \<times> goerr option) \<times> 'n world \<times> 'o) option" where
  "serve_execute nw b charmap own i j par c out err w u =
     (let req = serve_request own c in
      RunWithPosters nw b req i j par (decodeWriters charmap req out) (decodeWriters charmap req err) w u)"

text \<open>\<open>framedWriter\<close> over a connection; the second part of the state says whether the job was cancelled.\<close>

definition framed :: "'s writer \<Rightarrow> frame_type \<Rightarrow> ('s \<times> bool) writer" where
  "framed conn kind data u =
     (case u of (s, cancelled) \<Rightarrow>
      case framedWriter_Write conn kind data s of (n, e, c, s') \<Rightarrow> (n, e, s', cancelled \<or> c))"

text \<open>The worker runs the command of a started job and its handler writes the result.  The job's context is alive
  at the start and its target is the master's, as \<open>handle\<close> has checked.\<close>

definition serve_command ::
  "'n net_env \<Rightarrow> builders \<Rightarrow> (bytes \<Rightarrow> ('s \<times> bool) writer \<Rightarrow> ('s \<times> bool) writer) \<Rightarrow> identity \<Rightarrow> nat \<Rightarrow> nat \<Rightarrow>
   'n world run_params \<Rightarrow> 's writer \<Rightarrow> call \<Rightarrow> 'n world \<Rightarrow> 's \<Rightarrow> (control_result \<times> goerr option \<times> 's \<times> 'n world) option" where
  "serve_command nw b charmap own i j par conn c w s =
     (case serve_execute nw b charmap own i j par c (framed conn frameStdout) (framed conn frameStderr) w (s, False) of
        None \<Rightarrow> None
      | Some ((rc, e), w', (s', _)) \<Rightarrow>
          (let result = fst (run_outcome \<lparr>Server.run_env.run_ctx = None, run_same = True, run_rc = int rc, run_err = e\<rparr>) in
           case writeJSONFrame conn frameResult (Some (marshal_result result)) s' of
             (write_err, s'') \<Rightarrow> Some (result, write_err, s'', w')))"

text \<open>Two buffers in the place of the connection.\<close>

definition keep_stdout :: "(bytes \<times> bytes) writer" where
  "keep_stdout p u = (length p, None, fst u @ p, snd u)"

definition keep_stderr :: "(bytes \<times> bytes) writer" where
  "keep_stderr p u = (length p, None, fst u, snd u @ p)"

subsection \<open>The connection\<close>

text \<open>The frames on the connection carry what the two buffers hold.\<close>

definition carries :: "('s \<Rightarrow> bytes) \<Rightarrow> 's \<times> bool \<Rightarrow> bytes \<times> bytes \<Rightarrow> bool" where
  "carries written u v \<longleftrightarrow>
     (\<exists>fs. written (fst u) = concat (map frame_bytes fs) \<and> (\<forall>f \<in> set fs. fst f \<in> {frameStdout, frameStderr} \<and> frame_ok f) \<and>
        stream_of frameStdout fs = fst v \<and> stream_of frameStderr fs = snd v)"

lemma stream_of_append: "stream_of kind (fs @ gs) = stream_of kind fs @ stream_of kind gs"
  by (simp add: stream_of_def)

lemma stream_of_same: "\<forall>f \<in> set fs. fst f = kind \<Longrightarrow> stream_of k fs = (if k = kind then concat (map snd fs) else [])"
  by (induction fs) auto

lemma carries_more:
  assumes "io_writer conn written" "carries written u v" "framed conn kind data u = (n, None, u')"
    and "kind \<in> {frameStdout, frameStderr}"
  shows "n = length data \<and> carries written u' (if kind = frameStdout then (fst v @ data, snd v) else (fst v, snd v @ data))"
proof -
  obtain s c s' c' where u: "u = (s, c)" "u' = (s', c')" by fastforce
  with assms(3) obtain d where w: "framed_write conn kind data (length data) s = (n, None, d, s')"
    by (auto simp: framed_def framedWriter_Write_def split: prod.splits)
  from io_writer.framed_write_ok [OF assms(1) w] obtain gs where g: "n = length data"
    "written s' = written s @ concat (map frame_bytes gs)" "concat (map snd gs) = data"
    "\<forall>f \<in> set gs. fst f = kind \<and> frame_ok f" by blast
  obtain fs where f: "written s = concat (map frame_bytes fs)" "\<forall>f \<in> set fs. fst f \<in> {frameStdout, frameStderr} \<and> frame_ok f"
    "stream_of frameStdout fs = fst v" "stream_of frameStderr fs = snd v"
    using assms(2) by (auto simp: carries_def u)
  have k: "\<forall>f \<in> set gs. fst f = kind" using g(4) by blast
  have ne: "frameStdout \<noteq> frameStderr" by (simp add: frame_types)
  have "written s' = concat (map frame_bytes (fs @ gs))" using f(1) g(2) by simp
  moreover have "\<forall>f \<in> set (fs @ gs). fst f \<in> {frameStdout, frameStderr} \<and> frame_ok f" using f(2) g(4) assms(4) by auto
  ultimately have "carries written u' (stream_of frameStdout (fs @ gs), stream_of frameStderr (fs @ gs))"
    unfolding carries_def u fst_conv snd_conv by blast
  then show ?thesis using g(1,3) f(3,4) stream_of_same [OF k] ne assms(4) by (auto simp: stream_of_append)
qed

lemma framed_keeps:
  assumes "io_writer conn written"
  shows "writer_sim (carries written) (framed conn frameStdout) keep_stdout"
    and "writer_sim (carries written) (framed conn frameStderr) keep_stderr"
  using carries_more [OF assms] frame_types
  by (fastforce simp: writer_sim_def keep_stdout_def keep_stderr_def)+

text \<open>The frames on any connection that keeps the contract agree with the two buffers.\<close>

sublocale io_writer \<subseteq> kept: agreeing_writers "carries written" "framed wr frameStdout" "framed wr frameStderr" keep_stdout keep_stderr
  by (intro agreeing_writers.intro framed_keeps io_writer_axioms)

interpretation buffered: agreeing_writers "carries (\<lambda>b. b)" "framed buffer_write frameStdout" "framed buffer_write frameStderr"
    keep_stdout keep_stderr
  by (rule buffer.kept.agreeing_writers_axioms)

subsection \<open>The client's side\<close>

text \<open>A client whose context is alive all the time and whose writers accept everything.\<close>

definition patient :: "(nat \<Rightarrow> turn) \<Rightarrow> bool" where
  "patient turns \<longleftrightarrow> (\<forall>k. turn_ctx (turns k) = None \<and> turn_abandoned (turns k) = None \<and>
     (\<forall>p. turn_write (turns k) p = (length p, None)))"

lemma client_reads:
  assumes "patient turns"
  shows "\<forall>f \<in> set fs. fst f \<in> {frameStdout, frameStderr} \<and> frame_ok f \<Longrightarrow>
    client_loop js turns k (concat (map frame_bytes fs) @ rest, e) out err =
    client_loop js turns (k + length fs) (rest, e) (out @ stream_of frameStdout fs) (err @ stream_of frameStderr fs)"
proof (induction fs arbitrary: k out err)
  case (Cons f fs)
  obtain kind p where f: "f = (kind, p)" by fastforce
  have r: "readFrame (frame_bytes f @ concat (map frame_bytes fs) @ rest, e) = Inr (f, concat (map frame_bytes fs) @ rest, e)"
    using Cons.prems by (intro readFrame_frame) simp
  have "kind = frameStdout \<or> kind = frameStderr" using Cons.prems f by simp
  then have "client_loop js turns k (frame_bytes f @ concat (map frame_bytes fs) @ rest, e) out err =
    client_loop js turns (k + 1) (concat (map frame_bytes fs) @ rest, e)
      (if kind = frameStdout then out @ p else out) (if kind = frameStderr then err @ p else err)"
    using assms r f by (simp add: client_loop.simps [of js turns k "(frame_bytes (kind, p) @ concat (map frame_bytes fs) @ rest, e)"]
        patient_def Let_def)
  with Cons f show ?case by simp
qed simp

lemma client_result:
  assumes "patient turns" "frame_ok (frameResult, payload)" "decode_result js payload = Some res"
    and "0 \<le> ExitCode res" "ExitCode res < 2 ^ 32" "Category res = []"
  shows "client_loop js turns k (frame_bytes (frameResult, payload) @ rest, e) out err = (Inr res, out, err)"
proof -
  have "frameResult \<noteq> frameStdout" "frameResult \<noteq> frameStderr" by (simp_all add: frame_types)
  moreover have "readFrame (frame_bytes (frameResult, payload) @ rest, e) = Inr ((frameResult, payload), rest, e)"
    by (rule readFrame_frame [OF assms(2)])
  ultimately show ?thesis using assms
    by (simp add: client_loop.simps [of js turns k "(frame_bytes (frameResult, payload) @ rest, e)"] patient_def)
qed

subsection \<open>Equivalence\<close>

text \<open>The decoders of a code page do not depend on the writer behind them.\<close>

definition uniform_charmap ::
  "('o \<Rightarrow> 'p \<Rightarrow> bool) \<Rightarrow> (bytes \<Rightarrow> 'o writer \<Rightarrow> 'o writer) \<Rightarrow> (bytes \<Rightarrow> 'p writer \<Rightarrow> 'p writer) \<Rightarrow> bool" where
  "uniform_charmap R charmap charmap' \<longleftrightarrow>
     (\<forall>page wr wr'. writer_sim R wr wr' \<longrightarrow> writer_sim R (charmap page wr) (charmap' page wr'))"

lemma decodeWriters_sim:
  "uniform_charmap R charmap charmap' \<Longrightarrow> writer_sim R wr wr' \<Longrightarrow>
   writer_sim R (decodeWriters charmap req wr) (decodeWriters charmap' req wr')"
  by (simp add: decodeWriters_def uniform_charmap_def)

lemma RunWithPosters_conversation:
  assumes "RunWithPosters env b req i j par out err w u = Some ((code, None), w', u')"
  shows "code < 2 ^ 32 \<and> (\<exists>shell cid t. transcript_ok b req shell cid t \<and> wire w' = wire w @ transcript_msgs b req shell cid t \<and>
    t_create t \<noteq> [] \<and> t_command t \<noteq> [] \<and> 0 < t_polls t \<and> t_delete t \<noteq> [])"
proof -
  from assms have "runWithPosters b req (Some (persistent_post env i)) (Some (persistent_post env j)) None par out err w u =
      Some ((code, None, None), w', u')" by (auto simp: RunWithPosters_def split: option.splits prod.splits)
  from lanes.ran [of b req env i j None, simplified, OF this] obtain shell cid t where
    t: "transcript_ok b req shell cid t" "wire w' = wire w @ transcript_msgs b req shell cid t"
      "outcome_ok t (code, None, None)" by blast
  from t(3) have "code < 2 ^ 32" "t_send t \<noteq> []" "0 < t_polls t" "t_create t = [] \<or> t_delete t \<noteq> []"
    by (auto simp: outcome_ok_def)
  moreover from t(1) this(2) have "t_create t \<noteq> [] \<and> t_command t \<noteq> []" by (auto simp: transcript_ok_def)
  ultimately show ?thesis using t(1,2) by blast
qed

lemma served:
  assumes "serve_command nw b charmap own i j par conn c w s = Some (result, None, s'', w')" "Category result = []"
  obtains rc s' cancelled where "result = \<lparr>ExitCode = int rc, Category = []\<rparr>"
    and "RunWithPosters nw b (serve_request own c) i j par (decodeWriters charmap (serve_request own c) (framed conn frameStdout))
      (decodeWriters charmap (serve_request own c) (framed conn frameStderr)) w (s, False) = Some ((rc, None), w', s', cancelled)"
    and "writeFrame conn frameResult (marshal_result result) s' = (None, s'')"
proof -
  from assms(1) obtain rc e s' cancelled where
    r: "serve_execute nw b charmap own i j par c (framed conn frameStdout) (framed conn frameStderr) w (s, False) =
      Some ((rc, e), w', s', cancelled)"
    "result = fst (run_outcome \<lparr>Server.run_env.run_ctx = None, run_same = True, run_rc = int rc, run_err = e\<rparr>)"
    "writeFrame conn frameResult (marshal_result result) s' = (None, s'')"
    by (auto simp: serve_command_def writeJSONFrame_def Let_def split: option.splits prod.splits)
  with assms(2) have "e = None" "result = \<lparr>ExitCode = int rc, Category = []\<rparr>"
    by (auto simp: run_outcome_def split: option.splits)
  note ok = this
  from r(1) ok(1) have "RunWithPosters nw b (serve_request own c) i j par (decodeWriters charmap (serve_request own c) (framed conn frameStdout))
      (decodeWriters charmap (serve_request own c) (framed conn frameStderr)) w (s, False) = Some ((rc, None), w', s', cancelled)"
    by (simp add: serve_execute_def Let_def)
  from ok(2) this r(3) show thesis by (rule that)
qed

lemma run_through_master:
  assumes "io_writer conn written" "written s = []"
    and "serve_command nw b charmap own i j par conn c w s = Some (result, None, s', w')" "Category result = []"
    and "uniform_charmap (carries written) charmap charmap'"
    and "patient turns" "validateCall c = None" "decode_result js = decodeStrictJSON unmarshal_result"
  shows "\<exists>rc out err. result = \<lparr>ExitCode = int rc, Category = []\<rparr> \<and>
    serve_execute nw b charmap' own i j par c keep_stdout keep_stderr w ([], []) = Some ((rc, None), w', out, err) \<and>
    invokeConn js turns c True None None (written s', e) = (Inr result, out, err)"
proof -
  let ?req = "serve_request own c"
  from assms(3,4) obtain rc s1 cancelled where r: "result = \<lparr>ExitCode = int rc, Category = []\<rparr>"
    "RunWithPosters nw b ?req i j par (decodeWriters charmap ?req (framed conn frameStdout))
      (decodeWriters charmap ?req (framed conn frameStderr)) w (s, False) = Some ((rc, None), w', s1, cancelled)"
    "writeFrame conn frameResult (marshal_result result) s1 = (None, s')" by (rule served)
  have agree: "agreeing_writers (carries written) (decodeWriters charmap ?req (framed conn frameStdout))
      (decodeWriters charmap ?req (framed conn frameStderr)) (decodeWriters charmap' ?req keep_stdout)
      (decodeWriters charmap' ?req keep_stderr)"
    using decodeWriters_sim [OF assms(5)] framed_keeps [OF assms(1)] by (intro agreeing_writers.intro) blast+
  have "carries written (s, False) ([], [])" unfolding carries_def by (rule exI [of _ "[]"]) (simp add: assms(2))
  from agreeing_writers.RunWithPosters_sim [OF agree r(2) this] obtain out err where
    o: "serve_execute nw b charmap' own i j par c keep_stdout keep_stderr w ([], []) = Some ((rc, None), w', out, err)"
      "carries written (s1, cancelled) (out, err)"
    by (auto simp: serve_execute_def Let_def)
  then obtain fs where fs: "written s1 = concat (map frame_bytes fs)" "\<forall>f \<in> set fs. fst f \<in> {frameStdout, frameStderr} \<and> frame_ok f"
    "stream_of frameStdout fs = out" "stream_of frameStderr fs = err" by (auto simp: carries_def)
  from io_writer.writeFrame_ok [OF assms(1) r(3)] have last: "frame_ok (frameResult, marshal_result result)"
    "written s' = concat (map frame_bytes fs) @ frame_bytes (frameResult, marshal_result result) @ []" by (simp_all add: fs(1))
  have code: "rc < 2 ^ 32" using RunWithPosters_conversation [OF r(2)] by blast
  then have "decode_result js (marshal_result result) = Some result"
    unfolding assms(8) by (intro result_json) (simp_all add: r(1) valid_utf8.simps)
  then have "client_loop js turns (0 + length fs) (frame_bytes (frameResult, marshal_result result) @ [], e) out err = (Inr result, out, err)"
    using code last(1) assms(6) by (intro client_result) (simp_all add: r(1))
  then have "client_loop js turns 0 (written s', e) [] [] = (Inr result, out, err)"
    unfolding last(2) client_reads [OF assms(6) fs(2)] by (simp add: fs(3,4))
  then show ?thesis using r(1) o(1) assms(7) by (auto simp: invokeConn_def)
qed

text \<open>C11: Running a command through the master is the same as running it on the master's lanes with two buffers as its
  output: when the worker ends without an error and its frames and the result are written to the connection, the
  same run with the buffers gives the same exit code and leaves the same lanes, and a client that reads
  the connection returns this exit code after writing to its two outputs exactly what the buffers hold.  Framing,
  the JSON of the result and the order in which the two streams are interleaved have no effect on this.\<close>

theorem controlled_run_equivalent:
  assumes "io_writer conn written" "written s = []"
    and "serve_command nw b charmap own i j par conn c w s = Some (result, None, s', w')" "Category result = []"
    and "uniform_charmap (carries written) charmap charmap'"
    and "patient turns" "validateCall c = None" "decode_result js = decodeStrictJSON unmarshal_result"
  shows "\<exists>rc out err. result = \<lparr>ExitCode = int rc, Category = []\<rparr> \<and>
    serve_execute nw b charmap' own i j par c keep_stdout keep_stderr w ([], []) = Some ((rc, None), w', out, err) \<and>
    invokeConn js turns c True None None (written s', e) = (Inr result, out, err)"
  using assms by (rule run_through_master)

subsection \<open>A concrete run\<close>

lemma buffer_all: "control_writeAll buffer_write p s = (None, s @ p)"
  by (simp add: control_writeAll.simps [of buffer_write p s] control_writeAll.simps [of buffer_write "[]"] buffer_write_def)

lemma buffer_frame: "frame_ok (kind, p) \<Longrightarrow> writeFrame buffer_write kind p s = (None, s @ frame_bytes (kind, p))"
  by (simp add: writeFrame_def frame_ok_def buffer_all frame_bytes_def)

definition said_bodies :: "bytes list" where
  "said_bodies = [''created'', ''started'', ''accepted'', ''said'', ''done'', ''deleted'']"

definition said_call :: call where
  "said_call = sample_call\<lparr>call_command := ''dir''\<rparr>"

definition said_identity :: identity where
  "said_identity = \<lparr>id_endpoint = ''https://h:5986/wsman'', id_user = ''u'', id_host = [], id_trust = []\<rparr>"

lemma said_request: "serve_request said_identity said_call = script_request"
  by (simp add: serve_request_def said_identity_def said_call_def sample_call_def script_request_def)

abbreviation hi_frame :: bytes where
  "hi_frame \<equiv> frame_bytes (frameStdout, ''hi'')"

lemma said_polls:
  "receiveLoop script_builders script_session (persistent_post script_env 0) (framed buffer_write frameStdout)
     (framed buffer_write frameStderr) (\<lambda>w. None) (script_world (''said'' # ''done'' # bs) ms, [], False) =
   Some (Inr 0, script_world bs (ms @ [(0, ''receive''), (0, ''receive'')]), hi_frame, False)"
proof -
  let ?out = "framed buffer_write frameStdout" and ?err = "framed buffer_write frameStderr"
  have d: "b64_decode False ''aGk='' = Some ''hi''" by code_simp
  have f: "?out ''hi'' ([], False) = (2, None, hi_frame, False)" by (simp add: framed_def frame_eval)
  have n: "''running'' \<noteq> done_state" by (simp add: done_state_def wsShell_def)
  have "receive_poll script_builders script_session (persistent_post script_env 0) ?out ?err (\<lambda>w. None)
     (script_world (''said'' # ''done'' # bs) ms, [], False) =
     (None, script_world (''done'' # bs) (ms @ [(0, ''receive'')]), hi_frame, False)"
    using n by (simp add: receive_poll_def script_reads script_defs resp_receive_def d f)
  moreover have "receive_poll script_builders script_session (persistent_post script_env 0) ?out ?err (\<lambda>w. None)
     (script_world (''done'' # bs) (ms @ [(0, ''receive'')]), hi_frame, False) =
     (Some (Inr 0), script_world bs (ms @ [(0, ''receive''), (0, ''receive'')]), hi_frame, False)"
    by (simp add: receive_poll_def script_reads script_defs resp_receive_def script_done)
  ultimately show ?thesis
    by (simp add: receiveLoop.simps [of _ _ _ _ _ _ "(script_world (''said'' # ''done'' # bs) ms, [], False)"]
      receiveLoop.simps [of _ _ _ _ _ _ "(script_world (''done'' # bs) (ms @ [(0, ''receive'')]), hi_frame, False)"])
qed

lemma said_served:
  assumes "serve_request said_identity c = script_request"
  shows "\<exists>s' w'. serve_command script_env script_builders (\<lambda>page wr. wr) said_identity 0 1 script_params buffer_write c
     (script_world said_bodies []) [] = Some (failed [], None, s', w')"
proof -
  have p: "Session.run_params.run_ctx script_params = (\<lambda>w. None)" "run_budget script_params = (\<lambda>w. None)"
    "run_early script_params = False" "run_joined script_params = True" by (simp_all add: script_params_def)
  have c: "decodeWriters (\<lambda>page wr. wr) script_request wr = wr" for wr :: "(bytes \<times> bool) writer"
    by (simp add: decodeWriters_def)
  have "dec 0 = ''0''" by (simp add: dec.simps [of 0] digit_def byte_val_eqI [of "CHR ''0''"])
  then have "frame_ok (frameResult, marshal_result (failed []))"
    by (simp add: frame_ok_def validFrameType_def frame_types maxFramePayload_def marshal_result_def quoted_def
        int_text_def failed_def json_text.simps)
  then have w: "writeJSONFrame buffer_write frameResult (Some (marshal_result (failed []))) s =
      (None, s @ frame_bytes (frameResult, marshal_result (failed [])))" for s
    by (simp add: writeJSONFrame_def buffer_frame)
  have "\<exists>w'. RunWithPosters script_env script_builders script_request 0 1 script_params (framed buffer_write frameStdout)
      (framed buffer_write frameStderr) (script_world said_bodies []) ([], False) = Some ((0, None), w', hi_frame, False)"
    by (simp add: RunWithPosters_def runWithPosters_def p said_bodies_def script_opens run_session_def Let_def script_sends
        session_receive_def said_polls script_closes)
  then show ?thesis
    by (auto simp: serve_command_def serve_execute_def assms c Let_def run_outcome_def w failed_def [symmetric])
qed

theorem controlled_run_equivalent_witness:
  "\<exists>rc w' out err s'. serve_execute script_env script_builders (\<lambda>page wr. wr) said_identity 0 1 script_params said_call
       keep_stdout keep_stderr (script_world said_bodies []) ([], []) = Some ((rc, None), w', out, err) \<and>
     fst (invokeConn (sample_codec\<lparr>decode_result := decodeStrictJSON unmarshal_result\<rparr>) (\<lambda>k. sample_turn) said_call True
       None None (s', Sentinel IoEOF)) = Inr (failed [])"
proof -
  obtain s' w' where s: "serve_command script_env script_builders (\<lambda>page wr. wr) said_identity 0 1 script_params buffer_write
      said_call (script_world said_bodies []) [] = Some (failed [], None, s', w')" using said_served [OF said_request] by blast
  have u: "uniform_charmap (carries (\<lambda>b. b)) (\<lambda>page wr. wr) (\<lambda>page wr. wr)" by (simp add: uniform_charmap_def)
  have t: "patient (\<lambda>k. sample_turn)" by (simp add: patient_def sample_turn_def)
  have c: "validateCall said_call = None"
    using ascii_utf8 [of "''dir''"] by (simp add: validateCall_def said_call_def sample_call_def)
  have j: "decode_result (sample_codec\<lparr>decode_result := decodeStrictJSON unmarshal_result\<rparr>) = decodeStrictJSON unmarshal_result"
    by simp
  have n: "Category (failed []) = []" by simp
  from controlled_run_equivalent [OF buffer.io_writer_axioms refl s n u t c j, of "Sentinel IoEOF"] obtain rc out err where
    "serve_execute script_env script_builders (\<lambda>page wr. wr) said_identity 0 1 script_params said_call keep_stdout keep_stderr
      (script_world said_bodies []) ([], []) = Some ((rc, None), w', out, err)"
    "invokeConn (sample_codec\<lparr>decode_result := decodeStrictJSON unmarshal_result\<rparr>) (\<lambda>k. sample_turn) said_call True
      None None (s', Sentinel IoEOF) = (Inr (failed []), out, err)" by blast
  then show ?thesis by (intro exI [of _ rc] exI [of _ w'] exI [of _ out] exI [of _ err] exI [of _ s']) simp
qed

end
