(* ===== verification/End_To_End.thy ===== *)
theory End_To_End
  imports Cli_Run_Spec Download_Witness Controlled_Run
begin

text \<open>
  The command line on top of the components it calls: \<open>main.go\<close> puts \<open>remote.Run\<close> and \<open>remote.Transfer\<close> into
  \<open>Deps\<close>, and \<open>control.go\<close> calls \<open>control.Invoke\<close>.  Here the parameters \<open>re_execute\<close>, \<open>re_transfer\<close> and \<open>re_invoke\<close>
  are the models of these functions, so that what the program reports is related to what it has sent and to the
  files it has left.
\<close>

subsection \<open>The functions of main.go\<close>

definition request_of :: "options \<Rightarrow> request" where
  "request_of opts = \<lparr>req_endpoint = o_endpoint opts, req_command = o_command opts, req_codepage = o_codepage opts,
     req_powershell = o_powershell opts\<rparr>"

text \<open>A call that does not return is \<open>GoPanic\<close>, as elsewhere.\<close>

definition remote_execute ::
  "'n net_env \<Rightarrow> builders \<Rightarrow> (bytes \<Rightarrow> 'o writer \<Rightarrow> 'o writer) \<Rightarrow> 'n world run_params \<Rightarrow> 'o writer \<Rightarrow> 'o writer \<Rightarrow> 'n world \<Rightarrow> 'o \<Rightarrow> options \<Rightarrow>
   int \<times> goerr option" where
  "remote_execute nw b charmap par out err w u opts =
     (let req = request_of opts in
      case Runner.Run nw b req par (decodeWriters charmap req out) (decodeWriters charmap req err) w u of
        None \<Rightarrow> (0, Some (Sentinel GoPanic))
      | Some ((code, e), _) \<Rightarrow> (int code, e))"

definition remote_transfer ::
  "'n net_env \<Rightarrow> builders \<Rightarrow> scripts \<Rightarrow> 'n world upload_env \<Rightarrow> 'n world download_env \<Rightarrow> (int \<times> int) list \<Rightarrow> file_system \<Rightarrow>
   'n world \<Rightarrow> options \<Rightarrow> transfer_request \<Rightarrow> transfer_result \<times> goerr option \<times> (int \<times> int) list" where
  "remote_transfer nw b sc uenv denv calls fs w opts req =
     (case Transfer nw b sc uenv denv req fs w of
        None \<Rightarrow> (no_result, Some (Sentinel GoPanic), calls)
      | Some ((r, e), _) \<Rightarrow> (r, e, calls))"

subsection \<open>A command\<close>

text \<open>C9: When \<open>run\<close> or \<open>ps\<close> without a master reports status 0, the whole conversation of its command was held, each step
  confirmed by its reply: with the options that the command line and the configuration give, the server created a shell, started
  in it exactly the text behind \<open>--\<close> or of the script, took the end of its input, was polled until it reported the
  command done with the exit code 0, and confirmed the Delete of the shell; the writers behind the two streams
  were given the output of all replies.\<close>

theorem zero_means_conversation:
  assumes "run_command env (x\<lparr>re_execute := remote_execute nw b charmap par out err w u\<rparr>) args = (0, printed)"
    and "printed \<noteq> [Out usage]" and "parse env args = Inr opts" and "set_mode (o_control opts) \<noteq> ''auto''"
  shows "\<exists>w' u'. Runner.Run nw b (request_of opts) par (decodeWriters charmap (request_of opts) out)
      (decodeWriters charmap (request_of opts) err) w u = Some ((0, None), w', u') \<and>
    (\<exists>shell cid t. transcript_ok b (request_of opts) shell cid t \<and> wire w' = wire w @ transcript_msgs b (request_of opts) shell cid t \<and>
       t_create t \<noteq> [] \<and> t_command t \<noteq> [] \<and> 0 < t_polls t \<and> t_delete t \<noteq> []) \<and>
    (\<exists>i j w1 w2 xs shell cid ss. NewPersistentPosters nw (o_endpoint opts) (run_ctx par) w = (Inr (i, j), w1) \<and>
       held {persistent_post nw i, persistent_post nw j, transport_post nw (o_endpoint opts)} w1 xs w2 \<and> w' = closeBoth i j w2 \<and>
       conversation b (request_of opts) shell cid xs ss 0 \<and>
       write_streams (decodeWriters charmap (request_of opts) out) (decodeWriters charmap (request_of opts) err) ss u = (None, u'))"
proof -
  from run_command_zero [OF assms(1,2)] assms(3,4) obtain p where
    "remote_execute nw b charmap par out err w u (opts\<lparr>o_password := p\<rparr>) = (0, None)" by (auto simp: executed_def)
  moreover have "request_of (opts\<lparr>o_password := p\<rparr>) = request_of opts" by (simp add: request_of_def)
  ultimately obtain w' u' where r: "Runner.Run nw b (request_of opts) par (decodeWriters charmap (request_of opts) out)
      (decodeWriters charmap (request_of opts) err) w u = Some ((0, None), w', u')"
    by (auto simp: remote_execute_def Let_def split: option.splits prod.splits)
  from Run_conversation [OF r] obtain shell cid t where t: "transcript_ok b (request_of opts) shell cid t"
    "wire w' = wire w @ transcript_msgs b (request_of opts) shell cid t"
    "t_send t \<noteq> []" "0 < t_polls t" "t_delete t \<noteq> []" by auto
  then have "t_create t \<noteq> [] \<and> t_command t \<noteq> []" by (auto simp: transcript_ok_def)
  moreover have "req_endpoint (request_of opts) = o_endpoint opts" by (simp add: request_of_def)
  ultimately show ?thesis using Run_completed [OF r] r t by (intro exI [of _ w'] exI [of _ u'] conjI) (assumption | auto)+
qed

subsection \<open>A download\<close>

lemma progress_stderr: "Out line \<notin> set (progress d latest calls)"
  by (induction d latest calls rule: progress.induct) (auto simp: complain_def)

lemma transfer_end_stdout:
  assumes "transfer_end x p req r err = (code, printed)" "Out line \<in> set printed"
  shows "err = None \<and> committed r \<and> code = 0 \<and>
    line = println [tr_direction req, decimal (t_bytes r), ''bytes SHA-256'', t_sha r]"
  using assms
  by (auto simp: transfer_end_def Let_def complain_def split: option.splits if_splits prod.splits)

lemma runTransfer_stdout:
  assumes "runTransfer env x args = (code, printed)" "Out line \<in> set printed" "line \<noteq> usage"
  obtains opts req p transfer r calls where "parseTransfer env args = Inr (opts, req)" "\<not> o_help opts"
    "re_transfer x = Some transfer" "transfer (opts\<lparr>o_password := p\<rparr>) req = (r, None, calls)" "committed r" "code = 0"
    "line = println [tr_direction req, decimal (t_bytes r), ''bytes SHA-256'', t_sha r]"
proof -
  from assms obtain opts req p transfer where a: "parseTransfer env args = Inr (opts, req)" "\<not> o_help opts"
    "re_ended x = None" "resolvePassword env (re_input x) opts = Inr p" "re_transfer x = Some transfer"
    by (auto simp: runTransfer_def Let_def complain_def split: sum.splits option.splits if_splits)
  obtain r err calls where t: "transfer (opts\<lparr>o_password := p\<rparr>) req = (r, err, calls)"
    by (cases "transfer (opts\<lparr>o_password := p\<rparr>) req") auto
  obtain code' out where e: "transfer_end x p req r err = (code', out)" by fastforce
  with assms a t have "code' = code" "Out line \<in> set out"
    by (auto simp: runTransfer_def Let_def complain_def progress_stderr split: if_splits)
  with transfer_end_stdout [OF e] a t that show thesis by blast
qed

text \<open>C10: The line with which a download reports success is true.  When it is printed, the status is 0, the local file
  that the second operand names holds a content of the number of bytes and the SHA-256 that the line says, and nothing else
  has changed in the file system, except that the transfer's own stage may stay if its removal failed.  This content
  is what the remote side delivered over the lanes of this run: the replies to the polls of the sender that was started for
  the file that the first operand names carried it, and the record in the output of the script that fetches it
  confirms it.\<close>

theorem download_line_true:
  assumes "runTransfer env (x\<lparr>re_transfer := Some (remote_transfer nw b sc uenv denv calls fs w)\<rparr>) (''download'' # args) =
      (code, printed)"
    and "Out line \<in> set printed" and "line \<noteq> usage"
  shows "\<exists>before remote local req res fs' w' destination transferID content c cl w1 w2 rest w3.
    args = before @ [''--'', remote, local] \<and> ''--'' \<notin> set before \<and> tr_remote req = remote \<and> tr_local req = local \<and>
    (tr_force req \<longleftrightarrow> ''--force'' \<in> set before) \<and>
    Transfer nw b sc uenv denv req fs w = Some ((res, None), fs', w') \<and>
    local_destination denv req destination \<and> fs' destination = Some (Regular content) \<and>
    stage_may_stay denv destination fs (fs(destination \<mapsto> Regular content)) fs' \<and>
    persistentLanes nw (tr_endpoint req) (tx_ctx denv) w = (Inr (c, cl), w1) \<and>
    delivered {transport_post nw (tr_endpoint req), conn_send c, conn_receive c, conn_cleanup c} b sc denv req
      transferID content w1 w2 \<and>
    held {transport_post nw (tr_endpoint req), conn_send c, conn_receive c, conn_cleanup c} w2 rest w3 \<and> w' = cl w3 \<and>
    line = println [''download'', decimal (int (length content)), ''bytes SHA-256'', tx_sha denv content] \<and> code = 0"
proof -
  obtain opts req p r calls' where
    parsed: "parseTransfer env (''download'' # args) = Inr (opts, req)" "\<not> o_help opts" and code: "code = 0"
    and t: "remote_transfer nw b sc uenv denv calls fs w (opts\<lparr>o_password := p\<rparr>) req = (r, None, calls')" "committed r"
    and line: "line = println [tr_direction req, decimal (t_bytes r), ''bytes SHA-256'', t_sha r]"
    by (rule runTransfer_stdout [OF assms]) simp
  from parseTransfer_ok [OF parsed] obtain before remote local where
    o: "''download'' # args = tr_direction req # before @ [''--'', remote, local]" "''--'' \<notin> set before"
      "if tr_direction req = ''upload'' then tr_local req = remote \<and> tr_remote req = local
       else tr_direction req = ''download'' \<and> tr_remote req = remote \<and> tr_local req = local"
      "tr_force req \<longleftrightarrow> ''--force'' \<in> set before" by (elim exE conjE) (rule that; assumption)
  from o(1) have dir: "tr_direction req = ''download''" by simp
  have ops: "args = before @ [''--'', remote, local]" "tr_remote req = remote" "tr_local req = local"
    using o(1,3) unfolding dir by simp_all
  from t obtain fs' w' where tr: "Transfer nw b sc uenv denv req fs w = Some ((r, None), fs', w')"
    by (auto simp: remote_transfer_def no_result_def split: option.splits prod.splits)
  let ?denv = "denv\<lparr>tx_post := transport_post nw (tr_endpoint req), tx_lanes := persistentLanes nw (tr_endpoint req)\<rparr>"
  have "downloadLanes b sc ?denv req fs w = Some ((r, None), fs', w')"
    using tr dir t(2) by (auto simp: Transfer_def transferLanes_def Let_def Upload_direction_def Download_direction_def
        no_result_def split: if_splits sum.splits)
  from downloadLanes_done [OF this t(2)] obtain destination transferID content c cl w1 w2 rest w3 where
    d: "local_destination ?denv req destination" "tx_lanes ?denv (tx_ctx ?denv) w = (Inr (c, cl), w1)"
      "delivered (transfer_posts ?denv c) b sc ?denv req transferID content w1 w2" "held (transfer_posts ?denv c) w2 rest w3"
      "w' = cl w3" "t_bytes r = int (length content)" "t_sha r = tx_sha ?denv content" "fs' destination = Some (Regular content)"
      "stage_may_stay ?denv destination fs (fs(destination \<mapsto> Regular content)) fs'" by blast
  have posts: "transfer_posts ?denv c = {transport_post nw (tr_endpoint req), conn_send c, conn_receive c, conn_cleanup c}"
    by (simp add: transfer_posts_def)
  have "delivered (transfer_posts ?denv c) b sc denv req transferID content w1 w2"
    using d(3) by (simp add: delivered_def sent_and_confirmed_def)
  moreover have "local_destination denv req destination" "stage_may_stay denv destination fs (fs(destination \<mapsto> Regular content)) fs'"
    "persistentLanes nw (tr_endpoint req) (tx_ctx denv) w = (Inr (c, cl), w1)"
    using d(1,2,9) by (simp_all add: local_destination_def stage_may_stay_def)
  moreover have "line = println [''download'', decimal (int (length content)), ''bytes SHA-256'', tx_sha denv content]"
    using line [unfolded dir] d(6,7) by simp
  ultimately show ?thesis using ops o(2,4) tr code d(4,5,8) unfolding posts by blast
qed

subsection \<open>A command through the master\<close>

text \<open>\<open>control.Invoke\<close> on the connection that dialling the socket gives.\<close>

definition controlled_invoke ::
  "codec \<Rightarrow> (nat \<Rightarrow> turn) \<Rightarrow> int \<Rightarrow> (bytes \<Rightarrow> goerr + reader) \<Rightarrow> bytes \<Rightarrow> call \<Rightarrow> control_result \<times> goerr option" where
  "controlled_invoke js turns now connect socket c =
     (case fst (Invoke js turns now (connect socket) c True None None) of
        Inl e \<Rightarrow> (failed [], Some e)
      | Inr r \<Rightarrow> (r, None))"

text \<open>C12: With a master the status of a command is the one the master's run ended with.  When the call that the command
  line makes is executed by a master without an error, and the connection to its socket delivers what that master wrote,
  then \<open>runControlled\<close> prints nothing of its own and returns the exit code of this run.  The master held, over its two lanes,
  the complete conversation of the command on the command line, each step confirmed by its reply: this exit code is
  the one of the reply that reported the command done, and the server has confirmed the Delete of the shell.\<close>

theorem controlled_status_true:
  assumes "parse env args = Inr opts" "\<not> o_help opts"
    and "re_start x (controlIdentity env x opts) (o_control opts) (control_boot env x opts) = Inr socket"
    and "re_deadline x = Some d" "now < d"
    and "io_writer conn written" "written s = []"
    and "serve_command nw b charmap own i j par conn (control_call env x opts d) w s = Some (result, None, s', w')"
    and "Category result = []" "patient turns" "decode_result js = decodeStrictJSON unmarshal_result"
    and "connect socket = Inr (written s', e)" "uniform_charmap (carries written) charmap charmap'"
  shows "\<exists>rc. runControlled env (x\<lparr>re_invoke := controlled_invoke js turns now connect\<rparr>) opts = (int rc, []) \<and>
    result = \<lparr>ExitCode = int rc, Category = []\<rparr> \<and>
    (let req = \<lparr>req_endpoint = id_endpoint own, req_command = o_command opts, req_codepage = o_codepage opts,
        req_powershell = o_powershell opts\<rparr>
     in (\<exists>shell cid t. transcript_ok b req shell cid t \<and> wire w' = wire w @ transcript_msgs b req shell cid t \<and>
           t_create t \<noteq> [] \<and> t_command t \<noteq> [] \<and> 0 < t_polls t \<and> t_delete t \<noteq> []) \<and>
        (\<exists>shell cid xs ss. held {persistent_post nw i, persistent_post nw j} w xs w' \<and> conversation b req shell cid xs ss rc))"
proof -
  let ?c = "control_call env x opts d"
  let ?x = "x\<lparr>re_invoke := controlled_invoke js turns now connect\<rparr>"
  have "well_formed env opts" by (rule parse_ok [OF assms(1,2)])
  then have v: "validateCall ?c = None" by (auto simp: well_formed_def validateCall_def control_call_def)
  from run_through_master [OF assms(6-9,13,10) v assms(11), of e] obtain rc out err where
    r: "result = \<lparr>ExitCode = int rc, Category = []\<rparr>" "invokeConn js turns ?c True None None (written s', e) = (Inr result, out, err)"
    by blast
  from served [OF assms(8,9)] obtain rc' s1 cancelled where rc': "result = \<lparr>ExitCode = int rc', Category = []\<rparr>"
    and run: "RunWithPosters nw b (serve_request own ?c) i j par (decodeWriters charmap (serve_request own ?c) (framed conn frameStdout))
      (decodeWriters charmap (serve_request own ?c) (framed conn frameStderr)) w (s, False) = Some ((rc', None), w', s1, cancelled)"
    by blast
  have "rc' = rc" using rc' r(1) by simp
  note talk = RunWithPosters_conversation [OF run] RunWithPosters_completed [OF run, unfolded this]
  have req: "serve_request own ?c = \<lparr>req_endpoint = id_endpoint own, req_command = o_command opts,
      req_codepage = o_codepage opts, req_powershell = o_powershell opts\<rparr>" by (simp add: serve_request_def control_call_def)
  have "call_deadline ?c = Some d" by (simp add: control_call_def)
  then have "controlled_invoke js turns now connect socket ?c = (result, None)"
    using v r(2) assms(5,12) by (simp add: controlled_invoke_def Invoke_def)
  moreover have "controlIdentity env ?x opts = controlIdentity env x opts" "control_boot env ?x opts = control_boot env x opts"
    "control_call env ?x opts d = ?c"
    by (cases "resolvePassword env (re_input x) opts"; simp add: controlIdentity_def control_boot_def control_call_def Let_def)+
  ultimately have "runControlled env ?x opts = (int rc, [])" using assms(3,4) r(1) by (simp add: runControlled_def)
  with r(1) talk show ?thesis unfolding req Let_def by blast
qed

subsection \<open>Concrete runs\<close>

theorem zero_means_conversation_witness:
  "\<exists>i j shell cid xs ss w1 w2. held {persistent_post script_env i, persistent_post script_env j, transport_post script_env tls_url} w1 xs w2 \<and>
     conversation script_builders script_request shell cid xs ss 0"
proof -
  let ?x = "(office_env (1, None))\<lparr>re_execute := remote_execute script_env script_builders (\<lambda>page wr. wr) script_params discard discard
    (script_start script_bodies) ()\<rparr>"
  have req: "request_of (opts\<lparr>o_password := p\<rparr>) = request_of opts" "request_of (run_opts False ''dir'') = script_request" for opts p
    by (simp_all add: request_of_def script_request_def run_opts_def initial_options_def tls_url_def)
  have plain: "decodeWriters (\<lambda>page wr. wr) r wr = wr" for r and wr :: "unit writer" by (simp add: decodeWriters_def)
  obtain w' where "Runner.Run script_env script_builders script_request script_params discard discard (script_start script_bodies) () =
    Some ((0, None), w', ())" using script_run by blast
  then have x: "remote_execute script_env script_builders (\<lambda>page wr. wr) script_params discard discard (script_start script_bodies) ()
      ((run_opts False ''dir'')\<lparr>o_password := ''pw''\<rparr>) = (0, None)" by (simp add: remote_execute_def req plain)
  have pw: "resolvePassword (tiny_cli None) (re_input ?x) (run_opts False ''dir'') = Inr ''pw''"
    using office_password [of "(1, None)"] by simp
  have mode: "set_mode (o_control (run_opts False ''dir'')) = ''off''" by (simp add: run_opts_def initial_options_def)
  have e: "re_ended ?x = None" by (simp add: office_env_def)
  have r: "run_command (tiny_cli None) ?x [''run'', ''--endpoint'', tls_url, ''--user'', ''u'', ''--'', ''dir''] = (0, [])"
    using tiny_parse [of "''dir''" False] pw x e mode by (simp add: run_command_def run_direct_def)
  have p: "[] \<noteq> [Out usage]" by simp
  have m: "set_mode (o_control (run_opts False ''dir'')) \<noteq> ''auto''" using mode by simp
  from zero_means_conversation [OF r p tiny_parse [of "''dir''" False, simplified] m] obtain i j shell cid xs ss w1 w2 where
    "held {persistent_post script_env i, persistent_post script_env j, transport_post script_env (o_endpoint (run_opts False ''dir''))} w1 xs w2"
    "conversation script_builders (request_of (run_opts False ''dir'')) shell cid xs ss 0" by (elim exE conjE) (rule that; assumption)
  then show ?thesis unfolding req by (simp only: run_opts_simps) blast
qed

lemma tiny_download:
  "parseTransfer (tiny_cli None)
     [''download'', ''--endpoint'', tls_url, ''--user'', ''u'', ''--'', ''C:/a.bin'', ''/home/a.bin''] =
   Inr ((run_opts True ''exit 0'')\<lparr>o_timeout := 1800 * second\<rparr>, sample_request Download_direction)"
proof -
  have f: "take_force [''--endpoint'', tls_url, ''--user'', ''u''] False = Inr ([''--endpoint'', tls_url, ''--user'', ''u''], False)"
    by (simp add: tls_url_def str_cut_def has_prefix_def not_for_transfer_def)
  have h: "host = tls_url" by (simp add: host_def tls_url_def)
  show ?thesis
    using tiny_parse [of "''exit 0''" True] f
    by (simp add: parseTransfer_def Let_def Upload_direction_def Download_direction_def transfer_paths_def
        sample_request_def h del: take_force.simps)
qed

abbreviation download_world :: "reply list world" where
  "download_world \<equiv> sw (download_replies (script_handshake @ say ''created'' # script_handshake @ say ''started'' #
     say ''accepted'' # say ''lines'' # tail_replies)) [] []"

lemma sample_transferred:
  "\<exists>w'. Transfer script_env download_builders sample_scripts uenv (sample_download 100) (sample_request Download_direction)
     sample_files download_world = Some (((uncommitted 12 sample_hash)\<lparr>committed := True\<rparr>, None), installed_files, w')"
proof -
  have e: "(sample_download 100)\<lparr>tx_post := transport_post script_env host, tx_lanes := persistentLanes script_env host\<rparr> =
      sample_download 100"
    by (simp add: sample_download_def sample_transfer_def transfer_env.defs)
  have "tr_endpoint (sample_request Download_direction) = host" "validateRemotePath (tr_remote (sample_request Download_direction)) = Inr ()"
    "tr_local (sample_request Download_direction) = ''/home/a.bin''" "tr_remote (sample_request Download_direction) = ''C:/a.bin''"
    "tr_direction (sample_request Download_direction) = Download_direction"
    using sample_paths(1) by (simp_all add: sample_request_def)
  with sample_downloaded show ?thesis
    by (simp add: Transfer_def transferLanes_def Let_def e Upload_direction_def Download_direction_def)
qed

theorem download_line_true_witness:
  "\<exists>req res fs' w' content. tr_remote req = ''C:/a.bin'' \<and> tr_local req = ''/home/a.bin'' \<and> \<not> tr_force req \<and>
     Transfer script_env download_builders sample_scripts sample_upload (sample_download 100) req sample_files download_world =
       Some ((res, None), fs', w') \<and> fs' = sample_files(''/home/a.bin'' \<mapsto> Regular content) \<and>
     (\<exists>(c :: reply list world conns) transferID w1 w2. delivered {transport_post script_env (tr_endpoint req), conn_send c, conn_receive c, conn_cleanup c}
       download_builders sample_scripts (sample_download 100) req transferID content w1 w2)"
proof -
  let ?x = "(office_env (0, None))\<lparr>re_transfer := Some (remote_transfer script_env download_builders sample_scripts sample_upload
    (sample_download 100) [] sample_files download_world)\<rparr>"
  let ?line = "println [''download'', decimal 12, ''bytes SHA-256'', sample_hash]"
  let ?args = "[''--endpoint'', tls_url, ''--user'', ''u'', ''--'', ''C:/a.bin'', ''/home/a.bin'']"
  let ?opts = "(run_opts True ''exit 0'')\<lparr>o_timeout := 1800 * second\<rparr>"
  obtain w' where t: "Transfer script_env download_builders sample_scripts sample_upload (sample_download 100)
      (sample_request Download_direction) sample_files download_world =
      Some (((uncommitted 12 sample_hash)\<lparr>committed := True\<rparr>, None), installed_files, w')"
    using sample_transferred by blast
  have pw: "resolvePassword (tiny_cli None) (re_input ?x) ?opts = Inr ''pw''"
    using office_password [of "(0, None)"] by (simp add: resolvePassword_def)
  have e: "re_ended ?x = None" by (simp add: office_env_def)
  have d: "tr_direction (sample_request Download_direction) = ''download''" by (simp add: sample_request_def Download_direction_def)
  have o: "\<not> o_help ?opts" "o_verbose ?opts = 0" by simp_all
  obtain printed where r: "runTransfer (tiny_cli None) ?x (''download'' # ?args) = (0, printed)" "Out ?line \<in> set printed"
    using tiny_download pw e o t
    by (simp add: runTransfer_def remote_transfer_def transfer_end_def uncommitted_def d Let_def Download_direction_def)
  have "?line \<noteq> usage" by (simp add: println_def usage_def)
  from download_line_true [OF r this] obtain before remote local req res fs' w' destination transferID content
      and c :: "reply list world conns" and w1 w2 where
    a: "?args = before @ [''--'', remote, local]" "tr_remote req = remote" "tr_local req = local"
      "tr_force req \<longleftrightarrow> ''--force'' \<in> set before"
    and x: "Transfer script_env download_builders sample_scripts sample_upload (sample_download 100) req sample_files download_world =
      Some ((res, None), fs', w')"
      "local_destination (sample_download 100) req destination"
      "stage_may_stay (sample_download 100) destination sample_files (sample_files(destination \<mapsto> Regular content)) fs'"
    and dlv: "delivered {transport_post script_env (tr_endpoint req), conn_send c, conn_receive c, conn_cleanup c} download_builders
      sample_scripts (sample_download 100) req transferID content w1 w2"
    by (elim exE conjE) (rule that; assumption)
  from a(1) have "rev ?args = rev (before @ [''--'', remote, local])" by (rule arg_cong)
  then have c: "rev before = [''u'', ''--user'', tls_url, ''--endpoint'']" "remote = ''C:/a.bin''" "local = ''/home/a.bin''"
    by auto
  have b: "before = [''--endpoint'', tls_url, ''--user'', ''u'']" using arg_cong [OF c(1), of rev] by simp
  have "''--force'' \<notin> set before" unfolding b tls_url_def by simp
  moreover have "destination = ''/home/a.bin''" using x(2) a(3) c(3) sample_paths by (simp add: local_destination_def)
  moreover have "fs' = sample_files(destination \<mapsto> Regular content)" using x(3) by (simp only: stage_removed download_fields)
  ultimately show ?thesis using a(2-4) c x(1) dlv by blast
qed

theorem controlled_status_true_witness:
  "\<exists>socket s'. runControlled (tiny_cli None) ((office_env (0, None))\<lparr>re_start := \<lambda>i c b. Inr ''sock'', re_deadline := Some 5,
       re_invoke := controlled_invoke (sample_codec\<lparr>decode_result := decodeStrictJSON unmarshal_result\<rparr>) (\<lambda>k. sample_turn) 1
         (\<lambda>p. if p = socket then Inr (s', Sentinel IoEOF) else Inl (Sentinel ConnReset))\<rparr>) (run_opts False ''dir'') = (0, [])"
proof -
  let ?x = "(office_env (0, None))\<lparr>re_start := \<lambda>i c b. Inr ''sock'', re_deadline := Some 5\<rparr>"
  let ?opts = "run_opts False ''dir''" and ?js = "sample_codec\<lparr>decode_result := decodeStrictJSON unmarshal_result\<rparr>"
  have "serve_request said_identity (control_call (tiny_cli None) ?x ?opts 5) = script_request"
    by (simp add: serve_request_def said_identity_def control_call_def script_request_def run_opts_def initial_options_def)
  from said_served [OF this] obtain s' w' where s: "serve_command script_env script_builders (\<lambda>page wr. wr) said_identity 0 1
      script_params buffer_write (control_call (tiny_cli None) ?x ?opts 5) (script_world said_bodies []) [] =
      Some (failed [], None, s', w')" by blast
  have u: "uniform_charmap (carries (\<lambda>b. b)) (\<lambda>page wr. wr) (\<lambda>page wr. wr)" by (simp add: uniform_charmap_def)
  have t: "patient (\<lambda>k. sample_turn)" by (simp add: patient_def sample_turn_def)
  let ?connect = "\<lambda>p. if p = ''sock'' then Inr (s', Sentinel IoEOF) else Inl (Sentinel ConnReset)"
  have "\<exists>rc. runControlled (tiny_cli None) (?x\<lparr>re_invoke := controlled_invoke ?js (\<lambda>k. sample_turn) 1 ?connect\<rparr>) ?opts =
      (int rc, []) \<and> failed [] = \<lparr>ExitCode = int rc, Category = []\<rparr> \<and>
    (let req = \<lparr>req_endpoint = id_endpoint said_identity, req_command = o_command ?opts, req_codepage = o_codepage ?opts,
        req_powershell = o_powershell ?opts\<rparr>
     in (\<exists>shell cid t. transcript_ok script_builders req shell cid t \<and>
           wire w' = wire (script_world said_bodies []) @ transcript_msgs script_builders req shell cid t \<and>
           t_create t \<noteq> [] \<and> t_command t \<noteq> [] \<and> 0 < t_polls t \<and> t_delete t \<noteq> []) \<and>
        (\<exists>shell cid xs ss. held {persistent_post script_env 0, persistent_post script_env 1} (script_world said_bodies []) xs w' \<and>
           conversation script_builders req shell cid xs ss rc))"
    by (rule controlled_status_true [where e = "Sentinel IoEOF", OF tiny_parse [of "''dir''" False] _ _ _ _ buffer.io_writer_axioms refl s _ t _ _ u]) simp_all
  then have "runControlled (tiny_cli None) (?x\<lparr>re_invoke := controlled_invoke ?js (\<lambda>k. sample_turn) 1 ?connect\<rparr>) ?opts = (0, [])"
    by (auto simp: failed_def)
  then show ?thesis by (intro exI [of _ "''sock''"] exI [of _ s']) simp
qed

end
