(* ===== verification/Spec2Isabelle.thy ===== *)
theory Spec2Isabelle
  imports Remote_Path Crlf_Lines Chunk_Size Runner Download_Witness Master_Spec Child_Env Cli_Run_Spec Trust
    Controlled_Run End_To_End
begin

text \<open>
  winsh runs commands and copies files on Windows hosts over WinRM.  This development models its Go
  sources under \<open>src/internal\<close> as HOL functions and proves the properties its callers rely on.

  \<^bold>\<open>How the program is put together.\<close>  A command is sent as SOAP messages over NTLM-authenticated
  HTTP connections, the lanes.  A session owns one remote shell: it creates the shell, starts the
  command, polls its output and deletes the shell, on the command lane or on a cleanup lane.  A
  background process, the master, keeps two lanes open and executes the commands that local clients
  submit over a Unix socket, one at a time; the first client that finds no master starts it.  File
  transfers run generated PowerShell scripts over sessions of the same kind.  The command line, the
  environment and a YAML configuration together say what is to be done, where and as whom.

  \<^bold>\<open>Foundations.\<close>  \<open>Prelude\<close> (result sums, guarded indexing), \<open>Go_Strings\<close> and \<open>Go_Text\<close> (the parts
  of \<open>strings\<close>, \<open>strconv\<close> the sources call, on byte strings), \<open>Go_Errors\<close> (error trees, \<open>errors.Is\<close>,
  \<open>errors.As\<close>, \<open>errors.Join\<close>), \<open>Base64\<close>, \<open>Byte_Order\<close>, \<open>Utf8\<close> (also UTF-16) and \<open>Transitions\<close> (step
  relations, invariants).  A Go slice expression that may panic is a guarded operation whose failure
  is the error \<open>GoPanic\<close>, so that absence of panics is a theorem.

  \<^bold>\<open>Components\<close>, each with the file it models:
  \<^item> \<open>Remote_Path\<close>: path rules of \<open>transfer_codec.go\<close>, \<open>localfile.go\<close>, \<open>upload.go\<close>, \<open>download.go\<close>.
  \<^item> \<open>Writers\<close>: \<open>writeAll\<close> of both packages and the bounded buffer, under the contract \<open>io_writer\<close>.
  \<^item> \<open>Crlf_Lines\<close>, \<open>Chunk_Size\<close>: the base64 line stream and the chunk search of \<open>transfer_codec.go\<close>.
  \<^item> \<open>Challenge\<close>, \<open>Sealing\<close>: \<open>challenge.go\<close> and \<open>sealing.go\<close>.
  \<^item> \<open>Command\<close>, \<open>Endpoint_Url\<close>: \<open>command.go\<close> and \<open>transfer_scripts.go\<close>.
  \<^item> \<open>Poster\<close>, \<open>Lanes\<close>: the contract of a transport (locale \<open>poster\<close>) and the two that keep it, the
    persistent lane of \<open>persistent.go\<close> and the standalone transport of \<open>transport.go\<close>; heartbeats of
    \<open>keepalive.go\<close>.
  \<^item> \<open>Response\<close>, \<open>Session\<close>, \<open>Runner\<close>: \<open>response.go\<close>, \<open>session.go\<close>, \<open>control_runner.go\<close>, \<open>runner.go\<close>.
    The session's laws are proved in the locale \<open>session_posters\<close> for any two transports that keep the
    contract and are interpreted on the lanes in \<open>Runner\<close>.  \<open>Replies\<close>: the same operations as lists of exchanges, each
    a message with what the transport returned for it, and what the replies say: a shell that was created, input
    that was accepted, polls up to the one that reported the command done, a Delete that was confirmed.
  \<^item> \<open>Json\<close>, \<open>Transfer_Record\<close>: the part of \<open>encoding/json\<close> that \<open>readRecord\<close> of
    \<open>transfer_codec.go\<close> uses, and the control record.
  \<^item> \<open>Local_File\<close>: sources, stages and commits of \<open>localfile.go\<close> and \<open>commit_unix.go\<close> on a file system that
    maps paths to files; every system call, the removal of a file included, may fail for a reason that is a parameter.
  \<^item> \<open>Script_Session\<close>: the sessions that run one script (\<open>runWithCleanup\<close>, \<open>transferControl\<close>,
    \<open>dispatchFinalizer\<close>, \<open>cleanupRemoteStage\<close>).  \<open>Transfer_Lanes\<close>: the data lanes of \<open>transfer.go\<close>; the
    locale \<open>transfer_posters\<close> gives \<open>session_posters\<close> for each of the four transports of a transfer.
    \<open>Script_Replies\<close>: these sessions with their replies.
  \<^item> \<open>Upload\<close>, \<open>Upload_Trace\<close>, \<open>Upload_Spec\<close>: \<open>upload.go\<close>, its conversation, its properties.
    \<open>Download\<close>, \<open>Download_Spec\<close>: \<open>download.go\<close>.  \<open>File_Transfer\<close>: \<open>Transfer\<close>.  \<open>Transfer_Sample\<close>,
    \<open>Upload_Witness\<close>, \<open>Download_Witness\<close>: concrete transfers that succeed, fail and are cancelled.
  \<^item> \<open>Frames\<close>, \<open>Control_Types\<close>, \<open>Server\<close>, \<open>Client\<close>: the control protocol, the master and its clients
    (\<open>protocol.go\<close>, \<open>server.go\<close>, \<open>client.go\<close>, \<open>identity.go\<close> under \<open>internal/control\<close>).
  \<^item> \<open>Control_Json\<close>, \<open>Controlled_Run\<close>: the JSON of a result frame (\<open>writeJSONFrame\<close>, \<open>decodeStrictJSON\<close>), and a
    command on its way through the master: \<open>execute\<close> of \<open>serveReady\<close>, the framed output, the result, the client
    that reads them.  The locale \<open>agreeing_writers\<close> says that a run depends on its writers only through what
    they accept; it is used with the frames on the connection against two buffers.
  \<^item> \<open>Identity_Key\<close>, \<open>Child_Env\<close>, \<open>Socket_File\<close>, \<open>Master_Start\<close>: names of sockets, the environment of a
    master, the checks and the probe of a socket, and \<open>StartOrConnect\<close> and \<open>Serve\<close> as steps of any number of
    processes on one site: the socket file, its lock and the processes (\<open>identity.go\<close>, \<open>socket_unix.go\<close>,
    \<open>master_unix.go\<close>).  \<open>Master_Spec\<close>: the registry, a machine of a few states that says who owns the
    path, the simulation of the site by it (locale \<open>simulation\<close> of \<open>Transitions\<close>), and what follows.
  \<^item> \<open>Trust\<close>: the configured certificate roots of \<open>trust.go\<close>.
  \<^item> \<open>Secret\<close>, \<open>Config\<close>: \<open>internal/secret\<close> and \<open>internal/config\<close>.
  \<^item> \<open>Options\<close>, \<open>Transfer_Args\<close>, \<open>Cli_Run\<close>: \<open>internal/cmd\<close>, from the arguments to the exit status and
    the lines printed; \<open>Options_Spec\<close>, \<open>Cli_Run_Spec\<close>: their properties.
  \<^item> \<open>End_To_End\<close>: the command line with the models of \<open>Run\<close>, \<open>Transfer\<close> and \<open>Invoke\<close> as the functions it calls,
    as \<open>main.go\<close> puts them there: what a status or a printed line means for the wire and for the files.

  \<^bold>\<open>What the lemmas show.\<close>  Lanes write each message at most once and die after an uncertain error;
  retries never replay.  A session's conversation is well formed and ends with a Delete that the server has confirmed
  unless the error says that the remote state is unknown; the exit code and the output it returns are those of
  the replies.  The master keeps every admitted job in one place, in
  order, closes no channel twice, and stops exactly when it should.  Codecs round-trip, decoders
  neither panic nor accept malformed input, and paths and script parameters cannot escape.  A transfer
  that reports success has installed the bytes that the replies carried and that the remote record confirms; one that
  fails leaves the destination alone or says that it does not know, and accounts for what it leaves behind.  The local
  stage of a download and the temporary file of a configuration update are gone afterwards unless their removal,
  whose error the code ignores, has failed.  However many processes
  start a master at once, one master is alive, nobody else removes its socket, and a starter returns only a
  path that was ready.  Every accepted command line gives a well-formed request in which explicit options
  win; the status 0 is reported for nothing but success, and messages do not show the password.  Put together, a
  status 0 means a complete conversation with the configured endpoint, the line of a download describes the file
  that was written, and a command through the master gives the same exit code and output as without it.

  \<^bold>\<open>Concurrency and bounds.\<close>  Sections under a mutex are atomic; the master's operations interleave
  freely in the step relation \<open>server_step\<close>, the system calls of processes in \<open>site_step\<close>, where any
  process may die at any time.  The receive worker of a transfer runs in one go, at a point
  that a parameter chooses; the heartbeats of the lanes are not interleaved with it.  The receive loop of a
  session may run for ever and is a partial function; \<open>Run_returns\<close> and \<open>Transfer_returns\<close> show that it
  ends with its context.  All other loops are total functions with a termination proof, so no fuel is used.

  \<^bold>\<open>Not modelled.\<close>  Third-party and platform code enters as parameters: the SOAP request builders and
  XML decoder, the NTLM library, TLS and the network, the JSON of calls and targets, URL, YAML, dotenv and
  PEM parsing, code page decoders, hash functions, and the answers of the operating system.  The
  command line starts, checks and stops a master through functions that are parameters there; \<open>Master_Start\<close> models
  them as steps of processes.  Left out are the signals, the closing of
  standard input and the exit of the process in \<open>main.go\<close>, the timer of the heartbeats, progress reports of the workers,
  the bytes of random names and what other
  users of the machine may do to the files.
\<close>

end
